(* ===== verification/Loro_Prelude.thy ===== *)
theory Loro_Prelude
  imports Main "HOL-Library.AList" "HOL-Library.Char_ord" "HOL-Library.List_Lexorder"
begin

text \<open>
  Shared vocabulary of the development. A raised exception is the left value of a sum, a
  returned value the right one; \<open>res_bind\<close> runs a computation after another one and stops at
  the first exception. A Python dictionary, whose iteration order is its insertion order, is
  an association list: \<open>map_of\<close> looks a key up, \<open>AList.update\<close> overwrites a value in place
  or appends the new key at the end, \<open>AList.delete\<close> removes it. The collections
  \<open>res_simps\<close> and \<open>dict_simps\<close> carry the rewrite rules the component theories share.
\<close>

named_theorems res_simps "rewrite rules for computations that may raise"
named_theorems dict_simps "rewrite rules for dictionaries"

type_synonym ('k, 'v) dict = "('k \<times> 'v) list"

subsection \<open>Computations that may raise\<close>

definition res_bind :: "'e + 'a \<Rightarrow> ('a \<Rightarrow> 'e + 'b) \<Rightarrow> 'e + 'b" where
  "res_bind m f = (case m of Inl e \<Rightarrow> Inl e | Inr v \<Rightarrow> f v)"

definition require :: "bool \<Rightarrow> 'e \<Rightarrow> 'e + unit" where
  "require b e = (if b then Inr () else Inl e)"

lemma res_bind_Inl [simp]: "res_bind (Inl e) f = Inl e"
  by (simp add: res_bind_def)

lemma res_bind_Inr [simp]: "res_bind (Inr v) f = f v"
  by (simp add: res_bind_def)

lemma res_bind_eq_Inr [res_simps]:
  "res_bind m f = Inr y \<longleftrightarrow> (\<exists>x. m = Inr x \<and> f x = Inr y)"
  by (cases m) auto

lemma res_bind_eq_Inl [res_simps]:
  "res_bind m f = Inl e \<longleftrightarrow> m = Inl e \<or> (\<exists>x. m = Inr x \<and> f x = Inl e)"
  by (cases m) auto

lemma require_eq_Inr [res_simps]: "require b e = Inr u \<longleftrightarrow> b"
  by (simp add: require_def)

lemma require_eq_Inl [res_simps]: "require b e = Inl e' \<longleftrightarrow> \<not> b \<and> e' = e"
  by (auto simp: require_def)

lemma require_bind:
  "res_bind (require b e) f = (if b then f () else Inl e)"
  by (simp add: require_def)

lemma not_Inl_imp_Inr: "(\<And>e. m \<noteq> Inl e) \<Longrightarrow> \<exists>v. m = Inr v"
  by (cases m) auto

text \<open>Applying a raising function to every element of a list, left to right.\<close>

fun res_map :: "('a \<Rightarrow> 'e + 'b) \<Rightarrow> 'a list \<Rightarrow> 'e + 'b list" where
  "res_map f [] = Inr []"
| "res_map f (x # xs) = res_bind (f x) (\<lambda>y. res_bind (res_map f xs) (\<lambda>ys. Inr (y # ys)))"

lemma res_map_length: "res_map f xs = Inr ys \<Longrightarrow> length ys = length xs"
  by (induction xs arbitrary: ys) (auto simp: res_simps)

lemma res_map_nth:
  "res_map f xs = Inr ys \<Longrightarrow> i < length xs \<Longrightarrow> f (xs ! i) = Inr (ys ! i)"
proof (induction xs arbitrary: ys i)
  case Nil
  then show ?case by simp
next
  case (Cons x xs)
  then show ?case by (cases i) (auto simp: res_simps)
qed

subsection \<open>Dictionaries\<close>

lemma dict_get_update [dict_simps]:
  "map_of (AList.update k v d) k' = (if k' = k then Some v else map_of d k')"
  by (simp add: update_conv)

lemma dict_get_delete [dict_simps]:
  "map_of (AList.delete k d) k' = (if k' = k then None else map_of d k')"
  by (simp add: delete_conv)

lemma dict_keys_update:
  "map fst (AList.update k v d) =
     (if k \<in> set (map fst d) then map fst d else map fst d @ [k])"
  by (induction d) auto

lemma dict_distinct_update:
  "distinct (map fst d) \<Longrightarrow> distinct (map fst (AList.update k v d))"
  by (rule distinct_update)

lemma map_of_in_set: "map_of d k = Some v \<Longrightarrow> (k, v) \<in> set d"
  by (rule map_of_SomeD)

lemma dict_values_update:
  assumes "distinct (map fst d)" and "(k', v') \<in> set (AList.update k v d)"
  shows "(k' = k \<and> v' = v) \<or> (k' \<noteq> k \<and> (k', v') \<in> set d)"
proof -
  from assms have "map_of (AList.update k v d) k' = Some v'"
    by (simp add: distinct_update)
  then show ?thesis
    by (auto simp: dict_get_update dest: map_of_SomeD split: if_splits)
qed

subsection \<open>Lists\<close>

lemma find_Some_iff_first:
  "List.find P xs = Some x \<longleftrightarrow> (\<exists>ys zs. xs = ys @ x # zs \<and> P x \<and> (\<forall>y \<in> set ys. \<not> P y))"
proof (induction xs)
  case Nil
  then show ?case by simp
next
  case (Cons a xs)
  show ?case
  proof (cases "P a")
    case True
    then show ?thesis
      by (auto simp: Cons_eq_append_conv)
  next
    case False
    then show ?thesis
      using Cons.IH by (auto simp: Cons_eq_append_conv) (metis append_Cons set_ConsD)+
  qed
qed

lemma sum_list_map_mono:
  fixes f g :: "'a \<Rightarrow> nat"
  shows "(\<And>x. x \<in> set xs \<Longrightarrow> f x \<le> g x) \<Longrightarrow> sum_list (map f xs) \<le> sum_list (map g xs)"
  by (induction xs) (auto intro: add_mono)

lemma insort_key_first: "\<forall>x \<in> set xs. f a \<le> f x \<Longrightarrow> insort_key f a xs = a # xs"
  by (cases xs) auto

lemma sort_key_id: "sorted (map f xs) \<Longrightarrow> sort_key f xs = xs"
  by (induction xs) (auto simp: insort_key_first)

lemma sort_key_idem [simp]: "sort_key f (sort_key f xs) = sort_key f xs"
  using sorted_sort_key sort_key_id by blast

lemma map_of_sort_key:
  "distinct (map fst d) \<Longrightarrow> map_of (sort_key fst d) = map_of d"
  by (rule map_of_inject_set [THEN iffD2]) (simp_all add: distinct_map inj_on_def)

end
