(* ===== verification/Py_Text.thy ===== *)
theory Py_Text
  imports Loro_Prelude
begin

text \<open>
  Python strings and the string methods the code calls. A string is a list of characters and
  a character is a code point below 256, so \<open>length\<close> counts code points as \<open>len\<close> does, and
  the UTF-8 encoding of a character has one byte below 128 and two bytes from 128 on. The
  module models \<open>str.strip\<close>, \<open>str.split\<close> without argument, \<open>str.splitlines\<close>,
  \<open>str.join\<close>, \<open>str.startswith\<close>, \<open>str.removeprefix\<close>, \<open>str.casefold\<close> and the matcher of
  \<open>fnmatch.fnmatchcase\<close>, which the permission and capability policies are written with.
\<close>

subsection \<open>Characters\<close>

definition code :: "char \<Rightarrow> nat" where
  "code c = of_char c"

definition is_space :: "char \<Rightarrow> bool" where
  "is_space c = (let n = code c in (9 \<le> n \<and> n \<le> 13) \<or> (28 \<le> n \<and> n \<le> 32) \<or> n = 133 \<or> n = 160)"

definition is_linebreak :: "char \<Rightarrow> bool" where
  "is_linebreak c = (let n = code c in (10 \<le> n \<and> n \<le> 13) \<or> (28 \<le> n \<and> n \<le> 30) \<or> n = 133)"

definition char_casefold :: "char \<Rightarrow> string" where
  "char_casefold c = (let n = code c in
     if 65 \<le> n \<and> n \<le> 90 then [char_of (n + 32)]
     else if 192 \<le> n \<and> n \<le> 222 \<and> n \<noteq> 215 then [char_of (n + 32)]
     else if n = 223 then ''ss''
     else [c])"

definition casefold :: "string \<Rightarrow> string" where
  "casefold s = concat (map char_casefold s)"

definition utf8_len :: "string \<Rightarrow> nat" where
  "utf8_len s = sum_list (map (\<lambda>c. if code c < 128 then 1 else 2) s)"

lemma utf8_len_Nil [simp]: "utf8_len [] = 0"
  by (simp add: utf8_len_def)

lemma utf8_len_append [simp]: "utf8_len (s @ t) = utf8_len s + utf8_len t"
  by (simp add: utf8_len_def)

lemma utf8_len_bounds: "length s \<le> utf8_len s \<and> utf8_len s \<le> 2 * length s"
  by (induction s) (auto simp: utf8_len_def)

subsection \<open>Prefixes, stripping, splitting and joining\<close>

fun starts_with :: "string \<Rightarrow> string \<Rightarrow> bool" where
  "starts_with s [] = True"
| "starts_with [] (p # ps) = False"
| "starts_with (c # cs) (p # ps) = (c = p \<and> starts_with cs ps)"

definition ends_with :: "string \<Rightarrow> string \<Rightarrow> bool" where
  "ends_with s t = starts_with (rev s) (rev t)"

definition remove_prefix :: "string \<Rightarrow> string \<Rightarrow> string" where
  "remove_prefix s p = (if starts_with s p then drop (length p) s else s)"

lemma starts_with_iff: "starts_with s p \<longleftrightarrow> (\<exists>t. s = p @ t)"
  by (induction s p rule: starts_with.induct) auto

lemma remove_prefix_append [simp]: "remove_prefix (p @ s) p = s"
  by (auto simp: remove_prefix_def starts_with_iff)

fun lstrip_by :: "(char \<Rightarrow> bool) \<Rightarrow> string \<Rightarrow> string" where
  "lstrip_by P [] = []"
| "lstrip_by P (c # cs) = (if P c then lstrip_by P cs else c # cs)"

definition rstrip_by :: "(char \<Rightarrow> bool) \<Rightarrow> string \<Rightarrow> string" where
  "rstrip_by P s = rev (lstrip_by P (rev s))"

definition py_strip :: "string \<Rightarrow> string" where
  "py_strip s = rstrip_by is_space (lstrip_by is_space s)"

lemma lstrip_by_suffix: "\<exists>t. s = t @ lstrip_by P s \<and> (\<forall>c \<in> set t. P c)"
proof (induction s)
  case Nil
  then show ?case by simp
next
  case (Cons c cs)
  then obtain t where t: "cs = t @ lstrip_by P cs" "\<forall>c \<in> set t. P c" by blast
  show ?case
  proof (cases "P c")
    case True
    with t have "c # cs = (c # t) @ lstrip_by P (c # cs)" by simp
    with True t(2) show ?thesis by (intro exI [of _ "c # t"]) simp
  qed simp
qed

lemma length_lstrip_by: "length (lstrip_by P s) \<le> length s"
  by (induction s) auto

lemma length_py_strip: "length (py_strip s) \<le> length s"
  using length_lstrip_by [of is_space s] length_lstrip_by [of is_space "rev (lstrip_by is_space s)"]
  by (simp add: py_strip_def rstrip_by_def)

fun py_join :: "string \<Rightarrow> string list \<Rightarrow> string" where
  "py_join sep [] = []"
| "py_join sep [x] = x"
| "py_join sep (x # y # ys) = x @ sep @ py_join sep (y # ys)"

text \<open>Splitting at runs of white space; no field is empty.\<close>

fun py_split :: "string \<Rightarrow> string list" where
  "py_split [] = []"
| "py_split (c # cs) =
     (if is_space c then py_split cs
      else (case cs of
              [] \<Rightarrow> [[c]]
            | d # _ \<Rightarrow> (if is_space d then [c] # py_split cs
                        else (case py_split cs of [] \<Rightarrow> [[c]] | w # ws \<Rightarrow> (c # w) # ws))))"

text \<open>Splitting at every occurrence of one character; fields may be empty.\<close>

fun split_on :: "char \<Rightarrow> string \<Rightarrow> string list" where
  "split_on sep [] = [[]]"
| "split_on sep (c # cs) =
     (if c = sep then [] # split_on sep cs
      else (case split_on sep cs of [] \<Rightarrow> [[c]] | w # ws \<Rightarrow> (c # w) # ws))"

lemma split_on_nonempty [simp]: "split_on sep s \<noteq> []"
  by (induction s) (auto split: list.splits)

lemma set_split_on: "w \<in> set (split_on c s) \<Longrightarrow> c \<notin> set w"
  by (induction s arbitrary: w) (auto split: if_splits list.splits)

text \<open>\<open>needle in haystack\<close> and replacement of one character.\<close>

fun contains :: "string \<Rightarrow> string \<Rightarrow> bool" where
  "contains [] needle = (needle = [])"
| "contains (c # cs) needle = (starts_with (c # cs) needle \<or> contains cs needle)"

lemma contains_iff: "contains s needle \<longleftrightarrow> (\<exists>u v. s = u @ needle @ v)"
proof (induction s)
  case Nil
  then show ?case by auto
next
  case (Cons c cs)
  show ?case
    by (auto simp: Cons.IH starts_with_iff Cons_eq_append_conv)
qed

definition replace_char :: "char \<Rightarrow> char \<Rightarrow> string \<Rightarrow> string" where
  "replace_char a b s = map (\<lambda>c. if c = a then b else c) s"

definition upper_char :: "char \<Rightarrow> char" where
  "upper_char c = (if 97 \<le> code c \<and> code c \<le> 122 then char_of (code c - 32) else c)"

text \<open>Splitting at line boundaries; a carriage return and the line feed after it are one.\<close>

fun py_splitlines :: "string \<Rightarrow> string list" where
  "py_splitlines [] = []"
| "py_splitlines [c] = (if is_linebreak c then [[]] else [[c]])"
| "py_splitlines (c # d # cs) =
     (if is_linebreak c
      then [] # (if code c = 13 \<and> code d = 10 then py_splitlines cs else py_splitlines (d # cs))
      else (case py_splitlines (d # cs) of [] \<Rightarrow> [[c]] | l # ls \<Rightarrow> (c # l) # ls))"

lemma py_splitlines_eq_Nil [simp]: "py_splitlines s = [] \<longleftrightarrow> s = []"
  by (induction s rule: py_splitlines.induct) (auto split: list.splits)

subsection \<open>Glob patterns\<close>

text \<open>
  \<open>fnmatch.translate\<close> turns a pattern into a regular expression; here it becomes a list of
  tokens. A bracket expression is read up to its closing bracket, which may not be its first
  character; without a closing bracket the opening one is an ordinary character.
\<close>

datatype glob_token = GStar | GAny | GSet bool "(char \<times> char) list" | GLit char

fun until_bracket :: "string \<Rightarrow> (string \<times> string) option" where
  "until_bracket [] = None"
| "until_bracket (c # cs) =
     (if c = CHR '']'' then Some ([], cs)
      else map_option (\<lambda>(b, r). (c # b, r)) (until_bracket cs))"

fun bracket_body :: "string \<Rightarrow> (string \<times> string) option" where
  "bracket_body [] = None"
| "bracket_body (c # cs) = map_option (\<lambda>(b, r). (c # b, r)) (until_bracket cs)"

fun set_items :: "string \<Rightarrow> (char \<times> char) list" where
  "set_items [] = []"
| "set_items [a] = [(a, a)]"
| "set_items [a, b] = [(a, a), (b, b)]"
| "set_items (a # b # c # r) =
     (if b = CHR ''-'' then (a, c) # set_items r else (a, a) # set_items (b # c # r))"

definition open_bracket :: "string \<Rightarrow> (glob_token \<times> string) option" where
  "open_bracket s =
     (case s of
        c # cs \<Rightarrow> (if c = CHR ''!''
                   then map_option (\<lambda>(b, r). (GSet True (set_items b), r)) (bracket_body cs)
                   else map_option (\<lambda>(b, r). (GSet False (set_items b), r)) (bracket_body s))
      | [] \<Rightarrow> None)"

lemma until_bracket_length: "until_bracket s = Some (b, r) \<Longrightarrow> length r < length s"
  by (induction s arbitrary: b) (auto split: if_splits)

lemma bracket_body_length: "bracket_body s = Some (b, r) \<Longrightarrow> length r < length s"
  by (cases s) (auto dest: until_bracket_length)

lemma open_bracket_length: "open_bracket s = Some (t, r) \<Longrightarrow> length r < length s"
  by (auto simp: open_bracket_def split: list.splits if_splits
           dest: bracket_body_length until_bracket_length intro: less_SucI)

function glob_tokens :: "string \<Rightarrow> glob_token list" where
  "glob_tokens [] = []"
| "glob_tokens (c # cs) =
     (if c = CHR ''*'' then GStar # glob_tokens cs
      else if c = CHR ''?'' then GAny # glob_tokens cs
      else if c = CHR ''['' then
        (case open_bracket cs of
           Some (t, r) \<Rightarrow> t # glob_tokens r
         | None \<Rightarrow> GLit c # glob_tokens cs)
      else GLit c # glob_tokens cs)"
  by pat_completeness auto
termination
  by (relation "measure length") (auto dest: open_bracket_length)

fun glob_match :: "glob_token list \<Rightarrow> string \<Rightarrow> bool" where
  "glob_match [] s = (s = [])"
| "glob_match (GStar # ts) [] = glob_match ts []"
| "glob_match (GStar # ts) (c # cs) = (glob_match ts (c # cs) \<or> glob_match (GStar # ts) cs)"
| "glob_match (GAny # ts) [] = False"
| "glob_match (GAny # ts) (c # cs) = glob_match ts cs"
| "glob_match (GSet neg items # ts) [] = False"
| "glob_match (GSet neg items # ts) (c # cs) =
     ((neg \<noteq> (\<exists>(lo, hi) \<in> set items. lo \<le> c \<and> c \<le> hi)) \<and> glob_match ts cs)"
| "glob_match (GLit p # ts) [] = False"
| "glob_match (GLit p # ts) (c # cs) = (c = p \<and> glob_match ts cs)"

definition fnmatchcase :: "string \<Rightarrow> string \<Rightarrow> bool" where
  "fnmatchcase name pat = glob_match (glob_tokens pat) name"

lemma glob_match_star: "glob_match (GStar # ts) s \<longleftrightarrow> (\<exists>u v. s = u @ v \<and> glob_match ts v)"
proof (induction s)
  case Nil
  then show ?case by simp
next
  case (Cons c cs)
  then show ?case
    by (auto simp: Cons_eq_append_conv)
qed

lemma fnmatch_star [simp]: "fnmatchcase s ''*''"
  by (auto simp: fnmatchcase_def glob_match_star)

definition plain_char :: "char \<Rightarrow> bool" where
  "plain_char c = (c \<notin> {CHR ''*'', CHR ''?'', CHR ''[''})"

lemma fnmatch_plain:
  assumes "\<forall>c \<in> set pat. plain_char c"
  shows "fnmatchcase name pat \<longleftrightarrow> name = pat"
proof -
  have "glob_match (glob_tokens pat) name \<longleftrightarrow> name = pat"
    using assms
  proof (induction pat arbitrary: name)
    case Nil
    then show ?case by simp
  next
    case (Cons c cs)
    then show ?case by (cases name) (auto simp: plain_char_def)
  qed
  then show ?thesis by (simp add: fnmatchcase_def)
qed

end
