(* ===== verification/Json_Value.thy ===== *)
theory Json_Value
  imports Py_Text Complex_Main
begin

text \<open>
  The values a JSON or YAML document decodes to, which the code passes around as
  \<open>dict[str, Any]\<close>. Objects keep their key order. A Python float is modelled by an exact
  rational number: the rounding of IEEE arithmetic is not modelled. Python's \<open>bool\<close> is a
  subclass of \<open>int\<close>, so the tests \<open>isinstance(x, int)\<close> of the code accept \<open>JBool\<close> unless
  they exclude it, and \<open>as_int\<close> keeps that.
\<close>

datatype json =
    JNull
  | JBool bool
  | JInt int
  | JFloat rat
  | JStr string
  | JArr "json list"
  | JObj "(string \<times> json) list"

fun truthy :: "json \<Rightarrow> bool" where
  "truthy JNull = False"
| "truthy (JBool b) = b"
| "truthy (JInt i) = (i \<noteq> 0)"
| "truthy (JFloat r) = (r \<noteq> 0)"
| "truthy (JStr s) = (s \<noteq> [])"
| "truthy (JArr xs) = (xs \<noteq> [])"
| "truthy (JObj d) = (d \<noteq> [])"

text \<open>\<open>isinstance(value, int)\<close> with the integer the value counts as.\<close>

fun as_int :: "json \<Rightarrow> int option" where
  "as_int (JBool b) = Some (if b then 1 else 0)"
| "as_int (JInt i) = Some i"
| "as_int _ = None"

fun as_obj :: "json \<Rightarrow> (string \<times> json) list option" where
  "as_obj (JObj d) = Some d"
| "as_obj _ = None"

fun as_str :: "json \<Rightarrow> string option" where
  "as_str (JStr s) = Some s"
| "as_str _ = None"

fun as_bool :: "json \<Rightarrow> bool option" where
  "as_bool (JBool b) = Some b"
| "as_bool _ = None"

text \<open>\<open>isinstance(value, (int, float)) and not isinstance(value, bool)\<close>.\<close>

fun as_number :: "json \<Rightarrow> rat option" where
  "as_number (JInt i) = Some (of_int i)"
| "as_number (JFloat r) = Some r"
| "as_number _ = None"

lemma as_obj_Some [simp]: "as_obj v = Some d \<longleftrightarrow> v = JObj d"
  by (cases v) auto

lemma as_str_Some [simp]: "as_str v = Some s \<longleftrightarrow> v = JStr s"
  by (cases v) auto

lemma as_bool_Some [simp]: "as_bool v = Some b \<longleftrightarrow> v = JBool b"
  by (cases v) auto

text \<open>\<open>dict.get(key)\<close>: a missing key gives \<open>None\<close>.\<close>

definition or_null :: "json option \<Rightarrow> json" where
  "or_null v = (case v of Some x \<Rightarrow> x | None \<Rightarrow> JNull)"

text \<open>\<open>a or b\<close> on values.\<close>

definition py_or :: "json \<Rightarrow> json \<Rightarrow> json" where
  "py_or a b = (if truthy a then a else b)"

subsection \<open>Decimal numerals and canonical JSON text\<close>

text \<open>
  \<open>json.dumps(value, sort_keys=True, separators=(",", ":"), ensure_ascii=True)\<close>. The text of
  a float is a parameter, since floats are modelled by rationals.
\<close>

fun nat_str :: "nat \<Rightarrow> string" where
  "nat_str n = (if n < 10 then [char_of (48 + n)] else nat_str (n div 10) @ [char_of (48 + n mod 10)])"

declare nat_str.simps [simp del]

definition int_str :: "int \<Rightarrow> string" where
  "int_str i = (if i < 0 then CHR ''-'' # nat_str (nat (- i)) else nat_str (nat i))"

text \<open>
  \<open>str(value)\<close>. The text of floats, lists and dictionaries is the parameter \<open>rp\<close>.
\<close>

fun py_str :: "(json \<Rightarrow> string) \<Rightarrow> json \<Rightarrow> string" where
  "py_str rp JNull = ''None''"
| "py_str rp (JBool b) = (if b then ''True'' else ''False'')"
| "py_str rp (JInt i) = int_str i"
| "py_str rp (JStr s) = s"
| "py_str rp v = rp v"

text \<open>\<open>int(text)\<close>: optional white space, a sign, digits with single underscores between.\<close>

definition digit_of :: "char \<Rightarrow> int option" where
  "digit_of c = (if 48 \<le> code c \<and> code c \<le> 57 then Some (int (code c) - 48) else None)"

fun digits_value :: "int \<Rightarrow> string \<Rightarrow> int option" where
  "digits_value acc [] = Some acc"
| "digits_value acc (c # cs) =
     (case digit_of c of
        Some d \<Rightarrow> digits_value (10 * acc + d) cs
      | None \<Rightarrow> (if c = CHR ''_'' then
                   (case cs of
                      d # ds \<Rightarrow> (case digit_of d of
                                  Some n \<Rightarrow> digits_value (10 * acc + n) ds | None \<Rightarrow> None)
                    | [] \<Rightarrow> None)
                 else None))"

definition unsigned_value :: "string \<Rightarrow> int option" where
  "unsigned_value s =
     (case s of
        [] \<Rightarrow> None
      | c # cs \<Rightarrow> (case digit_of c of Some d \<Rightarrow> digits_value d cs | None \<Rightarrow> None))"

definition int_of_str :: "string \<Rightarrow> int option" where
  "int_of_str s =
     (case py_strip s of
        [] \<Rightarrow> None
      | c # cs \<Rightarrow> (if c = CHR ''-'' then map_option uminus (unsigned_value cs)
                 else if c = CHR ''+'' then unsigned_value cs
                 else unsigned_value (c # cs)))"

text \<open>\<open>int(value)\<close>: truncation of a float, \<open>None\<close> for a \<open>TypeError\<close> or \<open>ValueError\<close>.\<close>

fun py_int :: "json \<Rightarrow> int option" where
  "py_int (JInt i) = Some i"
| "py_int (JBool b) = Some (if b then 1 else 0)"
| "py_int (JFloat r) = Some (if r < 0 then - \<lfloor>- r\<rfloor> else \<lfloor>r\<rfloor>)"
| "py_int (JStr s) = int_of_str s"
| "py_int _ = None"

definition hex_digit :: "nat \<Rightarrow> char" where
  "hex_digit n = (if n < 10 then char_of (48 + n) else char_of (87 + n))"

definition json_escape :: "char \<Rightarrow> string" where
  "json_escape c = (let n = code c in
     if n = 34 \<or> n = 92 then [CHR 0x5C, c]
     else if n = 10 then [CHR 0x5C, CHR ''n'']
     else if n = 13 then [CHR 0x5C, CHR ''r'']
     else if n = 9 then [CHR 0x5C, CHR ''t'']
     else if n = 12 then [CHR 0x5C, CHR ''f'']
     else if n = 8 then [CHR 0x5C, CHR ''b'']
     else if n < 32 \<or> 126 < n then
       [CHR 0x5C, CHR ''u'', CHR ''0'', CHR ''0'', hex_digit (n div 16), hex_digit (n mod 16)]
     else [c])"

definition json_quote :: "string \<Rightarrow> string" where
  "json_quote s = [CHR 0x22] @ concat (map json_escape s) @ [CHR 0x22]"

lemma code_inj [simp]: "code c = code d \<longleftrightarrow> c = d"
  by (simp add: code_def)

lemma code_less: "code c < 256"
  unfolding code_def by (rule nat_of_char_less_256)

text \<open>
  Escaping is a prefix code none of whose words starts with the closing quote, so a quoted
  string can be read back from the text it starts. \<open>json_unescape\<close> reads one character.
\<close>

definition hex_value :: "char \<Rightarrow> nat" where
  "hex_value c = (if code c < 58 then code c - 48 else code c - 87)"

definition unescape_letter :: "char \<Rightarrow> char" where
  "unescape_letter c = (if c = CHR ''n'' then CHR 0x0A else if c = CHR ''r'' then CHR 0x0D
     else if c = CHR ''t'' then CHR 0x09 else if c = CHR ''f'' then CHR 0x0C
     else if c = CHR ''b'' then CHR 0x08 else c)"

fun json_unescape :: "string \<Rightarrow> (char \<times> string) option" where
  "json_unescape (a # b # x) =
     (if a \<noteq> CHR 0x5C then Some (a, b # x)
      else if b = CHR ''u'' then
        (case x of
           _ # _ # h # l # y \<Rightarrow> Some (char_of (16 * hex_value h + hex_value l), y)
         | _ \<Rightarrow> None)
      else Some (unescape_letter b, x))"
| "json_unescape [a] = Some (a, [])"
| "json_unescape [] = None"

lemma code_eqI: "code c = n \<Longrightarrow> c = char_of n"
  by (auto simp: code_def)

lemma hex_value_digit: "n < 16 \<Longrightarrow> hex_value (hex_digit n) = n"
  by (simp add: hex_value_def hex_digit_def code_def)

lemma json_escape_short:
  "json_escape (CHR 0x22) = [CHR 0x5C, CHR 0x22]" "json_escape (CHR 0x5C) = [CHR 0x5C, CHR 0x5C]"
  "json_escape (CHR 0x0A) = [CHR 0x5C, CHR ''n'']" "json_escape (CHR 0x0D) = [CHR 0x5C, CHR ''r'']"
  "json_escape (CHR 0x09) = [CHR 0x5C, CHR ''t'']" "json_escape (CHR 0x0C) = [CHR 0x5C, CHR ''f'']"
  "json_escape (CHR 0x08) = [CHR 0x5C, CHR ''b'']"
  by code_simp+

lemma json_escape_cases:
  "c \<in> {CHR 0x22, CHR 0x5C, CHR 0x0A, CHR 0x0D, CHR 0x09, CHR 0x0C, CHR 0x08}
   \<or> json_escape c = [CHR 0x5C, CHR ''u'', CHR ''0'', CHR ''0'',
        hex_digit (code c div 16), hex_digit (code c mod 16)]
   \<or> json_escape c = [c] \<and> c \<noteq> CHR 0x5C \<and> c \<noteq> CHR 0x22"
proof -
  let ?n = "code c"
  have special: "code c \<notin> {34, 92, 10, 13, 9, 12, 8}"
    if "c \<notin> {CHR 0x22, CHR 0x5C, CHR 0x0A, CHR 0x0D, CHR 0x09, CHR 0x0C, CHR 0x08}"
  proof -
    have codes: "code (CHR 0x22) = 34" "code (CHR 0x5C) = 92" "code (CHR 0x0A) = 10" "code (CHR 0x0D) = 13"
      "code (CHR 0x09) = 9" "code (CHR 0x0C) = 12" "code (CHR 0x08) = 8" by code_simp+
    from that show ?thesis
      by (simp only: codes [symmetric] code_inj insert_iff empty_iff not_False_eq_True simp_thms)
  qed
  show ?thesis
    using special by (auto simp: json_escape_def Let_def simp del: char_of_eq_iff)
qed

lemma json_unescape_escape: "json_unescape (json_escape c @ x) = Some (c, x)"
  using json_escape_cases [of c]
proof (elim disjE conjE)
  assume "c \<in> {CHR 0x22, CHR 0x5C, CHR 0x0A, CHR 0x0D, CHR 0x09, CHR 0x0C, CHR 0x08}"
  then show ?thesis
    by (elim insertE emptyE) (simp_all add: json_escape_short unescape_letter_def)
next
  assume "json_escape c = [CHR 0x5C, CHR ''u'', CHR ''0'', CHR ''0'',
    hex_digit (code c div 16), hex_digit (code c mod 16)]"
  moreover have "code c div 16 < 16" using code_less [of c] by simp
  moreover have "char_of (code c) = c" by (simp add: code_def)
  ultimately show ?thesis by (simp add: hex_value_digit)
next
  assume "json_escape c = [c]" "c \<noteq> CHR 0x5C"
  then show ?thesis by (cases x) auto
qed

lemma json_escape_prefix:
  assumes "json_escape c @ x = json_escape d @ y"
  shows "c = d \<and> x = y"
proof -
  have "json_unescape (json_escape c @ x) = json_unescape (json_escape d @ y)"
    using assms by (rule arg_cong)
  then show ?thesis by (simp only: json_unescape_escape option.inject prod.inject)
qed

lemma json_escape_not_quote: "json_escape c @ x \<noteq> CHR 0x22 # y"
  using json_escape_cases [of c] by (elim disjE conjE insertE emptyE) (simp_all add: json_escape_short)

lemma json_quote_prefix:
  assumes "json_quote s @ x = json_quote t @ y"
  shows "s = t \<and> x = y"
proof -
  have "concat (map json_escape s) @ CHR 0x22 # x = concat (map json_escape t) @ CHR 0x22 # y
        \<Longrightarrow> s = t \<and> x = y"
  proof (induction s arbitrary: t)
    case Nil
    then show ?case by (cases t) (auto simp: json_escape_not_quote json_escape_not_quote [symmetric])
  next
    case (Cons c s)
    then show ?case
    proof (cases t)
      case Nil
      with Cons.prems show ?thesis using json_escape_not_quote by simp
    next
      case t: (Cons d t')
      with Cons.prems json_escape_prefix [of c _ d] have "c = d"
        "concat (map json_escape s) @ CHR 0x22 # x = concat (map json_escape t') @ CHR 0x22 # y"
        by auto
      with Cons.IH t show ?thesis by blast
    qed
  qed
  with assms show ?thesis by (simp add: json_quote_def)
qed

lemma json_quote_append_eq: "json_quote s @ x = json_quote t @ y \<longleftrightarrow> s = t \<and> x = y"
  using json_quote_prefix by blast

lemma json_quote_inj: "json_quote s = json_quote t \<longleftrightarrow> s = t"
  using json_quote_append_eq [of s "[]" t "[]"] by simp

fun canonical_json :: "(rat \<Rightarrow> string) \<Rightarrow> json \<Rightarrow> string" where
  "canonical_json fl JNull = ''null''"
| "canonical_json fl (JBool b) = (if b then ''true'' else ''false'')"
| "canonical_json fl (JInt i) = int_str i"
| "canonical_json fl (JFloat r) = fl r"
| "canonical_json fl (JStr s) = json_quote s"
| "canonical_json fl (JArr xs) = ''['' @ py_join '','' (map (canonical_json fl) xs) @ '']''"
| "canonical_json fl (JObj d) =
     CHR 0x7B # py_join '',''
       (map snd (sort_key fst
          (map (\<lambda>(k, v). (k, json_quote k @ '':'' @ canonical_json fl v)) d)))
     @ [CHR 0x7D]"

lemma json_escape_nonempty: "json_escape c \<noteq> []"
  by (simp add: json_escape_def Let_def)

end
