(* ===== verification/Budgets.thy ===== *)
theory Budgets
  imports Json_Value
begin

text \<open>
  \<open>src/loro/budgets.py\<close>: the accounting of one run. A budget object is mutated before the
  check that may raise, so each operation returns the exception, if any, together with the
  object as the caller finds it afterwards. Costs are exact rationals. The lemmas show that
  the counters only grow, that an operation that returns leaves every limit respected, and
  that a budget that is over a limit stays over it.
\<close>

subsection \<open>Configuration, messages and the budget object\<close>

record model_prices =
  input_cost_per_million :: rat
  output_cost_per_million :: rat

record runtime_limits =
  max_tool_calls :: int
  max_model_input_bytes :: int
  max_model_output_bytes :: int
  max_input_tokens :: "int option"
  max_output_tokens :: "int option"
  max_cost_usd :: "rat option"

record model_response =
  resp_content :: string
  resp_raw :: "(string \<times> json) list option"

record usage_budget =
  input_tokens :: int
  output_tokens :: int
  cost_usd :: rat
  tool_calls :: int
  pending_input_tokens :: int

datatype budget_name =
  ModelInputBytes | ModelOutputBytes | InputTokens | OutputTokens | Cost | ToolCalls

definition fresh_budget :: usage_budget where
  "fresh_budget = \<lparr>input_tokens = 0, output_tokens = 0, cost_usd = 0, tool_calls = 0,
                   pending_input_tokens = 0\<rparr>"

definition prices_ok :: "model_prices \<Rightarrow> bool" where
  "prices_ok m \<longleftrightarrow> 0 \<le> input_cost_per_million m \<and> 0 \<le> output_cost_per_million m"

subsection \<open>Token estimates and reported usage\<close>

definition estimate_tokens :: "string \<Rightarrow> int" where
  "estimate_tokens content =
     (if content = [] then 0 else max 1 ((int (length content) + 3) div 4))"

fun usage_integer :: "(string \<times> json) list \<Rightarrow> string list \<Rightarrow> int" where
  "usage_integer payload [] = 0"
| "usage_integer payload (n # ns) =
     (case map_of payload n of
        Some v \<Rightarrow>
          (case as_int v of
             Some i \<Rightarrow> if 0 \<le> i then i else usage_integer payload ns
           | None \<Rightarrow> usage_integer payload ns)
      | None \<Rightarrow> usage_integer payload ns)"

definition raw_object :: "(string \<times> json) list \<Rightarrow> string \<Rightarrow> (string \<times> json) list option" where
  "raw_object raw key = Option.bind (map_of raw key) as_obj"

definition usage_tokens :: "model_response \<Rightarrow> int \<times> int" where
  "usage_tokens r =
     (let raw = (case resp_raw r of Some d \<Rightarrow> d | None \<Rightarrow> []) in
      case raw_object raw ''usage'' of
        Some usage \<Rightarrow>
          (usage_integer usage [''prompt_tokens'', ''input_tokens'', ''inputTokens''],
           usage_integer usage [''completion_tokens'', ''output_tokens'', ''outputTokens''])
      | None \<Rightarrow>
          (case raw_object raw ''usageMetadata'' of
             Some metadata \<Rightarrow>
               (usage_integer metadata [''promptTokenCount''],
                usage_integer metadata [''candidatesTokenCount''])
           | None \<Rightarrow> (0, estimate_tokens (resp_content r))))"

subsection \<open>Operations\<close>

definition exceeds_int :: "int option \<Rightarrow> int \<Rightarrow> bool" where
  "exceeds_int limit n = (case limit of None \<Rightarrow> False | Some m \<Rightarrow> m < n)"

definition exceeds_cost :: "rat option \<Rightarrow> rat \<Rightarrow> bool" where
  "exceeds_cost limit c = (case limit of None \<Rightarrow> False | Some m \<Rightarrow> m < c)"

definition before_model ::
  "runtime_limits \<Rightarrow> model_prices \<Rightarrow> string list \<Rightarrow> usage_budget \<Rightarrow>
     budget_name option \<times> usage_budget" where
  "before_model rt m messages b =
     (if max_model_input_bytes rt < int (sum_list (map utf8_len messages))
      then (Some ModelInputBytes, b)
      else let pending = estimate_tokens (py_join [CHR 0x0A] messages);
               b' = b\<lparr>pending_input_tokens := pending\<rparr> in
        if exceeds_int (max_input_tokens rt) (input_tokens b + pending)
        then (Some InputTokens, b')
        else if exceeds_cost (max_cost_usd rt)
                  (cost_usd b + of_int pending * input_cost_per_million m / 1000000)
        then (Some Cost, b')
        else (None, b'))"

definition require_within_limits :: "runtime_limits \<Rightarrow> usage_budget \<Rightarrow> budget_name option" where
  "require_within_limits rt b =
     (if exceeds_int (max_input_tokens rt) (input_tokens b) then Some InputTokens
      else if exceeds_int (max_output_tokens rt) (output_tokens b) then Some OutputTokens
      else if exceeds_cost (max_cost_usd rt) (cost_usd b) then Some Cost
      else None)"

definition after_model ::
  "runtime_limits \<Rightarrow> model_prices \<Rightarrow> model_response \<Rightarrow> usage_budget \<Rightarrow>
     budget_name option \<times> usage_budget" where
  "after_model rt m response b =
     (if max_model_output_bytes rt < int (utf8_len (resp_content response))
      then (Some ModelOutputBytes, b)
      else let (reported, out) = usage_tokens response;
               inp = (if reported = 0 then pending_input_tokens b else reported);
               b' = b\<lparr>input_tokens := input_tokens b + inp,
                      output_tokens := output_tokens b + out,
                      pending_input_tokens := 0,
                      cost_usd := cost_usd b
                        + (of_int inp * input_cost_per_million m
                           + of_int out * output_cost_per_million m) / 1000000\<rparr>
           in (require_within_limits rt b', b'))"

definition add_tool_calls ::
  "runtime_limits \<Rightarrow> int \<Rightarrow> usage_budget \<Rightarrow> budget_name option \<times> usage_budget" where
  "add_tool_calls rt count b =
     (let b' = b\<lparr>tool_calls := tool_calls b + count\<rparr> in
      (if max_tool_calls rt < tool_calls b' then Some ToolCalls else None, b'))"

subsection \<open>Estimates\<close>

lemma estimate_tokens_nonneg [simp]: "0 \<le> estimate_tokens s"
  by (simp add: estimate_tokens_def le_max_iff_disj)

lemma estimate_tokens_ceiling:
  "4 * estimate_tokens s - 4 < int (length s) \<or> s = []"
  "int (length s) \<le> 4 * estimate_tokens s"
proof -
  have "1 \<le> (int (length s) + 3) div 4" if "s \<noteq> []"
    using that by (cases s) auto
  then show "4 * estimate_tokens s - 4 < int (length s) \<or> s = []"
    and "int (length s) \<le> 4 * estimate_tokens s"
    by (auto simp: estimate_tokens_def max_def)
qed

lemma usage_integer_nonneg [simp]: "0 \<le> usage_integer d ns"
  by (induction ns) (auto split: option.splits)

declare usage_integer.simps [simp del]

lemma usage_tokens_nonneg: "usage_tokens r = (i, out) \<Longrightarrow> 0 \<le> i \<and> 0 \<le> out"
  by (auto simp: usage_tokens_def Let_def split: option.splits)

subsection \<open>The counters only grow, and limits hold on every normal return\<close>

definition well_formed_budget :: "usage_budget \<Rightarrow> bool" where
  "well_formed_budget b \<longleftrightarrow> 0 \<le> input_tokens b \<and> 0 \<le> output_tokens b \<and> 0 \<le> cost_usd b
     \<and> 0 \<le> tool_calls b \<and> 0 \<le> pending_input_tokens b"

definition budget_le :: "usage_budget \<Rightarrow> usage_budget \<Rightarrow> bool" where
  "budget_le a b \<longleftrightarrow> input_tokens a \<le> input_tokens b \<and> output_tokens a \<le> output_tokens b
     \<and> cost_usd a \<le> cost_usd b \<and> tool_calls a \<le> tool_calls b"

definition over_limits :: "runtime_limits \<Rightarrow> usage_budget \<Rightarrow> bool" where
  "over_limits rt b \<longleftrightarrow> require_within_limits rt b \<noteq> None \<or> max_tool_calls rt < tool_calls b"

lemma budget_le_refl [simp]: "budget_le b b"
  by (simp add: budget_le_def)

lemma budget_le_trans: "budget_le a b \<Longrightarrow> budget_le b c \<Longrightarrow> budget_le a c"
  by (auto simp: budget_le_def)

lemma require_within_limits_None:
  "require_within_limits rt b = None \<longleftrightarrow>
     \<not> exceeds_int (max_input_tokens rt) (input_tokens b)
     \<and> \<not> exceeds_int (max_output_tokens rt) (output_tokens b)
     \<and> \<not> exceeds_cost (max_cost_usd rt) (cost_usd b)"
  by (auto simp: require_within_limits_def)

lemma over_limits_mono: "over_limits rt a \<Longrightarrow> budget_le a b \<Longrightarrow> over_limits rt b"
  by (auto simp: over_limits_def require_within_limits_None budget_le_def exceeds_int_def
      exceeds_cost_def split: option.splits)

lemma before_model_frame:
  "before_model rt m ms b = (r, b') \<Longrightarrow>
     input_tokens b' = input_tokens b \<and> output_tokens b' = output_tokens b
     \<and> cost_usd b' = cost_usd b \<and> tool_calls b' = tool_calls b
     \<and> (0 \<le> pending_input_tokens b \<longrightarrow> 0 \<le> pending_input_tokens b')"
  by (auto simp: before_model_def Let_def split: if_splits)

lemma after_model_cost_step:
  assumes "prices_ok m" and "0 \<le> (i :: int)" and "0 \<le> (out :: int)"
  shows "0 \<le> (of_int i * input_cost_per_million m
                + of_int out * output_cost_per_million m) / (1000000 :: rat)"
  using assms by (simp add: prices_ok_def)

lemma after_model_grows:
  assumes "prices_ok m" and "well_formed_budget b" and "after_model rt m r b = (res, b')"
  shows "budget_le b b' \<and> well_formed_budget b'"
proof (cases "max_model_output_bytes rt < int (utf8_len (resp_content r))")
  case True
  with assms show ?thesis by (simp add: after_model_def)
next
  case False
  obtain i out where u: "usage_tokens r = (i, out)" by fastforce
  let ?inp = "if i = 0 then pending_input_tokens b else i"
  have nn: "0 \<le> ?inp" "0 \<le> out"
    using usage_tokens_nonneg [OF u] assms(2) by (auto simp: well_formed_budget_def)
  have "0 \<le> (of_int ?inp * input_cost_per_million m
              + of_int out * output_cost_per_million m) / (1000000 :: rat)"
    by (rule after_model_cost_step [OF assms(1) nn])
  with False u nn assms(2,3) show ?thesis
    by (auto simp: after_model_def Let_def well_formed_budget_def budget_le_def)
qed

text \<open>One accounting operation of a run, and a sequence of them.\<close>

datatype budget_op = Before "string list" | After model_response | Tools nat

fun budget_step ::
  "runtime_limits \<Rightarrow> model_prices \<Rightarrow> budget_op \<Rightarrow> usage_budget \<Rightarrow>
     budget_name option \<times> usage_budget" where
  "budget_step rt m (Before ms) b = before_model rt m ms b"
| "budget_step rt m (After r) b = after_model rt m r b"
| "budget_step rt m (Tools n) b = add_tool_calls rt (int n) b"

fun budget_run ::
  "runtime_limits \<Rightarrow> model_prices \<Rightarrow> budget_op list \<Rightarrow> usage_budget \<Rightarrow>
     budget_name option \<times> usage_budget" where
  "budget_run rt m [] b = (None, b)"
| "budget_run rt m (x # xs) b =
     (case budget_step rt m x b of
        (None, b') \<Rightarrow> budget_run rt m xs b'
      | (Some e, b') \<Rightarrow> (Some e, b'))"

lemma budget_step_grows:
  assumes "prices_ok m" and "well_formed_budget b" and "budget_step rt m x b = (res, b')"
  shows "budget_le b b' \<and> well_formed_budget b'"
proof (cases x)
  case (Before ms)
  with assms before_model_frame [of rt m ms b res b'] show ?thesis
    by (auto simp: budget_le_def well_formed_budget_def)
next
  case (After r)
  with assms after_model_grows show ?thesis by auto
next
  case (Tools n)
  with assms show ?thesis
    by (auto simp: add_tool_calls_def Let_def budget_le_def well_formed_budget_def)
qed

lemma budget_step_within:
  assumes "budget_step rt m x b = (None, b')" and "\<not> over_limits rt b"
  shows "\<not> over_limits rt b'"
proof (cases x)
  case (Before ms)
  with assms before_model_frame [of rt m ms b None b'] show ?thesis
    by (auto simp: over_limits_def require_within_limits_None)
next
  case (After r)
  with assms show ?thesis
    by (auto simp: over_limits_def after_model_def Let_def split: prod.splits if_splits)
next
  case (Tools n)
  with assms show ?thesis
    by (auto simp: over_limits_def add_tool_calls_def Let_def require_within_limits_None
        split: if_splits)
qed

lemma budget_run_grows:
  "prices_ok m \<Longrightarrow> well_formed_budget b \<Longrightarrow> budget_run rt m xs b = (res, b') \<Longrightarrow>
     budget_le b b' \<and> well_formed_budget b'"
proof (induction xs arbitrary: b)
  case Nil
  then show ?case by simp
next
  case (Cons x xs)
  obtain r b1 where s: "budget_step rt m x b = (r, b1)" by fastforce
  have g: "budget_le b b1 \<and> well_formed_budget b1"
    by (rule budget_step_grows [OF Cons.prems(1,2) s])
  show ?case
  proof (cases r)
    case None
    with Cons.IH [OF Cons.prems(1)] Cons.prems(3) s g show ?thesis
      by (auto intro: budget_le_trans)
  next
    case (Some e)
    with Cons.prems(3) s g show ?thesis by simp
  qed
qed

lemma budget_run_within:
  "\<not> over_limits rt b \<Longrightarrow> budget_run rt m xs b = (None, b') \<Longrightarrow> \<not> over_limits rt b'"
proof (induction xs arbitrary: b)
  case Nil
  then show ?case by simp
next
  case (Cons x xs)
  obtain r b1 where s: "budget_step rt m x b = (r, b1)" by fastforce
  with Cons.prems(2) have "r = None" by (cases r) auto
  with s have "\<not> over_limits rt b1"
    using budget_step_within Cons.prems(1) by blast
  then show ?case
    using Cons.IH [of b1] Cons.prems(2) s \<open>r = None\<close> by simp
qed

text \<open>
  C35. Budget enforcement of a run. Take any sequence of accounting calls on a budget that is
  within its limits. If no call raises, the budget is still within every limit: input tokens,
  output tokens, cost and tool calls. The counters never decrease, whether or not a call
  raised.
\<close>

theorem budget_run_respects_limits:
  assumes "prices_ok m" and "well_formed_budget b" and "\<not> over_limits rt b"
    and "budget_run rt m ops b = (res, b')"
  shows "budget_le b b' \<and> (res = None \<longrightarrow> \<not> over_limits rt b')"
  using budget_run_grows [OF assms(1,2,4)] budget_run_within [OF assms(3)] assms(4) by blast

definition sample_limits :: runtime_limits where
  "sample_limits = \<lparr>max_tool_calls = 2, max_model_input_bytes = 1024,
     max_model_output_bytes = 1024, max_input_tokens = Some 10, max_output_tokens = Some 10,
     max_cost_usd = Some 1\<rparr>"

definition sample_prices :: model_prices where
  "sample_prices = \<lparr>input_cost_per_million = 3, output_cost_per_million = 15\<rparr>"

theorem budget_run_respects_limits_witness:
  "budget_run sample_limits sample_prices
      [Before [''hello''], After \<lparr>resp_content = ''hi there'', resp_raw = None\<rparr>, Tools 2]
      fresh_budget
    = (None, \<lparr>input_tokens = 2, output_tokens = 2, cost_usd = 36 / 1000000, tool_calls = 2,
              pending_input_tokens = 0\<rparr>)
   \<and> \<not> over_limits sample_limits
        \<lparr>input_tokens = 2, output_tokens = 2, cost_usd = 36 / 1000000, tool_calls = 2,
         pending_input_tokens = 0\<rparr>"
proof -
  have ok: "prices_ok sample_prices" "well_formed_budget fresh_budget"
      "\<not> over_limits sample_limits fresh_budget"
    by (simp_all add: prices_ok_def sample_prices_def well_formed_budget_def fresh_budget_def
        over_limits_def sample_limits_def require_within_limits_def exceeds_int_def
        exceeds_cost_def)
  have run: "budget_run sample_limits sample_prices
      [Before [''hello''], After \<lparr>resp_content = ''hi there'', resp_raw = None\<rparr>, Tools 2]
      fresh_budget
    = (None, \<lparr>input_tokens = 2, output_tokens = 2, cost_usd = 36 / 1000000, tool_calls = 2,
              pending_input_tokens = 0\<rparr>)"
    by code_simp
  show ?thesis using budget_run_respects_limits [OF ok run] run by simp
qed

text \<open>
  Exhaustion is permanent. Once a budget is over a limit on tokens or cost, every later
  model response raises, and the budget remains over the limit whatever calls follow.
\<close>

theorem budget_exhaustion_is_sticky:
  assumes "prices_ok m" and "well_formed_budget b" and "require_within_limits rt b \<noteq> None"
    and "budget_run rt m ops b = (res, b')"
  shows "over_limits rt b' \<and> fst (after_model rt m r b') \<noteq> None"
proof -
  have g: "budget_le b b' \<and> well_formed_budget b'"
    by (rule budget_run_grows [OF assms(1,2,4)])
  have mono: "require_within_limits rt c \<noteq> None" if "budget_le b c" for c
    using assms(3) that
    by (auto simp: require_within_limits_None budget_le_def exceeds_int_def exceeds_cost_def
        split: option.splits)
  obtain e b2 where a: "after_model rt m r b' = (e, b2)" by fastforce
  with g assms(1) have "budget_le b b2"
    using after_model_grows budget_le_trans by blast
  then have "e \<noteq> None"
    using a mono [of b2] by (auto simp: after_model_def Let_def split: if_splits prod.splits)
  with a g mono [of b'] show ?thesis by (simp add: over_limits_def)
qed

theorem budget_exhaustion_is_sticky_witness:
  "over_limits sample_limits (fresh_budget\<lparr>input_tokens := 11, tool_calls := 1\<rparr>)
   \<and> fst (after_model sample_limits sample_prices \<lparr>resp_content = [], resp_raw = None\<rparr>
           (fresh_budget\<lparr>input_tokens := 11, tool_calls := 1\<rparr>)) \<noteq> None"
proof -
  have ok: "prices_ok sample_prices" "well_formed_budget (fresh_budget\<lparr>input_tokens := 11\<rparr>)"
    "require_within_limits sample_limits (fresh_budget\<lparr>input_tokens := 11\<rparr>) \<noteq> None"
    by (simp_all add: prices_ok_def sample_prices_def well_formed_budget_def fresh_budget_def
        sample_limits_def require_within_limits_def exceeds_int_def)
  have run: "budget_run sample_limits sample_prices [Tools 1]
      (fresh_budget\<lparr>input_tokens := 11\<rparr>)
      = (None, fresh_budget\<lparr>input_tokens := 11, tool_calls := 1\<rparr>)"
    by (simp add: add_tool_calls_def fresh_budget_def sample_limits_def)
  show ?thesis by (rule budget_exhaustion_is_sticky [OF ok run])
qed

end
