(* ===== verification/Resources.thy ===== *)
theory Resources
  imports Json_Value
begin

text \<open>
  \<open>src/loro/resources.py\<close>: the canonical resources that policy and approvals are evaluated
  on. What the operating system answers is a parameter: \<open>resolve\<close> stands for
  \<open>Path.expanduser().resolve(strict=False)\<close> of an absolute path, \<open>expanduser\<close> for the home
  directory expansion, \<open>which\<close> for \<open>shutil.which\<close> and \<open>shlex_join\<close> for the shell quoting.
  The lemmas show that containment is containment of path components and that a filesystem
  resource that is granted lies under a configured root.
\<close>

subsection \<open>Paths\<close>

definition is_absolute :: "string \<Rightarrow> bool" where
  "is_absolute p = starts_with p ''/''"

definition path_parts :: "string \<Rightarrow> string list" where
  "path_parts p = filter (\<lambda>w. w \<noteq> [] \<and> w \<noteq> ''.'') (split_on (CHR ''/'') p)"

text \<open>\<open>base / requested\<close> of two paths.\<close>

definition join_path :: "string \<Rightarrow> string \<Rightarrow> string" where
  "join_path base p = (if is_absolute p then p else base @ ''/'' @ p)"

fun common_prefix :: "string list \<Rightarrow> string list \<Rightarrow> string list" where
  "common_prefix (x # xs) (y # ys) = (if x = y then x # common_prefix xs ys else [])"
| "common_prefix _ _ = []"

text \<open>
  \<open>os.path.commonpath([p, q])\<close> of two POSIX paths: \<open>ValueError\<close> (here \<open>None\<close>) when one is
  absolute and the other is not.
\<close>

definition commonpath :: "string \<Rightarrow> string \<Rightarrow> string option" where
  "commonpath p q =
     (if is_absolute p \<noteq> is_absolute q then None
      else Some ((if is_absolute p then ''/'' else [])
                 @ py_join ''/'' (common_prefix (path_parts p) (path_parts q))))"

definition is_within :: "string \<Rightarrow> string \<Rightarrow> bool" where
  "is_within p base_dir = (commonpath p base_dir = Some base_dir)"

definition absolute_path :: "string list \<Rightarrow> string" where
  "absolute_path ws = ''/'' @ py_join ''/'' ws"

definition path_word :: "string \<Rightarrow> bool" where
  "path_word w \<longleftrightarrow> w \<noteq> [] \<and> w \<noteq> ''.'' \<and> CHR ''/'' \<notin> set w"

lemma common_prefix_prefix: "\<exists>zs. xs = common_prefix xs ys @ zs"
  by (induction xs ys rule: common_prefix.induct) auto

lemma common_prefix_eq_right: "common_prefix xs ys = ys \<longleftrightarrow> (\<exists>zs. xs = ys @ zs)"
  by (induction xs ys rule: common_prefix.induct) auto

lemma split_on_append_sep:
  "CHR ''/'' \<notin> set w \<Longrightarrow> split_on (CHR ''/'') (w @ CHR ''/'' # s) = w # split_on (CHR ''/'') s"
  by (induction w) auto

lemma split_on_word: "CHR ''/'' \<notin> set w \<Longrightarrow> split_on (CHR ''/'') w = [w]"
  by (induction w) auto

lemma split_on_join:
  assumes "\<forall>w \<in> set ws. path_word w" and "ws \<noteq> []"
  shows "split_on (CHR ''/'') (py_join ''/'' ws) = ws"
  using assms
proof (induction "''/''" ws rule: py_join.induct)
  case 1
  then show ?case by simp
next
  case (2 x)
  then show ?case by (simp add: path_word_def split_on_word)
next
  case (3 x y ys)
  then show ?case by (simp add: path_word_def split_on_append_sep)
qed

lemma path_parts_absolute_path:
  assumes "\<forall>w \<in> set ws. path_word w"
  shows "path_parts (absolute_path ws) = ws"
proof (cases "ws = []")
  case True
  then show ?thesis by (simp add: path_parts_def absolute_path_def)
next
  case False
  have "filter (\<lambda>w. w \<noteq> [] \<and> w \<noteq> ''.'') ws = ws"
    using assms by (auto simp: path_word_def intro!: filter_True)
  with False assms show ?thesis
    by (simp add: path_parts_def absolute_path_def split_on_join)
qed

lemma is_absolute_absolute_path [simp]: "is_absolute (absolute_path ws)"
  by (simp add: is_absolute_def absolute_path_def)

lemma absolute_path_inj:
  assumes "\<forall>w \<in> set vs. path_word w" and "\<forall>w \<in> set ws. path_word w"
  shows "absolute_path vs = absolute_path ws \<longleftrightarrow> vs = ws"
  using path_parts_absolute_path [OF assms(1)] path_parts_absolute_path [OF assms(2)] by metis

lemma is_within_iff_prefix:
  assumes "\<forall>w \<in> set ps. path_word w" and "\<forall>w \<in> set rs. path_word w"
  shows "is_within (absolute_path ps) (absolute_path rs) \<longleftrightarrow> (\<exists>zs. ps = rs @ zs)"
proof -
  have "\<forall>w \<in> set (common_prefix ps rs). path_word w"
  proof -
    obtain zs where "ps = common_prefix ps rs @ zs" using common_prefix_prefix by blast
    then have "set (common_prefix ps rs) \<subseteq> set ps" by (metis Un_upper1 set_append)
    with assms(1) show ?thesis by blast
  qed
  then have "absolute_path (common_prefix ps rs) = absolute_path rs \<longleftrightarrow> common_prefix ps rs = rs"
    by (rule absolute_path_inj [OF _ assms(2)])
  then show ?thesis
    using path_parts_absolute_path [OF assms(1)] path_parts_absolute_path [OF assms(2)]
    by (simp add: is_within_def commonpath_def common_prefix_eq_right absolute_path_def
        is_absolute_def)
qed

subsection \<open>Resources\<close>

record resource =
  res_kind :: string
  res_fields :: "(string, json) dict"

datatype resource_error = OutsideRoots string | EmptyArguments | NulInArguments | EmptyKind

definition resource_payload :: "resource \<Rightarrow> (string, json) dict" where
  "resource_payload r = fold (\<lambda>(k, v). AList.update k v) (res_fields r)
                             [(''kind'', JStr (res_kind r))]"

definition resource_target :: "(rat \<Rightarrow> string) \<Rightarrow> resource \<Rightarrow> string" where
  "resource_target fl r = canonical_json fl (JObj (resource_payload r))"

definition resolve_root :: "(string \<Rightarrow> string) \<Rightarrow> (string \<Rightarrow> string) \<Rightarrow> string \<Rightarrow> string \<Rightarrow> string" where
  "resolve_root expanduser resolve base_dir base = resolve (join_path base (expanduser base_dir))"

definition filesystem_resource ::
  "(string \<Rightarrow> string) \<Rightarrow> (string \<Rightarrow> string) \<Rightarrow> string \<Rightarrow> string \<Rightarrow> string list \<Rightarrow> string \<Rightarrow>
     resource_error + resource" where
  "filesystem_resource expanduser resolve path operation roots cwd =
     (let requested = expanduser path;
          base = resolve (expanduser cwd);
          resolved = resolve (join_path base requested);
          roots' = map (\<lambda>r. resolve_root expanduser resolve r base) roots;
          matched = List.find (is_within resolved) roots'
      in if roots' \<noteq> [] \<and> matched = None then Inl (OutsideRoots resolved)
         else Inr \<lparr>res_kind = ''filesystem'',
                   res_fields = [(''operation'', JStr operation), (''path'', JStr resolved),
                     (''workspace_root'', JStr (case matched of Some r \<Rightarrow> r | None \<Rightarrow> []))]\<rparr>)"

definition path_name :: "string \<Rightarrow> string" where
  "path_name p = (case rev (path_parts p) of [] \<Rightarrow> [] | w # _ \<Rightarrow> w)"

definition shell_resource ::
  "(string \<Rightarrow> string) \<Rightarrow> (string \<Rightarrow> string) \<Rightarrow> (string \<Rightarrow> string option) \<Rightarrow>
     (string list \<Rightarrow> string) \<Rightarrow> string list \<Rightarrow> string \<Rightarrow> resource_error + resource" where
  "shell_resource expanduser resolve which shlex_join args operation =
     (case args of
        [] \<Rightarrow> Inl EmptyArguments
      | executable_input # rest \<Rightarrow>
          if \<exists>a \<in> set args. a = [] then Inl EmptyArguments
          else if \<exists>a \<in> set args. CHR 0x00 \<in> set a then Inl NulInArguments
          else let executable =
                 (if CHR ''/'' \<in> set executable_input then resolve (expanduser executable_input)
                  else (case which executable_input of
                          Some w \<Rightarrow> (if w = [] then executable_input else w)
                        | None \<Rightarrow> executable_input))
               in Inr \<lparr>res_kind = ''shell'',
                       res_fields = [(''operation'', JStr operation),
                         (''executable'', JStr executable),
                         (''executable_name'', JStr (path_name executable_input)),
                         (''resolved_executable_name'', JStr (path_name executable)),
                         (''arguments'', JArr (map JStr rest)),
                         (''command'', JStr (shlex_join args))]\<rparr>)"

fun res_field :: "string \<Rightarrow> resource \<Rightarrow> string" where
  "res_field k r = (case map_of (res_fields r) k of Some (JStr s) \<Rightarrow> s | _ \<Rightarrow> [])"

definition git_resource ::
  "(string \<Rightarrow> string) \<Rightarrow> (string \<Rightarrow> string) \<Rightarrow> string \<Rightarrow> string \<Rightarrow> string \<Rightarrow> string list \<Rightarrow>
     string list \<Rightarrow> string option \<Rightarrow> string option \<Rightarrow> resource_error + resource" where
  "git_resource expanduser resolve process_cwd operation cwd roots paths revision message =
     res_bind (filesystem_resource expanduser resolve cwd ''git repository'' roots process_cwd)
       (\<lambda>scope. let repository = res_field ''path'' scope in
         res_bind (res_map (\<lambda>p. res_bind
             (filesystem_resource expanduser resolve p ''git path'' [repository] repository)
             (\<lambda>r. Inr (res_field ''path'' r))) paths)
           (\<lambda>normalized. Inr \<lparr>res_kind = ''git'',
              res_fields = [(''operation'', JStr operation), (''repository'', JStr repository),
                  (''workspace_root'', JStr (res_field ''workspace_root'' scope)),
                  (''paths'', JArr (map JStr normalized))]
                @ (case revision of None \<Rightarrow> [] | Some r \<Rightarrow> [(''revision'', JStr r)])
                @ (case message of None \<Rightarrow> [] | Some m \<Rightarrow> [(''message'', JStr m)])\<rparr>))"

definition memory_resource ::
  "string \<Rightarrow> string \<Rightarrow> string \<Rightarrow> string \<Rightarrow> string \<Rightarrow> resource" where
  "memory_resource operation tenant scope_type scope_key backend =
     \<lparr>res_kind = ''memory'',
      res_fields = [(''operation'', JStr operation), (''tenant'', JStr tenant),
        (''scope_type'', JStr scope_type), (''scope_key'', JStr scope_key),
        (''backend'', JStr backend)]\<rparr>"

definition provider_resource ::
  "string \<Rightarrow> string \<Rightarrow> string \<Rightarrow> string option \<Rightarrow> resource" where
  "provider_resource operation provider model base_url =
     \<lparr>res_kind = ''provider'',
      res_fields = [(''operation'', JStr operation), (''provider'', JStr provider),
        (''model'', JStr model), (''base_url'', JStr (case base_url of Some u \<Rightarrow> u | None \<Rightarrow> []))]\<rparr>"

definition session_message_resource ::
  "string \<Rightarrow> string \<Rightarrow> string \<Rightarrow> string \<Rightarrow> resource" where
  "session_message_resource operation sender recipient digest =
     \<lparr>res_kind = ''session_message'',
      res_fields = [(''operation'', JStr operation), (''sender_session_id'', JStr sender),
        (''recipient_session_id'', JStr recipient), (''message_digest'', JStr digest),
        (''carries_user_authority'', JBool False)]\<rparr>"

text \<open>
  The digest of the arguments is a parameter; it is applied to the canonical text, which is
  plain ASCII.
\<close>

definition mcp_resource ::
  "(rat \<Rightarrow> string) \<Rightarrow> (string \<Rightarrow> string) \<Rightarrow> string \<Rightarrow> string \<Rightarrow> string \<Rightarrow> string \<Rightarrow> string \<Rightarrow>
     (string, json) dict \<Rightarrow> resource" where
  "mcp_resource fl digest operation server_id transport endpoint name arguments =
     \<lparr>res_kind = ''mcp'',
      res_fields = [(''operation'', JStr operation), (''server_id'', JStr server_id),
        (''transport'', JStr transport), (''endpoint'', JStr endpoint), (''name'', JStr name),
        (''argument_names'', JArr (map JStr (sort (map fst arguments)))),
        (''arguments_digest'', JStr (digest (canonical_json fl (JObj arguments))))]\<rparr>"

subsection \<open>Option parsing for Polaris commands\<close>

fun partition_eq :: "string \<Rightarrow> string \<times> bool \<times> string" where
  "partition_eq [] = ([], False, [])"
| "partition_eq (c # cs) =
     (if c = CHR ''='' then ([], True, cs)
      else (case partition_eq cs of (k, sep, v) \<Rightarrow> (c # k, sep, v)))"

fun option_values_from :: "string list \<Rightarrow> (string, string) dict \<Rightarrow> (string, string) dict" where
  "option_values_from [] values = values"
| "option_values_from [item] values =
     (if starts_with item ''--'' then
        (case partition_eq (remove_prefix item ''--'') of
           (key, True, v) \<Rightarrow> AList.update key v values
         | (key, False, v) \<Rightarrow> values)
      else values)"
| "option_values_from (item # nxt # rest) values =
     (if starts_with item ''--'' then
        (case partition_eq (remove_prefix item ''--'') of
           (key, True, v) \<Rightarrow> option_values_from (nxt # rest) (AList.update key v values)
         | (key, False, v) \<Rightarrow> option_values_from rest (AList.update key nxt values))
      else option_values_from (nxt # rest) values)"

definition option_values :: "string list \<Rightarrow> (string, string) dict" where
  "option_values args = option_values_from args []"

fun split_dashdash :: "string list \<Rightarrow> (string list \<times> string list) option" where
  "split_dashdash [] = None"
| "split_dashdash (a # as) =
     (if a = ''--'' then Some ([], as)
      else map_option (\<lambda>(b, r). (a # b, r)) (split_dashdash as))"

definition dict_get :: "(string, string) dict \<Rightarrow> string \<Rightarrow> string \<Rightarrow> string" where
  "dict_get d k dflt = (case map_of d k of Some v \<Rightarrow> v | None \<Rightarrow> dflt)"

definition polaris_resource ::
  "string list \<Rightarrow> string option \<Rightarrow> resource_error + resource" where
  "polaris_resource args default_catalog =
     (if args = [] \<or> (\<exists>a \<in> set args. a = []) then Inl EmptyArguments
      else let operation = py_join ''.'' (take 2 args);
               rest = drop 2 args;
               (option_tokens, positional) =
                 (case split_dashdash rest of
                    Some (opts, pos) \<Rightarrow> (opts, pos)
                  | None \<Rightarrow> (rest, filter (\<lambda>a. \<not> starts_with a ''-'') rest));
               values = option_values option_tokens;
               role = dict_get values ''catalog-role'' (dict_get values ''principal-role'' [])
           in Inr \<lparr>res_kind = ''polaris'',
                res_fields = [(''operation'', JStr operation),
                  (''catalog'', JStr (dict_get values ''catalog''
                      (case default_catalog of Some c \<Rightarrow> c | None \<Rightarrow> []))),
                  (''namespace'', JStr (dict_get values ''namespace'' [])),
                  (''table'', JStr (dict_get values ''table'' [])),
                  (''resource'', JStr (dict_get values ''resource''
                      (case positional of [] \<Rightarrow> [] | p # _ \<Rightarrow> p))),
                  (''role'', JStr role),
                  (''policy'', JStr (dict_get values ''policy'' [])),
                  (''arguments'', JArr (map JStr args))]\<rparr>)"

definition resource_from_payload :: "(string, json) dict \<Rightarrow> resource_error + resource" where
  "resource_from_payload payload =
     (case map_of payload ''kind'' of
        Some (JStr kind) \<Rightarrow>
          (if py_strip kind = [] then Inl EmptyKind
           else Inr \<lparr>res_kind = py_strip kind,
                     res_fields = filter (\<lambda>(k, v). k \<noteq> ''kind'') payload\<rparr>)
      | _ \<Rightarrow> Inl EmptyKind)"

subsection \<open>Granted filesystem resources lie under a root\<close>

lemma find_is_within:
  "List.find P xs = Some x \<Longrightarrow> P x \<and> x \<in> set xs"
  by (auto simp: find_Some_iff_first)

lemma filesystem_resource_under_root:
  assumes "filesystem_resource expanduser resolve path operation roots cwd = Inr r"
    and "roots \<noteq> []"
  shows "\<exists>base_dir \<in> set roots.
           is_within (res_field ''path'' r)
             (resolve_root expanduser resolve base_dir (resolve (expanduser cwd)))"
  using assms
  by (auto simp: filesystem_resource_def Let_def split: if_splits dest!: find_is_within)

text \<open>
  C15. Containment of granted paths. When workspace roots are configured, a filesystem resource
  is produced only for a path whose components extend the components of one of the resolved
  roots. Paths such as \<open>/work-secret\<close> are not under \<open>/work\<close>. The operating system's
  resolution is assumed to return absolute normalised paths.
\<close>

theorem filesystem_resource_contained:
  assumes "\<And>p. \<exists>ws. resolve p = absolute_path ws \<and> (\<forall>w \<in> set ws. path_word w)"
    and "filesystem_resource expanduser resolve path operation roots cwd = Inr r"
    and "roots \<noteq> []"
  shows "\<exists>base_dir \<in> set roots. \<exists>zs.
           path_parts (res_field ''path'' r) =
             path_parts (resolve_root expanduser resolve base_dir (resolve (expanduser cwd))) @ zs"
proof -
  let ?res = "\<lambda>base_dir. resolve_root expanduser resolve base_dir (resolve (expanduser cwd))"
  obtain base_dir where base_dir: "base_dir \<in> set roots" and w: "is_within (res_field ''path'' r) (?res base_dir)"
    using filesystem_resource_under_root [OF assms(2,3)] by blast
  have "res_field ''path'' r = resolve (join_path (resolve (expanduser cwd)) (expanduser path))"
    using assms(2) by (auto simp: filesystem_resource_def Let_def split: if_splits)
  then obtain ps where ps: "res_field ''path'' r = absolute_path ps" "\<forall>w \<in> set ps. path_word w"
    using assms(1) by metis
  obtain rs where rs: "?res base_dir = absolute_path rs" "\<forall>w \<in> set rs. path_word w"
    using assms(1) [of "join_path (resolve (expanduser cwd)) (expanduser base_dir)"]
    by (auto simp: resolve_root_def)
  from w ps rs have "\<exists>zs. ps = rs @ zs" by (simp add: is_within_iff_prefix)
  then have "\<exists>zs. path_parts (res_field ''path'' r) = path_parts (?res base_dir) @ zs"
    using ps rs by (simp add: path_parts_absolute_path del: res_field.simps)
  with base_dir show ?thesis by blast
qed

text \<open>A file system without symbolic links: resolution drops empty and \<open>.\<close> components.\<close>

definition plain_resolve :: "string \<Rightarrow> string" where
  "plain_resolve p = absolute_path (path_parts p)"

lemma path_parts_words: "w \<in> set (path_parts p) \<Longrightarrow> path_word w"
  by (auto simp: path_parts_def path_word_def dest: set_split_on)

theorem filesystem_resource_contained_witness:
  "path_parts ''/work/src/a.py'' = [''work'', ''src'', ''a.py'']
   \<and> (\<exists>base_dir \<in> set [''/work'']. \<exists>zs.
        path_parts (res_field ''path'' \<lparr>res_kind = ''filesystem'',
            res_fields = [(''operation'', JStr ''read''), (''path'', JStr ''/work/src/a.py''),
              (''workspace_root'', JStr ''/work'')]\<rparr>)
        = path_parts (resolve_root id plain_resolve base_dir (plain_resolve (id ''/work''))) @ zs)"
proof -
  have ok: "\<exists>ws. plain_resolve p = absolute_path ws \<and> (\<forall>w \<in> set ws. path_word w)" for p
    by (rule exI [of _ "path_parts p"]) (auto simp: plain_resolve_def intro: path_parts_words)
  have run: "filesystem_resource id plain_resolve ''src/./a.py'' ''read'' [''/work''] ''/work''
     = Inr \<lparr>res_kind = ''filesystem'',
            res_fields = [(''operation'', JStr ''read''), (''path'', JStr ''/work/src/a.py''),
              (''workspace_root'', JStr ''/work'')]\<rparr>"
    by code_simp
  have parts: "path_parts ''/work/src/a.py'' = [''work'', ''src'', ''a.py'']" by code_simp
  show ?thesis
    using parts filesystem_resource_contained [OF ok run] by simp
qed

end
