(* ===== verification/Permissions.thy ===== *)
theory Permissions
  imports Resources
begin

text \<open>
  \<open>src/loro/permissions.py\<close> with the settings of \<open>PermissionsConfig\<close> and
  \<open>PermissionRuleConfig\<close> (\<open>src/loro/config.py\<close>): the ordered rule list, the per-tool default
  decision and the guard \<open>require_allowed\<close> every effect of the runtime goes through. Decisions
  are linearly ordered by restrictiveness, the order the profile and policy layers narrow
  along. The text of a float inside a resource field is a parameter.
\<close>

subsection \<open>Decisions\<close>

datatype decision = Allow | Ask | Deny

fun decision_rank :: "decision \<Rightarrow> nat" where
  "decision_rank Allow = 0"
| "decision_rank Ask = 1"
| "decision_rank Deny = 2"

lemma decision_rank_inj [simp]: "decision_rank a = decision_rank b \<longleftrightarrow> a = b"
  by (cases a; cases b) auto

instantiation decision :: linorder
begin

definition less_eq_decision :: "decision \<Rightarrow> decision \<Rightarrow> bool" where
  "less_eq_decision a b = (decision_rank a \<le> decision_rank b)"

definition less_decision :: "decision \<Rightarrow> decision \<Rightarrow> bool" where
  "less_decision a b = (decision_rank a < decision_rank b)"

instance
  by standard (auto simp: less_eq_decision_def less_decision_def)

end

lemma Deny_greatest [simp]: "d \<le> Deny"
  by (cases d) (auto simp: less_eq_decision_def)

lemma Allow_least [simp]: "Allow \<le> d"
  by (cases d) (auto simp: less_eq_decision_def)

subsection \<open>Configuration\<close>

record permission_rule =
  rule_tool :: string
  rule_action :: string
  rule_target :: string
  rule_resource_kind :: string
  rule_resource :: "(string, string) dict"
  rule_decision :: decision
  rule_reason :: "string option"

record permissions_config =
  perm_version :: string
  perm_default :: decision
  perm_shell :: decision
  perm_edit :: decision
  perm_artifact :: decision
  perm_shared_memory :: decision
  perm_governed_data :: decision
  perm_mcp :: decision
  perm_skills :: decision
  perm_session_message :: decision
  perm_web :: decision
  perm_plugins :: decision
  perm_workspace_roots :: "string list"
  perm_rules :: "permission_rule list"

definition default_permissions :: permissions_config where
  "default_permissions =
     \<lparr>perm_version = ''local-v1'', perm_default = Ask, perm_shell = Ask, perm_edit = Ask,
      perm_artifact = Ask, perm_shared_memory = Ask, perm_governed_data = Allow, perm_mcp = Ask,
      perm_skills = Ask, perm_session_message = Ask, perm_web = Deny, perm_plugins = Ask,
      perm_workspace_roots = [], perm_rules = []\<rparr>"

record permission_request =
  req_tool :: string
  req_action :: string
  req_target :: "string option"
  req_resource :: "resource option"

text \<open>
  \<open>getattr(self.config, request.tool, self.config.default)\<close> reads any attribute of the
  configuration object. The decision fields give a decision; \<open>version\<close>, \<open>workspace_roots\<close>,
  \<open>rules\<close> and the attributes of the model base class (the parameter \<open>base_attr\<close>) give some
  other value, \<open>Foreign\<close>; a name that is no attribute gives the default.
\<close>

datatype policy_value = Decided decision | Foreign

record permission_result =
  result_decision :: policy_value
  result_reason :: string
  result_policy_version :: string
  result_policy_source :: string
  result_matched_rule :: "nat option"
  result_resource :: "resource option"

definition decision_fields :: "permissions_config \<Rightarrow> (string \<times> decision) list" where
  "decision_fields cfg =
     [(''default'', perm_default cfg), (''shell'', perm_shell cfg), (''edit'', perm_edit cfg),
      (''artifact'', perm_artifact cfg), (''shared_memory'', perm_shared_memory cfg),
      (''governed_data'', perm_governed_data cfg), (''mcp'', perm_mcp cfg),
      (''skills'', perm_skills cfg), (''session_message'', perm_session_message cfg),
      (''web'', perm_web cfg), (''plugins'', perm_plugins cfg)]"

definition config_attribute ::
  "(string \<Rightarrow> bool) \<Rightarrow> permissions_config \<Rightarrow> string \<Rightarrow> policy_value" where
  "config_attribute base_attr cfg tool =
     (case map_of (decision_fields cfg) tool of
        Some d \<Rightarrow> Decided d
      | None \<Rightarrow> (if tool \<in> {''version'', ''workspace_roots'', ''rules''} \<or> base_attr tool then Foreign
                 else Decided (perm_default cfg)))"

subsection \<open>Rule matching\<close>

definition matches :: "string \<Rightarrow> string \<Rightarrow> bool" where
  "matches pattern value = fnmatchcase (casefold value) (casefold pattern)"

fun field_value :: "(rat \<Rightarrow> string) \<Rightarrow> json \<Rightarrow> string" where
  "field_value fl (JArr xs) = canonical_json fl (JArr xs)"
| "field_value fl (JObj d) = canonical_json fl (JObj d)"
| "field_value fl (JStr s) = s"
| "field_value fl (JBool b) = (if b then ''True'' else ''False'')"
| "field_value fl (JInt i) = int_str i"
| "field_value fl (JFloat r) = fl r"
| "field_value fl JNull = ''None''"

definition resource_field_matches :: "string \<Rightarrow> string \<Rightarrow> string \<Rightarrow> string \<Rightarrow> bool" where
  "resource_field_matches kind field pattern value =
     (if kind \<in> {''filesystem'', ''git''}
         \<and> field \<in> {''path'', ''workspace_root'', ''repository'', ''paths''}
      then fnmatchcase value pattern else matches pattern value)"

definition fields_match :: "(rat \<Rightarrow> string) \<Rightarrow> (string, string) dict \<Rightarrow> resource \<Rightarrow> bool" where
  "fields_match fl patterns r =
     list_all (\<lambda>(field, pattern).
       case map_of (res_fields r) field of
         None \<Rightarrow> False
       | Some v \<Rightarrow> resource_field_matches (res_kind r) field pattern (field_value fl v)) patterns"

definition matches_resource ::
  "(rat \<Rightarrow> string) \<Rightarrow> string \<Rightarrow> (string, string) dict \<Rightarrow> resource option \<Rightarrow> bool" where
  "matches_resource fl kind_pattern patterns res =
     (case res of
        None \<Rightarrow> kind_pattern = ''*'' \<and> patterns = []
      | Some r \<Rightarrow> ((kind_pattern = ''*'' \<and> patterns = []) \<or> matches kind_pattern (res_kind r))
                  \<and> fields_match fl patterns r)"

definition request_target :: "(rat \<Rightarrow> string) \<Rightarrow> permission_request \<Rightarrow> string" where
  "request_target fl req =
     (case req_target req of
        Some (c # cs) \<Rightarrow> c # cs
      | _ \<Rightarrow> (case req_resource req of Some r \<Rightarrow> resource_target fl r | None \<Rightarrow> []))"

definition rule_matches ::
  "(rat \<Rightarrow> string) \<Rightarrow> permission_request \<Rightarrow> permission_rule \<Rightarrow> bool" where
  "rule_matches fl req rule =
     (matches (rule_tool rule) (req_tool req) \<and> matches (rule_action rule) (req_action req)
      \<and> matches (rule_target rule) (request_target fl req)
      \<and> matches_resource fl (rule_resource_kind rule) (rule_resource rule) (req_resource req))"

subsection \<open>Evaluation\<close>

fun first_match ::
  "(rat \<Rightarrow> string) \<Rightarrow> permission_request \<Rightarrow> nat \<Rightarrow> permission_rule list \<Rightarrow>
     (nat \<times> permission_rule) option" where
  "first_match fl req i [] = None"
| "first_match fl req i (rule # rules) =
     (if rule_matches fl req rule then Some (i, rule) else first_match fl req (Suc i) rules)"

definition evaluate ::
  "(rat \<Rightarrow> string) \<Rightarrow> (string \<Rightarrow> bool) \<Rightarrow> permissions_config \<Rightarrow> permission_request \<Rightarrow>
     permission_result" where
  "evaluate fl base_attr cfg req =
     (case first_match fl req 0 (perm_rules cfg) of
        Some (i, rule) \<Rightarrow>
          \<lparr>result_decision = Decided (rule_decision rule),
           result_reason = (case rule_reason rule of
                              Some (c # cs) \<Rightarrow> c # cs
                            | _ \<Rightarrow> ''matched configured permission rule''),
           result_policy_version = perm_version cfg,
           result_policy_source = ''permissions.rules['' @ nat_str i @ '']'',
           result_matched_rule = Some i,
           result_resource = req_resource req\<rparr>
      | None \<Rightarrow>
          \<lparr>result_decision = config_attribute base_attr cfg (req_tool req),
           result_reason = req_tool req @ '' uses configured policy'',
           result_policy_version = perm_version cfg,
           result_policy_source = ''permissions.'' @ req_tool req,
           result_matched_rule = None,
           result_resource = req_resource req\<rparr>)"

datatype permission_error = DeniedByPolicy string string | RequiresApproval string

definition require_allowed ::
  "(rat \<Rightarrow> string) \<Rightarrow> (string \<Rightarrow> bool) \<Rightarrow> permissions_config \<Rightarrow> permission_request \<Rightarrow> bool \<Rightarrow>
     permission_error + permission_result" where
  "require_allowed fl base_attr cfg req approved =
     (let result = evaluate fl base_attr cfg req in
      if result_decision result = Decided Deny
      then Inl (DeniedByPolicy (req_tool req) (req_action req))
      else if result_decision result = Decided Ask \<and> \<not> approved
      then Inl (RequiresApproval (req_tool req))
      else Inr result)"

subsection \<open>The first matching rule decides\<close>

lemma first_match_None:
  "first_match fl req i rules = None \<longleftrightarrow> (\<forall>rule \<in> set rules. \<not> rule_matches fl req rule)"
  by (induction rules arbitrary: i) auto

lemma first_match_append:
  "first_match fl req i (xs @ ys) =
     (case first_match fl req i xs of
        Some p \<Rightarrow> Some p | None \<Rightarrow> first_match fl req (i + length xs) ys)"
  by (induction xs arbitrary: i) (auto split: option.splits)

lemma first_match_Some:
  "first_match fl req i rules = Some (j, rule) \<longleftrightarrow>
     i \<le> j \<and> j - i < length rules \<and> rules ! (j - i) = rule \<and> rule_matches fl req rule
     \<and> (\<forall>k < j - i. \<not> rule_matches fl req (rules ! k))"
proof (induction rules arbitrary: i)
  case Nil
  then show ?case by simp
next
  case (Cons r rules)
  show ?case
  proof (cases "rule_matches fl req r")
    case True
    then show ?thesis
      by (auto simp: nth_Cons' split: if_splits)
  next
    case False
    have "first_match fl req i (r # rules) = Some (j, rule) \<longleftrightarrow>
        Suc i \<le> j \<and> j - Suc i < length rules \<and> rules ! (j - Suc i) = rule
        \<and> rule_matches fl req rule
        \<and> (\<forall>k < j - Suc i. \<not> rule_matches fl req (rules ! k))"
      using False by (simp add: Cons.IH)
    also have "\<dots> \<longleftrightarrow> i \<le> j \<and> j - i < length (r # rules) \<and> (r # rules) ! (j - i) = rule
        \<and> rule_matches fl req rule
        \<and> (\<forall>k < j - i. \<not> rule_matches fl req ((r # rules) ! k))"
    proof (cases "i < j")
      case True
      then obtain d where d: "j - i = Suc d" by (metis Suc_diff_Suc)
      then have "j - Suc i = d" by simp
      with True d False show ?thesis by (simp add: All_less_Suc2)
    next
      case False': False
      with False show ?thesis by auto
    qed
    finally show ?thesis .
  qed
qed

lemma evaluate_by_rule:
  assumes "j < length (perm_rules cfg)" and "rule_matches fl req (perm_rules cfg ! j)"
    and "\<forall>k < j. \<not> rule_matches fl req (perm_rules cfg ! k)"
  shows "result_decision (evaluate fl base_attr cfg req) = Decided (rule_decision (perm_rules cfg ! j))"
    and "result_matched_rule (evaluate fl base_attr cfg req) = Some j"
proof -
  have "first_match fl req 0 (perm_rules cfg) = Some (j, perm_rules cfg ! j)"
    using assms by (simp add: first_match_Some)
  then show "result_decision (evaluate fl base_attr cfg req) = Decided (rule_decision (perm_rules cfg ! j))"
    and "result_matched_rule (evaluate fl base_attr cfg req) = Some j"
    by (simp_all add: evaluate_def)
qed

lemma evaluate_by_default:
  assumes "\<forall>rule \<in> set (perm_rules cfg). \<not> rule_matches fl req rule"
  shows "result_decision (evaluate fl base_attr cfg req) = config_attribute base_attr cfg (req_tool req)"
    and "result_matched_rule (evaluate fl base_attr cfg req) = None"
  using assms by (simp_all add: evaluate_def first_match_None [THEN iffD2])

text \<open>
  C4. A matching deny rule is final. When rule \<open>j\<close> is the first that matches a request and
  denies, the request is refused whatever rules follow it, whatever the per-tool settings are
  and whether or not an approval was given.
\<close>

theorem deny_rule_is_final:
  assumes "take (Suc j) (perm_rules cfg') = take (Suc j) rules" and "j < length rules"
    and "rule_matches fl req (rules ! j)"
    and "\<forall>k < j. \<not> rule_matches fl req (rules ! k)"
    and "rule_decision (rules ! j) = Deny"
  shows "require_allowed fl base_attr cfg' req approved
           = Inl (DeniedByPolicy (req_tool req) (req_action req))"
proof -
  have len: "j < length (perm_rules cfg')"
    using arg_cong [OF assms(1), of length] assms(2) by simp
  have same: "perm_rules cfg' ! k = rules ! k" if "k \<le> j" for k
    using arg_cong [OF assms(1), of "\<lambda>xs. xs ! k"] that by (simp add: le_imp_less_Suc)
  have "result_decision (evaluate fl base_attr cfg' req) = Decided Deny"
    using evaluate_by_rule(1) [OF len, of fl req base_attr] assms(3-5) by (simp add: same)
  then show ?thesis by (simp add: require_allowed_def)
qed

definition deny_secret_rule :: permission_rule where
  "deny_secret_rule =
     \<lparr>rule_tool = ''edit'', rule_action = ''*'', rule_target = ''*secret*'',
      rule_resource_kind = ''*'', rule_resource = [], rule_decision = Deny, rule_reason = None\<rparr>"

definition edit_secret_request :: permission_request where
  "edit_secret_request =
     \<lparr>req_tool = ''edit'', req_action = ''Write'', req_target = Some ''/a/SECRET.txt'',
      req_resource = None\<rparr>"

lemma deny_secret_rule_matches: "rule_matches (\<lambda>_. []) edit_secret_request deny_secret_rule"
  by code_simp

theorem deny_rule_is_final_witness:
  "require_allowed (\<lambda>_. []) (\<lambda>_. False)
     (default_permissions\<lparr>perm_rules := [deny_secret_rule, deny_secret_rule\<lparr>rule_decision := Allow\<rparr>]\<rparr>)
     edit_secret_request True
   = Inl (DeniedByPolicy ''edit'' ''Write'')"
  using deny_rule_is_final
    [of 0 "default_permissions\<lparr>perm_rules := [deny_secret_rule, deny_secret_rule\<lparr>rule_decision := Allow\<rparr>]\<rparr>"
        "[deny_secret_rule]" "\<lambda>_. []" edit_secret_request "\<lambda>_. False" True]
    deny_secret_rule_matches
  by (simp add: deny_secret_rule_def edit_secret_request_def)



text \<open>
  A tool named after an attribute of the configuration that is no decision passes the guard
  without approval, even when the default denies.
\<close>

lemma foreign_attribute_fails_open:
  assumes "\<forall>rule \<in> set (perm_rules cfg). \<not> rule_matches fl req rule"
    and "req_tool req = ''version''"
  shows "\<exists>r. require_allowed fl base_attr cfg req False = Inr r"
  using evaluate_by_default [OF assms(1), of base_attr] assms(2)
  by (auto simp: require_allowed_def config_attribute_def decision_fields_def Let_def)

end
