(* ===== verification/Oidc.thy ===== *)
theory Oidc
  imports Json_Value
begin

text \<open>
  \<open>src/loro/oidc.py\<close>: key discovery and caching, and the verification of a compact signed
  token, with the settings of \<open>OIDCConfig\<close> (\<open>src/loro/config.py\<close>). The record \<open>oidc_env\<close> holds
  what the module calls: HTTP, URL splitting, base64 and JSON decoding, and the signature
  primitives of the \<open>cryptography\<close> package. Times are whole seconds. The main lemma states
  everything an accepted token has passed.
\<close>

subsection \<open>Configuration\<close>

record oidc_config =
  oc_enabled :: bool
  oc_issuer :: "string option"
  oc_client_id :: "string option"
  oc_audience :: "string option"
  oc_algorithms :: "string list"
  oc_clock_skew :: int
  oc_jwks_cache :: int
  oc_discovery_url :: "string option"
  oc_jwks_uri :: "string option"
  oc_token_env :: string
  oc_required :: bool
  oc_subject_claim :: string
  oc_display_name_claim :: string
  oc_tenant_claim :: "string option"
  oc_organization_claim :: "string option"
  oc_groups_claim :: string
  oc_roles_claim :: string

definition supported_algorithms :: "string list" where
  "supported_algorithms =
     [''RS256'', ''RS384'', ''RS512'', ''PS256'', ''PS384'', ''PS512'',
      ''ES256'', ''ES384'', ''ES512'', ''EdDSA'']"

datatype oidc_config_error = UnsupportedAlgorithms "string list" | NoAlgorithm | NoIssuer | NoAudienceSetting

definition is_set :: "string option \<Rightarrow> bool" where
  "is_set v = (v \<noteq> None \<and> v \<noteq> Some [])"

definition or_empty :: "string option \<Rightarrow> string" where
  "or_empty v = (case v of Some s \<Rightarrow> s | None \<Rightarrow> [])"

definition validate_oidc_config :: "oidc_config \<Rightarrow> oidc_config_error + oidc_config" where
  "validate_oidc_config cfg =
     (let unknown = filter (\<lambda>a. a \<notin> set supported_algorithms) (oc_algorithms cfg) in
      if unknown \<noteq> [] then Inl (UnsupportedAlgorithms unknown)
      else if oc_algorithms cfg = [] then Inl NoAlgorithm
      else if oc_enabled cfg \<and> \<not> is_set (oc_issuer cfg) then Inl NoIssuer
      else if oc_enabled cfg \<and> \<not> (is_set (oc_client_id cfg) \<or> is_set (oc_audience cfg))
      then Inl NoAudienceSetting
      else Inr cfg)"

subsection \<open>Environment and errors\<close>

datatype http_response = Unreachable | Response int int "json option"

datatype signature_check = SigValid | SigInvalid | SigMalformed

record oidc_env =
  env_get :: "string \<Rightarrow> http_response"
  env_scheme :: "string \<Rightarrow> string"
  env_host :: "string \<Rightarrow> string"
  env_loopback_ip :: "string \<Rightarrow> bool"
  env_b64 :: "string \<Rightarrow> string option"
  env_loads :: "string \<Rightarrow> json option"
  env_repr :: "json \<Rightarrow> string"
  env_rsa_size :: "nat \<Rightarrow> nat \<Rightarrow> nat option"
  env_rsa_verify :: "nat \<Rightarrow> nat \<Rightarrow> string \<Rightarrow> string \<Rightarrow> string \<Rightarrow> signature_check"
  env_ec_verify :: "string \<Rightarrow> nat \<Rightarrow> nat \<Rightarrow> nat \<Rightarrow> nat \<Rightarrow> string \<Rightarrow> string \<Rightarrow> signature_check"
  env_ed_verify :: "string \<Rightarrow> string \<Rightarrow> string \<Rightarrow> signature_check"

datatype oidc_error =
    InsecureUrl string | ProviderUnreachable | ProviderStatus int | DocumentTooLarge
  | DocumentNotJson | DocumentNotObject | DifferentDiscoveryIssuer | NoJwksUri | UnknownKey
  | AmbiguousKey | TokenTooLarge | NotSignedJwt | NotBase64 | TokenNotJson | TokenNotObject
  | AlgorithmNotAllowed | CriticalHeader | KeyAlgorithmMismatch | KeyTypeMismatch | WeakKey
  | CurveMismatch | SignatureLength | UnsupportedKeyType | BadSignature | MalformedKey
  | WrongIssuer | AudienceNotConfigured | AudienceMalformed | WrongAudience | WrongParty
  | NoExpiry | TokenExpired | NotYetValid | IssuedInFuture | WrongNonce | NoSubject

definition b64decode :: "oidc_env \<Rightarrow> string \<Rightarrow> oidc_error + string" where
  "b64decode env s = (case env_b64 env s of Some b \<Rightarrow> Inr b | None \<Rightarrow> Inl NotBase64)"

definition loopback :: "oidc_env \<Rightarrow> string \<Rightarrow> bool" where
  "loopback env url = (env_host env url = ''localhost'' \<or> env_loopback_ip env (env_host env url))"

definition require_secure_url :: "oidc_env \<Rightarrow> string \<Rightarrow> oidc_error + string" where
  "require_secure_url env url =
     (if env_scheme env url = ''https'' \<or> (env_scheme env url = ''http'' \<and> loopback env url)
      then Inr url else Inl (InsecureUrl url))"

subsection \<open>Discovery and the key cache\<close>

type_synonym jwk = "(string, json) dict"

record key_cache =
  kc_metadata :: "(string, json) dict option"
  kc_keys :: "(string, jwk) dict"
  kc_fetched_at :: "int option"

definition refresh_cooldown :: int where
  "refresh_cooldown = 30"

definition max_document_bytes :: int where
  "max_document_bytes = 1000000"

definition max_token_chars :: int where
  "max_token_chars = 16384"

definition get_json :: "oidc_env \<Rightarrow> string \<Rightarrow> oidc_error + (string, json) dict" where
  "get_json env url =
     res_bind (require_secure_url env url) (\<lambda>_.
       case env_get env url of
         Unreachable \<Rightarrow> Inl ProviderUnreachable
       | Response status n body \<Rightarrow>
           (if status \<noteq> 200 then Inl (ProviderStatus status)
            else if max_document_bytes < n then Inl DocumentTooLarge
            else case body of
                   None \<Rightarrow> Inl DocumentNotJson
                 | Some (JObj d) \<Rightarrow> Inr d
                 | Some _ \<Rightarrow> Inl DocumentNotObject))"

definition strip_slash :: "string \<Rightarrow> string" where
  "strip_slash s = rstrip_by (\<lambda>c. c = CHR ''/'') s"

definition get_str :: "(json \<Rightarrow> string) \<Rightarrow> (string, json) dict \<Rightarrow> string \<Rightarrow> string" where
  "get_str rp d k = (case map_of d k of Some v \<Rightarrow> py_str rp v | None \<Rightarrow> [])"

definition get_or_empty :: "(json \<Rightarrow> string) \<Rightarrow> (string, json) dict \<Rightarrow> string \<Rightarrow> string" where
  "get_or_empty rp d k =
     (case map_of d k of Some v \<Rightarrow> (if truthy v then py_str rp v else []) | None \<Rightarrow> [])"

definition issuer_of :: "oidc_config \<Rightarrow> string" where
  "issuer_of cfg = strip_slash (or_empty (oc_issuer cfg))"

definition provider_metadata ::
  "oidc_env \<Rightarrow> oidc_config \<Rightarrow> key_cache \<Rightarrow> (oidc_error + (string, json) dict) \<times> key_cache" where
  "provider_metadata env cfg c =
     (case kc_metadata c of
        Some m \<Rightarrow> (Inr m, c)
      | None \<Rightarrow>
          (let url = (if is_set (oc_discovery_url cfg) then or_empty (oc_discovery_url cfg)
                      else issuer_of cfg @ ''/.well-known/openid-configuration'') in
           case get_json env url of
             Inl e \<Rightarrow> (Inl e, c)
           | Inr d \<Rightarrow> (if strip_slash (get_str (env_repr env) d ''issuer'') \<noteq> issuer_of cfg
                       then (Inl DifferentDiscoveryIssuer, c)
                       else (Inr d, c\<lparr>kc_metadata := Some d\<rparr>))))"

text \<open>The signing keys of a key-set document, under their key id or position.\<close>

fun jwks_keys :: "(json \<Rightarrow> string) \<Rightarrow> nat \<Rightarrow> json list \<Rightarrow> (string, jwk) dict \<Rightarrow> (string, jwk) dict" where
  "jwks_keys rp i [] acc = acc"
| "jwks_keys rp i (JObj key # ks) acc =
     (if (case map_of key ''use'' of None \<Rightarrow> True | Some u \<Rightarrow> u = JStr ''sig'')
      then jwks_keys rp (Suc i) ks
             (AList.update (case map_of key ''kid'' of
                              Some v \<Rightarrow> (if truthy v then py_str rp v else CHR ''#'' # nat_str i)
                            | None \<Rightarrow> CHR ''#'' # nat_str i) key acc)
      else jwks_keys rp (Suc i) ks acc)"
| "jwks_keys rp i (_ # ks) acc = jwks_keys rp (Suc i) ks acc"

definition document_keys :: "(string, json) dict \<Rightarrow> json list" where
  "document_keys d = (case map_of d ''keys'' of Some (JArr ks) \<Rightarrow> ks | _ \<Rightarrow> [])"

definition refresh_keys ::
  "oidc_env \<Rightarrow> oidc_config \<Rightarrow> int \<Rightarrow> bool \<Rightarrow> key_cache \<Rightarrow>
     (oidc_error + (string, jwk) dict) \<times> key_cache" where
  "refresh_keys env cfg now force c =
     (let fresh = (case kc_fetched_at c of None \<Rightarrow> False | Some t \<Rightarrow> now - t < oc_jwks_cache cfg);
          cooling = (case kc_fetched_at c of None \<Rightarrow> False | Some t \<Rightarrow> now - t < refresh_cooldown)
      in if kc_keys c \<noteq> [] \<and> ((fresh \<and> \<not> force) \<or> cooling) then (Inr (kc_keys c), c)
         else
           (let (uri, c1) =
              (if is_set (oc_jwks_uri cfg) then (Inr (or_empty (oc_jwks_uri cfg)), c)
               else (case provider_metadata env cfg c of
                       (Inl e, c1) \<Rightarrow> (Inl e, c1)
                     | (Inr m, c1) \<Rightarrow> (Inr (get_or_empty (env_repr env) m ''jwks_uri''), c1)))
            in case uri of
                 Inl e \<Rightarrow> (Inl e, c1)
               | Inr u \<Rightarrow>
                   (if u = [] then (Inl NoJwksUri, c1)
                    else case get_json env u of
                           Inl e \<Rightarrow> (Inl e, c1)
                         | Inr d \<Rightarrow>
                             (let keys = jwks_keys (env_repr env) 0 (document_keys d) [] in
                              (Inr keys, c1\<lparr>kc_keys := keys, kc_fetched_at := Some now\<rparr>)))))"

definition kty_for :: "string \<Rightarrow> string" where
  "kty_for algorithm =
     (if starts_with algorithm ''RS'' \<or> starts_with algorithm ''PS'' then ''RSA''
      else if starts_with algorithm ''ES'' then ''EC'' else ''OKP'')"

definition key_candidates :: "string \<Rightarrow> (string, jwk) dict \<Rightarrow> jwk list" where
  "key_candidates alg keys =
     filter (\<lambda>key. map_of key ''kty'' = Some (JStr (kty_for alg))) (map snd keys)"

definition key_for ::
  "oidc_env \<Rightarrow> oidc_config \<Rightarrow> int \<Rightarrow> int \<Rightarrow> (string, json) dict \<Rightarrow> string \<Rightarrow> key_cache \<Rightarrow>
     (oidc_error + jwk) \<times> key_cache" where
  "key_for env cfg t1 t2 header alg c =
     (let kid = (case map_of header ''kid'' of
                   None \<Rightarrow> None | Some JNull \<Rightarrow> None | Some v \<Rightarrow> Some (py_str (env_repr env) v)) in
      case refresh_keys env cfg t1 False c of
        (Inl e, c1) \<Rightarrow> (Inl e, c1)
      | (Inr keys, c1) \<Rightarrow>
          (case kid of
             Some k \<Rightarrow>
               (case map_of keys k of
                  Some key \<Rightarrow> (Inr key, c1)
                | None \<Rightarrow>
                    (case refresh_keys env cfg t2 True c1 of
                       (Inl e, c2) \<Rightarrow> (Inl e, c2)
                     | (Inr keys2, c2) \<Rightarrow>
                         (case map_of keys2 k of
                            Some key \<Rightarrow> (Inr key, c2) | None \<Rightarrow> (Inl UnknownKey, c2))))
           | None \<Rightarrow>
               (case key_candidates alg keys of
                  [key] \<Rightarrow> (Inr key, c1) | _ \<Rightarrow> (Inl AmbiguousKey, c1))))"

subsection \<open>Signatures\<close>

definition bytes_to_nat :: "string \<Rightarrow> nat" where
  "bytes_to_nat bs = foldl (\<lambda>n b. 256 * n + code b) 0 bs"

text \<open>A key field that is absent, no string or no base64 makes the key malformed.\<close>

definition key_bytes :: "oidc_env \<Rightarrow> jwk \<Rightarrow> string \<Rightarrow> oidc_error + string" where
  "key_bytes env key f =
     (case map_of key f of
        Some (JStr s) \<Rightarrow> b64decode env s
      | _ \<Rightarrow> Inl MalformedKey)"

definition check_result :: "signature_check \<Rightarrow> oidc_error + unit" where
  "check_result r = (case r of SigValid \<Rightarrow> Inr () | SigInvalid \<Rightarrow> Inl BadSignature
                     | SigMalformed \<Rightarrow> Inl MalformedKey)"

definition expected_curve :: "string \<Rightarrow> (string \<times> nat) option" where
  "expected_curve alg = map_of [(''ES256'', ''P-256'', 32), (''ES384'', ''P-384'', 48),
                                (''ES512'', ''P-521'', 66)] alg"

definition verify_rsa ::
  "oidc_env \<Rightarrow> jwk \<Rightarrow> string \<Rightarrow> string \<Rightarrow> string \<Rightarrow> oidc_error + unit" where
  "verify_rsa env key alg msg sig =
     res_bind (key_bytes env key ''e'') (\<lambda>eb. res_bind (key_bytes env key ''n'') (\<lambda>nb.
       case env_rsa_size env (bytes_to_nat eb) (bytes_to_nat nb) of
         None \<Rightarrow> Inl MalformedKey
       | Some bits \<Rightarrow>
           (if bits < 2048 then Inl WeakKey
            else check_result
                   (env_rsa_verify env (bytes_to_nat eb) (bytes_to_nat nb) alg msg sig))))"

definition verify_ec ::
  "oidc_env \<Rightarrow> jwk \<Rightarrow> string \<Rightarrow> string \<Rightarrow> string \<Rightarrow> oidc_error + unit" where
  "verify_ec env key alg msg sig =
     (case expected_curve alg of
        None \<Rightarrow> Inl MalformedKey
      | Some (curve, n) \<Rightarrow>
          (if map_of key ''crv'' \<noteq> Some (JStr curve) then Inl CurveMismatch
           else if length sig \<noteq> 2 * n then Inl SignatureLength
           else res_bind (key_bytes env key ''x'') (\<lambda>x. res_bind (key_bytes env key ''y'') (\<lambda>y.
             check_result (env_ec_verify env curve (bytes_to_nat x) (bytes_to_nat y)
               (bytes_to_nat (take n sig)) (bytes_to_nat (drop n sig)) (drop 2 alg) msg)))))"

definition verify_signature ::
  "oidc_env \<Rightarrow> jwk \<Rightarrow> string \<Rightarrow> string \<Rightarrow> string \<Rightarrow> oidc_error + unit" where
  "verify_signature env key alg msg sig =
     (if map_of key ''kty'' \<noteq> Some (JStr (kty_for alg)) then Inl KeyTypeMismatch
      else if kty_for alg = ''RSA'' then verify_rsa env key alg msg sig
      else if kty_for alg = ''EC'' then verify_ec env key alg msg sig
      else if map_of key ''crv'' = Some (JStr ''Ed25519'') then
        res_bind (key_bytes env key ''x'') (\<lambda>x. check_result (env_ed_verify env x sig msg))
      else Inl UnsupportedKeyType)"

subsection \<open>Claims\<close>

text \<open>The number a claim holds; Python counts a Boolean as a number.\<close>

definition num_claim :: "(string, json) dict \<Rightarrow> string \<Rightarrow> rat option" where
  "num_claim d k =
     (case map_of d k of
        Some (JInt i) \<Rightarrow> Some (of_int i)
      | Some (JFloat r) \<Rightarrow> Some r
      | Some (JBool b) \<Rightarrow> Some (if b then 1 else 0)
      | _ \<Rightarrow> None)"

definition audience_values :: "(string, json) dict \<Rightarrow> string list option" where
  "audience_values claims =
     (case map_of claims ''aud'' of
        Some (JStr a) \<Rightarrow> Some [a]
      | Some (JArr xs) \<Rightarrow>
          (if list_all (\<lambda>x. as_str x \<noteq> None) xs then Some (map (\<lambda>x. or_empty (as_str x)) xs)
           else None)
      | _ \<Rightarrow> None)"

definition expected_audience :: "oidc_config \<Rightarrow> string option \<Rightarrow> string" where
  "expected_audience cfg audience =
     (if is_set audience then or_empty audience
      else if is_set (oc_audience cfg) then or_empty (oc_audience cfg)
      else or_empty (oc_client_id cfg))"

definition check_times :: "int \<Rightarrow> int \<Rightarrow> (string, json) dict \<Rightarrow> oidc_error + unit" where
  "check_times now skew claims =
     (case num_claim claims ''exp'' of
        None \<Rightarrow> Inl NoExpiry
      | Some expiry \<Rightarrow>
          (if expiry + of_int skew < of_int now then Inl TokenExpired
           else if (case num_claim claims ''nbf'' of
                      Some nbf \<Rightarrow> of_int (now + skew) < nbf | None \<Rightarrow> False) then Inl NotYetValid
           else if (case num_claim claims ''iat'' of
                      Some iat \<Rightarrow> of_int (now + skew) < iat | None \<Rightarrow> False) then Inl IssuedInFuture
           else Inr ()))"

definition check_claims ::
  "oidc_env \<Rightarrow> oidc_config \<Rightarrow> int \<Rightarrow> (string, json) dict \<Rightarrow> string option \<Rightarrow> string option \<Rightarrow>
     oidc_error + unit" where
  "check_claims env cfg now claims audience nonce =
     (let expected = expected_audience cfg audience in
      if strip_slash (get_str (env_repr env) claims ''iss'') \<noteq> issuer_of cfg then Inl WrongIssuer
      else if expected = [] then Inl AudienceNotConfigured
      else case audience_values claims of
             None \<Rightarrow> Inl AudienceMalformed
           | Some values \<Rightarrow>
               (if expected \<notin> set values then Inl WrongAudience
                else if nonce \<noteq> None \<and> 1 < length values
                        \<and> map_of claims ''azp'' \<noteq> Some (JStr expected) then Inl WrongParty
                else res_bind (check_times now (oc_clock_skew cfg) claims) (\<lambda>_.
                  if nonce \<noteq> None \<and> map_of claims ''nonce'' \<noteq> map_option JStr nonce then Inl WrongNonce
                  else if (case map_of claims (oc_subject_claim cfg) of
                             Some v \<Rightarrow> \<not> truthy v | None \<Rightarrow> True) then Inl NoSubject
                  else Inr ())))"

subsection \<open>Verification of a token\<close>

definition decode_part :: "oidc_env \<Rightarrow> string \<Rightarrow> oidc_error + json" where
  "decode_part env s =
     (case env_b64 env s of
        None \<Rightarrow> Inl TokenNotJson
      | Some b \<Rightarrow> (case env_loads env b of Some v \<Rightarrow> Inr v | None \<Rightarrow> Inl TokenNotJson))"

definition split_token :: "string \<Rightarrow> oidc_error + string \<times> string \<times> string" where
  "split_token token =
     (if max_token_chars < int (length token) then Inl TokenTooLarge
      else case split_on (CHR ''.'') (py_strip token) of
             [a, b, c] \<Rightarrow> (if a = [] \<or> b = [] \<or> c = [] then Inl NotSignedJwt else Inr (a, b, c))
           | _ \<Rightarrow> Inl NotSignedJwt)"

definition token_objects ::
  "oidc_env \<Rightarrow> string \<Rightarrow> string \<Rightarrow> oidc_error + (string, json) dict \<times> (string, json) dict" where
  "token_objects env h c =
     res_bind (decode_part env h) (\<lambda>header. res_bind (decode_part env c) (\<lambda>claims.
       case (header, claims) of
         (JObj hdr, JObj cls) \<Rightarrow> Inr (hdr, cls) | _ \<Rightarrow> Inl TokenNotObject))"

definition header_algorithm :: "oidc_config \<Rightarrow> (string, json) dict \<Rightarrow> oidc_error + string" where
  "header_algorithm cfg header =
     (case map_of header ''alg'' of
        Some (JStr alg) \<Rightarrow>
          (if alg \<notin> set (oc_algorithms cfg) \<or> alg \<notin> set supported_algorithms
           then Inl AlgorithmNotAllowed
           else if (case map_of header ''crit'' of Some v \<Rightarrow> truthy v | None \<Rightarrow> False)
           then Inl CriticalHeader
           else Inr alg)
      | _ \<Rightarrow> Inl AlgorithmNotAllowed)"

definition key_allows :: "jwk \<Rightarrow> string \<Rightarrow> bool" where
  "key_allows key alg =
     (case map_of key ''alg'' of Some v \<Rightarrow> \<not> truthy v \<or> v = JStr alg | None \<Rightarrow> True)"

definition check_token ::
  "oidc_env \<Rightarrow> oidc_config \<Rightarrow> int \<Rightarrow> jwk \<Rightarrow> string \<Rightarrow> string \<times> string \<times> string \<Rightarrow>
     (string, json) dict \<Rightarrow> string option \<Rightarrow> string option \<Rightarrow> oidc_error + unit" where
  "check_token env cfg now key alg parts claims audience nonce =
     (case parts of (h, c, s) \<Rightarrow>
        if \<not> key_allows key alg then Inl KeyAlgorithmMismatch
        else res_bind (b64decode env s) (\<lambda>sig.
          res_bind (verify_signature env key alg (h @ ''.'' @ c) sig) (\<lambda>_.
            check_claims env cfg now claims audience nonce)))"

definition verify_token ::
  "oidc_env \<Rightarrow> oidc_config \<Rightarrow> int \<Rightarrow> int \<Rightarrow> int \<Rightarrow> key_cache \<Rightarrow> string \<Rightarrow> string option \<Rightarrow>
     string option \<Rightarrow> (oidc_error + (string, json) dict) \<times> key_cache" where
  "verify_token env cfg now t1 t2 cache token audience nonce =
     (case res_bind (split_token token) (\<lambda>(h, c, s).
             res_bind (token_objects env h c) (\<lambda>(header, claims).
               res_bind (header_algorithm cfg header) (\<lambda>alg.
                 Inr ((h, c, s), header, claims, alg)))) of
        Inl e \<Rightarrow> (Inl e, cache)
      | Inr (parts, header, claims, alg) \<Rightarrow>
          (case key_for env cfg t1 t2 header alg cache of
             (Inl e, cache') \<Rightarrow> (Inl e, cache')
           | (Inr key, cache') \<Rightarrow>
               (res_bind (check_token env cfg now key alg parts claims audience nonce)
                  (\<lambda>_. Inr claims), cache')))"

subsection \<open>What an accepted token has passed\<close>

text \<open>Every key of the cache after a lookup was cached before or came from a secure document.\<close>

lemma key_for_in_cache:
  assumes "key_for env cfg t1 t2 header alg c = (Inr key, c')"
  shows "key \<in> snd ` set (kc_keys c')"
proof -
  have refreshed: "keys = kc_keys c2" if "refresh_keys env cfg t f c1 = (Inr keys, c2)" for t f c1 c2 keys
    using that by (auto simp: refresh_keys_def Let_def split: if_splits sum.splits prod.splits)
  have mem: "k \<in> snd ` set d" if "map_of d i = Some k" for i :: string and k and d :: "(string, jwk) dict"
    using map_of_SomeD [OF that] by force
  have cand: "k \<in> snd ` set d" if "key_candidates alg d = k # ks" for k ks d
  proof -
    have "k \<in> set (key_candidates alg d)" using that by simp
    then show ?thesis by (auto simp: key_candidates_def)
  qed
  show ?thesis
    using assms
    by (auto simp: key_for_def Let_def split: sum.splits prod.splits option.splits list.splits
        dest!: refreshed dest: mem cand)
qed

lemma key_bytes_check:
  "verify_signature env key alg msg sig = Inr u \<Longrightarrow> map_of key ''kty'' = Some (JStr (kty_for alg))"
  by (auto simp: verify_signature_def split: if_splits)

lemma check_times_sound:
  assumes "check_times now skew claims = Inr u"
  shows "\<exists>expiry. num_claim claims ''exp'' = Some expiry \<and> of_int now \<le> expiry + of_int skew"
    and "num_claim claims ''nbf'' = Some nbf \<Longrightarrow> nbf \<le> of_int (now + skew)"
    and "num_claim claims ''iat'' = Some iat \<Longrightarrow> iat \<le> of_int (now + skew)"
  using assms by (auto simp: check_times_def split: option.splits if_splits)

lemma check_claims_sound:
  assumes "check_claims env cfg now claims audience nonce = Inr u"
  shows "strip_slash (get_str (env_repr env) claims ''iss'') = issuer_of cfg"
    and "\<exists>values. audience_values claims = Some values \<and> expected_audience cfg audience \<in> set values
                  \<and> expected_audience cfg audience \<noteq> []"
    and "check_times now (oc_clock_skew cfg) claims = Inr ()"
    and "nonce = Some n \<Longrightarrow> map_of claims ''nonce'' = Some (JStr n)"
    and "\<exists>v. map_of claims (oc_subject_claim cfg) = Some v \<and> truthy v"
  using assms
  by (auto simp: check_claims_def Let_def res_simps split: option.splits if_splits)

lemma header_algorithm_sound:
  assumes "header_algorithm cfg header = Inr alg"
  shows "map_of header ''alg'' = Some (JStr alg)" and "alg \<in> set (oc_algorithms cfg)"
    and "alg \<in> set supported_algorithms"
  using assms by (auto simp: header_algorithm_def split: option.splits json.splits if_splits)

lemma supported_not_symmetric:
  "alg \<in> set supported_algorithms \<Longrightarrow> alg \<noteq> ''none'' \<and> \<not> starts_with alg ''HS''"
  by (auto simp: supported_algorithms_def)

lemma token_objects_sound:
  assumes "token_objects env h c = Inr (header, claims)"
  shows "decode_part env h = Inr (JObj header)" and "decode_part env c = Inr (JObj claims)"
proof -
  obtain x y where "decode_part env h = Inr x" "decode_part env c = Inr y"
    and "(case (x, y) of (JObj hdr, JObj cls) \<Rightarrow> Inr (hdr, cls) | _ \<Rightarrow> Inl TokenNotObject)
           = Inr (header, claims)"
    using assms by (auto simp: token_objects_def res_simps)
  then show "decode_part env h = Inr (JObj header)" and "decode_part env c = Inr (JObj claims)"
    by (cases x; cases y; simp)+
qed

text \<open>
  C14. What an accepted token has passed. A token is accepted only when its algorithm is on the
  configured and the built-in allowlist (never \<open>none\<close>, never an HMAC), a key of the issuer's key
  set of the matching type verifies the signature over the token's own header and claims, the
  issuer and audience are the configured ones, it has not expired and is not used early beyond
  the clock skew, the nonce of the login attempt is its nonce, and it names a subject.
\<close>

theorem accepted_token_is_verified:
  assumes "verify_token env cfg now t1 t2 cache token audience nonce = (Inr claims, cache')"
  shows "\<exists>h c s header alg key sig expiry.
      split_on (CHR ''.'') (py_strip token) = [h, c, s] \<and> int (length token) \<le> max_token_chars
    \<and> decode_part env h = Inr (JObj header) \<and> decode_part env c = Inr (JObj claims)
    \<and> map_of header ''alg'' = Some (JStr alg)
    \<and> alg \<in> set (oc_algorithms cfg) \<and> alg \<noteq> ''none'' \<and> \<not> starts_with alg ''HS''
    \<and> key \<in> snd ` set (kc_keys cache') \<and> map_of key ''kty'' = Some (JStr (kty_for alg))
    \<and> b64decode env s = Inr sig \<and> verify_signature env key alg (h @ ''.'' @ c) sig = Inr ()
    \<and> strip_slash (get_str (env_repr env) claims ''iss'') = issuer_of cfg
    \<and> (\<exists>values. audience_values claims = Some values \<and> expected_audience cfg audience \<in> set values)
    \<and> num_claim claims ''exp'' = Some expiry \<and> of_int now \<le> expiry + of_int (oc_clock_skew cfg)
    \<and> (\<forall>n. nonce = Some n \<longrightarrow> map_of claims ''nonce'' = Some (JStr n))
    \<and> (\<exists>v. map_of claims (oc_subject_claim cfg) = Some v \<and> truthy v)"
proof -
  obtain h c s header alg key where
    parts: "split_token token = Inr (h, c, s)" and
    objs: "token_objects env h c = Inr (header, claims)" and
    alg: "header_algorithm cfg header = Inr alg" and
    key: "key_for env cfg t1 t2 header alg cache = (Inr key, cache')" and
    tok: "check_token env cfg now key alg (h, c, s) claims audience nonce = Inr ()"
    using assms
    by (auto simp: verify_token_def res_simps split: sum.splits prod.splits)
  obtain sig where sig: "b64decode env s = Inr sig"
    "verify_signature env key alg (h @ ''.'' @ c) sig = Inr ()"
    and cl: "check_claims env cfg now claims audience nonce = Inr ()"
    using tok by (auto simp: check_token_def res_simps split: if_splits)
  obtain expiry where "num_claim claims ''exp'' = Some expiry" "of_int now \<le> expiry + of_int (oc_clock_skew cfg)"
    using check_times_sound(1) [OF check_claims_sound(3) [OF cl]] by blast
  moreover have "split_on (CHR ''.'') (py_strip token) = [h, c, s]" "int (length token) \<le> max_token_chars"
    using parts by (auto simp: split_token_def split: if_splits list.splits)
  moreover have "decode_part env h = Inr (JObj header)" "decode_part env c = Inr (JObj claims)"
    using token_objects_sound [OF objs] by simp_all
  moreover note header_algorithm_sound [OF alg] key_for_in_cache [OF key] key_bytes_check [OF sig(2)]
    sig check_claims_sound(1,2,4,5) [OF cl]
  moreover have "alg \<noteq> ''none''" "\<not> starts_with alg ''HS''"
    using supported_not_symmetric [OF header_algorithm_sound(3) [OF alg]] by simp_all
  ultimately show ?thesis
    by (rule_tac x = h in exI, rule_tac x = c in exI, rule_tac x = s in exI,
        rule_tac x = header in exI, rule_tac x = alg in exI, rule_tac x = key in exI,
        rule_tac x = sig in exI, rule_tac x = expiry in exI) blast
qed

text \<open>A provider with one Ed25519 key, and a token for it.\<close>

definition example_oidc_env :: oidc_env where
  "example_oidc_env =
     \<lparr>env_get = (\<lambda>_. Response 200 100 (Some (JObj [(''keys'', JArr [JObj
         [(''kid'', JStr ''k1''), (''kty'', JStr ''OKP''), (''crv'', JStr ''Ed25519''), (''x'', JStr ''pk'')]])]))),
      env_scheme = (\<lambda>_. ''https''), env_host = (\<lambda>_. ''idp''), env_loopback_ip = (\<lambda>_. False),
      env_b64 = Some,
      env_loads = (\<lambda>s. if s = ''H'' then Some (JObj [(''alg'', JStr ''EdDSA''), (''kid'', JStr ''k1'')])
                        else if s = ''C'' then Some (JObj [(''iss'', JStr ''https://idp''), (''aud'', JStr ''loro''),
                          (''exp'', JInt 200), (''sub'', JStr ''ada''), (''nonce'', JStr ''n'')])
                        else None),
      env_repr = (\<lambda>_. []), env_rsa_size = (\<lambda>_ _. None), env_rsa_verify = (\<lambda>_ _ _ _ _. SigInvalid),
      env_ec_verify = (\<lambda>_ _ _ _ _ _ _. SigInvalid),
      env_ed_verify = (\<lambda>key sig msg. if sig = ''S'' \<and> msg = ''H.C'' then SigValid else SigInvalid)\<rparr>"

definition example_oidc_config :: oidc_config where
  "example_oidc_config =
     \<lparr>oc_enabled = True, oc_issuer = Some ''https://idp/'', oc_client_id = Some ''loro'',
      oc_audience = None, oc_algorithms = [''RS256'', ''EdDSA''], oc_clock_skew = 60,
      oc_jwks_cache = 3600, oc_discovery_url = None, oc_jwks_uri = Some ''https://idp/jwks'',
      oc_token_env = ''LORO_ID_TOKEN'', oc_required = True, oc_subject_claim = ''sub'',
      oc_display_name_claim = ''name'', oc_tenant_claim = Some ''tenant'',
      oc_organization_claim = None, oc_groups_claim = ''groups'', oc_roles_claim = ''roles''\<rparr>"

definition empty_key_cache :: key_cache where
  "empty_key_cache = \<lparr>kc_metadata = None, kc_keys = [], kc_fetched_at = None\<rparr>"

definition example_claims :: "(string, json) dict" where
  "example_claims = [(''iss'', JStr ''https://idp''), (''aud'', JStr ''loro''),
     (''exp'', JInt 200), (''sub'', JStr ''ada''), (''nonce'', JStr ''n'')]"

lemma example_token_accepted:
  "fst (verify_token example_oidc_env example_oidc_config 250 0 0 empty_key_cache ''H.C.S'' None (Some ''n''))
     = Inr example_claims"
  by code_simp

theorem accepted_token_is_verified_witness:
  "\<exists>alg expiry. alg \<in> set (oc_algorithms example_oidc_config) \<and> alg \<noteq> ''none''
     \<and> num_claim example_claims ''exp'' = Some expiry \<and> (250::rat) \<le> expiry + 60"
proof -
  obtain cache' where run:
    "verify_token example_oidc_env example_oidc_config 250 0 0 empty_key_cache ''H.C.S'' None (Some ''n'')
       = (Inr example_claims, cache')"
    using example_token_accepted by (metis prod.collapse)
  from accepted_token_is_verified [OF run] show ?thesis
    by (auto simp: example_oidc_config_def)
qed

end
