(* ===== verification/Identity.thy ===== *)
theory Identity
  imports Oidc
begin

text \<open>
  \<open>src/loro/identity.py\<close> with \<open>IdentityConfig\<close> (\<open>src/loro/config.py\<close>) and the claim mapping of
  \<open>src/loro/oidc.py\<close>: how the actor of a run is resolved from configuration, environment and a
  verified token. The operating system's user name, the session id of the process and the
  token verifier are parameters. The lemmas show that configured fields win over the
  environment and that only a verified token makes an identity verified.
\<close>

subsection \<open>Data\<close>

record identity_config =
  ic_scalars :: "(string, string) dict"
  ic_groups :: "string list"
  ic_roles :: "string list"
  ic_environment_enabled :: bool
  ic_environment_prefix :: string
  ic_required_fields :: "string list"
  ic_oidc :: oidc_config

record identity_context =
  id_subject :: string
  id_display_name :: string
  id_organization :: "string option"
  id_tenant :: string
  id_groups :: "string list"
  id_roles :: "string list"
  id_auth_method :: string
  id_session_id :: string
  id_source :: string
  id_verified :: bool

record identity_diagnostic =
  diag_context :: identity_context
  diag_required :: "string list"
  diag_missing :: "string list"

datatype identity_error = MissingFields "string list" | TokenRequired | TokenRejected oidc_error

definition scalar_fields :: "string list" where
  "scalar_fields = [''subject'', ''display_name'', ''organization'', ''tenant'', ''auth_method'',
                    ''session_id'', ''source'']"

definition identity_payload :: "identity_context \<Rightarrow> (string, json) dict" where
  "identity_payload c =
     [(''subject'', JStr (id_subject c)), (''display_name'', JStr (id_display_name c)),
      (''organization'', (case id_organization c of Some s \<Rightarrow> JStr s | None \<Rightarrow> JNull)),
      (''tenant'', JStr (id_tenant c)), (''groups'', JArr (map JStr (id_groups c))),
      (''roles'', JArr (map JStr (id_roles c))), (''auth_method'', JStr (id_auth_method c)),
      (''session_id'', JStr (id_session_id c)), (''source'', JStr (id_source c)),
      (''verified'', JBool (id_verified c))]"

subsection \<open>Configuration and environment\<close>

definition clean :: "string option \<Rightarrow> string option" where
  "clean v = (case v of
     None \<Rightarrow> None | Some s \<Rightarrow> (if py_strip s = [] then None else Some (py_strip s)))"

text \<open>The entries of a dictionary comprehension over field names that have a value.\<close>

definition present_fields :: "(string \<Rightarrow> string option) \<Rightarrow> string list \<Rightarrow> (string, string) dict" where
  "present_fields get names = concat (map (\<lambda>f. case get f of Some v \<Rightarrow> [(f, v)] | None \<Rightarrow> []) names)"

definition environment_values :: "identity_config \<Rightarrow> (string, string) dict \<Rightarrow> (string, string) dict" where
  "environment_values cfg environ =
     present_fields
       (\<lambda>f. clean (map_of environ (ic_environment_prefix cfg @ map upper_char f)))
       (scalar_fields @ [''groups'', ''roles''])"

definition config_values :: "identity_config \<Rightarrow> (string, string) dict" where
  "config_values cfg = present_fields (\<lambda>f. clean (map_of (ic_scalars cfg) f)) scalar_fields"

definition split_values :: "string option \<Rightarrow> string list" where
  "split_values v = (case v of
     None \<Rightarrow> []
   | Some s \<Rightarrow> filter (\<lambda>x. x \<noteq> []) (map py_strip (split_on (CHR '','') s)))"

definition or_else :: "'a option \<Rightarrow> 'a \<Rightarrow> 'a" where
  "or_else v d = (case v of Some x \<Rightarrow> x | None \<Rightarrow> d)"

definition environment_used :: "identity_config \<Rightarrow> (string, string) dict \<Rightarrow> bool" where
  "environment_used cfg env_values =
     (\<exists>f \<in> set (map fst env_values).
        f \<notin> set (map fst (config_values cfg))
        \<and> (f = ''groups'' \<longrightarrow> ic_groups cfg = []) \<and> (f = ''roles'' \<longrightarrow> ic_roles cfg = []))"

definition configured_identity :: "identity_config \<Rightarrow> bool" where
  "configured_identity cfg = (config_values cfg \<noteq> [] \<or> ic_groups cfg \<noteq> [] \<or> ic_roles cfg \<noteq> [])"

definition build_identity_context ::
  "string \<Rightarrow> string \<Rightarrow> identity_config \<Rightarrow> (string, string) dict \<Rightarrow> identity_context" where
  "build_identity_context local_user process_session cfg environ =
     (let env_values = (if ic_environment_enabled cfg then environment_values cfg environ else []);
          merged = (\<lambda>f. case map_of (config_values cfg) f of
                          Some v \<Rightarrow> Some v | None \<Rightarrow> map_of env_values f);
          subject = or_else (merged ''subject'') local_user;
          used = environment_used cfg env_values;
          method = (if used then ''environment''
                    else if configured_identity cfg then ''configured'' else ''os_user'');
          source = (if used then ''environment''
                    else if configured_identity cfg then ''config'' else ''local'')
      in \<lparr>id_subject = subject,
          id_display_name = or_else (merged ''display_name'') subject,
          id_organization = clean (merged ''organization''),
          id_tenant = or_else (merged ''tenant'') ''default'',
          id_groups = (if ic_groups cfg \<noteq> [] then ic_groups cfg
                       else split_values (map_of env_values ''groups'')),
          id_roles = (if ic_roles cfg \<noteq> [] then ic_roles cfg
                      else split_values (map_of env_values ''roles'')),
          id_auth_method = or_else (merged ''auth_method'') method,
          id_session_id = or_else (merged ''session_id'') process_session,
          id_source = or_else (merged ''source'') source,
          id_verified = False\<rparr>)"

definition asserted_fields :: "identity_config \<Rightarrow> (string, string) dict \<Rightarrow> string list" where
  "asserted_fields cfg environ =
     map fst (config_values cfg)
     @ (if ic_groups cfg \<noteq> [] then [''groups''] else [])
     @ (if ic_roles cfg \<noteq> [] then [''roles''] else [])
     @ (if ic_environment_enabled cfg then map fst (environment_values cfg environ) else [])"

subsection \<open>Claims of a verified token\<close>

text \<open>A dotted name reaches into nested claims; \<open>None\<close> and an absent claim are both \<open>JNull\<close>.\<close>

fun claim_path :: "json \<Rightarrow> string list \<Rightarrow> json" where
  "claim_path v [] = v"
| "claim_path (JObj d) (p # ps) = claim_path (or_else (map_of d p) JNull) ps"
| "claim_path _ (p # ps) = claim_path JNull ps"

fun claim_present_path :: "json \<Rightarrow> string list \<Rightarrow> bool" where
  "claim_present_path v [] = True"
| "claim_present_path (JObj d) (p # ps) =
     (case map_of d p of Some v \<Rightarrow> claim_present_path v ps | None \<Rightarrow> False)"
| "claim_present_path _ (p # ps) = False"

definition claim_present :: "(string, json) dict \<Rightarrow> string \<Rightarrow> bool" where
  "claim_present claims name = claim_present_path (JObj claims) (split_on (CHR ''.'') name)"

definition claim_values ::
  "(json \<Rightarrow> string) \<Rightarrow> (string, json) dict \<Rightarrow> string option \<Rightarrow> string list" where
  "claim_values rp claims name =
     (if \<not> is_set name then []
      else case claim_path (JObj claims) (split_on (CHR ''.'') (or_empty name)) of
             JStr s \<Rightarrow> py_split (replace_char (CHR '','') (CHR '' '') s)
           | JArr xs \<Rightarrow> filter (\<lambda>s. s \<noteq> []) (map (py_str rp) xs)
           | _ \<Rightarrow> [])"

definition claim_value ::
  "(json \<Rightarrow> string) \<Rightarrow> (string, json) dict \<Rightarrow> string option \<Rightarrow> string option" where
  "claim_value rp claims name =
     (if \<not> is_set name then None
      else case claim_path (JObj claims) (split_on (CHR ''.'') (or_empty name)) of
             JStr s \<Rightarrow> Some s
           | JInt i \<Rightarrow> Some (int_str i)
           | JBool b \<Rightarrow> Some (if b then ''True'' else ''False'')
           | _ \<Rightarrow> (case claim_values rp claims name of v # _ \<Rightarrow> Some v | [] \<Rightarrow> None))"

definition nonempty_or :: "string option \<Rightarrow> string \<Rightarrow> string" where
  "nonempty_or v d = (case v of Some (c # cs) \<Rightarrow> c # cs | _ \<Rightarrow> d)"

definition identity_from_claims ::
  "(json \<Rightarrow> string) \<Rightarrow> string \<Rightarrow> oidc_config \<Rightarrow> (string, json) dict \<Rightarrow> identity_context" where
  "identity_from_claims rp process_session oc claims =
     (let subject = or_else (claim_value rp claims (Some (oc_subject_claim oc))) ''None'' in
      \<lparr>id_subject = subject,
       id_display_name = nonempty_or (claim_value rp claims (Some (oc_display_name_claim oc))) subject,
       id_organization = claim_value rp claims (oc_organization_claim oc),
       id_tenant = nonempty_or (claim_value rp claims (oc_tenant_claim oc)) ''default'',
       id_groups = claim_values rp claims (Some (oc_groups_claim oc)),
       id_roles = claim_values rp claims (Some (oc_roles_claim oc)),
       id_auth_method = ''oidc'', id_session_id = process_session,
       id_source = ''oidc:'' @ strip_slash (get_str rp claims ''iss''),
       id_verified = True\<rparr>)"

definition token_asserted :: "oidc_config \<Rightarrow> (string, json) dict \<Rightarrow> string list" where
  "token_asserted oc claims =
     [''subject'', ''display_name'', ''auth_method'', ''session_id'', ''source'']
     @ concat (map (\<lambda>(field, claim).
         if is_set claim \<and> claim_present claims (or_empty claim) then [field] else [])
         [(''tenant'', oc_tenant_claim oc), (''organization'', oc_organization_claim oc),
          (''groups'', Some (oc_groups_claim oc)), (''roles'', Some (oc_roles_claim oc))])"

subsection \<open>Resolution\<close>

type_synonym token_verifier = "string \<Rightarrow> oidc_error + (string, json) dict"

definition supplied_token :: "oidc_config \<Rightarrow> (string, string) dict \<Rightarrow> string option \<Rightarrow> string option" where
  "supplied_token oc environ token =
     (if is_set token then token else clean (map_of environ (oc_token_env oc)))"

definition verified_context ::
  "(json \<Rightarrow> string) \<Rightarrow> token_verifier \<Rightarrow> string \<Rightarrow> identity_config \<Rightarrow> (string, string) dict \<Rightarrow>
     string option \<Rightarrow> identity_error + (identity_context \<times> string list) option" where
  "verified_context rp verify process_session cfg environ token =
     (let oc = ic_oidc cfg in
      if \<not> oc_enabled oc then Inr None
      else case supplied_token oc environ token of
             None \<Rightarrow> (if oc_required oc then Inl TokenRequired else Inr None)
           | Some t \<Rightarrow>
               (case verify t of
                  Inl e \<Rightarrow> Inl (TokenRejected e)
                | Inr claims \<Rightarrow>
                    Inr (Some (identity_from_claims rp process_session oc claims,
                               token_asserted oc claims))))"

definition missing_fields :: "identity_config \<Rightarrow> string list \<Rightarrow> string list" where
  "missing_fields cfg asserted = filter (\<lambda>f. f \<notin> set asserted) (ic_required_fields cfg)"

definition diagnose_identity ::
  "(json \<Rightarrow> string) \<Rightarrow> token_verifier \<Rightarrow> string \<Rightarrow> string \<Rightarrow> identity_config \<Rightarrow>
     (string, string) dict \<Rightarrow> string option \<Rightarrow> identity_error + identity_diagnostic" where
  "diagnose_identity rp verify local_user process_session cfg environ token =
     res_bind (verified_context rp verify process_session cfg environ token) (\<lambda>v.
       let (context, asserted) =
         (case v of
            Some p \<Rightarrow> p
          | None \<Rightarrow> (build_identity_context local_user process_session cfg environ,
                     asserted_fields cfg environ))
       in Inr \<lparr>diag_context = context, diag_required = ic_required_fields cfg,
               diag_missing = missing_fields cfg asserted\<rparr>)"

definition resolve_identity ::
  "(json \<Rightarrow> string) \<Rightarrow> token_verifier \<Rightarrow> string \<Rightarrow> string \<Rightarrow> identity_config \<Rightarrow>
     (string, string) dict \<Rightarrow> string option \<Rightarrow> identity_error + identity_context" where
  "resolve_identity rp verify local_user process_session cfg environ token =
     res_bind (diagnose_identity rp verify local_user process_session cfg environ token) (\<lambda>d.
       if diag_missing d \<noteq> [] then Inl (MissingFields (diag_missing d)) else Inr (diag_context d))"

subsection \<open>Configured fields are locked\<close>

lemma map_of_present_fields:
  "map_of (present_fields get names) f = (if f \<in> set names then get f else None)"
  by (induction names) (auto simp: present_fields_def split: option.splits)

lemma config_values_get:
  "map_of (config_values cfg) f = (if f \<in> set scalar_fields then clean (map_of (ic_scalars cfg) f) else None)"
  by (simp add: config_values_def map_of_present_fields)

lemma clean_idem: "clean v = Some s \<Longrightarrow> s \<noteq> []"
  by (auto simp: clean_def split: option.splits if_splits)

text \<open>
  Managed configuration locks the identity. Whatever the environment says, a subject, tenant,
  session or authentication method the configuration sets, and the groups and roles it lists,
  are the ones of the resolved identity.
\<close>

theorem configured_fields_win:
  assumes "clean (map_of (ic_scalars cfg) ''tenant'') = Some tenant"
    and "clean (map_of (ic_scalars cfg) ''subject'') = Some subject"
    and "clean (map_of (ic_scalars cfg) ''session_id'') = Some session"
    and "clean (map_of (ic_scalars cfg) ''auth_method'') = Some auth"
    and "ic_groups cfg \<noteq> []" and "ic_roles cfg \<noteq> []"
  shows "let c = build_identity_context user process cfg environ in
           id_tenant c = tenant \<and> id_subject c = subject \<and> id_session_id c = session
           \<and> id_auth_method c = auth \<and> id_groups c = ic_groups cfg \<and> id_roles c = ic_roles cfg"
  using assms
  by (simp add: build_identity_context_def config_values_get Let_def or_else_def scalar_fields_def)

definition managed_identity :: identity_config where
  "managed_identity =
     \<lparr>ic_scalars = [(''subject'', ''svc''), (''tenant'', '' acme ''), (''session_id'', ''s1''), (''auth_method'', ''managed'')],
      ic_groups = [''ops''], ic_roles = [''auditor''], ic_environment_enabled = True,
      ic_environment_prefix = ''LORO_IDENTITY_'', ic_required_fields = [''tenant''],
      ic_oidc = example_oidc_config\<rparr>"

theorem configured_fields_win_witness:
  "id_tenant (build_identity_context ''me'' ''p'' managed_identity
      [(''LORO_IDENTITY_TENANT'', ''evil''), (''LORO_IDENTITY_GROUPS'', ''admins'')]) = ''acme''"
proof -
  have c: "clean (map_of (ic_scalars managed_identity) ''tenant'') = Some ''acme''"
    "clean (map_of (ic_scalars managed_identity) ''subject'') = Some ''svc''"
    "clean (map_of (ic_scalars managed_identity) ''session_id'') = Some ''s1''"
    "clean (map_of (ic_scalars managed_identity) ''auth_method'') = Some ''managed''"
    by code_simp+
  have g: "ic_groups managed_identity \<noteq> []" "ic_roles managed_identity \<noteq> []"
    by (simp_all add: managed_identity_def)
  show ?thesis
    using configured_fields_win [OF c g, of "''me''" "''p''"
        "[(''LORO_IDENTITY_TENANT'', ''evil''), (''LORO_IDENTITY_GROUPS'', ''admins'')]"]
    by (simp add: Let_def)
qed

subsection \<open>Only a verified token makes an identity verified\<close>

lemma verified_context_Some:
  "verified_context rp verify ps cfg environ token = Inr (Some (ctx, asserted)) \<Longrightarrow>
     \<exists>t claims. oc_enabled (ic_oidc cfg) \<and> supplied_token (ic_oidc cfg) environ token = Some t
       \<and> verify t = Inr claims \<and> ctx = identity_from_claims rp ps (ic_oidc cfg) claims
       \<and> asserted = token_asserted (ic_oidc cfg) claims"
  by (auto simp: verified_context_def Let_def split: if_splits option.splits sum.splits)

lemma built_identity_unverified: "\<not> id_verified (build_identity_context u ps cfg environ)"
  by (simp add: build_identity_context_def Let_def)

text \<open>
  C37. Identity fails closed. A resolved identity asserts every required field; it is marked
  verified exactly when a supplied token was accepted by the verifier; and when a verified
  identity is required, no other identity is returned.
\<close>

theorem identity_fails_closed:
  assumes "resolve_identity rp verify user ps cfg environ token = Inr ctx"
  shows "(id_verified ctx \<longleftrightarrow>
            (\<exists>t claims. oc_enabled (ic_oidc cfg) \<and> supplied_token (ic_oidc cfg) environ token = Some t
               \<and> verify t = Inr claims \<and> ctx = identity_from_claims rp ps (ic_oidc cfg) claims
               \<and> set (ic_required_fields cfg) \<subseteq> set (token_asserted (ic_oidc cfg) claims)))
       \<and> (oc_enabled (ic_oidc cfg) \<and> oc_required (ic_oidc cfg) \<longrightarrow> id_verified ctx)
       \<and> (\<not> id_verified ctx \<longrightarrow>
            set (ic_required_fields cfg) \<subseteq> set (asserted_fields cfg environ)
            \<and> ctx = build_identity_context user ps cfg environ)"
proof -
  obtain v where v: "verified_context rp verify ps cfg environ token = Inr v"
    and ctx: "ctx = (case v of Some (c, a) \<Rightarrow> c | None \<Rightarrow> build_identity_context user ps cfg environ)"
    and req: "set (ic_required_fields cfg) \<subseteq>
      set (case v of Some (c, a) \<Rightarrow> a | None \<Rightarrow> asserted_fields cfg environ)"
    using assms
    by (fastforce simp: resolve_identity_def diagnose_identity_def res_simps Let_def missing_fields_def
        filter_empty_conv split: option.splits if_splits prod.splits)
  have verified: "id_verified (identity_from_claims rp ps oc claims)" for oc claims
    by (simp add: identity_from_claims_def Let_def)
  show ?thesis
  proof (cases v)
    case None
    have "\<not> (oc_enabled (ic_oidc cfg) \<and> oc_required (ic_oidc cfg))"
      using v None by (auto simp: verified_context_def Let_def split: option.splits sum.splits)
    moreover have built: "ctx = build_identity_context user ps cfg environ" using ctx None by simp
    moreover have "\<not> id_verified ctx" by (simp add: built built_identity_unverified)
    moreover have "ctx \<noteq> identity_from_claims rp ps oc claims" for oc claims
      using \<open>\<not> id_verified ctx\<close> verified by metis
    ultimately show ?thesis using req None by simp
  next
    case (Some p)
    obtain c a where p: "p = (c, a)" by (cases p) auto
    with Some ctx v have "verified_context rp verify ps cfg environ token = Inr (Some (ctx, a))"
      by simp
    from verified_context_Some [OF this] show ?thesis using verified req Some p by auto
  qed
qed

theorem identity_fails_closed_witness:
  "let ctx = build_identity_context ''me'' ''p'' (managed_identity\<lparr>ic_oidc := example_oidc_config\<lparr>oc_enabled := False\<rparr>\<rparr>) []
   in \<not> id_verified ctx \<and> set [''tenant''] \<subseteq> set (asserted_fields
        (managed_identity\<lparr>ic_oidc := example_oidc_config\<lparr>oc_enabled := False\<rparr>\<rparr>) [])"
proof -
  let ?cfg = "managed_identity\<lparr>ic_oidc := example_oidc_config\<lparr>oc_enabled := False\<rparr>\<rparr>"
  let ?ctx = "build_identity_context ''me'' ''p'' ?cfg []"
  have tenant: "''tenant'' \<in> set (asserted_fields ?cfg [])" by code_simp
  have "resolve_identity (\<lambda>_. []) (\<lambda>_. Inl NotBase64) ''me'' ''p'' ?cfg [] None = Inr ?ctx"
    using tenant
    by (simp add: resolve_identity_def diagnose_identity_def verified_context_def Let_def
        missing_fields_def managed_identity_def)
  from identity_fails_closed [OF this] show ?thesis
    by (simp add: Let_def built_identity_unverified managed_identity_def)
qed

text \<open>
  A tenant claim that is present but empty counts as asserted, although the identity then gets
  the tenant \<open>default\<close>: a required tenant does not rule the default tenant out.
\<close>

lemma empty_tenant_claim_is_asserted:
  "resolve_identity (\<lambda>_. []) (\<lambda>_. Inr [(''sub'', JStr ''ada''), (''tenant'', JNull)]) ''me'' ''p''
     (managed_identity\<lparr>ic_required_fields := [''tenant'']\<rparr>) [] (Some ''t'')
   = Inr \<lparr>id_subject = ''ada'', id_display_name = ''ada'', id_organization = None,
          id_tenant = ''default'', id_groups = [], id_roles = [], id_auth_method = ''oidc'',
          id_session_id = ''p'', id_source = ''oidc:'', id_verified = True\<rparr>"
  by code_simp

end
