(* ===== verification/Approvals.thy ===== *)
theory Approvals
  imports Permissions Identity
begin

text \<open>
  \<open>src/loro/approvals.py\<close>, first part: requests, records, the manager and the contract of its
  store. A store hands out handles on records; \<open>op_read\<close> reads the record behind a handle and
  \<open>op_assign\<close> is the assignment to its attributes, which writes through to the store when the
  store keeps the very object (\<open>InMemoryApprovalStore\<close>) and only changes a private copy when
  the store decoded it from a file (\<open>JsonApprovalStore\<close>). The locale \<open>approval_store\<close> states
  what the manager needs of a store, and the lemmas about the manager are proved once inside
  it. The two stores and their interpretations are in \<open>Approval_Stores\<close>, the interleaving of
  several consumers is in \<open>Approval_Races\<close>. Times are integers in microseconds; fresh
  identifiers and the clock are arguments.
\<close>

subsection \<open>Requests\<close>

record approval_request =
  ar_action :: string
  ar_target :: string
  ar_arguments :: "(string, json) dict"
  ar_subject :: string
  ar_tenant :: string
  ar_session :: string
  ar_policy_decision :: string
  ar_policy_version :: string
  ar_policy_source :: string
  ar_policy_reason :: string
  ar_risk_reason :: string
  ar_request_id :: string
  ar_requested_at :: int

text \<open>
  \<open>digest\<close> is the hexadecimal SHA-256 of a text and \<open>fl\<close> the text of a float; together they
  are the \<open>hasher\<close> parameters of this theory.
\<close>

definition arguments_digest :: "(rat \<Rightarrow> string) \<Rightarrow> (string \<Rightarrow> string) \<Rightarrow> approval_request \<Rightarrow> string" where
  "arguments_digest fl digest r = digest (canonical_json fl (JObj (ar_arguments r)))"

definition bound_fields ::
  "(rat \<Rightarrow> string) \<Rightarrow> (string \<Rightarrow> string) \<Rightarrow> approval_request \<Rightarrow> (string, string) dict" where
  "bound_fields fl digest r =
     [(''action'', ar_action r), (''target'', ar_target r),
      (''arguments_digest'', arguments_digest fl digest r),
      (''identity_subject'', ar_subject r), (''identity_tenant'', ar_tenant r),
      (''identity_session_id'', ar_session r), (''policy_decision'', ar_policy_decision r),
      (''policy_version'', ar_policy_version r), (''policy_source'', ar_policy_source r)]"

definition bound_text :: "(rat \<Rightarrow> string) \<Rightarrow> (string \<Rightarrow> string) \<Rightarrow> approval_request \<Rightarrow> string" where
  "bound_text fl digest r =
     canonical_json fl (JObj (map (\<lambda>(k, v). (k, JStr v)) (bound_fields fl digest r)))"

definition fingerprint :: "(rat \<Rightarrow> string) \<Rightarrow> (string \<Rightarrow> string) \<Rightarrow> approval_request \<Rightarrow> string" where
  "fingerprint fl digest r = digest (bound_text fl digest r)"

text \<open>Arguments as they are shown to the user: secrets hidden, long contents cut.\<close>

definition secret_key :: "string \<Rightarrow> bool" where
  "secret_key k = list_ex (contains k)
     [''password'', ''secret'', ''token'', ''api_key'', ''credential'']"

definition normalized_key :: "string \<Rightarrow> string" where
  "normalized_key k = replace_char (CHR ''-'') (CHR ''_'') (casefold k)"

fun redacted_value :: "string \<Rightarrow> json \<Rightarrow> json" where
  "redacted_value key (JObj d) =
     (if secret_key (normalized_key key) then JStr ''[REDACTED]''
      else JObj (map (\<lambda>(k, v). (k, redacted_value k v)) d))"
| "redacted_value key (JArr xs) =
     (if secret_key (normalized_key key) then JStr ''[REDACTED]''
      else JArr (map (redacted_value key) xs))"
| "redacted_value key (JStr s) =
     (if secret_key (normalized_key key) then JStr ''[REDACTED]''
      else if normalized_key key \<in> {''content'', ''new'', ''old'', ''prompt''} then JStr (take 120 s)
      else JStr s)"
| "redacted_value key v = (if secret_key (normalized_key key) then JStr ''[REDACTED]'' else v)"

definition redacted_preview :: "(string, json) dict \<Rightarrow> (string, json) dict" where
  "redacted_preview d = map (\<lambda>(k, v). (k, redacted_value k v)) d"

definition display_arguments :: "(rat \<Rightarrow> string) \<Rightarrow> nat \<Rightarrow> approval_request \<Rightarrow> string" where
  "display_arguments fl limit r =
     (let preview = canonical_json fl (JObj (redacted_preview (ar_arguments r)))
      in if length preview \<le> limit then preview else take limit preview @ ''...'')"

definition approval_arguments :: "(string, json) dict \<Rightarrow> (string, json) dict" where
  "approval_arguments args = filter (\<lambda>(k, v). k \<noteq> ''approved'' \<and> k \<noteq> ''approval_id'') args"

subsection \<open>Records\<close>

datatype approval_scope = Once | SessionScope

datatype approval_method = Interactive | NonInteractive

datatype approval_status = Active | Used | Denied | Expired

record approval =
  ap_id :: string
  ap_request_id :: string
  ap_fingerprint :: string
  ap_arguments_digest :: string
  ap_subject :: string
  ap_tenant :: string
  ap_session :: string
  ap_scope :: approval_scope
  ap_method :: approval_method
  ap_granted_at :: int
  ap_expires_at :: int
  ap_status :: approval_status
  ap_use_count :: nat
  ap_last_used_at :: "int option"

record approvals_config =
  ac_allow_non_interactive :: bool
  ac_allow_session_scope :: bool
  ac_once_ttl :: int
  ac_session_ttl :: int

datatype approval_error =
    EmptyActionOrTarget | SessionScopeDisabled | NonInteractiveDisabled
  | RecordExists | StoreFailure | ApprovalExpired
  | RequestActorMismatch | RequestTenantMismatch | RequestSessionMismatch
  | UnknownApproval | ChangedConcurrently | ActorMismatch | SessionMismatch | ArgumentsMismatch
  | AlreadyUsed | NotActive approval_status

datatype approval_event =
    EvRequested approval_request
  | EvGranted approval_request approval
  | EvDenied approval_request
  | EvExpired approval_request approval
  | EvUsed approval_request approval

subsection \<open>The store contract\<close>

record ('s, 'h) store_ops =
  op_get :: "'s \<Rightarrow> string \<Rightarrow> approval_error + 'h option"
  op_list :: "'s \<Rightarrow> approval_error + 'h list"
  op_create :: "'s \<Rightarrow> approval \<Rightarrow> approval_error + 's"
  op_read :: "'s \<Rightarrow> 'h \<Rightarrow> approval"
  op_assign :: "'s \<Rightarrow> 'h \<Rightarrow> approval \<Rightarrow> 's \<times> 'h"
  op_update :: "'s \<Rightarrow> 'h \<Rightarrow> approval_status \<Rightarrow> nat \<Rightarrow> (approval_error + bool) \<times> 's"

subsection \<open>The manager\<close>

definition make_request ::
  "identity_context \<Rightarrow> string \<Rightarrow> string \<Rightarrow> (string, json) dict \<Rightarrow> permission_result \<Rightarrow>
     (policy_value \<Rightarrow> string) \<Rightarrow> string \<Rightarrow> string \<Rightarrow> int \<Rightarrow>
     approval_error + approval_request \<times> approval_event list" where
  "make_request ident action target args policy decision_text risk request_id now =
     (if py_strip action = [] \<or> py_strip target = [] then Inl EmptyActionOrTarget
      else let r = \<lparr>ar_action = py_strip action, ar_target = py_strip target,
                    ar_arguments = approval_arguments args,
                    ar_subject = id_subject ident, ar_tenant = id_tenant ident,
                    ar_session = id_session_id ident,
                    ar_policy_decision = decision_text (result_decision policy),
                    ar_policy_version = result_policy_version policy,
                    ar_policy_source = result_policy_source policy,
                    ar_policy_reason = result_reason policy, ar_risk_reason = risk,
                    ar_request_id = request_id, ar_requested_at = now\<rparr>
           in Inr (r, [EvRequested r]))"

definition assert_request_identity ::
  "identity_context \<Rightarrow> approval_request \<Rightarrow> approval_error + unit" where
  "assert_request_identity ident r =
     (if ar_subject r \<noteq> id_subject ident then Inl RequestActorMismatch
      else if ar_tenant r \<noteq> id_tenant ident then Inl RequestTenantMismatch
      else if ar_session r \<noteq> id_session_id ident then Inl RequestSessionMismatch
      else Inr ())"

definition ttl_micros :: "approvals_config \<Rightarrow> approval_scope \<Rightarrow> int" where
  "ttl_micros cfg scope =
     1000000 * (if scope = SessionScope then ac_session_ttl cfg else ac_once_ttl cfg)"

definition new_record ::
  "(rat \<Rightarrow> string) \<Rightarrow> (string \<Rightarrow> string) \<Rightarrow> approvals_config \<Rightarrow> approval_request \<Rightarrow>
     approval_scope \<Rightarrow> approval_method \<Rightarrow> string \<Rightarrow> int \<Rightarrow> approval" where
  "new_record fl digest cfg r scope how approval_id now =
     \<lparr>ap_id = approval_id, ap_request_id = ar_request_id r,
      ap_fingerprint = fingerprint fl digest r,
      ap_arguments_digest = arguments_digest fl digest r,
      ap_subject = ar_subject r, ap_tenant = ar_tenant r, ap_session = ar_session r,
      ap_scope = scope, ap_method = how, ap_granted_at = now,
      ap_expires_at = now + ttl_micros cfg scope, ap_status = Active, ap_use_count = 0,
      ap_last_used_at = None\<rparr>"

definition grant ::
  "(rat \<Rightarrow> string) \<Rightarrow> (string \<Rightarrow> string) \<Rightarrow> ('s, 'h) store_ops \<Rightarrow> approvals_config \<Rightarrow> identity_context \<Rightarrow>
     approval_request \<Rightarrow> approval_scope \<Rightarrow> approval_method \<Rightarrow> string \<Rightarrow> int \<Rightarrow> 's \<Rightarrow>
     approval_error + approval \<times> 's \<times> approval_event list" where
  "grant fl digest ops cfg ident r scope how approval_id now s =
     res_bind (assert_request_identity ident r) (\<lambda>_.
       if scope = SessionScope \<and> \<not> ac_allow_session_scope cfg then Inl SessionScopeDisabled
       else if how = NonInteractive \<and> \<not> ac_allow_non_interactive cfg
       then Inl NonInteractiveDisabled
       else let rec = new_record fl digest cfg r scope how approval_id now in
            res_bind (op_create ops s rec) (\<lambda>s'. Inr (rec, s', [EvGranted r rec])))"

text \<open>The checks of \<open>consume\<close> after the expiry check, in the order of the code.\<close>

definition check_consumable ::
  "(rat \<Rightarrow> string) \<Rightarrow> (string \<Rightarrow> string) \<Rightarrow> approval_request \<Rightarrow> approval \<Rightarrow>
     approval_error + unit" where
  "check_consumable fl digest r rec =
     (if ap_subject rec \<noteq> ar_subject r then Inl ActorMismatch
      else if ap_session rec \<noteq> ar_session r then Inl SessionMismatch
      else if ap_fingerprint rec \<noteq> fingerprint fl digest r then Inl ArgumentsMismatch
      else if ap_scope rec = Once \<and> ap_status rec \<noteq> Active then Inl AlreadyUsed
      else if ap_status rec \<notin> {Active, Used} then Inl (NotActive (ap_status rec))
      else Inr ())"

definition consumed :: "int \<Rightarrow> approval \<Rightarrow> approval" where
  "consumed now rec =
     rec\<lparr>ap_use_count := ap_use_count rec + 1, ap_last_used_at := Some now,
         ap_status := (if ap_scope rec = Once then Used else Active)\<rparr>"

definition commit ::
  "('s, 'h) store_ops \<Rightarrow> 's \<Rightarrow> 'h \<Rightarrow> approval \<Rightarrow> (approval_error + 'h) \<times> 's" where
  "commit ops s h rec =
     (let old = op_read ops s h; (s1, h1) = op_assign ops s h rec in
      case op_update ops s1 h1 (ap_status old) (ap_use_count old) of
        (Inl e, s2) \<Rightarrow> (Inl e, s2)
      | (Inr False, s2) \<Rightarrow> (Inl ChangedConcurrently, s2)
      | (Inr True, s2) \<Rightarrow> (Inr h1, s2))"

definition consume ::
  "(rat \<Rightarrow> string) \<Rightarrow> (string \<Rightarrow> string) \<Rightarrow> ('s, 'h) store_ops \<Rightarrow> identity_context \<Rightarrow>
     approval_request \<Rightarrow> string \<Rightarrow> int \<Rightarrow> 's \<Rightarrow>
     (approval_error + approval) \<times> 's \<times> approval_event list" where
  "consume fl digest ops ident r approval_id now s =
     (case res_bind (assert_request_identity ident r) (\<lambda>_. op_get ops s approval_id) of
        Inl e \<Rightarrow> (Inl e, s, [])
      | Inr None \<Rightarrow> (Inl UnknownApproval, s, [])
      | Inr (Some h) \<Rightarrow>
          (let rec = op_read ops s h in
           if ap_expires_at rec \<le> now then
             (case commit ops s h (rec\<lparr>ap_status := Expired\<rparr>) of
                (Inl e, s') \<Rightarrow> (Inl e, s', [])
              | (Inr h', s') \<Rightarrow> (Inl ApprovalExpired, s', [EvExpired r (op_read ops s' h')]))
           else case check_consumable fl digest r rec of
                  Inl e \<Rightarrow> (Inl e, s, [])
                | Inr _ \<Rightarrow>
                    (case commit ops s h (consumed now rec) of
                       (Inl e, s') \<Rightarrow> (Inl e, s', [])
                     | (Inr h', s') \<Rightarrow>
                         (Inr (op_read ops s' h'), s', [EvUsed r (op_read ops s' h')]))))"

text \<open>The clock is read again for each candidate: \<open>clock i\<close> is what the \<open>i\<close>-th reading gives.\<close>

fun consume_first ::
  "(rat \<Rightarrow> string) \<Rightarrow> (string \<Rightarrow> string) \<Rightarrow> ('s, 'h) store_ops \<Rightarrow> identity_context \<Rightarrow>
     approval_request \<Rightarrow> (nat \<Rightarrow> int) \<Rightarrow> 'h list \<Rightarrow> 's \<Rightarrow>
     (approval_error + approval option) \<times> 's \<times> approval_event list" where
  "consume_first fl digest ops ident r clock [] s = (Inr None, s, [])"
| "consume_first fl digest ops ident r clock (h # hs) s =
     (let rec = op_read ops s h in
      if ap_scope rec \<noteq> SessionScope \<or> ap_fingerprint rec \<noteq> fingerprint fl digest r
      then consume_first fl digest ops ident r clock hs s
      else case consume fl digest ops ident r (ap_id rec) (clock 0) s of
             (Inr a, s', ev) \<Rightarrow> (Inr (Some a), s', ev)
           | (Inl e, s', ev) \<Rightarrow>
               (if e = ApprovalExpired then
                  (case consume_first fl digest ops ident r (\<lambda>i. clock (Suc i)) hs s' of
                     (res, s'', ev') \<Rightarrow> (res, s'', ev @ ev'))
                else (Inl e, s', ev)))"

definition consume_matching_session ::
  "(rat \<Rightarrow> string) \<Rightarrow> (string \<Rightarrow> string) \<Rightarrow> ('s, 'h) store_ops \<Rightarrow> identity_context \<Rightarrow>
     approval_request \<Rightarrow> (nat \<Rightarrow> int) \<Rightarrow> 's \<Rightarrow>
     (approval_error + approval option) \<times> 's \<times> approval_event list" where
  "consume_matching_session fl digest ops ident r clock s =
     (case op_list ops s of
        Inl e \<Rightarrow> (Inl e, s, [])
      | Inr hs \<Rightarrow> consume_first fl digest ops ident r clock hs s)"

subsection \<open>The fingerprint binds the request\<close>

lemma fingerprint_binds:
  assumes "fingerprint fl digest r = fingerprint fl digest r'"
    and "digest (bound_text fl digest r) = digest (bound_text fl digest r') \<Longrightarrow>
           bound_text fl digest r = bound_text fl digest r'"
  shows "bound_fields fl digest r = bound_fields fl digest r'"
proof -
  have txt_eq: "bound_text fl digest r = bound_text fl digest r'"
    using assms by (auto simp: fingerprint_def)
  have expand: "bound_text fl digest x = CHR 0x7B #
      json_quote ''action'' @ '':'' @ json_quote (ar_action x) @ '','' @
      json_quote ''arguments_digest'' @ '':'' @ json_quote (arguments_digest fl digest x) @ '','' @
      json_quote ''identity_session_id'' @ '':'' @ json_quote (ar_session x) @ '','' @
      json_quote ''identity_subject'' @ '':'' @ json_quote (ar_subject x) @ '','' @
      json_quote ''identity_tenant'' @ '':'' @ json_quote (ar_tenant x) @ '','' @
      json_quote ''policy_decision'' @ '':'' @ json_quote (ar_policy_decision x) @ '','' @
      json_quote ''policy_source'' @ '':'' @ json_quote (ar_policy_source x) @ '','' @
      json_quote ''policy_version'' @ '':'' @ json_quote (ar_policy_version x) @ '','' @
      json_quote ''target'' @ '':'' @ json_quote (ar_target x) @ [CHR 0x7D]" for x
    by (simp add: bound_text_def bound_fields_def insort_key.simps)
  show ?thesis
    using txt_eq unfolding expand bound_fields_def
    by (simp add: json_quote_append_eq json_quote_inj)
qed

subsection \<open>What the manager does, on an abstract store\<close>

text \<open>
  An abstract store maps an identifier to its record. \<open>consume_spec\<close> is what \<open>consume\<close> does to it.
\<close>

type_synonym approval_view = "string \<Rightarrow> approval option"

definition consume_spec ::
  "(rat \<Rightarrow> string) \<Rightarrow> (string \<Rightarrow> string) \<Rightarrow> identity_context \<Rightarrow> approval_request \<Rightarrow> string \<Rightarrow> int \<Rightarrow>
     approval_view \<Rightarrow> (approval_error + approval) \<times> approval_view" where
  "consume_spec fl digest ident r approval_id now v =
     (case assert_request_identity ident r of
        Inl e \<Rightarrow> (Inl e, v)
      | Inr _ \<Rightarrow>
          (case v approval_id of
             None \<Rightarrow> (Inl UnknownApproval, v)
           | Some rec \<Rightarrow>
               (if ap_expires_at rec \<le> now
                then (Inl ApprovalExpired, v(approval_id \<mapsto> rec\<lparr>ap_status := Expired\<rparr>))
                else case check_consumable fl digest r rec of
                       Inl e \<Rightarrow> (Inl e, v)
                     | Inr _ \<Rightarrow> (Inr (consumed now rec), v(approval_id \<mapsto> consumed now rec)))))"

text \<open>
  The history of an abstract store: records are created active and unused, expire, or are used
  by a request that passes the checks before their expiry. \<open>us\<close> lists the uses.
\<close>

inductive use_steps ::
  "(rat \<Rightarrow> string) \<Rightarrow> (string \<Rightarrow> string) \<Rightarrow> approval_view \<Rightarrow> approval list \<Rightarrow> approval_view \<Rightarrow> bool"
  for fl digest where
  start: "use_steps fl digest v [] v"
| create: "use_steps fl digest v us w \<Longrightarrow> w (ap_id rec) = None \<Longrightarrow> ap_status rec = Active \<Longrightarrow>
     use_steps fl digest v us (w(ap_id rec \<mapsto> rec))"
| expire: "use_steps fl digest v us w \<Longrightarrow> w i = Some rec \<Longrightarrow>
     use_steps fl digest v us (w(i \<mapsto> rec\<lparr>ap_status := Expired\<rparr>))"
| consume_use: "use_steps fl digest v us w \<Longrightarrow> w i = Some rec \<Longrightarrow> now < ap_expires_at rec \<Longrightarrow>
     check_consumable fl digest r rec = Inr () \<Longrightarrow>
     use_steps fl digest v (us @ [consumed now rec]) (w(i \<mapsto> consumed now rec))"

definition spent :: "approval_view \<Rightarrow> string \<Rightarrow> bool" where
  "spent v i = (\<exists>rec. v i = Some rec \<and> ap_scope rec = Once \<and> ap_status rec \<noteq> Active)"

definition once_uses :: "string \<Rightarrow> approval list \<Rightarrow> nat" where
  "once_uses i us = length (filter (\<lambda>u. ap_id u = i \<and> ap_scope u = Once) us)"

lemma once_uses_simps [simp]:
  "once_uses i [] = 0"
  "once_uses i (us @ vs) = once_uses i us + once_uses i vs"
  "once_uses i [u] = (if ap_id u = i \<and> ap_scope u = Once then 1 else 0)"
  by (simp_all add: once_uses_def)

lemma consumed_simps [simp]:
  "ap_id (consumed now rec) = ap_id rec" "ap_scope (consumed now rec) = ap_scope rec"
  "ap_expires_at (consumed now rec) = ap_expires_at rec"
  "ap_last_used_at (consumed now rec) = Some now"
  "ap_fingerprint (consumed now rec) = ap_fingerprint rec"
  "ap_status (consumed now rec) = (if ap_scope rec = Once then Used else Active)"
  by (simp_all add: consumed_def)

lemma check_consumable_ok:
  assumes "check_consumable fl digest r rec = Inr u"
  shows "ap_fingerprint rec = fingerprint fl digest r" and "ap_subject rec = ar_subject r"
    and "ap_session rec = ar_session r" and "ap_scope rec = Once \<Longrightarrow> ap_status rec = Active"
    and "ap_status rec \<in> {Active, Used}"
  using assms by (auto simp: check_consumable_def split: if_splits)

lemma once_uses_bound:
  assumes "use_steps fl digest v us w" and "\<And>i rec. v i = Some rec \<Longrightarrow> ap_id rec = i"
  shows "(\<forall>i rec. w i = Some rec \<longrightarrow> ap_id rec = i)
       \<and> (\<forall>i. once_uses i us \<le> (if spent w i then 1 else 0))
       \<and> (\<forall>u \<in> set us. \<exists>t. ap_last_used_at u = Some t \<and> t < ap_expires_at u)"
  using assms
proof (induction rule: use_steps.induct)
  case (start v)
  then show ?case by simp
next
  case (create v us w rec)
  then have ih: "\<forall>i rec. w i = Some rec \<longrightarrow> ap_id rec = i"
    "\<forall>i. once_uses i us \<le> (if spent w i then 1 else 0)"
    "\<forall>u \<in> set us. \<exists>t. ap_last_used_at u = Some t \<and> t < ap_expires_at u" by blast+
  have "\<forall>i. once_uses i us \<le> (if spent (w(ap_id rec \<mapsto> rec)) i then 1 else 0)"
  proof
    fix i show "once_uses i us \<le> (if spent (w(ap_id rec \<mapsto> rec)) i then 1 else 0)"
      using ih(2) [rule_format, of i] create.hyps by (auto simp: spent_def split: if_splits)
  qed
  moreover have "\<forall>i x. (w(ap_id rec \<mapsto> rec)) i = Some x \<longrightarrow> ap_id x = i" using ih(1) by simp
  ultimately show ?case using ih(3) by (intro conjI)
next
  case (expire v us w j rec)
  then have ih: "\<forall>i rec. w i = Some rec \<longrightarrow> ap_id rec = i"
    "\<forall>i. once_uses i us \<le> (if spent w i then 1 else 0)"
    "\<forall>u \<in> set us. \<exists>t. ap_last_used_at u = Some t \<and> t < ap_expires_at u" by blast+
  have "\<forall>i. once_uses i us \<le> (if spent (w(j \<mapsto> rec\<lparr>ap_status := Expired\<rparr>)) i then 1 else 0)"
  proof
    fix i show "once_uses i us \<le> (if spent (w(j \<mapsto> rec\<lparr>ap_status := Expired\<rparr>)) i then 1 else 0)"
      using ih(2) [rule_format, of i] expire.hyps by (auto simp: spent_def split: if_splits)
  qed
  moreover have "\<forall>i x. (w(j \<mapsto> rec\<lparr>ap_status := Expired\<rparr>)) i = Some x \<longrightarrow> ap_id x = i"
    using ih(1) expire.hyps(2) by simp
  ultimately show ?case using ih(3) by (intro conjI)
next
  case (consume_use v us w j rec now r)
  then have ih: "\<forall>i rec. w i = Some rec \<longrightarrow> ap_id rec = i"
    "\<forall>i. once_uses i us \<le> (if spent w i then 1 else 0)"
    "\<forall>u \<in> set us. \<exists>t. ap_last_used_at u = Some t \<and> t < ap_expires_at u" by blast+
  note chk = check_consumable_ok [OF consume_use.hyps(4)]
  have "\<forall>i. once_uses i (us @ [consumed now rec]) \<le> (if spent (w(j \<mapsto> consumed now rec)) i then 1 else 0)"
  proof
    fix i show "once_uses i (us @ [consumed now rec]) \<le> (if spent (w(j \<mapsto> consumed now rec)) i then 1 else 0)"
      using ih(2) [rule_format, of i] ih(1) consume_use.hyps(2) chk(4)
      by (auto simp: spent_def split: if_splits)
  qed
  moreover have "\<forall>i x. (w(j \<mapsto> consumed now rec)) i = Some x \<longrightarrow> ap_id x = i"
    using ih(1) consume_use.hyps(2) by simp
  moreover have "\<forall>u \<in> set (us @ [consumed now rec]). \<exists>t. ap_last_used_at u = Some t \<and> t < ap_expires_at u"
    using ih(3) consume_use.hyps(3) by simp
  ultimately show ?case by (intro conjI)
qed

text \<open>A record keeps its fingerprint and its expiry.\<close>

lemma use_steps_keep:
  assumes "use_steps fl digest v us w" and "v i = Some rec"
    and "\<And>j x. v j = Some x \<Longrightarrow> ap_id x = j"
  shows "\<exists>x. w i = Some x \<and> ap_fingerprint x = ap_fingerprint rec \<and> ap_expires_at x = ap_expires_at rec"
  using assms
proof (induction rule: use_steps.induct)
  case (create v us w rec')
  then show ?case by fastforce
next
  case (expire v us w j rec')
  then show ?case by (fastforce split: if_splits)
next
  case (consume_use v us w j rec' now r)
  then show ?case by (fastforce split: if_splits)
qed auto

subsection \<open>Sequences of manager calls\<close>

datatype manager_call =
    Grant identity_context approval_request approval_scope approval_method string int
  | Consume identity_context approval_request string int
  | ConsumeSession identity_context approval_request "nat \<Rightarrow> int"

text \<open>One call: the records it used successfully and the new state of the store.\<close>

fun step_call ::
  "(rat \<Rightarrow> string) \<Rightarrow> (string \<Rightarrow> string) \<Rightarrow> ('s, 'h) store_ops \<Rightarrow> approvals_config \<Rightarrow> manager_call \<Rightarrow>
     's \<Rightarrow> approval list \<times> 's" where
  "step_call fl digest ops cfg (Grant ident r scope how i now) s =
     (case grant fl digest ops cfg ident r scope how i now s of
        Inl e \<Rightarrow> ([], s) | Inr (rec, s', ev) \<Rightarrow> ([], s'))"
| "step_call fl digest ops cfg (Consume ident r i now) s =
     (case consume fl digest ops ident r i now s of
        (Inl e, s', ev) \<Rightarrow> ([], s') | (Inr rec, s', ev) \<Rightarrow> ([rec], s'))"
| "step_call fl digest ops cfg (ConsumeSession ident r clock) s =
     (case consume_matching_session fl digest ops ident r clock s of
        (Inr (Some rec), s', ev) \<Rightarrow> ([rec], s') | (_, s', ev) \<Rightarrow> ([], s'))"

fun run_calls ::
  "(rat \<Rightarrow> string) \<Rightarrow> (string \<Rightarrow> string) \<Rightarrow> ('s, 'h) store_ops \<Rightarrow> approvals_config \<Rightarrow>
     manager_call list \<Rightarrow> 's \<Rightarrow> approval list \<times> 's" where
  "run_calls fl digest ops cfg [] s = ([], s)"
| "run_calls fl digest ops cfg (c # cs) s =
     (let (us, s1) = step_call fl digest ops cfg c s; (vs, s2) = run_calls fl digest ops cfg cs s1
      in (us @ vs, s2))"

text \<open>The new records a store has to be able to hold.\<close>

definition grantable ::
  "(rat \<Rightarrow> string) \<Rightarrow> (string \<Rightarrow> string) \<Rightarrow> approvals_config \<Rightarrow> (approval \<Rightarrow> bool) \<Rightarrow> manager_call list \<Rightarrow> bool" where
  "grantable fl digest cfg storable cs =
     (\<forall>ident r scope how i now. Grant ident r scope how i now \<in> set cs \<longrightarrow>
        storable (new_record fl digest cfg r scope how i now))"

locale approval_store =
  fixes ops :: "('s, 'h) store_ops"
    and view :: "'s \<Rightarrow> approval_view"
    and ok :: "'s \<Rightarrow> bool"
    and storable :: "approval \<Rightarrow> bool"
  assumes get_view: "ok s \<Longrightarrow> \<exists>h. op_get ops s i = Inr h \<and> map_option (op_read ops s) h = view s i"
    and view_id: "ok s \<Longrightarrow> view s i = Some rec \<Longrightarrow> ap_id rec = i \<and> storable rec"
    and storable_update: "storable (rec\<lparr>ap_use_count := n, ap_last_used_at := t, ap_status := st\<rparr>) = storable rec"
    and commit_view:
      "ok s \<Longrightarrow> op_get ops s i = Inr (Some h) \<Longrightarrow> storable rec \<Longrightarrow> ap_id rec = i \<Longrightarrow>
         commit ops s h rec = (res, s') \<Longrightarrow>
         ok s' \<and> (case res of
                    Inr h' \<Rightarrow> op_read ops s' h' = rec \<and> view s' = (view s)(i \<mapsto> rec)
                  | Inl e \<Rightarrow> e = StoreFailure \<and> view s' = view s)"
    and create_view:
      "ok s \<Longrightarrow> storable rec \<Longrightarrow>
         (case op_create ops s rec of
            Inr s' \<Rightarrow> ok s' \<and> view s (ap_id rec) = None \<and> view s' = (view s)(ap_id rec \<mapsto> rec)
          | Inl e \<Rightarrow> e = StoreFailure \<or> (e = RecordExists \<and> view s (ap_id rec) \<noteq> None))"
begin

lemma storable_consumed: "storable (consumed now rec) = storable rec"
  using storable_update [where rec = rec and st = "if ap_scope rec = Once then Used else Active"
      and n = "ap_use_count rec + 1" and t = "Some now"]
  by (simp add: consumed_def)

lemma storable_expired: "storable (rec\<lparr>ap_status := Expired\<rparr>) = storable rec"
  using storable_update [where rec = rec and st = Expired and n = "ap_use_count rec"
      and t = "ap_last_used_at rec"] by simp

lemma consume_refines:
  assumes ok: "ok s" and run: "consume fl digest ops ident r i now s = (res, s', ev)"
  shows "ok s' \<and> ((res, view s') = consume_spec fl digest ident r i now (view s)
                  \<or> (res = Inl StoreFailure \<and> view s' = view s))"
proof (cases "assert_request_identity ident r")
  case (Inl e)
  then show ?thesis using run ok by (simp add: consume_def consume_spec_def)
next
  case (Inr u)
  obtain ho where get: "op_get ops s i = Inr ho" and vw: "map_option (op_read ops s) ho = view s i"
    using get_view [OF ok] by blast
  show ?thesis
  proof (cases ho)
    case None
    then show ?thesis using run ok Inr get vw by (auto simp: consume_def consume_spec_def)
  next
    case (Some h)
    let ?rec = "op_read ops s h"
    have v: "view s i = Some ?rec" using vw Some by simp
    then have rec: "ap_id ?rec = i" "storable ?rec" using view_id [OF ok] by auto
    note get' = get [unfolded Some]
    show ?thesis
    proof (cases "ap_expires_at ?rec \<le> now")
      case True
      obtain res1 s1 where c: "commit ops s h (?rec\<lparr>ap_status := Expired\<rparr>) = (res1, s1)"
        by (cases "commit ops s h (?rec\<lparr>ap_status := Expired\<rparr>)") auto
      have "storable (?rec\<lparr>ap_status := Expired\<rparr>)" "ap_id (?rec\<lparr>ap_status := Expired\<rparr>) = i"
        using rec by (simp_all add: storable_expired)
      from commit_view [OF ok get' this c] show ?thesis
        using run Inr get' v True c
        by (auto simp: consume_def consume_spec_def Let_def split: sum.splits)
    next
      case False
      show ?thesis
      proof (cases "check_consumable fl digest r ?rec")
        case (Inl e)
        then show ?thesis
          using run ok Inr get' v False by (auto simp: consume_def consume_spec_def Let_def)
      next
        case chk: (Inr u')
        obtain res1 s1 where c: "commit ops s h (consumed now ?rec) = (res1, s1)"
          by (cases "commit ops s h (consumed now ?rec)") auto
        have "storable (consumed now ?rec)" "ap_id (consumed now ?rec) = i"
          using rec by (simp_all add: storable_consumed)
        from commit_view [OF ok get' this c] show ?thesis
          using run Inr get' v False chk c
          by (auto simp: consume_def consume_spec_def Let_def split: sum.splits)
      qed
    qed
  qed
qed

lemma consume_steps:
  assumes "ok s" and "consume fl digest ops ident r i now s = (res, s', ev)"
    and "use_steps fl digest v us (view s)"
  shows "ok s' \<and> use_steps fl digest v (us @ (case res of Inr rec \<Rightarrow> [rec] | Inl e \<Rightarrow> [])) (view s')"
proof -
  note ref = consume_refines [OF assms(1,2)]
  then show ?thesis
  proof (elim conjE disjE)
    assume okk: "ok s'" and spec: "(res, view s') = consume_spec fl digest ident r i now (view s)"
    show ?thesis
      using okk spec assms(3)
      by (auto simp: consume_spec_def split: sum.splits option.splits if_splits
          intro: use_steps.expire use_steps.consume_use)
  next
    assume "ok s'" "res = Inl StoreFailure" "view s' = view s"
    then show ?thesis using assms(3) by simp
  qed
qed

lemma consume_first_steps:
  assumes "ok s" and "consume_first fl digest ops ident r clock hs s = (res, s', ev)"
    and "use_steps fl digest v us (view s)"
  shows "ok s' \<and> use_steps fl digest v (us @ (case res of Inr (Some rec) \<Rightarrow> [rec] | _ \<Rightarrow> [])) (view s')"
  using assms
proof (induction hs arbitrary: s clock res s' ev)
  case Nil
  then show ?case by auto
next
  case (Cons h hs)
  let ?rec = "op_read ops s h"
  show ?case
  proof (cases "ap_scope ?rec \<noteq> SessionScope \<or> ap_fingerprint ?rec \<noteq> fingerprint fl digest r")
    case True
    with Cons.prems(2) have "consume_first fl digest ops ident r clock hs s = (res, s', ev)" by simp
    from Cons.IH [OF Cons.prems(1) this Cons.prems(3)] show ?thesis .
  next
    case False
    obtain res1 s1 ev1 where c: "consume fl digest ops ident r (ap_id ?rec) (clock 0) s = (res1, s1, ev1)"
      by (cases "consume fl digest ops ident r (ap_id ?rec) (clock 0) s") auto
    note st = consume_steps [OF Cons.prems(1) c Cons.prems(3)]
    show ?thesis
    proof (cases "res1 = Inl ApprovalExpired")
      case True
      obtain res2 s2 ev2 where
        c2: "consume_first fl digest ops ident r (\<lambda>i. clock (Suc i)) hs s1 = (res2, s2, ev2)"
        by (cases "consume_first fl digest ops ident r (\<lambda>i. clock (Suc i)) hs s1") auto
      have "use_steps fl digest v us (view s1)" "ok s1" using st True by auto
      from Cons.IH [OF this(2) c2 this(1)] show ?thesis
        using Cons.prems(2) False True c c2 by auto
    next
      case ne: False
      then show ?thesis using Cons.prems(2) False c st by (cases res1) auto
    qed
  qed
qed

lemma step_call_steps:
  assumes ok: "ok s" and us: "use_steps fl digest v us (view s)"
    and new: "\<And>ident r scope how i now. c = Grant ident r scope how i now \<Longrightarrow>
                storable (new_record fl digest cfg r scope how i now)"
    and run: "step_call fl digest ops cfg c s = (vs, s')"
  shows "ok s' \<and> use_steps fl digest v (us @ vs) (view s')"
proof (cases c)
  case (Grant ident r scope how i now)
  let ?rec = "new_record fl digest cfg r scope how i now"
  have st: "storable ?rec" and stat: "ap_status ?rec = Active"
    using new Grant by (simp_all add: new_record_def)
  show ?thesis
  proof (cases "grant fl digest ops cfg ident r scope how i now s")
    case (Inl e)
    then show ?thesis using run Grant ok us by auto
  next
    case (Inr p)
    then obtain s1 where "op_create ops s ?rec = Inr s1" and "p = (?rec, s1, [EvGranted r ?rec])"
      by (auto simp: grant_def res_simps Let_def split: if_splits)
    with create_view [OF ok st] Inr run Grant us stat show ?thesis
      by (auto intro: use_steps.create)
  qed
next
  case (Consume ident r i now)
  obtain res s1 ev where c: "consume fl digest ops ident r i now s = (res, s1, ev)"
    by (cases "consume fl digest ops ident r i now s") auto
  from consume_steps [OF ok c us] c run Consume show ?thesis by (auto split: sum.splits)
next
  case (ConsumeSession ident r clock)
  show ?thesis
  proof (cases "op_list ops s")
    case (Inl e)
    then show ?thesis using ok us run ConsumeSession by (auto simp: consume_matching_session_def)
  next
    case (Inr hs)
    obtain res s1 ev where c: "consume_first fl digest ops ident r clock hs s = (res, s1, ev)"
      by (cases "consume_first fl digest ops ident r clock hs s") auto
    from consume_first_steps [OF ok c us] c run ConsumeSession Inr show ?thesis
      by (auto simp: consume_matching_session_def split: sum.splits option.splits)
  qed
qed

lemma run_calls_steps:
  assumes "ok s" and "use_steps fl digest v us (view s)"
    and "grantable fl digest cfg storable cs"
    and "run_calls fl digest ops cfg cs s = (vs, s')"
  shows "ok s' \<and> use_steps fl digest v (us @ vs) (view s')"
  using assms
proof (induction cs arbitrary: s us vs)
  case Nil
  then show ?case by simp
next
  case (Cons c cs)
  obtain us1 s1 where c: "step_call fl digest ops cfg c s = (us1, s1)"
    by (cases "step_call fl digest ops cfg c s") auto
  obtain us2 where cs: "run_calls fl digest ops cfg cs s1 = (us2, s')" "vs = us1 @ us2"
    using Cons.prems(4) c by (auto simp: Let_def split: prod.splits)
  have g: "grantable fl digest cfg storable cs" using Cons.prems(3) by (auto simp: grantable_def)
  have "ok s1 \<and> use_steps fl digest v (us @ us1) (view s1)"
    by (rule step_call_steps [OF Cons.prems(1,2) _ c])
      (use Cons.prems(3) in \<open>simp add: grantable_def\<close>)
  with Cons.IH [OF _ _ g cs(1), of "us @ us1"] cs(2) show ?case by simp
qed

theorem once_only:
  assumes "ok s" and "grantable fl digest cfg storable cs"
    and "run_calls fl digest ops cfg cs s = (us, s')"
  shows "once_uses i us \<le> 1 \<and> (\<forall>u \<in> set us. \<exists>t. ap_last_used_at u = Some t \<and> t < ap_expires_at u)"
proof -
  have "use_steps fl digest (view s) us (view s')"
    using run_calls_steps [OF assms(1) use_steps.start assms(2,3)] by simp
  then have bound: "\<forall>i. once_uses i us \<le> (if spent (view s') i then 1 else 0)"
    and fresh: "\<forall>u \<in> set us. \<exists>t. ap_last_used_at u = Some t \<and> t < ap_expires_at u"
    using once_uses_bound [of fl digest "view s" us "view s'"] view_id [OF assms(1)] by blast+
  have "once_uses i us \<le> 1"
    using bound [rule_format, of i] by (simp split: if_splits)
  with fresh show ?thesis by blast
qed

lemma grant_view:
  assumes ok: "ok s" and st: "storable (new_record fl digest cfg r scope how i now)"
    and run: "grant fl digest ops cfg ident r scope how i now s = Inr (rec, s', ev)"
  shows "ok s' \<and> view s' i = Some (new_record fl digest cfg r scope how i now)"
proof -
  let ?rec = "new_record fl digest cfg r scope how i now"
  have "op_create ops s ?rec = Inr s'"
    using run by (auto simp: grant_def res_simps Let_def split: if_splits)
  moreover have "ap_id ?rec = i" by (simp add: new_record_def)
  ultimately show ?thesis using create_view [OF ok st] by simp
qed

lemma consume_checked:
  assumes ok: "ok s" and run: "consume fl digest ops ident r i now s = (Inr rec, s', ev)"
  shows "\<exists>x. view s i = Some x \<and> now < ap_expires_at x \<and> check_consumable fl digest r x = Inr ()
             \<and> rec = consumed now x \<and> assert_request_identity ident r = Inr ()"
  using consume_refines [OF ok run]
  by (auto simp: consume_spec_def split: sum.splits option.splits if_splits)

theorem granted_request_only:
  assumes ok: "ok s"
    and st: "storable (new_record fl digest cfg r1 scope how i t1)"
    and gr: "grant fl digest ops cfg ident1 r1 scope how i t1 s = Inr (rec1, s1, ev1)"
    and others: "grantable fl digest cfg storable cs"
    and run: "run_calls fl digest ops cfg cs s1 = (us, s2)"
    and con: "consume fl digest ops ident2 r2 i t2 s2 = (Inr rec2, s3, ev3)"
    and no_collision: "digest (bound_text fl digest r1) = digest (bound_text fl digest r2) \<Longrightarrow>
                         bound_text fl digest r1 = bound_text fl digest r2"
  shows "bound_fields fl digest r2 = bound_fields fl digest r1 \<and> t2 < t1 + ttl_micros cfg scope"
proof -
  let ?rec = "new_record fl digest cfg r1 scope how i t1"
  note g = grant_view [OF ok st gr]
  have steps: "ok s2 \<and> use_steps fl digest (view s1) us (view s2)"
    using run_calls_steps [OF _ use_steps.start others run] g by simp
  obtain x where x: "view s2 i = Some x" "ap_fingerprint x = ap_fingerprint ?rec"
    "ap_expires_at x = ap_expires_at ?rec"
    using use_steps_keep [of fl digest "view s1" us "view s2" i ?rec] steps g view_id by blast
  then have "t2 < ap_expires_at ?rec" and "ap_fingerprint ?rec = fingerprint fl digest r2"
    using consume_checked [of s2, OF _ con] steps by (auto dest: check_consumable_ok(1))
  then have "fingerprint fl digest r1 = fingerprint fl digest r2" "t2 < t1 + ttl_micros cfg scope"
    by (simp_all add: new_record_def)
  then show ?thesis using fingerprint_binds [of fl digest r1 r2, OF _ no_collision] by simp
qed

end

end
