(* ===== verification/Approval_Stores.thy ===== *)
theory Approval_Stores
  imports Approvals "HOL-Library.Monad_Syntax"
begin

text \<open>
  \<open>src/loro/approvals.py\<close>, second part: the two stores. The in-memory store is a dictionary
  from identifiers to object references into a heap; \<open>get\<close> returns the reference, so attribute
  assignments are visible at once. The JSON store is a file: its size and the value its text
  decodes to. Both are shown to satisfy the contract \<open>approval_store\<close>. The text form of times,
  the UUID syntax and the text of unusual JSON values are the parameters of \<open>codec\<close>; file locks
  and symbolic links are not modelled.
\<close>

subsection \<open>The in-memory store\<close>

record inmem =
  im_records :: "(string, nat) dict"
  im_heap :: "approval list"

definition inmem_get :: "inmem \<Rightarrow> string \<Rightarrow> approval_error + nat option" where
  "inmem_get s i = Inr (map_of (im_records s) i)"

definition inmem_list :: "inmem \<Rightarrow> approval_error + nat list" where
  "inmem_list s = Inr (map snd (im_records s))"

definition inmem_create :: "inmem \<Rightarrow> approval \<Rightarrow> approval_error + inmem" where
  "inmem_create s rec =
     (if map_of (im_records s) (ap_id rec) \<noteq> None then Inl RecordExists
      else Inr \<lparr>im_records = AList.update (ap_id rec) (length (im_heap s)) (im_records s),
                im_heap = im_heap s @ [rec]\<rparr>)"

definition inmem_assign :: "inmem \<Rightarrow> nat \<Rightarrow> approval \<Rightarrow> inmem \<times> nat" where
  "inmem_assign s h rec = (s\<lparr>im_heap := (im_heap s)[h := rec]\<rparr>, h)"

definition inmem_update ::
  "inmem \<Rightarrow> nat \<Rightarrow> approval_status \<Rightarrow> nat \<Rightarrow> (approval_error + bool) \<times> inmem" where
  "inmem_update s h expected_status expected_use_count =
     (let rec = im_heap s ! h in
      case map_of (im_records s) (ap_id rec) of
        None \<Rightarrow> (Inr False, s)
      | Some current \<Rightarrow>
          (let cur = im_heap s ! current in
           if current \<noteq> h
              \<and> (ap_status cur \<noteq> expected_status \<or> ap_use_count cur \<noteq> expected_use_count)
           then (Inr False, s)
           else (Inr True, s\<lparr>im_records := AList.update (ap_id rec) h (im_records s)\<rparr>)))"

definition inmem_ops :: "(inmem, nat) store_ops" where
  "inmem_ops = \<lparr>op_get = inmem_get, op_list = inmem_list, op_create = inmem_create,
                op_read = (\<lambda>s h. im_heap s ! h), op_assign = inmem_assign,
                op_update = inmem_update\<rparr>"

definition inmem_empty :: inmem where
  "inmem_empty = \<lparr>im_records = [], im_heap = []\<rparr>"

definition inmem_view :: "inmem \<Rightarrow> approval_view" where
  "inmem_view s i = map_option (\<lambda>h. im_heap s ! h) (map_of (im_records s) i)"

definition inmem_ok :: "inmem \<Rightarrow> bool" where
  "inmem_ok s = (distinct (map fst (im_records s)) \<and>
     (\<forall>(i, h) \<in> set (im_records s). h < length (im_heap s) \<and> ap_id (im_heap s ! h) = i))"

lemma inmem_ok_get:
  "inmem_ok s \<Longrightarrow> map_of (im_records s) i = Some h \<Longrightarrow>
     h < length (im_heap s) \<and> ap_id (im_heap s ! h) = i"
  by (fastforce simp: inmem_ok_def dest: map_of_SomeD)

lemma inmem_commit:
  assumes ok: "inmem_ok s" and h: "map_of (im_records s) i = Some h" and i: "ap_id rec = i"
  shows "commit inmem_ops s h rec =
    (Inr h, s\<lparr>im_heap := (im_heap s)[h := rec], im_records := AList.update i h (im_records s)\<rparr>)"
  using inmem_ok_get [OF ok h] h i
  by (simp add: commit_def inmem_ops_def inmem_assign_def inmem_update_def Let_def)

lemma update_same: "map_of d k = Some v \<Longrightarrow> AList.update k v d = d"
  by (induction d) (auto split: if_splits)

lemma inmem_commit_view:
  assumes ok: "inmem_ok s" and h: "map_of (im_records s) i = Some h" and i: "ap_id rec = i"
  defines "t \<equiv> s\<lparr>im_heap := (im_heap s)[h := rec], im_records := AList.update i h (im_records s)\<rparr>"
  shows "inmem_ok t" and "inmem_view t = (inmem_view s)(i \<mapsto> rec)" and "im_heap t ! h = rec"
proof -
  have len: "h < length (im_heap s)" using inmem_ok_get [OF ok h] by blast
  have recs: "im_records t = im_records s" by (simp add: t_def update_same [OF h])
  have heap: "im_heap t = (im_heap s)[h := rec]" by (simp add: t_def)
  show "im_heap t ! h = rec" by (simp add: heap len)
  have other: "h' \<noteq> h" if "(j, h') \<in> set (im_records s)" "j \<noteq> i" for j h'
    using that ok inmem_ok_get [OF ok h] unfolding inmem_ok_def by fastforce
  have "ap_id (im_heap t ! h') = j \<and> h' < length (im_heap t)" if "(j, h') \<in> set (im_records t)" for j h'
  proof (cases "h' = h")
    case True
    have "j = i"
    proof (rule ccontr)
      assume "j \<noteq> i"
      moreover have "(j, h') \<in> set (im_records s)" using that recs by simp
      ultimately show False using other True by blast
    qed
    with True len i show ?thesis by (simp add: heap)
  next
    case False
    with that recs ok show ?thesis unfolding inmem_ok_def by (fastforce simp: heap)
  qed
  with ok recs show "inmem_ok t" by (auto simp: inmem_ok_def)
  show "inmem_view t = (inmem_view s)(i \<mapsto> rec)"
  proof
    fix j
    show "inmem_view t j = ((inmem_view s)(i \<mapsto> rec)) j"
    proof (cases "j = i")
      case True
      then show ?thesis by (simp add: inmem_view_def recs h heap len)
    next
      case False
      show ?thesis
      proof (cases "map_of (im_records s) j")
        case None
        then show ?thesis using False by (simp add: inmem_view_def recs)
      next
        case (Some h')
        then have "h' \<noteq> h" using other [OF map_of_SomeD [OF Some] False] by simp
        then show ?thesis using False Some by (simp add: inmem_view_def recs heap)
      qed
    qed
  qed
qed

lemma inmem_create_view:
  assumes ok: "inmem_ok s" and new: "map_of (im_records s) (ap_id rec) = None"
    and s': "inmem_create s rec = Inr s'"
  shows "inmem_ok s' \<and> inmem_view s' = (inmem_view s)(ap_id rec \<mapsto> rec)"
proof -
  have s'_eq: "s' = \<lparr>im_records = AList.update (ap_id rec) (length (im_heap s)) (im_records s),
                im_heap = im_heap s @ [rec]\<rparr>"
    using s' new by (simp add: inmem_create_def)
  have "h < length (im_heap s') \<and> ap_id (im_heap s' ! h) = i" if "(i, h) \<in> set (im_records s')" for i h
  proof -
    have "(i = ap_id rec \<and> h = length (im_heap s)) \<or> (i \<noteq> ap_id rec \<and> (i, h) \<in> set (im_records s))"
      using dict_values_update that ok by (fastforce simp: s'_eq inmem_ok_def)
    then show ?thesis
      using ok unfolding inmem_ok_def by (fastforce simp: s'_eq nth_append)
  qed
  moreover have "distinct (map fst (im_records s'))"
    using ok by (simp add: s'_eq inmem_ok_def distinct_update)
  ultimately have "inmem_ok s'" by (auto simp: inmem_ok_def)
  moreover have "inmem_view s' = (inmem_view s)(ap_id rec \<mapsto> rec)"
  proof
    fix j
    show "inmem_view s' j = ((inmem_view s)(ap_id rec \<mapsto> rec)) j"
      using inmem_ok_get [OF ok, of j]
      by (cases "map_of (im_records s) j") (auto simp: inmem_view_def s'_eq dict_simps nth_append)
  qed
  ultimately show ?thesis ..
qed

interpretation memory_store: approval_store inmem_ops inmem_view inmem_ok "\<lambda>_. True"
proof unfold_locales
  fix s i assume "inmem_ok s"
  then show "\<exists>h. op_get inmem_ops s i = Inr h \<and> map_option (op_read inmem_ops s) h = inmem_view s i"
    by (auto simp: inmem_ops_def inmem_get_def inmem_view_def)
next
  fix s i rec assume "inmem_ok s" "inmem_view s i = Some rec"
  then show "ap_id rec = i \<and> True" by (auto simp: inmem_view_def dest: inmem_ok_get)
next
  fix s i h rec res s'
  assume ok: "inmem_ok s" and get: "op_get inmem_ops s i = Inr (Some h)" and i: "ap_id rec = i"
    and c: "commit inmem_ops s h rec = (res, s')"
  have h: "map_of (im_records s) i = Some h" using get by (simp add: inmem_ops_def inmem_get_def)
  from inmem_commit [OF ok h i] c inmem_commit_view [OF ok h i]
  show "inmem_ok s' \<and> (case res of
      Inr h' \<Rightarrow> op_read inmem_ops s' h' = rec \<and> inmem_view s' = (inmem_view s)(i \<mapsto> rec)
    | Inl e \<Rightarrow> e = StoreFailure \<and> inmem_view s' = inmem_view s)"
    by (auto simp: inmem_ops_def)
next
  fix s rec assume ok: "inmem_ok s"
  show "case op_create inmem_ops s rec of
      Inr s' \<Rightarrow> inmem_ok s' \<and> inmem_view s (ap_id rec) = None \<and> inmem_view s' = (inmem_view s)(ap_id rec \<mapsto> rec)
    | Inl e \<Rightarrow> e = StoreFailure \<or> e = RecordExists \<and> inmem_view s (ap_id rec) \<noteq> None"
  proof (cases "map_of (im_records s) (ap_id rec)")
    case None
    then obtain s' where s': "inmem_create s rec = Inr s'" by (simp add: inmem_create_def)
    from inmem_create_view [OF ok None s'] show ?thesis
      using s' None by (simp add: inmem_ops_def inmem_view_def)
  next
    case (Some h)
    then show ?thesis by (simp add: inmem_ops_def inmem_create_def inmem_view_def)
  qed
qed simp

subsection \<open>Records as JSON\<close>

record codec =
  cd_iso :: "int \<Rightarrow> string"
  cd_parse_iso :: "string \<Rightarrow> int option"
  cd_uuid :: "string \<Rightarrow> bool"
  cd_repr :: "json \<Rightarrow> string"
  cd_float :: "rat \<Rightarrow> string"
  cd_max_bytes :: int

fun scope_text :: "approval_scope \<Rightarrow> string" where
  "scope_text Once = ''once''"
| "scope_text SessionScope = ''session''"

fun method_text :: "approval_method \<Rightarrow> string" where
  "method_text Interactive = ''interactive''"
| "method_text NonInteractive = ''non_interactive''"

fun status_text :: "approval_status \<Rightarrow> string" where
  "status_text Active = ''active''"
| "status_text Used = ''used''"
| "status_text Denied = ''denied''"
| "status_text Expired = ''expired''"

definition parse_scope :: "string \<Rightarrow> approval_scope option" where
  "parse_scope s = map_of [(''once'', Once), (''session'', SessionScope)] s"

definition parse_method :: "string \<Rightarrow> approval_method option" where
  "parse_method s = map_of [(''interactive'', Interactive), (''non_interactive'', NonInteractive)] s"

definition parse_status :: "string \<Rightarrow> approval_status option" where
  "parse_status s = map_of [(''active'', Active), (''used'', Used), (''denied'', Denied), (''expired'', Expired)] s"

definition to_payload :: "codec \<Rightarrow> approval \<Rightarrow> (string, json) dict" where
  "to_payload c r =
     [(''approval_id'', JStr (ap_id r)), (''request_id'', JStr (ap_request_id r)),
      (''request_fingerprint'', JStr (ap_fingerprint r)),
      (''arguments_digest'', JStr (ap_arguments_digest r)),
      (''identity_subject'', JStr (ap_subject r)), (''identity_tenant'', JStr (ap_tenant r)),
      (''identity_session_id'', JStr (ap_session r)), (''scope'', JStr (scope_text (ap_scope r))),
      (''method'', JStr (method_text (ap_method r))),
      (''granted_at'', JStr (cd_iso c (ap_granted_at r))),
      (''expires_at'', JStr (cd_iso c (ap_expires_at r))),
      (''status'', JStr (status_text (ap_status r))),
      (''use_count'', JInt (int (ap_use_count r))),
      (''last_used_at'', (case ap_last_used_at r of Some t \<Rightarrow> JStr (cd_iso c t) | None \<Rightarrow> JNull))]"

definition hex64 :: "string \<Rightarrow> bool" where
  "hex64 s = (length s = 64 \<and> list_all (\<lambda>ch. (48 \<le> code ch \<and> code ch \<le> 57) \<or> (97 \<le> code ch \<and> code ch \<le> 102)) s)"

definition opt_require :: "bool \<Rightarrow> unit option" where
  "opt_require b = (if b then Some () else None)"

text \<open>\<open>None\<close> stands for the \<open>ApprovalError\<close> every failed check is turned into.\<close>

definition from_payload :: "codec \<Rightarrow> (string, json) dict \<Rightarrow> approval option" where
  "from_payload c d =
     (let text_of = (\<lambda>k. map_option (py_str (cd_repr c)) (map_of d k));
          time_of = (\<lambda>k. text_of k \<bind> cd_parse_iso c) in
      do {
        scope \<leftarrow> text_of ''scope'' \<bind> parse_scope;
        method \<leftarrow> text_of ''method'' \<bind> parse_method;
        status \<leftarrow> parse_status (or_else (text_of ''status'') ''active'');
        i \<leftarrow> text_of ''approval_id'';
        opt_require (cd_uuid c i);
        fp \<leftarrow> text_of ''request_fingerprint'';
        args \<leftarrow> text_of ''arguments_digest'';
        opt_require (hex64 fp \<and> hex64 args);
        n \<leftarrow> py_int (or_else (map_of d ''use_count'') (JInt 0));
        opt_require (0 \<le> n);
        granted \<leftarrow> time_of ''granted_at'';
        expires \<leftarrow> time_of ''expires_at'';
        opt_require (granted < expires);
        request \<leftarrow> text_of ''request_id'';
        subject \<leftarrow> text_of ''identity_subject'';
        tenant \<leftarrow> text_of ''identity_tenant'';
        session \<leftarrow> text_of ''identity_session_id'';
        last \<leftarrow> (if truthy (or_else (map_of d ''last_used_at'') JNull)
                 then map_option Some (time_of ''last_used_at'') else Some None);
        Some \<lparr>ap_id = i, ap_request_id = request, ap_fingerprint = fp, ap_arguments_digest = args,
              ap_subject = subject, ap_tenant = tenant, ap_session = session, ap_scope = scope,
              ap_method = method, ap_granted_at = granted, ap_expires_at = expires,
              ap_status = status, ap_use_count = nat n, ap_last_used_at = last\<rparr>
      })"

definition storable :: "codec \<Rightarrow> approval \<Rightarrow> bool" where
  "storable c r = (cd_uuid c (ap_id r) \<and> hex64 (ap_fingerprint r) \<and> hex64 (ap_arguments_digest r)
                   \<and> ap_granted_at r < ap_expires_at r)"

definition iso_ok :: "codec \<Rightarrow> bool" where
  "iso_ok c \<longleftrightarrow> (\<forall>t. cd_parse_iso c (cd_iso c t) = Some t \<and> cd_iso c t \<noteq> [])"

lemma parse_scope_text [simp]: "parse_scope (scope_text sc) = Some sc"
  by (cases sc) (simp_all add: parse_scope_def)

lemma parse_method_text [simp]: "parse_method (method_text m) = Some m"
  by (cases m) (simp_all add: parse_method_def)

lemma parse_status_text [simp]: "parse_status (status_text st) = Some st"
  by (cases st) (simp_all add: parse_status_def)

lemma payload_roundtrip:
  assumes "iso_ok c" and "storable c r"
  shows "from_payload c (to_payload c r) = Some r"
proof -
  have iso: "cd_parse_iso c (cd_iso c t) = Some t" "cd_iso c t \<noteq> []" for t
    using assms(1) by (auto simp: iso_ok_def)
  have checks: "cd_uuid c (ap_id r)" "hex64 (ap_fingerprint r)" "hex64 (ap_arguments_digest r)"
    "ap_granted_at r < ap_expires_at r"
    using assms(2) by (auto simp: storable_def)
  show ?thesis
    by (cases "ap_last_used_at r")
      (simp_all add: from_payload_def to_payload_def Let_def or_else_def opt_require_def iso checks)
qed

lemma from_payload_storable:
  assumes "from_payload c d = Some r"
  shows "storable c r"
  using assms
  by (auto simp: from_payload_def Let_def opt_require_def storable_def bind_eq_Some_conv split: if_splits)

subsection \<open>The JSON store\<close>

text \<open>The store's file: its size in bytes and what its text decodes to; \<open>None\<close> without a file.\<close>

type_synonym json_file = "(nat \<times> json option) option"

definition item_record :: "codec \<Rightarrow> json \<Rightarrow> approval option" where
  "item_record c item = as_obj item \<bind> from_payload c"

definition json_load :: "codec \<Rightarrow> json_file \<Rightarrow> approval_error + (string, approval) dict" where
  "json_load c st =
     (case st of
        None \<Rightarrow> Inr []
      | Some (n, content) \<Rightarrow>
          (if cd_max_bytes c < int n then Inl StoreFailure
           else case content of
                  Some (JObj d) \<Rightarrow>
                    (if map_of d ''schema_version'' \<noteq> Some (JStr ''1.0'') then Inl StoreFailure
                     else case map_of d ''records'' of
                            Some (JArr items) \<Rightarrow>
                              (case those (map (item_record c) items) of
                                 None \<Rightarrow> Inl StoreFailure
                               | Some rs \<Rightarrow>
                                   (if distinct (map ap_id rs)
                                    then Inr (map (\<lambda>r. (ap_id r, r)) rs) else Inl StoreFailure))
                          | _ \<Rightarrow> Inl StoreFailure)
                | _ \<Rightarrow> Inl StoreFailure))"

definition store_payload :: "codec \<Rightarrow> (string, approval) dict \<Rightarrow> json" where
  "store_payload c records =
     JObj [(''schema_version'', JStr ''1.0''),
           (''records'', JArr (map (\<lambda>(k, r). JObj (to_payload c r)) (sort_key fst records)))]"

definition json_write ::
  "codec \<Rightarrow> (string, approval) dict \<Rightarrow> json_file \<Rightarrow> approval_error + json_file" where
  "json_write c records st =
     (let payload = store_payload c records;
          n = utf8_len (canonical_json (cd_float c) payload) + 1
      in if cd_max_bytes c < int n then Inl StoreFailure else Inr (Some (n, Some payload)))"

definition json_get :: "codec \<Rightarrow> json_file \<Rightarrow> string \<Rightarrow> approval_error + approval option" where
  "json_get c st i = res_bind (json_load c st) (\<lambda>records. Inr (map_of records i))"

definition json_list :: "codec \<Rightarrow> json_file \<Rightarrow> approval_error + approval list" where
  "json_list c st = res_bind (json_load c st) (\<lambda>records. Inr (map snd records))"

definition json_create :: "codec \<Rightarrow> json_file \<Rightarrow> approval \<Rightarrow> approval_error + json_file" where
  "json_create c st rec =
     res_bind (json_load c st) (\<lambda>records.
       if map_of records (ap_id rec) \<noteq> None then Inl RecordExists
       else json_write c (AList.update (ap_id rec) rec records) st)"

definition json_update ::
  "codec \<Rightarrow> json_file \<Rightarrow> approval \<Rightarrow> approval_status \<Rightarrow> nat \<Rightarrow> (approval_error + bool) \<times> json_file" where
  "json_update c st rec expected_status expected_use_count =
     (case json_load c st of
        Inl e \<Rightarrow> (Inl e, st)
      | Inr records \<Rightarrow>
          (case map_of records (ap_id rec) of
             None \<Rightarrow> (Inr False, st)
           | Some current \<Rightarrow>
               (if ap_status current \<noteq> expected_status \<or> ap_use_count current \<noteq> expected_use_count
                then (Inr False, st)
                else case json_write c (AList.update (ap_id rec) rec records) st of
                       Inl e \<Rightarrow> (Inl e, st) | Inr st' \<Rightarrow> (Inr True, st'))))"

definition json_ops :: "codec \<Rightarrow> (json_file, approval) store_ops" where
  "json_ops c = \<lparr>op_get = json_get c, op_list = json_list c, op_create = json_create c,
                 op_read = (\<lambda>st rec. rec), op_assign = (\<lambda>st h rec. (st, rec)),
                 op_update = json_update c\<rparr>"

definition json_view :: "codec \<Rightarrow> json_file \<Rightarrow> approval_view" where
  "json_view c st i = (case json_load c st of Inr records \<Rightarrow> map_of records i | Inl e \<Rightarrow> None)"

definition json_ok :: "codec \<Rightarrow> json_file \<Rightarrow> bool" where
  "json_ok c st = (\<exists>records. json_load c st = Inr records)"

definition good_records :: "codec \<Rightarrow> (string, approval) dict \<Rightarrow> bool" where
  "good_records c records =
     (distinct (map fst records) \<and> (\<forall>(i, r) \<in> set records. ap_id r = i \<and> storable c r))"

lemma those_Some_map: "those (map f xs) = Some ys \<longleftrightarrow> map f xs = map Some ys"
proof (induction xs arbitrary: ys)
  case Nil
  then show ?case by auto
next
  case (Cons x xs)
  show ?case
    by (cases ys; cases "f x") (auto simp: Cons.IH)
qed

lemma json_load_good:
  assumes "json_load c st = Inr records"
  shows "good_records c records"
proof (cases st)
  case None
  then show ?thesis using assms by (simp add: json_load_def good_records_def)
next
  case (Some p)
  then obtain items rs where rs: "map (item_record c) items = map Some rs"
    and d: "distinct (map ap_id rs)" and records: "records = map (\<lambda>r. (ap_id r, r)) rs"
    using assms
    by (auto simp: json_load_def those_Some_map split: prod.splits if_splits option.splits json.splits)
  have "storable c r" if "r \<in> set rs" for r
  proof -
    have "Some r \<in> set (map (item_record c) items)" using that rs by simp
    then obtain x where "item_record c x = Some r" by (metis (no_types, lifting) imageE list.set_map)
    then show ?thesis by (auto simp: item_record_def bind_eq_Some_conv dest: from_payload_storable)
  qed
  then show ?thesis using d by (auto simp: records good_records_def comp_def)
qed

lemma json_write_load:
  assumes iso: "iso_ok c" and good: "good_records c records"
    and w: "json_write c records st = Inr st'"
  shows "json_load c st' = Inr (sort_key fst records)"
proof -
  have st': "st' = Some (utf8_len (canonical_json (cd_float c) (store_payload c records)) + 1, Some (store_payload c records))"
    and small: "\<not> cd_max_bytes c < int (utf8_len (canonical_json (cd_float c) (store_payload c records)) + 1)"
    using w by (auto simp: json_write_def Let_def split: if_splits)
  have item: "item_record c (case p of (k, r) \<Rightarrow> JObj (to_payload c r)) = Some (snd p)"
    if "p \<in> set (sort_key fst records)" for p
    using that good payload_roundtrip [OF iso]
    by (auto simp: item_record_def good_records_def split: prod.splits)
  have those: "those (map (item_record c) (map (\<lambda>(k, r). JObj (to_payload c r)) (sort_key fst records)))
      = Some (map snd (sort_key fst records))"
    unfolding those_Some_map using item by (auto simp: comp_def)
  have ids: "map (ap_id \<circ> snd) (sort_key fst records) = map fst (sort_key fst records)"
    using good by (auto simp: good_records_def)
  have again: "map ((\<lambda>r. (ap_id r, r)) \<circ> snd) (sort_key fst records) = sort_key fst records"
    using good by (intro map_idI) (auto simp: good_records_def)
  have "distinct (map fst (sort_key fst records))"
    using good by (simp add: good_records_def distinct_map inj_on_def)
  then show ?thesis
    using small those by (simp add: json_load_def st' store_payload_def ids again)
qed

lemma good_records_update:
  assumes "good_records c records" and "storable c r"
  shows "good_records c (AList.update (ap_id r) r records)"
  using assms dict_values_update [of records _ _ "ap_id r" r]
  by (fastforce simp: good_records_def distinct_update)

lemma json_write_view:
  assumes iso: "iso_ok c" and load: "json_load c st = Inr records" and r: "storable c r"
    and w: "json_write c (AList.update (ap_id r) r records) st = Inr st'"
  shows "json_ok c st'" and "json_view c st' = (json_view c st)(ap_id r \<mapsto> r)"
proof -
  note good = good_records_update [OF json_load_good [OF load] r]
  note l = json_write_load [OF iso good w]
  show "json_ok c st'" using l by (auto simp: json_ok_def)
  have "distinct (map fst (AList.update (ap_id r) r records))" using good by (simp add: good_records_def)
  then show "json_view c st' = (json_view c st)(ap_id r \<mapsto> r)"
    by (auto simp: json_view_def l load map_of_sort_key dict_simps)
qed

lemma json_write_error: "json_write c records st = Inl e \<Longrightarrow> e = StoreFailure"
  by (auto simp: json_write_def Let_def split: if_splits)

lemma json_store_contract:
  assumes iso: "iso_ok c"
  shows "approval_store (json_ops c) (json_view c) (json_ok c) (storable c)"
proof
  fix s i assume "json_ok c s"
  then show "\<exists>h. op_get (json_ops c) s i = Inr h \<and> map_option (op_read (json_ops c) s) h = json_view c s i"
    by (auto simp: json_ops_def json_get_def json_view_def json_ok_def option.map_ident)
next
  fix s i rec assume ok: "json_ok c s" and v: "json_view c s i = Some rec"
  obtain records where load: "json_load c s = Inr records" using ok by (auto simp: json_ok_def)
  then have "(i, rec) \<in> set records" using v by (auto simp: json_view_def dest: map_of_SomeD)
  with json_load_good [OF load] show "ap_id rec = i \<and> storable c rec"
    by (auto simp: good_records_def)
next
  fix rec :: approval and st n t
  show "storable c (rec\<lparr>ap_use_count := n, ap_last_used_at := t, ap_status := st\<rparr>) = storable c rec"
    by (simp add: storable_def)
next
  fix s i h rec res s'
  assume ok: "json_ok c s" and get: "op_get (json_ops c) s i = Inr (Some h)" and r: "storable c rec"
    and i: "ap_id rec = i" and cm: "commit (json_ops c) s h rec = (res, s')"
  obtain records where load: "json_load c s = Inr records" using ok by (auto simp: json_ok_def)
  have h: "map_of records i = Some h" using get load by (simp add: json_ops_def json_get_def)
  show "json_ok c s' \<and> (case res of
      Inr h' \<Rightarrow> op_read (json_ops c) s' h' = rec \<and> json_view c s' = (json_view c s)(i \<mapsto> rec)
    | Inl e \<Rightarrow> e = StoreFailure \<and> json_view c s' = json_view c s)"
  proof (cases "json_write c (AList.update (ap_id rec) rec records) s")
    case (Inl e)
    then show ?thesis
      using cm load h i ok json_write_error [OF Inl]
      by (auto simp: commit_def json_ops_def json_update_def)
  next
    case (Inr st')
    note v = json_write_view [OF iso load r Inr]
    have "res = Inr rec" "s' = st'"
      using cm load h i Inr by (auto simp: commit_def json_ops_def json_update_def)
    then show ?thesis using v i by (simp add: json_ops_def)
  qed
next
  fix s rec assume ok: "json_ok c s" and r: "storable c rec"
  obtain records where load: "json_load c s = Inr records" using ok by (auto simp: json_ok_def)
  have view: "json_view c s (ap_id rec) = map_of records (ap_id rec)"
    by (simp add: json_view_def load)
  show "case op_create (json_ops c) s rec of
      Inr s' \<Rightarrow> json_ok c s' \<and> json_view c s (ap_id rec) = None \<and> json_view c s' = (json_view c s)(ap_id rec \<mapsto> rec)
    | Inl e \<Rightarrow> e = StoreFailure \<or> e = RecordExists \<and> json_view c s (ap_id rec) \<noteq> None"
  proof (cases "map_of records (ap_id rec)")
    case (Some x)
    then show ?thesis by (simp add: json_ops_def json_create_def load view)
  next
    case None
    show ?thesis
    proof (cases "json_write c (AList.update (ap_id rec) rec records) s")
      case (Inl e)
      then show ?thesis
        using None load json_write_error [OF Inl] by (simp add: json_ops_def json_create_def)
    next
      case (Inr st')
      then show ?thesis
        using None load view json_write_view [OF iso load r Inr]
        by (simp add: json_ops_def json_create_def)
    qed
  qed
qed

subsection \<open>The stores in use\<close>

text \<open>A codec whose times are unary numerals with a sign, small enough to compute with.\<close>

definition unary_iso :: "int \<Rightarrow> string" where
  "unary_iso t = (if t < 0 then CHR ''-'' else CHR ''+'') # replicate (nat \<bar>t\<bar>) (CHR ''1'')"

definition parse_unary :: "string \<Rightarrow> int option" where
  "parse_unary s = (case s of
     [] \<Rightarrow> None
   | c # cs \<Rightarrow> Some (if c = CHR ''-'' then - int (length cs) else int (length cs)))"

definition unary_codec :: codec where
  "unary_codec = \<lparr>cd_iso = unary_iso, cd_parse_iso = parse_unary, cd_uuid = (\<lambda>s. s \<noteq> []),
                  cd_repr = (\<lambda>_. []), cd_float = (\<lambda>_. []), cd_max_bytes = 100000\<rparr>"

lemma unary_codec_ok: "iso_ok unary_codec"
  by (auto simp: iso_ok_def unary_codec_def unary_iso_def parse_unary_def)

interpretation unary_json_store: approval_store
  "json_ops unary_codec" "json_view unary_codec" "json_ok unary_codec" "storable unary_codec"
  by (rule json_store_contract [OF unary_codec_ok])

lemma inmem_empty_ok: "inmem_ok inmem_empty"
  by (simp add: inmem_ok_def inmem_empty_def)

definition example_identity :: identity_context where
  "example_identity =
     \<lparr>id_subject = ''ada'', id_display_name = ''Ada'', id_organization = None, id_tenant = ''t'',
      id_groups = [], id_roles = [], id_auth_method = ''os_user'', id_session_id = ''s'',
      id_source = ''local'', id_verified = False\<rparr>"

definition example_approval_request :: approval_request where
  "example_approval_request =
     \<lparr>ar_action = ''shell'', ar_target = ''ls'', ar_arguments = [(''cmd'', JStr ''ls'')],
      ar_subject = ''ada'', ar_tenant = ''t'', ar_session = ''s'', ar_policy_decision = ''ask'',
      ar_policy_version = ''v'', ar_policy_source = ''p'', ar_policy_reason = ''r'',
      ar_risk_reason = ''x'', ar_request_id = ''q'', ar_requested_at = 0\<rparr>"

definition zero_digest :: "string \<Rightarrow> string" where
  "zero_digest s = replicate 64 (CHR ''0'')"

definition example_approvals_config :: approvals_config where
  "example_approvals_config =
     \<lparr>ac_allow_non_interactive = True, ac_allow_session_scope = True, ac_once_ttl = 300,
      ac_session_ttl = 900\<rparr>"

definition example_calls :: "manager_call list" where
  "example_calls =
     [Grant example_identity example_approval_request Once Interactive ''a1'' 0,
      Consume example_identity example_approval_request ''a1'' 5,
      Consume example_identity example_approval_request ''a1'' 6]"

text \<open>
  One-time approvals are used once. In any sequence of calls of managers that share an
  in-memory store, by whatever actors, with whatever requests and clocks, every identifier of a
  one-time approval is consumed successfully at most once, and every successful use happens
  before the expiry of its record.
\<close>

theorem once_approval_used_once:
  "once_uses i (fst (run_calls fl digest inmem_ops cfg cs inmem_empty)) \<le> 1
   \<and> (\<forall>u \<in> set (fst (run_calls fl digest inmem_ops cfg cs inmem_empty)).
        \<exists>t. ap_last_used_at u = Some t \<and> t < ap_expires_at u)"
  using memory_store.once_only [OF inmem_empty_ok, of fl digest cfg cs]
  by (cases "run_calls fl digest inmem_ops cfg cs inmem_empty") (auto simp: grantable_def)

theorem once_approval_used_once_witness:
  "let us = fst (run_calls (\<lambda>_. []) zero_digest inmem_ops example_approvals_config example_calls inmem_empty)
   in once_uses ''a1'' us = 1 \<and> once_uses ''a1'' us \<le> 1"
proof -
  have "once_uses ''a1'' (fst (run_calls (\<lambda>_. []) zero_digest inmem_ops example_approvals_config
     example_calls inmem_empty)) = 1"
    by code_simp
  with once_approval_used_once [of "''a1''" "\<lambda>_. []" zero_digest example_approvals_config example_calls]
  show ?thesis by (simp add: Let_def)
qed



text \<open>
  C12. An approval is good for the granted request only. Whatever happens between the grant and
  the use, a use of the identifier succeeds only for a request with the same action, target,
  arguments digest, actor, tenant, session and policy, and only before the grant expires. Two
  different requests are assumed not to collide under SHA-256.
\<close>

theorem approval_binds_request:
  assumes "inmem_ok s"
    and "grant fl digest inmem_ops cfg ident1 r1 scope method i t1 s = Inr (rec1, s1, ev1)"
    and "run_calls fl digest inmem_ops cfg cs s1 = (us, s2)"
    and "consume fl digest inmem_ops ident2 r2 i t2 s2 = (Inr rec2, s3, ev3)"
    and "digest (bound_text fl digest r1) = digest (bound_text fl digest r2) \<Longrightarrow>
           bound_text fl digest r1 = bound_text fl digest r2"
  shows "bound_fields fl digest r2 = bound_fields fl digest r1 \<and> t2 < t1 + ttl_micros cfg scope"
  by (rule memory_store.granted_request_only [OF assms(1) _ assms(2) _ assms(3,4,5)])
    (simp_all add: grantable_def)

theorem approval_binds_request_witness:
  "bound_fields (\<lambda>_. []) id example_approval_request = bound_fields (\<lambda>_. []) id example_approval_request
   \<and> (5::int) < 0 + ttl_micros example_approvals_config Once"
proof -
  let ?g = "grant (\<lambda>_. []) id inmem_ops example_approvals_config example_identity
     example_approval_request Once Interactive ''a1'' 0 inmem_empty"
  obtain rec1 s1 ev1 where g: "?g = Inr (rec1, s1, ev1)"
    by (simp add: grant_def assert_request_identity_def example_identity_def example_approval_request_def
        example_approvals_config_def inmem_ops_def inmem_create_def inmem_empty_def new_record_def Let_def)
  have "\<exists>rec2 s3 ev3. consume (\<lambda>_. []) id inmem_ops example_identity example_approval_request ''a1'' 5 s1
      = (Inr rec2, s3, ev3)"
    using g
    by (auto simp: grant_def assert_request_identity_def example_identity_def example_approval_request_def
        example_approvals_config_def inmem_ops_def inmem_create_def inmem_empty_def new_record_def Let_def
        consume_def inmem_get_def check_consumable_def commit_def inmem_assign_def inmem_update_def
        consumed_def ttl_micros_def)
  then obtain rec2 s3 ev3 where c: "consume (\<lambda>_. []) id inmem_ops example_identity
      example_approval_request ''a1'' 5 s1 = (Inr rec2, s3, ev3)" by blast
  show ?thesis
    using approval_binds_request [OF inmem_empty_ok g _ c, of "[]"] by simp
qed

end
