(* ===== verification/Approval_Races.thy ===== *)
theory Approval_Races
  imports Approval_Stores
begin

text \<open>
  Concurrent consumers of one approval (\<open>ApprovalManager.consume\<close> in \<open>src/loro/approvals.py\<close>).
  Only the store operations are atomic: a consumer gets the record, checks it, and then commits
  its change. A configuration holds the store and the phase of every thread, and a schedule
  lets one thread at a time do its next step. With the durable store, whose \<open>get\<close> returns a
  private copy, at most one thread wins a one-time approval. With the in-memory store two threads
  can: both see the same object, and the store skips the comparison of the expected status
  for the very object it holds.
\<close>

datatype 'h phase = Idle | Fetched 'h | Passed 'h | Won | Lost

type_synonym ('s, 'h) race = "'s \<times> (nat \<Rightarrow> 'h phase)"

record consumer =
  co_identity :: identity_context
  co_request :: approval_request
  co_time :: int

definition thread_step ::
  "(rat \<Rightarrow> string) \<Rightarrow> (string \<Rightarrow> string) \<Rightarrow> ('s, 'h) store_ops \<Rightarrow> (nat \<Rightarrow> consumer) \<Rightarrow> string \<Rightarrow>
     nat \<Rightarrow> ('s, 'h) race \<Rightarrow> ('s, 'h) race" where
  "thread_step fl digest ops consumers i a c =
     (let (s, phases) = c; co = consumers a in
      case phases a of
        Idle \<Rightarrow>
          (case res_bind (assert_request_identity (co_identity co) (co_request co)) (\<lambda>_. op_get ops s i) of
             Inr (Some h) \<Rightarrow> (s, phases(a := Fetched h))
           | _ \<Rightarrow> (s, phases(a := Lost)))
      | Fetched h \<Rightarrow>
          (if ap_expires_at (op_read ops s h) \<le> co_time co
           then (snd (commit ops s h ((op_read ops s h)\<lparr>ap_status := Expired\<rparr>)), phases(a := Lost))
           else case check_consumable fl digest (co_request co) (op_read ops s h) of
                  Inl e \<Rightarrow> (s, phases(a := Lost))
                | Inr _ \<Rightarrow> (s, phases(a := Passed h)))
      | Passed h \<Rightarrow>
          (case commit ops s h (consumed (co_time co) (op_read ops s h)) of
             (Inl e, s') \<Rightarrow> (s', phases(a := Lost))
           | (Inr h', s') \<Rightarrow> (s', phases(a := Won)))
      | Won \<Rightarrow> c
      | Lost \<Rightarrow> c)"

inductive race_reach ::
  "(rat \<Rightarrow> string) \<Rightarrow> (string \<Rightarrow> string) \<Rightarrow> ('s, 'h) store_ops \<Rightarrow> (nat \<Rightarrow> consumer) \<Rightarrow> string \<Rightarrow>
     's \<Rightarrow> ('s, 'h) race \<Rightarrow> bool"
  for fl digest ops consumers i s0 where
  start: "race_reach fl digest ops consumers i s0 (s0, \<lambda>_. Idle)"
| step: "race_reach fl digest ops consumers i s0 c \<Longrightarrow>
     race_reach fl digest ops consumers i s0 (thread_step fl digest ops consumers i a c)"

subsection \<open>The durable store\<close>

text \<open>
  A commit either leaves the file as it is or, when the current record has the status and use
  count of the private copy, replaces it.
\<close>

lemma json_commit_cases:
  assumes iso: "iso_ok c" and ok: "json_ok c st" and r: "storable c rec" and i: "ap_id rec = i"
    and h: "ap_id h = i" and cm: "commit (json_ops c) st h rec = (res, st')"
  shows "(st' = st \<and> (\<exists>e. res = Inl e))
       \<or> (res = Inr rec \<and> json_ok c st' \<and> json_view c st' = (json_view c st)(i \<mapsto> rec)
          \<and> (\<exists>cur. json_view c st i = Some cur \<and> ap_status cur = ap_status h))"
proof -
  obtain records where load: "json_load c st = Inr records" using ok by (auto simp: json_ok_def)
  show ?thesis
  proof (cases "map_of records i")
    case None
    then show ?thesis using cm load i by (auto simp: commit_def json_ops_def json_update_def)
  next
    case (Some cur)
    show ?thesis
    proof (cases "json_write c (AList.update (ap_id rec) rec records) st")
      case (Inl e)
      then show ?thesis
        using cm load i Some by (auto simp: commit_def json_ops_def json_update_def split: if_splits)
    next
      case (Inr st2)
      then show ?thesis
        using cm load i Some json_write_view [OF iso load r Inr]
        by (auto simp: commit_def json_ops_def json_update_def json_view_def split: if_splits)
    qed
  qed
qed

definition race_inv :: "codec \<Rightarrow> string \<Rightarrow> (json_file, approval) race \<Rightarrow> bool" where
  "race_inv c i conf =
     (json_ok c (fst conf)
      \<and> (\<exists>cur. json_view c (fst conf) i = Some cur \<and> ap_scope cur = Once
               \<and> ((\<exists>a. snd conf a = Won) \<longrightarrow> ap_status cur \<noteq> Active))
      \<and> (\<forall>a h. snd conf a = Fetched h \<or> snd conf a = Passed h \<longrightarrow>
               ap_id h = i \<and> ap_scope h = Once \<and> storable c h)
      \<and> (\<forall>a h. snd conf a = Passed h \<longrightarrow> ap_status h = Active)
      \<and> (\<forall>a b. snd conf a = Won \<longrightarrow> snd conf b = Won \<longrightarrow> a = b))"

lemma race_inv_lost: "race_inv c i (st, phases) \<Longrightarrow> race_inv c i (st, phases(a := Lost))"
  by (auto simp: race_inv_def split: if_splits)

text \<open>Replacing the record by one that is not active and of the same scope, no new winner.\<close>

lemma race_inv_replace:
  assumes "race_inv c i (st, phases)" and "json_ok c st'"
    and "json_view c st' = (json_view c st)(i \<mapsto> rec)" and "ap_scope rec = Once"
    and "ap_status rec \<noteq> Active"
  shows "race_inv c i (st', phases(a := Lost))"
    and "(\<And>b. phases b \<noteq> Won) \<Longrightarrow> race_inv c i (st', phases(a := Won))"
  using assms by (auto simp: race_inv_def split: if_splits)

lemma json_get_view:
  "json_get c st i = Inr (Some h) \<Longrightarrow> json_view c st i = Some h"
  by (auto simp: json_get_def json_view_def res_simps)

lemma storable_changes:
  "storable c (rec\<lparr>ap_status := Expired\<rparr>) = storable c rec"
  "storable c (consumed now rec) = storable c rec"
  by (simp_all add: storable_def consumed_def)

lemma race_inv_step:
  assumes iso: "iso_ok c" and inv: "race_inv c i (st, phases)"
  shows "race_inv c i (thread_step fl digest (json_ops c) consumers i a (st, phases))"
proof -
  have ok: "json_ok c st" using inv by (simp add: race_inv_def)
  have read: "op_read (json_ops c) s h = h" for s h by (simp add: json_ops_def)
  show ?thesis
  proof (cases "phases a")
    case Idle
    show ?thesis
    proof (cases "\<exists>h. res_bind (assert_request_identity (co_identity (consumers a)) (co_request (consumers a)))
          (\<lambda>_. op_get (json_ops c) st i) = Inr (Some h)")
      case True
      then obtain h where h: "res_bind (assert_request_identity (co_identity (consumers a)) (co_request (consumers a)))
          (\<lambda>_. op_get (json_ops c) st i) = Inr (Some h)" by blast
      then have view: "json_view c st i = Some h"
        by (auto simp: res_simps json_ops_def intro: json_get_view)
      have "ap_id h = i \<and> storable c h"
        using approval_store.view_id [OF json_store_contract [OF iso] ok view] .
      then have "race_inv c i (st, phases(a := Fetched h))"
        using inv view Idle by (auto simp: race_inv_def split: if_splits)
      then show ?thesis using Idle h by (simp add: thread_step_def)
    next
      case False
      then have "thread_step fl digest (json_ops c) consumers i a (st, phases) = (st, phases(a := Lost))"
        using Idle by (auto simp: thread_step_def Let_def split: sum.splits option.splits)
      then show ?thesis using race_inv_lost [OF inv] by simp
    qed
  next
    case (Fetched h)
    then have h: "ap_id h = i" "ap_scope h = Once" "storable c h" using inv by (auto simp: race_inv_def)
    show ?thesis
    proof (cases "ap_expires_at h \<le> co_time (consumers a)")
      case True
      obtain res st' where cm: "commit (json_ops c) st h (h\<lparr>ap_status := Expired\<rparr>) = (res, st')"
        by (cases "commit (json_ops c) st h (h\<lparr>ap_status := Expired\<rparr>)") auto
      have "race_inv c i (st', phases(a := Lost))"
        using json_commit_cases [OF iso ok _ _ h(1) cm] h race_inv_lost [OF inv]
          race_inv_replace(1) [OF inv, of st' "h\<lparr>ap_status := Expired\<rparr>" a]
        by (auto simp: storable_changes)
      then show ?thesis using Fetched True cm by (simp add: thread_step_def read)
    next
      case False
      show ?thesis
      proof (cases "check_consumable fl digest (co_request (consumers a)) h")
        case (Inl e)
        then show ?thesis using Fetched False race_inv_lost [OF inv] by (simp add: thread_step_def read)
      next
        case (Inr u)
        then have "ap_status h = Active" using check_consumable_ok(4) h(2) by blast
        then have "race_inv c i (st, phases(a := Passed h))"
          using inv h Fetched by (auto simp: race_inv_def split: if_splits)
        then show ?thesis using Fetched False Inr by (simp add: thread_step_def read)
      qed
    qed
  next
    case (Passed h)
    then have h: "ap_id h = i" "ap_scope h = Once" "storable c h" "ap_status h = Active"
      using inv by (auto simp: race_inv_def)
    let ?rec = "consumed (co_time (consumers a)) h"
    obtain res st' where cm: "commit (json_ops c) st h ?rec = (res, st')"
      by (cases "commit (json_ops c) st h ?rec") auto
    have rec: "storable c ?rec" "ap_id ?rec = i" "ap_scope ?rec = Once" "ap_status ?rec \<noteq> Active"
      using h by (simp_all add: storable_changes)
    from json_commit_cases [OF iso ok rec(1,2) h(1) cm] show ?thesis
    proof (elim disjE conjE exE)
      fix e assume "st' = st" "res = Inl e"
      then show ?thesis using Passed cm race_inv_lost [OF inv] by (simp add: thread_step_def read)
    next
      fix cur assume res: "res = Inr ?rec" and ok': "json_ok c st'"
        and v: "json_view c st' = (json_view c st)(i \<mapsto> ?rec)"
        and cur: "json_view c st i = Some cur" "ap_status cur = ap_status h"
      have "phases b \<noteq> Won" for b using inv cur h(4) by (auto simp: race_inv_def)
      then have "race_inv c i (st', phases(a := Won))"
        using race_inv_replace(2) [OF inv ok' v rec(3,4)] by simp
      then show ?thesis using Passed cm res by (simp add: thread_step_def read)
    qed
  qed (use inv in \<open>simp_all add: thread_step_def\<close>)
qed

lemma race_inv_reach:
  assumes iso: "iso_ok c" and reach: "race_reach fl digest (json_ops c) consumers i st0 conf"
    and start: "race_inv c i (st0, \<lambda>_. Idle)"
  shows "race_inv c i conf"
  using reach
proof (induction rule: race_reach.induct)
  case start
  show ?case by fact
next
  case (step conf a)
  then show ?case using race_inv_step [OF iso, of i "fst conf" "snd conf"] by simp
qed

text \<open>
  C5. No double spending across concurrent consumers of the durable store. However the steps of
  any number of consumers of a one-time approval are interleaved, at most one of them succeeds.
\<close>

theorem durable_race_single_winner:
  assumes "iso_ok c" and "json_ok c st0" and "json_view c st0 i = Some rec"
    and "ap_scope rec = Once"
    and "race_reach fl digest (json_ops c) consumers i st0 (st, phases)"
    and "phases a = Won" and "phases b = Won"
  shows "a = b"
proof -
  have "race_inv c i (st0, \<lambda>_. Idle)" using assms(2-4) by (simp add: race_inv_def)
  from race_inv_reach [OF assms(1,5) this] assms(6,7) show ?thesis by (auto simp: race_inv_def)
qed

fun run_schedule ::
  "(rat \<Rightarrow> string) \<Rightarrow> (string \<Rightarrow> string) \<Rightarrow> ('s, 'h) store_ops \<Rightarrow> (nat \<Rightarrow> consumer) \<Rightarrow> string \<Rightarrow>
     nat list \<Rightarrow> ('s, 'h) race \<Rightarrow> ('s, 'h) race" where
  "run_schedule fl digest ops consumers i [] c = c"
| "run_schedule fl digest ops consumers i (a # as) c =
     run_schedule fl digest ops consumers i as (thread_step fl digest ops consumers i a c)"

lemma run_schedule_reach:
  "race_reach fl digest ops consumers i s0 c \<Longrightarrow>
     race_reach fl digest ops consumers i s0 (run_schedule fl digest ops consumers i as c)"
proof (induction as arbitrary: c)
  case Nil
  then show ?case by simp
next
  case (Cons a as)
  from Cons.IH [OF race_reach.step [OF Cons.prems]] show ?case by simp
qed

definition two_consumers :: "nat \<Rightarrow> consumer" where
  "two_consumers a =
     \<lparr>co_identity = example_identity, co_request = example_approval_request, co_time = 5\<rparr>"

definition granted_record :: approval where
  "granted_record = new_record (\<lambda>_. []) zero_digest example_approvals_config example_approval_request
                      Once Interactive ''a1'' 0"

text \<open>A size limit that both versions of the file just keep to.\<close>

definition file_size :: "approval \<Rightarrow> nat" where
  "file_size r = utf8_len (canonical_json (\<lambda>_. []) (store_payload unary_codec [(''a1'', r)])) + 1"

definition used_record :: approval where
  "used_record = consumed 5 granted_record"

definition granted_codec :: codec where
  "granted_codec = unary_codec\<lparr>cd_max_bytes := int (file_size granted_record + file_size used_record)\<rparr>"

definition granted_file :: json_file where
  "granted_file = Some (file_size granted_record, Some (store_payload unary_codec [(''a1'', granted_record)]))"

definition granted_memory :: inmem where
  "granted_memory = \<lparr>im_records = [(''a1'', 0)], im_heap = [granted_record]\<rparr>"

lemma granted_codec_ok: "iso_ok granted_codec"
  using unary_codec_ok by (simp add: iso_ok_def granted_codec_def)

lemma granted_records_storable:
  "storable granted_codec granted_record" "storable granted_codec used_record"
  "ap_id granted_record = ''a1''" "ap_id used_record = ''a1''"
  by (simp_all add: storable_def used_record_def consumed_def granted_codec_def unary_codec_def
      granted_record_def new_record_def fingerprint_def arguments_digest_def zero_digest_def hex64_def
      code_def ttl_micros_def example_approvals_config_def list_all_iff)

lemma granted_write:
  assumes "r \<in> {granted_record, used_record}"
  shows "json_write granted_codec [(''a1'', r)] st
           = Inr (Some (file_size r, Some (store_payload unary_codec [(''a1'', r)])))"
proof -
  have "store_payload granted_codec [(''a1'', r)] = store_payload unary_codec [(''a1'', r)]"
    by (simp add: store_payload_def to_payload_def granted_codec_def split: option.split)
  moreover have "file_size r \<le> file_size granted_record + file_size used_record" using assms by auto
  ultimately show ?thesis
    by (simp add: json_write_def granted_codec_def unary_codec_def file_size_def Let_def)
qed

lemma granted_file_facts:
  "json_ok granted_codec granted_file" "json_load granted_codec granted_file = Inr [(''a1'', granted_record)]"
  "json_view granted_codec granted_file ''a1'' = Some granted_record"
proof -
  have good: "good_records granted_codec [(''a1'', granted_record)]"
    using granted_records_storable by (simp add: good_records_def)
  have "json_write granted_codec [(''a1'', granted_record)] None = Inr granted_file"
    using granted_write [of granted_record None] by (simp add: granted_file_def)
  from json_write_load [OF granted_codec_ok good this]
  show load: "json_load granted_codec granted_file = Inr [(''a1'', granted_record)]" by simp
  then show "json_ok granted_codec granted_file" by (simp add: json_ok_def)
  from load show "json_view granted_codec granted_file ''a1'' = Some granted_record"
    by (simp add: json_view_def)
qed

lemma granted_commit:
  "commit (json_ops granted_codec) granted_file granted_record used_record
     = (Inr used_record, Some (file_size used_record, Some (store_payload unary_codec [(''a1'', used_record)])))"
  using granted_write [of used_record granted_file]
  by (simp add: commit_def json_ops_def json_update_def granted_file_facts granted_records_storable)

lemma granted_checks:
  "check_consumable (\<lambda>_. []) zero_digest example_approval_request granted_record = Inr ()"
  "assert_request_identity example_identity example_approval_request = Inr ()"
  "\<not> ap_expires_at granted_record \<le> 5"
  by (simp_all add: check_consumable_def granted_record_def new_record_def fingerprint_def zero_digest_def
      example_approval_request_def example_identity_def assert_request_identity_def ttl_micros_def
      example_approvals_config_def)

theorem durable_race_single_winner_witness:
  "let conf = run_schedule (\<lambda>_. []) zero_digest (json_ops granted_codec) two_consumers ''a1'' [0, 1, 0, 1, 0]
                (granted_file, \<lambda>_. Idle)
   in snd conf 0 = Won \<and> snd conf 1 = Passed granted_record \<and> (\<forall>b. snd conf b = Won \<longrightarrow> b = 0)"
proof -
  let ?conf = "run_schedule (\<lambda>_. []) zero_digest (json_ops granted_codec) two_consumers ''a1'' [0, 1, 0, 1, 0]
      (granted_file, \<lambda>_. Idle)"
  have run: "snd ?conf 0 = Won \<and> snd ?conf 1 = Passed granted_record"
    using granted_commit
    by (simp add: thread_step_def Let_def two_consumers_def granted_checks granted_file_facts json_ops_def
        json_get_def used_record_def)
  have once: "ap_scope granted_record = Once" by (simp add: granted_record_def new_record_def)
  have "race_reach (\<lambda>_. []) zero_digest (json_ops granted_codec) two_consumers ''a1'' granted_file ?conf"
    by (rule run_schedule_reach [OF race_reach.start])
  then have reach: "race_reach (\<lambda>_. []) zero_digest (json_ops granted_codec) two_consumers ''a1''
      granted_file (fst ?conf, snd ?conf)" by (simp only: prod.collapse)
  have "b = 0" if "snd ?conf b = Won" for b
    using durable_race_single_winner [OF granted_codec_ok granted_file_facts(1,3) once reach that] run
    by blast
  with run show ?thesis by (simp only: Let_def) blast
qed

text \<open>
  Two threads that both get the record before either commits both succeed on the in-memory store.
\<close>

lemma memory_race_two_winners:
  "\<exists>conf. race_reach (\<lambda>_. []) zero_digest inmem_ops two_consumers ''a1'' granted_memory conf
      \<and> ap_scope granted_record = Once \<and> snd conf 0 = Won \<and> snd conf 1 = Won"
proof (intro exI conjI)
  let ?conf = "run_schedule (\<lambda>_. []) zero_digest inmem_ops two_consumers ''a1'' [0, 1, 0, 1, 0, 1]
           (granted_memory, \<lambda>_. Idle)"
  show "race_reach (\<lambda>_. []) zero_digest inmem_ops two_consumers ''a1'' granted_memory ?conf"
    by (rule run_schedule_reach [OF race_reach.start])
  show "ap_scope granted_record = Once" by (simp add: granted_record_def new_record_def)
  show "snd ?conf 0 = Won" and "snd ?conf 1 = Won" by code_simp+
qed

end
