(* ===== verification/Data_Protection.thy ===== *)
theory Data_Protection
  imports Json_Value "HOL-Library.Product_Lexorder"
begin

text \<open>
  \<open>src/loro/data_protection.py\<close> with \<open>SafetyConfig\<close> and \<open>DataProtectionSurfaceConfig\<close>
  (\<open>src/loro/config.py\<close>): classification and redaction of content on a surface. The regular
  expression engine is the parameter \<open>finditer\<close> (the spans of the matches of a pattern); the
  pattern of classification labels is simple enough to be written out. Entropy is over the
  reals. The locale \<open>content_scanners\<close> is the contract of the scanners: spans lie in the
  text.
\<close>

subsection \<open>Classifications\<close>

datatype classification = Public | Internal | Confidential | Restricted

fun classification_rank :: "classification \<Rightarrow> nat" where
  "classification_rank Public = 0"
| "classification_rank Internal = 1"
| "classification_rank Confidential = 2"
| "classification_rank Restricted = 3"

lemma classification_rank_inj [simp]:
  "classification_rank a = classification_rank b \<longleftrightarrow> a = b"
  by (cases a; cases b) auto

instantiation classification :: linorder
begin

definition less_eq_classification :: "classification \<Rightarrow> classification \<Rightarrow> bool" where
  "less_eq_classification a b = (classification_rank a \<le> classification_rank b)"

definition less_classification :: "classification \<Rightarrow> classification \<Rightarrow> bool" where
  "less_classification a b = (classification_rank a < classification_rank b)"

instance
  by standard (auto simp: less_eq_classification_def less_classification_def)

end

lemma Restricted_greatest [simp]: "c \<le> Restricted"
  by (cases c) (auto simp: less_eq_classification_def)

subsection \<open>Findings, settings and decisions\<close>

record finding =
  fi_kind :: string
  fi_classification :: classification
  fi_snippet :: string
  fi_start :: nat
  fi_end :: nat

datatype surface_action = ActAllow | ActRedact | ActBlock

record surface_policy =
  sp_action :: surface_action
  sp_maximum :: classification
  sp_allowed_kinds :: "string list"

record scan_pattern =
  pt_kind :: string
  pt_pattern :: string
  pt_classification :: classification

record safety_config =
  sc_enabled :: bool
  sc_block_on_findings :: bool
  sc_default :: classification
  sc_redaction_text :: string
  sc_allow_override :: bool
  sc_surfaces :: "(string, surface_policy) dict"
  sc_custom_patterns :: "scan_pattern list"

record protection_decision =
  pd_surface :: string
  pd_classification :: classification
  pd_maximum :: classification
  pd_action :: surface_action
  pd_findings :: "finding list"
  pd_ignored :: "finding list"
  pd_content :: string
  pd_reason :: string

datatype protection_error =
    NoSurfacePolicy string | UnknownSurfaces "string list" | ProtectionBlocked string string

definition default_surfaces :: "(string, surface_policy) dict" where
  "default_surfaces =
     (let pol = (\<lambda>a m. \<lparr>sp_action = a, sp_maximum = m, sp_allowed_kinds = []\<rparr>) in
      [(''model_input'', pol ActBlock Confidential), (''model_output'', pol ActRedact Confidential),
       (''memory_local'', pol ActBlock Confidential), (''memory_shared'', pol ActBlock Confidential),
       (''artifact'', pol ActBlock Confidential), (''session'', pol ActBlock Confidential),
       (''session_message'', pol ActBlock Confidential), (''tool_output'', pol ActRedact Confidential),
       (''audit'', pol ActRedact Internal), (''agent_profile'', pol ActRedact Confidential)])"

text \<open>Configured surfaces replace the defaults of the same name; unknown names are rejected.\<close>

definition supply_surfaces ::
  "(string, surface_policy) dict \<Rightarrow> protection_error + (string, surface_policy) dict" where
  "supply_surfaces configured =
     (let surfaces = fold (\<lambda>(k, v). AList.update k v) configured default_surfaces;
          unknown = filter (\<lambda>k. k \<notin> set (map fst default_surfaces)) (map fst surfaces)
      in if unknown \<noteq> [] then Inl (UnknownSurfaces (sort unknown)) else Inr surfaces)"

subsection \<open>The regular expression scanner\<close>

definition is_lower :: "char \<Rightarrow> bool" where
  "is_lower c = (let n = code c in (97 \<le> n \<and> n \<le> 122) \<or> n \<in> {170, 181, 186}
                   \<or> (223 \<le> n \<and> n \<le> 246) \<or> (248 \<le> n \<and> n \<le> 255))"

definition is_upper :: "char \<Rightarrow> bool" where
  "is_upper c = (let n = code c in (65 \<le> n \<and> n \<le> 90) \<or> (192 \<le> n \<and> n \<le> 214)
                   \<or> (216 \<le> n \<and> n \<le> 222))"

definition is_digit :: "char \<Rightarrow> bool" where
  "is_digit c = (let n = code c in (48 \<le> n \<and> n \<le> 57) \<or> n \<in> {178, 179, 185})"

definition shannon_entropy :: "string \<Rightarrow> real" where
  "shannon_entropy s =
     (if s = [] then 0
      else - sum_list (map (\<lambda>c. let p = real (count_list s c) / real (length s) in p * log 2 p)
                         (remdups s)))"

text \<open>
  The gate \<open>_shannon_entropy(value) >= 3.9\<close> of a text of 40 characters, as a comparison of
  integers; \<open>entropy_gate_correct\<close> below shows that it is the same.
\<close>

definition entropy_gate :: "string \<Rightarrow> bool" where
  "entropy_gate s = (2 ^ 156 * prod_list (map (\<lambda>c. int (count_list s c) ^ count_list s c) (remdups s))
                     \<le> 40 ^ 40)"

definition looks_like_aws_secret_key :: "string \<Rightarrow> bool" where
  "looks_like_aws_secret_key s =
     (length s = 40 \<and> list_ex is_lower s \<and> list_ex is_upper s \<and> list_ex is_digit s
      \<and> entropy_gate s)"

lemma log_prod_list:
  "\<forall>x \<in> set xs. 0 < f x \<Longrightarrow> log 2 (prod_list (map f xs)) = sum_list (map (\<lambda>x. log 2 (f x)) xs)
     \<and> 0 < prod_list (map f xs)"
  for f :: "char \<Rightarrow> real"
  by (induction xs) (auto simp: log_mult)

lemma sum_count_remdups: "sum_list (map (count_list s) (remdups s)) = length s"
  by (simp add: sum_list_distinct_conv_sum_set sum_count_set)

lemma entropy_gate_correct:
  assumes "length s = 40"
  shows "entropy_gate s \<longleftrightarrow> 39 / 10 \<le> shannon_entropy s"
proof -
  let ?n = "\<lambda>c. count_list s c"
  let ?f = "\<lambda>c. real (?n c) ^ ?n c"
  have pos: "\<forall>c \<in> set (remdups s). 0 < real (?n c)"
    by (simp add: count_list_0_iff zero_less_iff_neq_zero)
  then have posf: "\<forall>c \<in> set (remdups s). 0 < ?f c" by simp
  let ?P = "prod_list (map ?f (remdups s))"
  let ?S = "sum_list (map (\<lambda>c. real (?n c) * log 2 (real (?n c))) (remdups s))"
  have P: "log 2 ?P = ?S" "0 < ?P"
  proof -
    have "map (\<lambda>c. log 2 (?f c)) (remdups s) = map (\<lambda>c. real (?n c) * log 2 (real (?n c))) (remdups s)"
      using pos by (auto simp: log_nat_power)
    then have "sum_list (map (\<lambda>c. log 2 (?f c)) (remdups s)) = ?S" by (rule arg_cong)
    with log_prod_list [OF posf] show "log 2 ?P = ?S" "0 < ?P" by linarith+
  qed
  have ne: "s \<noteq> []" using assms by auto
  have "shannon_entropy s = - sum_list (map (\<lambda>c. (real (?n c) * log 2 (real (?n c)) - real (?n c) * log 2 40) / 40) (remdups s))"
  proof -
    have "(let p = real (?n c) / real (length s) in p * log 2 p)
            = (real (?n c) * log 2 (real (?n c)) - real (?n c) * log 2 40) / 40"
      if "c \<in> set (remdups s)" for c
      using pos that assms by (simp add: log_divide right_diff_distrib Let_def field_simps)
    then have "map (\<lambda>c. let p = real (?n c) / real (length s) in p * log 2 p) (remdups s)
      = map (\<lambda>c. (real (?n c) * log 2 (real (?n c)) - real (?n c) * log 2 40) / 40) (remdups s)"
      by (intro map_cong) (simp_all del: set_remdups)
    then show ?thesis using ne by (simp only: shannon_entropy_def if_False)
  qed
  also have "\<dots> = log 2 40 - ?S / 40"
  proof -
    have "sum_list (map (\<lambda>c. (real (?n c) * log 2 (real (?n c)) - real (?n c) * log 2 40) / 40) xs)
        = (sum_list (map (\<lambda>c. real (?n c) * log 2 (real (?n c))) xs)
            - real (sum_list (map ?n xs)) * log 2 40) / 40" for xs
      by (induction xs) (simp_all add: field_simps)
    from this [of "remdups s"] show ?thesis
      by (simp only: sum_count_remdups assms) (simp add: field_simps)
  qed
  finally have "shannon_entropy s = log 2 40 - ?S / 40" .
  then have "39 / 10 \<le> shannon_entropy s \<longleftrightarrow> 156 + ?S \<le> 40 * log 2 40" by linarith
  also have "\<dots> \<longleftrightarrow> log 2 (2 ^ 156 * ?P) \<le> log 2 (40 ^ 40)"
  proof -
    have "log 2 (x * y) = log 2 x + log 2 y" if "0 < x" "0 < y" for x y :: real
      using that by (simp add: log_mult)
    from this [of "2 ^ 156" ?P] have "log 2 (2 ^ 156 * ?P) = log 2 (2 ^ 156) + log 2 ?P"
      using P(2) zero_less_power [of "2::real" 156] by linarith
    moreover have "log 2 ((2::real) ^ 156) = 156" by (subst log_nat_power) auto
    moreover have "log 2 ((40::real) ^ 40) = 40 * log 2 40" by (subst log_nat_power) auto
    ultimately show ?thesis using P(1) by (simp only:)
  qed
  also have "\<dots> \<longleftrightarrow> 2 ^ 156 * ?P \<le> 40 ^ 40" using P(2) by (subst log_le_cancel_iff) auto
  also have "?P = real_of_int (prod_list (map (\<lambda>c. int (?n c) ^ ?n c) (remdups s)))"
  proof -
    have "prod_list (map ?f xs) = real_of_int (prod_list (map (\<lambda>c. int (?n c) ^ ?n c) xs))" for xs
      by (induction xs) simp_all
    then show ?thesis .
  qed
  also have "2 ^ 156 * real_of_int (prod_list (map (\<lambda>c. int (?n c) ^ ?n c) (remdups s))) \<le> 40 ^ 40
      \<longleftrightarrow> entropy_gate s"
  proof -
    have "(2::real) ^ 156 * real_of_int k \<le> 40 ^ 40 \<longleftrightarrow> 2 ^ 156 * k \<le> 40 ^ 40" for k
    proof -
      have "(2::real) ^ 156 * real_of_int k = real_of_int (2 ^ 156 * k)" by simp
      moreover have "(40::real) ^ 40 = real_of_int (40 ^ 40)" by simp
      ultimately show ?thesis by (simp only: of_int_le_iff)
    qed
    then show ?thesis by (simp only: entropy_gate_def)
  qed
  finally show ?thesis by blast
qed

definition preview :: "string \<Rightarrow> string \<Rightarrow> string" where
  "preview redaction s = redaction @ '' ('' @ nat_str (length s) @ '' chars)''"

definition match_text :: "string \<Rightarrow> nat \<times> nat \<Rightarrow> string" where
  "match_text t sp = take (snd sp - fst sp) (drop (fst sp) t)"

definition pattern_findings ::
  "(string \<Rightarrow> string \<Rightarrow> (nat \<times> nat) list) \<Rightarrow> string \<Rightarrow> string \<Rightarrow> scan_pattern \<Rightarrow> finding list" where
  "pattern_findings finditer redaction t pat =
     map (\<lambda>sp. \<lparr>fi_kind = pt_kind pat, fi_classification = pt_classification pat,
                   fi_snippet = preview redaction (match_text t sp),
                   fi_start = fst sp, fi_end = snd sp\<rparr>)
       (filter (\<lambda>sp. pt_kind pat = ''aws_secret_key'' \<longrightarrow> looks_like_aws_secret_key (match_text t sp))
          (finditer (pt_pattern pat) t))"

definition finding_span :: "finding \<Rightarrow> nat \<times> nat" where
  "finding_span f = (fi_start f, fi_end f)"

definition regex_scan ::
  "(string \<Rightarrow> string \<Rightarrow> (nat \<times> nat) list) \<Rightarrow> scan_pattern list \<Rightarrow> string \<Rightarrow> string \<Rightarrow> finding list" where
  "regex_scan finditer patterns redaction t =
     sort_key finding_span (concat (map (pattern_findings finditer redaction t) patterns))"

subsection \<open>Classification labels in the text\<close>

definition skip_space :: "string \<Rightarrow> string" where
  "skip_space s = lstrip_by is_space s"

definition lower_ascii :: "char \<Rightarrow> char" where
  "lower_ascii c = (if 65 \<le> code c \<and> code c \<le> 90 then char_of (code c + 32) else c)"

definition eat_word :: "string \<Rightarrow> string \<Rightarrow> string option" where
  "eat_word w s = (if map lower_ascii (take (length w) s) = w then Some (drop (length w) s) else None)"

definition label_names :: "(string \<times> classification) list" where
  "label_names = [(''public'', Public), (''internal'', Internal), (''confidential'', Confidential),
                  (''restricted'', Restricted)]"

definition close_label :: "string \<Rightarrow> bool" where
  "close_label s = (case skip_space s of c # _ \<Rightarrow> c = CHR '']'' | [] \<Rightarrow> False)"

text \<open>What follows an opening bracket: \<open>classification : name ]\<close>.\<close>

definition label_at :: "string \<Rightarrow> classification option" where
  "label_at s =
     (case eat_word ''classification'' (skip_space s) of
        None \<Rightarrow> None
      | Some r \<Rightarrow>
          (case skip_space r of
             c # r' \<Rightarrow>
               (if c = CHR '':'' then
                  map_option snd (List.find (\<lambda>(w, cl).
                    case eat_word w (skip_space r') of
                      Some r'' \<Rightarrow> close_label r'' | None \<Rightarrow> False) label_names)
                else None)
           | [] \<Rightarrow> None))"

fun labels :: "string \<Rightarrow> classification list" where
  "labels [] = []"
| "labels (c # cs) =
     (if c = CHR ''['' then (case label_at cs of Some cl \<Rightarrow> cl # labels cs | None \<Rightarrow> labels cs)
      else labels cs)"

definition text_label :: "string \<Rightarrow> classification option" where
  "text_label s = (case labels s of [] \<Rightarrow> None | l # ls \<Rightarrow> Some (fold max ls l))"

subsection \<open>Redaction\<close>

fun merge_spans :: "(nat \<times> nat) list \<Rightarrow> (nat \<times> nat) list \<Rightarrow> (nat \<times> nat) list" where
  "merge_spans acc [] = rev acc"
| "merge_spans [] ((s, e) # rest) = merge_spans [(s, e)] rest"
| "merge_spans ((a, b) # acc) ((s, e) # rest) =
     (if s \<le> b then merge_spans ((a, max b e) # acc) rest
      else merge_spans ((s, e) # (a, b) # acc) rest)"

definition replace_span :: "string \<Rightarrow> nat \<times> nat \<Rightarrow> string \<Rightarrow> string" where
  "replace_span redaction sp t = take (fst sp) t @ redaction @ drop (snd sp) t"

definition redact :: "string \<Rightarrow> string \<Rightarrow> finding list \<Rightarrow> string" where
  "redact redaction t findings =
     (if findings = [] then redaction
      else fold (replace_span redaction)
             (rev (merge_spans [] (map finding_span (sort_key finding_span findings)))) t)"

subsection \<open>Evaluation\<close>

text \<open>\<open>classification or self._label(text) or self.config.default_classification\<close>.\<close>

definition declared_classification ::
  "classification option \<Rightarrow> classification option \<Rightarrow> classification \<Rightarrow> classification" where
  "declared_classification by_caller by_label dflt =
     (case by_caller of Some c \<Rightarrow> c | None \<Rightarrow> (case by_label of Some c \<Rightarrow> c | None \<Rightarrow> dflt))"

definition evaluate_content ::
  "safety_config \<Rightarrow> (string \<Rightarrow> finding list) list \<Rightarrow> string \<Rightarrow> string \<Rightarrow> classification option \<Rightarrow> bool \<Rightarrow>
     protection_error + protection_decision" where
  "evaluate_content cfg scanners t surface declared_by_caller allow_sensitive =
     (case map_of (sc_surfaces cfg) surface of
        None \<Rightarrow> Inl (NoSurfacePolicy surface)
      | Some pol \<Rightarrow>
          (if \<not> sc_enabled cfg then
             Inr \<lparr>pd_surface = surface,
                  pd_classification = (case declared_by_caller of Some c \<Rightarrow> c | None \<Rightarrow> sc_default cfg),
                  pd_maximum = sp_maximum pol, pd_action = ActAllow, pd_findings = [],
                  pd_ignored = [], pd_content = t, pd_reason = ''data protection disabled''\<rparr>
           else
             (let scanned = concat (map (\<lambda>scan. scan t) scanners);
                  ignored = filter (\<lambda>f. fi_kind f \<in> set (sp_allowed_kinds pol)) scanned;
                  findings = filter (\<lambda>f. fi_kind f \<notin> set (sp_allowed_kinds pol)) scanned;
                  declared = declared_classification declared_by_caller (text_label t) (sc_default cfg);
                  detected = fold (\<lambda>f d. if fi_classification f > d then fi_classification f else d)
                               findings declared;
                  declared_exceeds = declared > sp_maximum pol;
                  finding_triggered = (findings \<noteq> [] \<and> sc_block_on_findings cfg);
                  exceeds = (declared_exceeds \<or> (finding_triggered \<and> detected > sp_maximum pol));
                  triggered = (finding_triggered \<or> exceeds);
                  (act, reason) =
                    (if allow_sensitive \<and> sc_allow_override cfg
                     then (ActAllow, ''explicit development override'')
                     else if triggered
                     then (sp_action pol, if findings \<noteq> [] then ''findings detected''
                                          else ''classification exceeds surface ceiling'')
                     else (ActAllow, ''within surface policy''));
                  content = (if act = ActRedact then redact (sc_redaction_text cfg) t findings else t)
              in Inr \<lparr>pd_surface = surface, pd_classification = detected,
                      pd_maximum = sp_maximum pol, pd_action = act, pd_findings = findings,
                      pd_ignored = ignored, pd_content = content, pd_reason = reason\<rparr>)))"

fun classification_name :: "classification \<Rightarrow> string" where
  "classification_name Public = ''public''"
| "classification_name Internal = ''internal''"
| "classification_name Confidential = ''confidential''"
| "classification_name Restricted = ''restricted''"

definition finding_kinds :: "finding list \<Rightarrow> string list" where
  "finding_kinds fs = sort (remdups (map fi_kind fs))"

definition enforce_content ::
  "safety_config \<Rightarrow> (string \<Rightarrow> finding list) list \<Rightarrow> string \<Rightarrow> string \<Rightarrow> classification option \<Rightarrow> bool \<Rightarrow>
     protection_error + protection_decision" where
  "enforce_content cfg scanners t surface declared allow_sensitive =
     res_bind (evaluate_content cfg scanners t surface declared allow_sensitive) (\<lambda>d.
       if pd_action d = ActBlock then
         Inl (ProtectionBlocked surface
           (if finding_kinds (pd_findings d) \<noteq> [] then py_join '', '' (finding_kinds (pd_findings d))
            else classification_name (pd_classification d)))
       else Inr d)"

definition decision_metadata :: "protection_decision \<Rightarrow> (string, json) dict" where
  "decision_metadata d =
     (let action_name = (\<lambda>a. case a of ActAllow \<Rightarrow> ''allow'' | ActRedact \<Rightarrow> ''redact'' | ActBlock \<Rightarrow> ''block'') in
      [(''surface'', JStr (pd_surface d)),
       (''classification'', JStr (classification_name (pd_classification d))),
       (''maximum_classification'', JStr (classification_name (pd_maximum d))),
       (''action'', JStr (action_name (pd_action d))),
       (''finding_count'', JInt (int (length (pd_findings d)))),
       (''finding_kinds'', JArr (map JStr (finding_kinds (pd_findings d)))),
       (''ignored_finding_count'', JInt (int (length (pd_ignored d)))),
       (''ignored_finding_kinds'', JArr (map JStr (finding_kinds (pd_ignored d))))])"

subsection \<open>Redaction removes every finding\<close>

text \<open>
  \<open>splice\<close> copies the text between the given spans and writes the replacement for each of them.
  \<open>spans_ok\<close>: the spans are ordered, do not overlap and lie in a text of length \<open>n\<close>.
\<close>

fun splice :: "string \<Rightarrow> nat \<Rightarrow> (nat \<times> nat) list \<Rightarrow> string \<Rightarrow> string" where
  "splice red p [] t = drop p t"
| "splice red p ((s, e) # ivs) t = take (s - p) (drop p t) @ red @ splice red e ivs t"

fun spans_ok :: "nat \<Rightarrow> (nat \<times> nat) list \<Rightarrow> nat \<Rightarrow> bool" where
  "spans_ok p [] n = (p \<le> n)"
| "spans_ok p ((s, e) # ivs) n = (p \<le> s \<and> s \<le> e \<and> spans_ok e ivs n)"

definition covers :: "(nat \<times> nat) list \<Rightarrow> nat \<Rightarrow> bool" where
  "covers ivs i = (\<exists>(s, e) \<in> set ivs. s \<le> i \<and> i < e)"

lemma covers_simps [simp]:
  "\<not> covers [] i" "covers ((s, e) # ivs) i \<longleftrightarrow> (s \<le> i \<and> i < e) \<or> covers ivs i"
  "covers (ivs @ ivs') i \<longleftrightarrow> covers ivs i \<or> covers ivs' i" "covers (rev ivs) = covers ivs"
  by (auto simp: covers_def fun_eq_iff)

lemma spans_ok_mono: "spans_ok q ivs n \<Longrightarrow> p \<le> q \<Longrightarrow> spans_ok p ivs n"
  by (cases ivs) auto

lemma spans_ok_le: "spans_ok p ivs n \<Longrightarrow> p \<le> n"
  by (induction p ivs n rule: spans_ok.induct) auto

lemma spans_ok_covers: "spans_ok p ivs n \<Longrightarrow> covers ivs i \<Longrightarrow> p \<le> i \<and> i < n"
proof (induction p ivs n rule: spans_ok.induct)
  case (2 p s e ivs n)
  then show ?case using spans_ok_le [of e ivs n] by auto
qed simp

lemma fold_replace_splice:
  "spans_ok p ivs (length t) \<Longrightarrow>
     fold (replace_span red) (rev ivs) t = take p t @ splice red p ivs t"
proof (induction red p ivs t rule: splice.induct)
  case (1 red p t)
  then show ?case by simp
next
  case (2 red p s e ivs t)
  then have ok: "p \<le> s" "s \<le> e" "spans_ok e ivs (length t)" by auto
  then have e: "e \<le> length t" using spans_ok_le by blast
  have "fold (replace_span red) (rev ((s, e) # ivs)) t =
          replace_span red (s, e) (take e t @ splice red e ivs t)"
    using 2 ok by simp
  also have "\<dots> = take s t @ red @ splice red e ivs t"
    using ok e by (simp add: replace_span_def min_absorb1)
  also have "take s t = take p t @ take (s - p) (drop p t)"
    using ok by (metis le_add_diff_inverse take_add)
  finally show ?case by simp
qed

lemma upt_split: "p \<le> q \<Longrightarrow> q \<le> r \<Longrightarrow> [p..<r] = [p..<q] @ [q..<r]"
  by (metis le_add_diff_inverse upt_add_eq_append)

text \<open>With an empty replacement exactly the characters outside the spans remain.\<close>

lemma splice_visible:
  "spans_ok p ivs (length t) \<Longrightarrow>
     splice [] p ivs t = map ((!) t) (filter (\<lambda>i. \<not> covers ivs i) [p..<length t])"
proof (induction "[] :: string" p ivs t rule: splice.induct)
  case (1 p t)
  have "drop p t = map ((!) t) [p..<length t]"
    by (rule nth_equalityI) auto
  then show ?case by simp
next
  case (2 p s e ivs t)
  then have ok: "p \<le> s" "s \<le> e" "spans_ok e ivs (length t)" by auto
  then have e: "e \<le> length t" using spans_ok_le by blast
  have upt: "[p..<length t] = [p..<s] @ [s..<e] @ [e..<length t]"
  proof -
    have "[p..<length t] = [p..<s] @ [s..<length t]" using ok e by (intro upt_split) auto
    moreover have "[s..<length t] = [s..<e] @ [e..<length t]" using ok e by (intro upt_split) auto
    ultimately show ?thesis by simp
  qed
  have low: "\<not> covers ivs i" if "i < e" for i using spans_ok_covers [OF ok(3)] that by fastforce
  have a: "filter (\<lambda>i. \<not> covers ((s, e) # ivs) i) [p..<s] = [p..<s]"
    using low ok by (intro filter_True) auto
  have b: "filter (\<lambda>i. \<not> covers ((s, e) # ivs) i) [s..<e] = []"
    by (simp add: filter_empty_conv)
  have c: "filter (\<lambda>i. \<not> covers ((s, e) # ivs) i) [e..<length t]
             = filter (\<lambda>i. \<not> covers ivs i) [e..<length t]"
    by (rule filter_cong) auto
  have "take (s - p) (drop p t) = map ((!) t) [p..<s]"
    using ok e by (intro nth_equalityI) auto
  with 2(1) [OF ok(3)] show ?case by (simp add: upt a b c del: covers_simps)
qed

text \<open>Merging keeps what is covered and produces separated spans.\<close>

fun spans_rev_ok :: "(nat \<times> nat) list \<Rightarrow> bool" where
  "spans_rev_ok [] = True"
| "spans_rev_ok ((s, e) # acc) =
     (s \<le> e \<and> (case acc of [] \<Rightarrow> True | (a, b) # _ \<Rightarrow> b \<le> s) \<and> spans_rev_ok acc)"

lemma spans_ok_snoc:
  "spans_ok p (ivs @ [(s, e)]) n \<longleftrightarrow> spans_ok p ivs s \<and> s \<le> e \<and> e \<le> n"
  by (induction p ivs s rule: spans_ok.induct) auto

lemma spans_rev_ok_rev:
  "spans_rev_ok acc \<Longrightarrow> (case acc of [] \<Rightarrow> True | (s, e) # _ \<Rightarrow> e \<le> n) \<Longrightarrow> spans_ok 0 (rev acc) n"
proof (induction acc arbitrary: n rule: spans_rev_ok.induct)
  case 1
  then show ?case by simp
next
  case (2 s e acc)
  then have "spans_ok 0 (rev acc) s" by simp
  then show ?case using 2 by (simp add: spans_ok_snoc)
qed

lemma merge_spans_covers:
  assumes "sorted (map fst spans)" and "\<forall>(s, e) \<in> set spans. s \<le> e"
    and "\<forall>(a, b) \<in> set acc. \<forall>(s, e) \<in> set spans. a \<le> s" and "\<forall>(a, b) \<in> set acc. a \<le> b"
  shows "covers (merge_spans acc spans) = (\<lambda>i. covers acc i \<or> covers spans i)"
  using assms
proof (induction acc spans rule: merge_spans.induct)
  case (1 acc)
  then show ?case by (simp add: fun_eq_iff)
next
  case (2 s e rest)
  then have "covers (merge_spans [(s, e)] rest) = (\<lambda>i. covers [(s, e)] i \<or> covers rest i)"
    by (intro "2.IH") auto
  then show ?case by (auto simp: fun_eq_iff)
next
  case (3 a b acc s e rest)
  show ?case
  proof (cases "s \<le> b")
    case True
    have "a \<le> s" using "3.prems"(3) by auto
    then have "covers (merge_spans ((a, max b e) # acc) rest)
        = (\<lambda>i. covers ((a, max b e) # acc) i \<or> covers rest i)"
      using "3.prems" True by (intro "3.IH"(1)) auto
    moreover have "a \<le> i \<and> i < max b e \<longleftrightarrow> (a \<le> i \<and> i < b) \<or> (s \<le> i \<and> i < e)" for i
      using True \<open>a \<le> s\<close> by auto
    ultimately show ?thesis using True by (auto simp: fun_eq_iff)
  next
    case False
    then have "covers (merge_spans ((s, e) # (a, b) # acc) rest)
        = (\<lambda>i. covers ((s, e) # (a, b) # acc) i \<or> covers rest i)"
      using "3.prems" by (intro "3.IH"(2)) auto
    then show ?thesis using False by (auto simp: fun_eq_iff)
  qed
qed

lemma merge_spans_ok:
  assumes "\<forall>(s, e) \<in> set spans. s \<le> e \<and> e \<le> n" and "spans_rev_ok acc"
    and "\<forall>(a, b) \<in> set acc. b \<le> n"
  shows "spans_ok 0 (merge_spans acc spans) n"
  using assms
proof (induction acc spans rule: merge_spans.induct)
  case (1 acc)
  then show ?case by (auto intro!: spans_rev_ok_rev split: list.splits)
next
  case (2 s e rest)
  then show ?case by auto
next
  case (3 a b acc s e rest)
  then show ?case by (auto split: list.splits)
qed

lemma redact_spans:
  assumes bounds: "\<forall>f \<in> set findings. fi_start f \<le> fi_end f \<and> fi_end f \<le> length t"
    and ne: "findings \<noteq> []"
  shows "\<exists>ivs. spans_ok 0 ivs (length t)
           \<and> (\<forall>i. covers ivs i \<longleftrightarrow> (\<exists>f \<in> set findings. fi_start f \<le> i \<and> i < fi_end f))
           \<and> redact red t findings = splice red 0 ivs t"
proof -
  let ?spans = "map finding_span (sort_key finding_span findings)"
  let ?ivs = "merge_spans [] ?spans"
  have "sorted ?spans" by simp
  then have "sorted (map fst ?spans)"
    by (rule sorted_wrt_map [THEN iffD2, OF sorted_wrt_mono_rel, rotated]) (auto simp: less_eq_prod_def)
  then have cov: "covers ?ivs = (\<lambda>i. covers ?spans i)"
    using bounds by (subst merge_spans_covers) (auto simp: finding_span_def)
  have ok: "spans_ok 0 ?ivs (length t)"
    using bounds by (intro merge_spans_ok) (auto simp: finding_span_def)
  have "covers ?ivs i \<longleftrightarrow> (\<exists>f \<in> set findings. fi_start f \<le> i \<and> i < fi_end f)" for i
    by (simp add: cov) (auto simp: covers_def finding_span_def)
  moreover have "redact red t findings = splice red 0 ?ivs t"
    using ne fold_replace_splice [OF ok, of red] by (simp add: redact_def)
  ultimately show ?thesis using ok by blast
qed

subsection \<open>The scanners' contract\<close>

lemma evaluate_content_findings:
  assumes "evaluate_content cfg scanners t surface declared allow = Inr d"
  shows "set (pd_findings d) \<subseteq> (\<Union>scan \<in> set scanners. set (scan t))"
proof (cases "map_of (sc_surfaces cfg) surface")
  case None
  then show ?thesis using assms by (simp add: evaluate_content_def)
next
  case (Some pol)
  then show ?thesis
    using assms by (cases "sc_enabled cfg") (auto simp: evaluate_content_def Let_def case_prod_beta)
qed

lemma evaluate_content_redact:
  assumes "evaluate_content cfg scanners t surface declared allow = Inr d" and "pd_action d = ActRedact"
  shows "pd_content d = redact (sc_redaction_text cfg) t (pd_findings d)"
proof (cases "map_of (sc_surfaces cfg) surface")
  case None
  then show ?thesis using assms by (simp add: evaluate_content_def)
next
  case (Some pol)
  then show ?thesis
    using assms by (cases "sc_enabled cfg") (auto simp: evaluate_content_def Let_def case_prod_beta)
qed

locale content_scanners =
  fixes scanners :: "(string \<Rightarrow> finding list) list"
  assumes in_text:
    "scan \<in> set scanners \<Longrightarrow> f \<in> set (scan t) \<Longrightarrow> fi_start f \<le> fi_end f \<and> fi_end f \<le> length t"
begin

lemma decision_findings:
  assumes "evaluate_content cfg scanners t surface declared allow = Inr d"
  shows "\<forall>f \<in> set (pd_findings d). fi_start f \<le> fi_end f \<and> fi_end f \<le> length t"
  using evaluate_content_findings [OF assms] in_text by blast

lemma redacted_content:
  assumes run: "evaluate_content cfg scanners t surface declared allow = Inr d"
    and red: "pd_action d = ActRedact" and ne: "pd_findings d \<noteq> []"
  shows "\<exists>ivs. spans_ok 0 ivs (length t)
           \<and> (\<forall>i. covers ivs i \<longleftrightarrow> (\<exists>f \<in> set (pd_findings d). fi_start f \<le> i \<and> i < fi_end f))
           \<and> pd_content d = splice (sc_redaction_text cfg) 0 ivs t"
proof -
  show ?thesis using evaluate_content_redact [OF run red] redact_spans [OF decision_findings [OF run] ne] by simp
qed

end

text \<open>The documented behaviour of the regular expression engine: spans lie in the text.\<close>

definition finditer_ok :: "(string \<Rightarrow> string \<Rightarrow> (nat \<times> nat) list) \<Rightarrow> bool" where
  "finditer_ok finditer \<longleftrightarrow>
     (\<forall>pat t sp. sp \<in> set (finditer pat t) \<longrightarrow> fst sp \<le> snd sp \<and> snd sp \<le> length t)"

lemma regex_scan_contract:
  assumes "finditer_ok finditer"
  shows "content_scanners [regex_scan finditer patterns redaction]"
  using assms by unfold_locales (auto simp: regex_scan_def pattern_findings_def finditer_ok_def)

text \<open>A matcher of literal patterns: the positions where the pattern occurs.\<close>

definition literal_finditer :: "string \<Rightarrow> string \<Rightarrow> (nat \<times> nat) list" where
  "literal_finditer pat t =
     map (\<lambda>i. (i, i + length pat)) (filter (\<lambda>i. starts_with (drop i t) pat) [0..<length t])"

lemma literal_finditer_ok: "finditer_ok literal_finditer"
  unfolding finditer_ok_def
proof (intro allI impI)
  fix pat t sp assume assms: "sp \<in> set (literal_finditer pat t)"
  obtain i where sp: "sp = (i, i + length pat)" and m: "starts_with (drop i t) pat" and i: "i < length t"
    using assms by (auto simp: literal_finditer_def)
  obtain u where "drop i t = pat @ u" using m by (auto simp: starts_with_iff)
  then have "length (drop i t) = length pat + length u" by simp
  with i show "fst sp \<le> snd sp \<and> snd sp \<le> length t" by (simp add: sp)
qed

interpretation literal_scanner: content_scanners "[regex_scan literal_finditer patterns redaction]"
  by (rule regex_scan_contract [OF literal_finditer_ok])

subsection \<open>Properties\<close>


definition example_safety :: safety_config where
  "example_safety =
     \<lparr>sc_enabled = True, sc_block_on_findings = True, sc_default = Internal,
      sc_redaction_text = ''[redacted]'', sc_allow_override = False,
      sc_surfaces = default_surfaces, sc_custom_patterns = []\<rparr>"

definition example_patterns :: "scan_pattern list" where
  "example_patterns = [\<lparr>pt_kind = ''github_token'', pt_pattern = ''ghp_1'', pt_classification = Restricted\<rparr>]"

definition example_scan :: "string \<Rightarrow> finding list" where
  "example_scan = regex_scan literal_finditer example_patterns ''[redacted]''"

lemma example_redaction:
  "map_sum id (\<lambda>d. (pd_action d, map finding_span (pd_findings d), pd_content d))
     (evaluate_content example_safety [example_scan] ''key ghp_1!'' ''tool_output'' None False)
   = Inr (ActRedact, [(4, 9)], ''key [redacted]!'')"
  by code_simp


lemma detected_max:
  "fold (\<lambda>f d. if fi_classification f > d then fi_classification f else d) fs c =
     fold (\<lambda>f d. max d (fi_classification f)) fs c"
  by (intro fold_cong ext) (auto simp: max_def)

lemma fold_max_ge: "c \<le> fold (\<lambda>f d. max d (g f)) fs (c :: 'a :: linorder)"
proof (induction fs arbitrary: c)
  case (Cons x fs)
  have "c \<le> max c (g x)" by simp
  also note Cons.IH
  finally show ?case by simp
qed simp

lemma fold_max_upper: "f \<in> set fs \<Longrightarrow> g f \<le> fold (\<lambda>f d. max d (g f)) fs (c :: 'a :: linorder)"
proof (induction fs arbitrary: c)
  case (Cons x fs)
  show ?case
  proof (cases "f = x")
    case True
    have "g x \<le> max c (g x)" by simp
    also note fold_max_ge
    finally show ?thesis using True by simp
  next
    case False
    then show ?thesis using Cons by simp
  qed
qed simp

text \<open>
  What enforcement lets through. With protection enabled and no development override, content
  that is returned for a surface whose action is to block has no finding of a kind the surface
  does not allow (unless findings are configured not to block), was declared or labelled at most
  at the ceiling of the surface, and is returned unchanged. The classification reported is at
  least the declared one and that of every finding.
\<close>

theorem enforce_blocks:
  assumes "enforce_content cfg scanners t surface declared allow = Inr d"
    and "sc_enabled cfg" and "\<not> (allow \<and> sc_allow_override cfg)"
    and "map_of (sc_surfaces cfg) surface = Some pol" and "sp_action pol = ActBlock"
  shows "(sc_block_on_findings cfg \<longrightarrow>
            (\<forall>scan \<in> set scanners. \<forall>f \<in> set (scan t). fi_kind f \<in> set (sp_allowed_kinds pol)))
       \<and> declared_classification declared (text_label t) (sc_default cfg) \<le> sp_maximum pol
       \<and> pd_content d = t
       \<and> declared_classification declared (text_label t) (sc_default cfg) \<le> pd_classification d
       \<and> (\<forall>f \<in> set (pd_findings d). fi_classification f \<le> pd_classification d)"
proof -
  note ev = assms(1) [unfolded enforce_content_def res_bind_eq_Inr]
  let ?f = "filter (\<lambda>f. fi_kind f \<notin> set (sp_allowed_kinds pol)) (concat (map (\<lambda>scan. scan t) scanners))"
  let ?d = "declared_classification declared (text_label t) (sc_default cfg)"
  have run: "evaluate_content cfg scanners t surface declared allow = Inr d" "pd_action d \<noteq> ActBlock"
    using ev by (auto split: if_splits)
  have quiet: "\<not> (?f \<noteq> [] \<and> sc_block_on_findings cfg)" "\<not> sp_maximum pol < ?d"
    using run assms(2-5) by (auto simp: evaluate_content_def Let_def split: if_splits)
  have d: "pd_findings d = ?f" "pd_content d = t"
    "pd_classification d = fold (\<lambda>f c. max c (fi_classification f)) ?f ?d"
    using run quiet assms(2-5)
    by (auto simp: evaluate_content_def Let_def detected_max split: if_splits)
  have "\<forall>scan \<in> set scanners. \<forall>f \<in> set (scan t). fi_kind f \<in> set (sp_allowed_kinds pol)"
    if "sc_block_on_findings cfg"
    using quiet(1) that by (auto simp: filter_empty_conv)
  moreover have "?d \<le> pd_classification d"
    unfolding d(3) by (rule fold_max_ge)
  moreover have "fi_classification f \<le> pd_classification d" if "f \<in> set (pd_findings d)" for f
    unfolding d(3) by (rule fold_max_upper) (use that d(1) in simp)
  ultimately show ?thesis using quiet(2) d(2) by auto
qed

theorem enforce_blocks_witness:
  "declared_classification None (text_label ''[Classification: public] hello'') (sc_default example_safety)
     \<le> Confidential
   \<and> example_scan ''[Classification: public] hello'' = []"
proof -
  let ?t = "''[Classification: public] hello''"
  let ?pol = "\<lparr>sp_action = ActBlock, sp_maximum = Confidential, sp_allowed_kinds = []\<rparr>"
  have "(case enforce_content example_safety [example_scan] ?t ''session'' None False of
          Inr d \<Rightarrow> True | Inl e \<Rightarrow> False)"
    by code_simp
  then obtain d where run: "enforce_content example_safety [example_scan] ?t ''session'' None False = Inr d"
    by (auto split: sum.splits)
  have pol: "map_of (sc_surfaces example_safety) ''session'' = Some ?pol" "sp_action ?pol = ActBlock"
    by (simp_all add: example_safety_def default_surfaces_def)
  have on: "sc_enabled example_safety" "\<not> (False \<and> sc_allow_override example_safety)"
    "sc_block_on_findings example_safety"
    by (simp_all add: example_safety_def)
  from enforce_blocks [OF run on(1,2) pol] on(3) show ?thesis by simp
qed

text \<open>
  On a redacting surface a text labelled above the ceiling is replaced as a whole when it has no
  finding, but when it has one only the finding is replaced and the rest is passed on.
\<close>

lemma labelled_text_leaks_beside_finding:
  "map_sum id pd_content (enforce_content example_safety [example_scan]
      ''[classification: restricted] the merger'' ''tool_output'' None False) = Inr ''[redacted]''
   \<and> map_sum id pd_content (enforce_content example_safety [example_scan]
      ''[classification: restricted] the merger ghp_1'' ''tool_output'' None False)
     = Inr ''[classification: restricted] the merger [redacted]''"
  by code_simp

end
