(* ===== verification/Context.thy ===== *)
theory Context
  imports Budgets
begin

text \<open>
  \<open>src/loro/context.py\<close>: stored history, compaction and rendering of a conversation. The
  messages are those of \<open>src/loro/models.py\<close>. The lemmas show that compaction terminates, keeps a
  suffix that contains the protected turns and starts at a user turn, and stops as soon as the
  history fits; that rendering alternates roles; and that stored history reads back.
\<close>

subsection \<open>Messages\<close>

record tool_call =
  tc_id :: string
  tc_name :: string
  tc_arguments :: "(string, json) dict"

record tool_result =
  tr_id :: string
  tr_name :: string
  tr_content :: string
  tr_ok :: bool

record message =
  msg_role :: string
  msg_content :: string
  msg_tool_calls :: "tool_call list"
  msg_tool_results :: "tool_result list"

definition plain_message :: "string \<Rightarrow> string \<Rightarrow> message" where
  "plain_message role content =
     \<lparr>msg_role = role, msg_content = content, msg_tool_calls = [], msg_tool_results = []\<rparr>"

record compaction =
  cp_messages :: "message list"
  cp_summary :: string
  cp_compacted :: nat
  cp_tokens_before :: int
  cp_tokens_after :: int

definition was_compacted :: "compaction \<Rightarrow> bool" where
  "was_compacted c = (0 < cp_compacted c \<or> cp_tokens_after c < cp_tokens_before c)"

definition history_roles :: "string list" where
  "history_roles = [''user'', ''assistant'']"

definition newline :: string where
  "newline = [CHR 0x0A]"

subsection \<open>Stored history\<close>

datatype history_error = UnhashableRole

text \<open>
  The test \<open>role in HISTORY_ROLES\<close> hashes the role; a list or a dictionary raises a
  \<open>TypeError\<close>.
\<close>

fun history_from_payload :: "json list \<Rightarrow> history_error + message list" where
  "history_from_payload [] = Inr []"
| "history_from_payload (JObj d # items) =
     (case or_null (map_of d ''role'') of
        JArr _ \<Rightarrow> Inl UnhashableRole
      | JObj _ \<Rightarrow> Inl UnhashableRole
      | role \<Rightarrow> res_bind (history_from_payload items) (\<lambda>ms.
          Inr (case (role, map_of d ''content'') of
                 (JStr r, Some (JStr c)) \<Rightarrow>
                   (if r \<in> set history_roles \<and> c \<noteq> [] then plain_message r c # ms else ms)
               | _ \<Rightarrow> ms)))"
| "history_from_payload (_ # items) = history_from_payload items"

definition storable_message :: "message \<Rightarrow> bool" where
  "storable_message m = (msg_role m \<in> set history_roles \<and> msg_content m \<noteq> [])"

definition history_to_payload :: "message list \<Rightarrow> json list" where
  "history_to_payload ms =
     map (\<lambda>m. JObj [(''role'', JStr (msg_role m)), (''content'', JStr (msg_content m))])
       (filter storable_message ms)"

subsection \<open>Compaction\<close>

definition history_tokens :: "message list \<Rightarrow> string \<Rightarrow> int" where
  "history_tokens ms summary =
     estimate_tokens summary + sum_list (map (\<lambda>m. estimate_tokens (msg_content m)) ms)"

fun scan_back :: "message list \<Rightarrow> nat \<Rightarrow> nat \<Rightarrow> nat \<Rightarrow> nat" where
  "scan_back ms 0 seen keep = 0"
| "scan_back ms (Suc i) seen keep =
     (if msg_role (ms ! i) = ''user''
      then (if Suc seen = keep then i else scan_back ms i (Suc seen) keep)
      else scan_back ms i seen keep)"

definition recent_turn_start :: "message list \<Rightarrow> nat \<Rightarrow> nat" where
  "recent_turn_start ms keep = scan_back ms (length ms) 0 keep"

definition summary_line_chars :: nat where
  "summary_line_chars = 240"

definition summary_line :: "message \<Rightarrow> string" where
  "summary_line m =
     (let t = py_join '' '' (py_split (msg_content m));
          shown = (if summary_line_chars < length t
                   then rstrip_by is_space (take (summary_line_chars - 3) t) @ ''...'' else t)
      in ''- '' @ msg_role m @ '': '' @ shown)"

text \<open>The end of the oldest turn: the next user message after the first, at most \<open>minimum\<close>.\<close>

function turn_end :: "message list \<Rightarrow> nat \<Rightarrow> nat \<Rightarrow> nat" where
  "turn_end ms minimum i =
     (if i < minimum \<and> msg_role (ms ! i) \<noteq> ''user'' then turn_end ms minimum (Suc i) else i)"
  by pat_completeness auto
termination
  by (relation "measure (\<lambda>(ms, minimum, i). minimum - i)") auto

declare turn_end.simps [simp del]

lemma turn_end_bounds: "i \<le> minimum \<Longrightarrow> i \<le> turn_end ms minimum i \<and> turn_end ms minimum i \<le> minimum"
proof (induction ms minimum i rule: turn_end.induct)
  case (1 ms minimum i)
  then show ?case by (subst (1 2) turn_end.simps) auto
qed

lemma turn_end_user:
  "i \<le> minimum \<Longrightarrow> turn_end ms minimum i < minimum \<Longrightarrow> msg_role (ms ! turn_end ms minimum i) = ''user''"
proof (induction ms minimum i rule: turn_end.induct)
  case (1 ms minimum i)
  then show ?case by (subst turn_end.simps, subst (asm) turn_end.simps) (auto split: if_splits)
qed

function compact_loop ::
  "int \<Rightarrow> message list \<Rightarrow> string list \<Rightarrow> nat \<Rightarrow> nat \<Rightarrow> message list \<times> string list \<times> nat" where
  "compact_loop max_tokens retained lines minimum dropped =
     (if history_tokens retained (py_join newline lines) > max_tokens \<and> 0 < minimum then
        (let n = turn_end retained minimum 1 in
         compact_loop max_tokens (drop n retained) (lines @ map summary_line (take n retained))
           (minimum - n) (dropped + n))
      else (retained, lines, dropped))"
  by pat_completeness auto
termination
proof (relation "measure (\<lambda>(t, ms, ls, minimum, d). minimum)")
  fix max_tokens :: int and retained lines minimum dropped n
  assume "max_tokens < history_tokens retained (py_join newline lines) \<and> 0 < minimum"
    and "n = turn_end retained minimum 1"
  then have "1 \<le> n" "n \<le> minimum" using turn_end_bounds [of 1 minimum retained] by auto
  then show "((max_tokens, drop n retained, lines @ map summary_line (take n retained),
                minimum - n, dropped + n), max_tokens, retained, lines, minimum, dropped)
        \<in> measure (\<lambda>(t, ms, ls, minimum, d). minimum)"
    by simp
qed simp

declare compact_loop.simps [simp del]

text \<open>The most recent lines that fit, most recent first.\<close>

fun take_fitting :: "int \<Rightarrow> int \<Rightarrow> string list \<Rightarrow> string list" where
  "take_fitting max_tokens used [] = []"
| "take_fitting max_tokens used (l # ls) =
     (if used + estimate_tokens l > max_tokens then []
      else l # take_fitting max_tokens (used + estimate_tokens l) ls)"

definition bound_summary :: "string list \<Rightarrow> int \<Rightarrow> string list" where
  "bound_summary lines max_tokens =
     (let kept = rev (take_fitting max_tokens 0 (rev lines)) in
      if length kept < length lines
      then (''- ('' @ nat_str (length lines - length kept) @ '' older summary lines dropped)'') # kept
      else kept)"

definition compact_history :: "message list \<Rightarrow> string \<Rightarrow> int \<Rightarrow> nat \<Rightarrow> int \<Rightarrow> compaction" where
  "compact_history ms summary max_tokens keep_recent_turns max_summary_tokens =
     (let before = history_tokens ms summary;
          lines0 = filter (\<lambda>l. py_strip l \<noteq> []) (py_splitlines summary);
          (retained, lines, dropped) =
            compact_loop max_tokens ms lines0 (recent_turn_start ms keep_recent_turns) 0;
          bounded = bound_summary lines max_summary_tokens
      in \<lparr>cp_messages = retained, cp_summary = py_join newline bounded, cp_compacted = dropped,
          cp_tokens_before = before,
          cp_tokens_after = history_tokens retained (py_join newline bounded)\<rparr>)"

subsection \<open>Rendering\<close>

definition summary_header :: string where
  "summary_header = ''Earlier conversation summary (compacted; untrusted historical context):''"

text \<open>\<open>merged\<close> is built in reverse: its head is the last message.\<close>

fun merge_messages :: "message list \<Rightarrow> message list \<Rightarrow> message list" where
  "merge_messages merged [] = rev merged"
| "merge_messages [] (m # ms) =
     (if msg_role m \<noteq> ''user'' then merge_messages [] ms else merge_messages [m] ms)"
| "merge_messages (l # merged) (m # ms) =
     (if msg_role l = msg_role m
      then merge_messages
             (plain_message (msg_role m) (msg_content l @ newline @ newline @ msg_content m) # merged) ms
      else merge_messages (m # l # merged) ms)"

definition render_history :: "message list \<Rightarrow> string \<Rightarrow> message \<Rightarrow> message list" where
  "render_history ms summary current =
     merge_messages []
       ((if summary \<noteq> [] then [plain_message ''user'' (summary_header @ newline @ summary)] else [])
        @ ms @ [current])"

subsection \<open>Where the protected turns start\<close>

definition user_turns :: "message list \<Rightarrow> nat" where
  "user_turns ms = length (filter (\<lambda>m. msg_role m = ''user'') ms)"

lemma scan_back_le: "scan_back ms n seen keep \<le> n"
  by (induction ms n seen keep rule: scan_back.induct) (auto simp: le_SucI)

lemma user_turns_take_Suc:
  "i < length ms \<Longrightarrow> user_turns (take (Suc i) ms)
     = user_turns (take i ms) + (if msg_role (ms ! i) = ''user'' then 1 else 0)"
  by (simp add: user_turns_def take_Suc_conv_app_nth)

lemma scan_back_spec:
  assumes "n \<le> length ms" and "seen < keep" and "0 < scan_back ms n seen keep"
  shows "msg_role (ms ! scan_back ms n seen keep) = ''user''
       \<and> user_turns (take n ms) = user_turns (take (scan_back ms n seen keep) ms) + (keep - seen)"
  using assms
proof (induction ms n seen keep rule: scan_back.induct)
  case (1 ms seen keep)
  then show ?case by simp
next
  case (2 ms i seen keep)
  show ?case
  proof (cases "msg_role (ms ! i) = ''user''")
    case True
    then show ?thesis using 2 user_turns_take_Suc [of i ms] by (auto split: if_splits)
  next
    case False
    then show ?thesis using 2 user_turns_take_Suc [of i ms] by simp
  qed
qed

lemma user_turns_append [simp]: "user_turns (xs @ ys) = user_turns xs + user_turns ys"
  by (simp add: user_turns_def)

lemma recent_turn_start_spec:
  assumes "0 < keep" and "0 < recent_turn_start ms keep"
  shows "recent_turn_start ms keep < length ms"
    and "msg_role (ms ! recent_turn_start ms keep) = ''user''"
    and "user_turns (drop (recent_turn_start ms keep) ms) = keep"
proof -
  let ?r = "recent_turn_start ms keep"
  have spec: "msg_role (ms ! ?r) = ''user''" "user_turns ms = user_turns (take ?r ms) + keep"
    using scan_back_spec [of "length ms" ms 0 keep] assms by (simp_all add: recent_turn_start_def)
  have "user_turns ms = user_turns (take ?r ms) + user_turns (drop ?r ms)"
    by (metis append_take_drop_id user_turns_append)
  with spec show "user_turns (drop ?r ms) = keep" by simp
  with assms(1) have "drop ?r ms \<noteq> []" by (auto simp: user_turns_def)
  then show "?r < length ms" by simp
  show "msg_role (ms ! ?r) = ''user''" by fact
qed

subsection \<open>Compaction\<close>

lemma compact_loop_spec:
  assumes "compact_loop max_tokens (drop k ms) lines (r - k) k = (retained, lines', dropped)"
    and "k \<le> r" and "r \<le> length ms" and "0 < r \<Longrightarrow> r < length ms \<and> msg_role (ms ! r) = ''user''"
    and "0 < k \<Longrightarrow> msg_role (ms ! k) = ''user''"
  shows "k \<le> dropped \<and> dropped \<le> r \<and> retained = drop dropped ms
       \<and> lines' = lines @ map summary_line (take (dropped - k) (drop k ms))
       \<and> (0 < dropped \<longrightarrow> msg_role (ms ! dropped) = ''user'')
       \<and> (history_tokens retained (py_join newline lines') \<le> max_tokens \<or> dropped = r)"
  using assms
proof (induction "r - k" arbitrary: k lines rule: less_induct)
  case less
  show ?case
  proof (cases "history_tokens (drop k ms) (py_join newline lines) > max_tokens \<and> 0 < r - k")
    case False
    then have "retained = drop k ms" "lines' = lines" "dropped = k"
      using less.prems(1) by (auto simp: compact_loop.simps [of max_tokens "drop k ms" lines])
    then show ?thesis using False less.prems by auto
  next
    case True
    define n where "n = turn_end (drop k ms) (r - k) 1"
    have n: "1 \<le> n" "n \<le> r - k" using turn_end_bounds [of 1 "r - k" "drop k ms"] True by (auto simp: n_def)
    have kn: "k + n \<le> r" "r - (k + n) < r - k" using n less.prems(2) by auto
    have run: "compact_loop max_tokens (drop (k + n) ms) (lines @ map summary_line (take n (drop k ms)))
        (r - (k + n)) (k + n) = (retained, lines', dropped)"
    proof -
      have "compact_loop max_tokens (drop k ms) lines (r - k) k =
          compact_loop max_tokens (drop n (drop k ms)) (lines @ map summary_line (take n (drop k ms)))
            (r - k - n) (k + n)"
        using True by (subst compact_loop.simps) (simp only: n_def Let_def simp_thms if_True)
      then show ?thesis using less.prems(1) by (simp add: add.commute)
    qed
    have user: "msg_role (ms ! (k + n)) = ''user''"
    proof (cases "n < r - k")
      case True
      then have "msg_role (drop k ms ! n) = ''user''"
        unfolding n_def using turn_end_user [of 1 "r - k" "drop k ms"] \<open>1 \<le> n\<close> n by (simp add: n_def)
      then show ?thesis using less.prems(2,3) by simp
    next
      case False
      then have "k + n = r" using n less.prems(2) by simp
      then show ?thesis using less.prems(4) n by auto
    qed
    have ih: "k + n \<le> dropped \<and> dropped \<le> r \<and> retained = drop dropped ms
       \<and> lines' = (lines @ map summary_line (take n (drop k ms)))
            @ map summary_line (take (dropped - (k + n)) (drop (k + n) ms))
       \<and> (0 < dropped \<longrightarrow> msg_role (ms ! dropped) = ''user'')
       \<and> (history_tokens retained (py_join newline lines') \<le> max_tokens \<or> dropped = r)"
      using less.hyps [OF kn(2) run kn(1) less.prems(3,4)] user by blast
    have "take (dropped - k) (drop k ms)
        = take n (drop k ms) @ take (dropped - (k + n)) (drop (k + n) ms)"
    proof -
      have "dropped - k = n + (dropped - (k + n))" using ih by simp
      then show ?thesis by (simp add: take_add add.commute)
    qed
    with ih show ?thesis by auto
  qed
qed

lemma user_turns_drop_mono: "a \<le> b \<Longrightarrow> user_turns (drop b ms) \<le> user_turns (drop a ms)"
  by (metis append_take_drop_id drop_drop le_add2 le_add_diff_inverse2 user_turns_append)


definition example_history :: "message list" where
  "example_history = [plain_message ''user'' ''aaaaaaaa'', plain_message ''assistant'' ''bbbb'',
     plain_message ''user'' ''cc'', plain_message ''assistant'' ''dd'']"


subsection \<open>The summary stays bounded\<close>

lemma take_fitting_bound:
  "used \<le> max_tokens \<Longrightarrow>
     used + sum_list (map estimate_tokens (take_fitting max_tokens used ls)) \<le> max_tokens"
proof (induction ls arbitrary: used)
  case (Cons l ls)
  show ?case using Cons.prems Cons.IH [of "used + estimate_tokens l"] by (auto simp: algebra_simps)
qed simp

lemma take_fitting_prefix: "\<exists>zs. ls = take_fitting max_tokens used ls @ zs"
  by (induction ls arbitrary: used) auto

lemma sum_list_rev_int: "sum_list (rev xs) = (sum_list xs :: int)"
  by (induction xs) auto

text \<open>
  The summary keeps its newest lines. The bounded summary ends with a suffix of the lines
  whose estimated tokens stay within the limit; it is all of them, or it is preceded by one
  notice about the number of lines that were left out.
\<close>

theorem summary_is_bounded_suffix:
  assumes "0 \<le> max_tokens"
  shows "\<exists>older kept. lines = older @ kept
           \<and> sum_list (map estimate_tokens kept) \<le> max_tokens
           \<and> bound_summary lines max_tokens =
               (if older = [] then kept
                else (''- ('' @ nat_str (length older) @ '' older summary lines dropped)'') # kept)"
proof -
  let ?kept = "rev (take_fitting max_tokens 0 (rev lines))"
  obtain zs where zs: "rev lines = take_fitting max_tokens 0 (rev lines) @ zs"
    using take_fitting_prefix by blast
  then have lines: "lines = rev zs @ ?kept" by (metis rev_append rev_rev_ident)
  have "sum_list (map estimate_tokens ?kept) \<le> max_tokens"
    using take_fitting_bound [OF assms, of "rev lines"] by (simp add: rev_map [symmetric] sum_list_rev_int)
  moreover have "length lines - length ?kept = length (rev zs)"
    using arg_cong [OF lines, of length] by simp
  moreover have "length ?kept < length lines \<longleftrightarrow> rev zs \<noteq> []"
    using arg_cong [OF lines, of length] by simp
  ultimately show ?thesis
    using lines
    by (intro exI [of _ "rev zs"] exI [of _ ?kept]) (simp add: bound_summary_def Let_def)
qed

theorem summary_is_bounded_suffix_witness:
  "\<exists>older kept. [''one line'', ''another'', ''last''] = older @ kept
     \<and> sum_list (map estimate_tokens kept) \<le> 3 \<and> older \<noteq> []"
proof -
  have "bound_summary [''one line'', ''another'', ''last''] 3
      = [''- (1 older summary lines dropped)'', ''another'', ''last'']" by code_simp
  with summary_is_bounded_suffix [of 3 "[''one line'', ''another'', ''last'']"]
  show ?thesis by (auto split: if_splits)
qed

subsection \<open>Rendering alternates roles\<close>

fun alternating :: "message list \<Rightarrow> bool" where
  "alternating (a # b # ms) = (msg_role a \<noteq> msg_role b \<and> alternating (b # ms))"
| "alternating _ = True"

lemma alternating_append:
  "alternating (xs @ [y, z]) \<longleftrightarrow> alternating (xs @ [y]) \<and> msg_role y \<noteq> msg_role z"
  by (induction xs rule: alternating.induct) auto

lemma alternating_replace:
  "msg_role x = msg_role y \<Longrightarrow> alternating (xs @ [x]) = alternating (xs @ [y])"
  by (induction xs rule: alternating.induct) auto

lemma hd_append_snoc: "hd (xs @ [y]) = (if xs = [] then y else hd xs)"
  by (cases xs) auto

lemma merge_messages_spec:
  assumes "alternating (rev merged)"
    and "merged \<noteq> [] \<Longrightarrow> msg_role (hd (rev merged)) = ''user''"
    and "merged \<noteq> [] \<or> (\<exists>m \<in> set ms. msg_role m = ''user'')"
  shows "alternating (merge_messages merged ms) \<and> merge_messages merged ms \<noteq> []
       \<and> msg_role (hd (merge_messages merged ms)) = ''user''"
  using assms
proof (induction merged ms rule: merge_messages.induct)
  case (1 merged)
  then show ?case by auto
next
  case (2 m ms)
  then show ?case by (cases "msg_role m = ''user''") auto
next
  case (3 l merged m ms)
  show ?case
  proof (cases "msg_role l = msg_role m")
    case True
    let ?j = "plain_message (msg_role m) (msg_content l @ newline @ newline @ msg_content m)"
    have "alternating (rev (?j # merged))"
      using "3.prems"(1) alternating_replace [of l ?j "rev merged"] True by (simp add: plain_message_def)
    moreover have "msg_role (hd (rev (?j # merged))) = ''user''"
      using "3.prems"(2) True by (simp add: hd_append_snoc plain_message_def split: if_splits)
    ultimately show ?thesis using "3.IH"(1) True by simp
  next
    case False
    have "alternating (rev (m # l # merged))"
      using "3.prems"(1) False by (simp add: alternating_append)
    moreover have "msg_role (hd (rev (m # l # merged))) = ''user''"
      using "3.prems"(2) by (simp add: hd_append_snoc split: if_splits)
    ultimately show ?thesis using "3.IH"(2) False by simp
  qed
qed

lemma merge_messages_last:
  assumes "msg_role current = ''user''"
  shows "\<exists>front pre. merge_messages merged (ms @ [current]) =
           front @ [last (merge_messages merged (ms @ [current]))]
         \<and> msg_content (last (merge_messages merged (ms @ [current]))) = pre @ msg_content current
         \<and> msg_role (last (merge_messages merged (ms @ [current]))) = ''user''"
  using assms
proof (induction merged ms rule: merge_messages.induct)
  case (1 merged)
  then show ?case by (cases merged) (auto simp: plain_message_def)
next
  case (2 m ms)
  then show ?case by auto
next
  case (3 l merged m ms)
  then show ?case by auto
qed

text \<open>
  Rendered turns are ones a provider accepts. For a current user task, whatever history is
  stored, the rendered messages are not empty, start with a user turn, alternate roles, and end
  with a user turn whose text ends with the task.
\<close>

theorem rendered_turns_alternate:
  assumes "msg_role current = ''user''"
  shows "let out = render_history ms summary current in
           out \<noteq> [] \<and> msg_role (hd out) = ''user'' \<and> alternating out
           \<and> msg_role (last out) = ''user''
           \<and> (\<exists>pre. msg_content (last out) = pre @ msg_content current)"
proof -
  let ?pre = "(if summary \<noteq> [] then [plain_message ''user'' (summary_header @ newline @ summary)] else []) @ ms"
  have out: "render_history ms summary current = merge_messages [] (?pre @ [current])"
    by (simp add: render_history_def)
  have "alternating (merge_messages [] (?pre @ [current])) \<and> merge_messages [] (?pre @ [current]) \<noteq> []
      \<and> msg_role (hd (merge_messages [] (?pre @ [current]))) = ''user''"
    by (rule merge_messages_spec) (use assms in auto)
  with merge_messages_last [OF assms, of "[]" ?pre] show ?thesis
    unfolding out by (auto simp: Let_def)
qed

theorem rendered_turns_alternate_witness:
  "alternating (render_history example_history ''s'' (plain_message ''user'' ''now''))
   \<and> length (render_history example_history ''s'' (plain_message ''user'' ''now'')) = 5"
proof -
  have "length (render_history example_history ''s'' (plain_message ''user'' ''now'')) = 5" by code_simp
  moreover have "msg_role (plain_message ''user'' ''now'') = ''user''" by (simp add: plain_message_def)
  ultimately show ?thesis
    using rendered_turns_alternate [of "plain_message ''user'' ''now''" example_history "''s''"]
    by (simp add: Let_def)
qed

subsection \<open>Stored history reads back\<close>

lemma history_roundtrip:
  "history_from_payload (history_to_payload ms)
     = Inr (map (\<lambda>m. plain_message (msg_role m) (msg_content m)) (filter storable_message ms))"
  by (induction ms) (auto simp: history_to_payload_def storable_message_def or_null_def)

text \<open>A stored item whose role is a list is not ignored: reading the history raises.\<close>

lemma unhashable_role_raises:
  "history_from_payload [JObj [(''role'', JArr []), (''content'', JStr ''x'')]] = Inl UnhashableRole"
  by code_simp

end
