(* ===== verification/Patching.thy ===== *)
theory Patching
  imports Resources
begin

text \<open>
  \<open>src/loro/tools/patching.py\<close>: parsing of unified diffs, location of hunks, and all-or-nothing
  application under a root directory. The file system maps path names to texts; the resolution
  of symbolic links is the parameter \<open>resolve\<close>, directories are the parameter \<open>is_dir\<close>, and the
  order in which Python iterates over a set of two integers is the parameter \<open>set_order\<close>.
\<close>

subsection \<open>Data\<close>

record hunk =
  hk_old_start :: int
  hk_lines :: "string list"

definition hunk_before :: "hunk \<Rightarrow> string list" where
  "hunk_before h = map tl (filter (\<lambda>l. l \<noteq> [] \<and> hd l \<in> {CHR '' '', CHR ''-''}) (hk_lines h))"

definition hunk_after :: "hunk \<Rightarrow> string list" where
  "hunk_after h = map tl (filter (\<lambda>l. l \<noteq> [] \<and> hd l \<in> {CHR '' '', CHR ''+''}) (hk_lines h))"

record file_patch =
  fp_old_path :: "string option"
  fp_new_path :: "string option"
  fp_hunks :: "hunk list"

datatype patch_action = Create | Delete | Modify | Rename

definition patch_action :: "file_patch \<Rightarrow> patch_action" where
  "patch_action p =
     (if fp_old_path p = None then Create
      else if fp_new_path p = None then Delete
      else if fp_old_path p = fp_new_path p then Modify else Rename)"

definition patch_target :: "file_patch \<Rightarrow> string" where
  "patch_target p =
     (case fp_new_path p of
        Some (c # cs) \<Rightarrow> c # cs
      | _ \<Rightarrow> (case fp_old_path p of Some q \<Rightarrow> q | None \<Rightarrow> ''None''))"

datatype conflict_reason = AlreadyExists | DoesNotExist | ContextMismatch | StillHasContent

record conflict =
  cf_path :: string
  cf_hunk :: nat
  cf_line :: int
  cf_reason :: conflict_reason
  cf_expected :: string
  cf_actual :: string

datatype patch_error =
    UnsafePath string | PatchTooLarge | BothDevNull | MalformedHunk string | UnexpectedLine string
  | ShortHunk string | NoHeaders | LeavesWorkspace string | NoSource string

definition or_null_str :: "string option \<Rightarrow> string" where
  "or_null_str v = (case v of Some s \<Rightarrow> s | None \<Rightarrow> ''None'')"

subsection \<open>Paths in a diff\<close>

fun before_tab :: "string \<Rightarrow> string" where
  "before_tab [] = []"
| "before_tab (c # cs) = (if c = CHR 0x09 then [] else c # before_tab cs)"

definition strip_diff_prefix :: "string \<Rightarrow> string option" where
  "strip_diff_prefix raw =
     (let path = py_strip (before_tab raw) in
      if path = ''/dev/null'' then None
      else Some (if starts_with path ''a/'' \<or> starts_with path ''b/'' then drop 2 path else path))"

text \<open>\<open>str(PurePosixPath(path))\<close> of a relative path.\<close>

definition pure_path_str :: "string \<Rightarrow> string" where
  "pure_path_str path = (case path_parts path of [] \<Rightarrow> ''.'' | ws \<Rightarrow> py_join ''/'' ws)"

definition safe_relative :: "string \<Rightarrow> patch_error + string" where
  "safe_relative path =
     (if path = [] \<or> is_absolute path \<or> ''..'' \<in> set (path_parts path)
         \<or> CHR 0x5C \<in> set path \<or> CHR 0x00 \<in> set path
      then Inl (UnsafePath path) else Inr (pure_path_str path))"

subsection \<open>Parsing\<close>

definition max_patch_bytes :: int where
  "max_patch_bytes = 2000000"

fun read_digits :: "string \<Rightarrow> string \<times> string" where
  "read_digits [] = ([], [])"
| "read_digits (c # cs) =
     (if digit_of c = None then ([], c # cs) else (case read_digits cs of (ds, r) \<Rightarrow> (c # ds, r)))"

definition read_number :: "string \<Rightarrow> (int \<times> string) option" where
  "read_number s = (case read_digits s of (ds, r) \<Rightarrow>
     (case unsigned_value ds of Some n \<Rightarrow> Some (n, r) | None \<Rightarrow> None))"

text \<open>\<open>(\d+)(?:,(\d+))?\<close>; without the second number it is 1.\<close>

definition read_range :: "string \<Rightarrow> (int \<times> int \<times> string) option" where
  "read_range s =
     (case read_number s of
        None \<Rightarrow> None
      | Some (a, r) \<Rightarrow>
          (if starts_with r '','' then
             (case read_number (tl r) of Some (b, r') \<Rightarrow> Some (a, b, r') | None \<Rightarrow> Some (a, 1, r))
           else Some (a, 1, r)))"

definition read_lit :: "string \<Rightarrow> string \<Rightarrow> string option" where
  "read_lit lit s = (if starts_with s lit then Some (drop (length lit) s) else None)"

text \<open>The header of a hunk: old start, old count and new count.\<close>

definition hunk_header :: "string \<Rightarrow> (int \<times> int \<times> int) option" where
  "hunk_header line =
     (case read_lit ''@@ -'' line of
        None \<Rightarrow> None
      | Some r1 \<Rightarrow>
          (case read_range r1 of
             None \<Rightarrow> None
           | Some (old_start, old_count, r2) \<Rightarrow>
               (case read_lit '' +'' r2 of
                  None \<Rightarrow> None
                | Some r3 \<Rightarrow>
                    (case read_range r3 of
                       None \<Rightarrow> None
                     | Some (new_start, new_count, r4) \<Rightarrow>
                         (if starts_with r4 '' @@'' then Some (old_start, old_count, new_count)
                          else None)))))"

definition line_marker :: "string \<Rightarrow> char" where
  "line_marker body = (case body of [] \<Rightarrow> CHR '' '' | c # _ \<Rightarrow> c)"

definition is_note :: "string \<Rightarrow> bool" where
  "is_note line = starts_with line [CHR 0x5C]"

text \<open>The body of a hunk: the lines read, the old and new lines seen, and the rest.\<close>

fun hunk_body ::
  "int \<Rightarrow> int \<Rightarrow> int \<Rightarrow> int \<Rightarrow> string list \<Rightarrow>
     patch_error + string list \<times> int \<times> int \<times> string list" where
  "hunk_body old_count new_count seen_old seen_new [] = Inr ([], seen_old, seen_new, [])"
| "hunk_body old_count new_count seen_old seen_new (body # rest) =
     (if \<not> (seen_old < old_count \<or> seen_new < new_count) then Inr ([], seen_old, seen_new, body # rest)
      else if is_note body then hunk_body old_count new_count seen_old seen_new rest
      else if line_marker body \<notin> {CHR '' '', CHR ''-'', CHR ''+''} then Inl (UnexpectedLine body)
      else res_bind
        (hunk_body old_count new_count
           (seen_old + (if line_marker body \<in> {CHR '' '', CHR ''-''} then 1 else 0))
           (seen_new + (if line_marker body \<in> {CHR '' '', CHR ''+''} then 1 else 0)) rest)
        (\<lambda>(ls, o_seen, n_seen, r).
           Inr ((if body = [] then '' '' else body) # ls, o_seen, n_seen, r)))"

lemma hunk_body_rest:
  "hunk_body oc nc so sn ls = Inr (ls', so', sn', r) \<Longrightarrow> length r \<le> length ls"
  by (induction oc nc so sn ls arbitrary: ls' so' sn' r rule: hunk_body.induct)
    (fastforce simp: res_simps split: if_splits prod.splits)+

function parse_hunks :: "string \<Rightarrow> string list \<Rightarrow> patch_error + hunk list \<times> string list" where
  "parse_hunks target [] = Inr ([], [])"
| "parse_hunks target (line # rest) =
     (if \<not> starts_with line ''@@'' then Inr ([], line # rest)
      else case hunk_header line of
             None \<Rightarrow> Inl (MalformedHunk line)
           | Some (old_start, old_count, new_count) \<Rightarrow>
               (case hunk_body old_count new_count 0 0 rest of
                  Inl e \<Rightarrow> Inl e
                | Inr (ls, seen_old, seen_new, r) \<Rightarrow>
                    (if seen_old \<noteq> old_count \<or> seen_new \<noteq> new_count then Inl (ShortHunk target)
                     else res_bind (parse_hunks target (dropWhile is_note r)) (\<lambda>(hs, r').
                       Inr (\<lparr>hk_old_start = old_start, hk_lines = ls\<rparr> # hs, r')))))"
  by pat_completeness auto
termination
  by (relation "measure (\<lambda>(t, ls). length ls)")
    (auto dest!: hunk_body_rest simp: less_Suc_eq_le intro: order_trans [OF length_dropWhile_le])

lemma parse_hunks_rest:
  "parse_hunks target ls = Inr (hs, r) \<Longrightarrow> length r \<le> length ls"
proof (induction target ls arbitrary: hs r rule: parse_hunks.induct)
  case (2 target line rest)
  show ?case
  proof (cases "starts_with line ''@@''")
    case False
    then show ?thesis using 2(2) by simp
  next
    case True
    then obtain os oc nc ls so sn r1 hs' where h: "hunk_header line = Some (os, oc, nc)"
      "hunk_body oc nc 0 0 rest = Inr (ls, so, sn, r1)" "so = oc" "sn = nc"
      "parse_hunks target (dropWhile is_note r1) = Inr (hs', r)"
      using 2(2) by (auto simp: res_simps split: option.splits sum.splits if_splits prod.splits)
    then have "length r \<le> length (dropWhile is_note r1)"
      using 2(1) [OF _ h(1) refl refl h(2) refl refl refl] True by auto
    also have "\<dots> \<le> length r1" by (rule length_dropWhile_le)
    also have "\<dots> \<le> length rest" using h(2) by (rule hunk_body_rest)
    finally show ?thesis by simp
  qed
qed simp

definition header_path :: "string option \<Rightarrow> patch_error + string option" where
  "header_path p =
     (case p of Some (c # cs) \<Rightarrow> res_bind (safe_relative (c # cs)) (\<lambda>q. Inr (Some q)) | _ \<Rightarrow> Inr None)"

definition paths_of_header :: "string \<Rightarrow> string \<Rightarrow> patch_error + string option \<times> string option" where
  "paths_of_header old_line new_line =
     (let old = strip_diff_prefix (drop 4 old_line); new = strip_diff_prefix (drop 4 new_line) in
      if old = None \<and> new = None then Inl BothDevNull
      else res_bind (header_path old) (\<lambda>o_path. res_bind (header_path new) (\<lambda>n_path.
             Inr (o_path, n_path))))"

function parse_files :: "string list \<Rightarrow> patch_error + file_patch list" where
  "parse_files [] = Inr []"
| "parse_files [line] = Inr []"
| "parse_files (line # nxt # rest) =
     (if starts_with line ''--- '' \<and> starts_with nxt ''+++ '' then
        (case paths_of_header line nxt of
           Inl e \<Rightarrow> Inl e
         | Inr (old, new) \<Rightarrow>
             (case parse_hunks (patch_target \<lparr>fp_old_path = old, fp_new_path = new, fp_hunks = []\<rparr>) rest of
                Inl e \<Rightarrow> Inl e
              | Inr (hs, r) \<Rightarrow>
                  res_bind (parse_files r) (\<lambda>ps.
                    Inr (\<lparr>fp_old_path = old, fp_new_path = new, fp_hunks = hs\<rparr> # ps))))
      else parse_files (nxt # rest))"
  by pat_completeness auto
termination
  by (relation "measure length") (auto dest!: parse_hunks_rest)

definition parse_unified_diff :: "string \<Rightarrow> patch_error + file_patch list" where
  "parse_unified_diff t =
     (if max_patch_bytes < int (utf8_len t) then Inl PatchTooLarge
      else res_bind (parse_files (py_splitlines t)) (\<lambda>ps.
        if ps = [] then Inl NoHeaders else Inr ps))"

definition touched_paths :: "string \<Rightarrow> patch_error + string list" where
  "touched_paths t = res_bind (parse_unified_diff t) (\<lambda>ps. Inr (sort (remdups
     (concat (map (\<lambda>p. (case fp_old_path p of Some (c # cs) \<Rightarrow> [c # cs] | _ \<Rightarrow> [])
                     @ (case fp_new_path p of Some (c # cs) \<Rightarrow> [c # cs] | _ \<Rightarrow> [])) ps)))))"

subsection \<open>Locating and applying hunks\<close>

definition max_offset :: nat where
  "max_offset = 200"

definition matches_at :: "string list \<Rightarrow> string list \<Rightarrow> int \<Rightarrow> bool" where
  "matches_at content before start =
     (0 \<le> start \<and> start \<le> int (length content) - int (length before)
      \<and> take (length before) (drop (nat start) content) = before)"

definition candidates :: "(int \<Rightarrow> int \<Rightarrow> int list) \<Rightarrow> int \<Rightarrow> int list" where
  "candidates set_order hint =
     concat (map (\<lambda>k. set_order (hint + int k) (hint - int k)) [0..<Suc max_offset])"

definition locate :: "(int \<Rightarrow> int \<Rightarrow> int list) \<Rightarrow> string list \<Rightarrow> hunk \<Rightarrow> int \<Rightarrow> int option" where
  "locate set_order content h hint =
     (if hunk_before h = [] then Some (min (max hint 0) (int (length content)))
      else List.find (matches_at content (hunk_before h)) (candidates set_order hint))"

fun mismatch_from :: "string list \<Rightarrow> string list \<Rightarrow> int \<Rightarrow> (int \<times> string \<times> string) option" where
  "mismatch_from content [] i = None"
| "mismatch_from content (expected # rest) i =
     (let actual = (if 0 \<le> i \<and> i < int (length content) then content ! nat i else ''<end of file>'')
      in if actual \<noteq> expected then Some (i + 1, expected, actual)
         else mismatch_from content rest (i + 1))"

definition first_mismatch :: "string list \<Rightarrow> hunk \<Rightarrow> int \<Rightarrow> int \<times> string \<times> string" where
  "first_mismatch content h start =
     (case mismatch_from content (hunk_before h) start of Some m \<Rightarrow> m | None \<Rightarrow> (start + 1, [], []))"

definition splice_lines :: "string list \<Rightarrow> int \<Rightarrow> hunk \<Rightarrow> string list" where
  "splice_lines content start h =
     take (nat start) content @ hunk_after h @ drop (nat start + length (hunk_before h)) content"

definition count_marker :: "char \<Rightarrow> hunk \<Rightarrow> nat" where
  "count_marker c h = length (filter (\<lambda>l. starts_with l [c]) (hk_lines h))"

fun apply_hunks ::
  "(int \<Rightarrow> int \<Rightarrow> int list) \<Rightarrow> string \<Rightarrow> nat \<Rightarrow> hunk list \<Rightarrow> string list \<Rightarrow> int \<Rightarrow> nat \<Rightarrow> nat \<Rightarrow>
     conflict + string list \<times> nat \<times> nat" where
  "apply_hunks set_order target number [] content drift added removed = Inr (content, added, removed)"
| "apply_hunks set_order target number (h # hs) content drift added removed =
     (let hint = max (hk_old_start h - 1) 0 + drift in
      case locate set_order content h hint of
        None \<Rightarrow>
          (case first_mismatch content h (min hint (int (length content))) of
             (line, expected, actual) \<Rightarrow>
               Inl \<lparr>cf_path = target, cf_hunk = number, cf_line = line, cf_reason = ContextMismatch,
                    cf_expected = expected, cf_actual = actual\<rparr>)
      | Some start \<Rightarrow>
          apply_hunks set_order target (Suc number) hs (splice_lines content start h)
            (drift + int (length (hunk_after h)) - int (length (hunk_before h)))
            (added + count_marker (CHR ''+'') h) (removed + count_marker (CHR ''-'') h))"

subsection \<open>Planning and writing\<close>

type_synonym files = "(string, string) dict"

record planned =
  pl_patch :: file_patch
  pl_path :: string
  pl_text :: "string option"
  pl_added :: nat
  pl_removed :: nat

record patch_result =
  pr_applied :: bool
  pr_dry_run :: bool
  pr_files :: "planned list"
  pr_conflicts :: "conflict list"

datatype apply_error = Rejected patch_error | WriteFailed string

text \<open>\<open>root in path.parents\<close> of two resolved absolute paths.\<close>

definition strictly_inside :: "string \<Rightarrow> string \<Rightarrow> bool" where
  "strictly_inside base p =
     (length (path_parts base) < length (path_parts p)
      \<and> take (length (path_parts base)) (path_parts p) = path_parts base)"

text \<open>Reading in text mode turns every line end into a line feed.\<close>

fun universal_newlines :: "string \<Rightarrow> string" where
  "universal_newlines (c # d # cs) =
     (if c = CHR 0x0D then CHR 0x0A # universal_newlines (if d = CHR 0x0A then cs else d # cs)
      else c # universal_newlines (d # cs))"
| "universal_newlines [c] = [if c = CHR 0x0D then CHR 0x0A else c]"
| "universal_newlines [] = []"

definition linefeed :: string where
  "linefeed = [CHR 0x0A]"

definition simple_conflict :: "string \<Rightarrow> nat \<Rightarrow> conflict_reason \<Rightarrow> conflict" where
  "simple_conflict path number reason =
     \<lparr>cf_path = path, cf_hunk = number, cf_line = 1, cf_reason = reason, cf_expected = [],
      cf_actual = []\<rparr>"

text \<open>The content a patch starts from and whether the file ended with a line feed.\<close>

definition source_content ::
  "(string \<Rightarrow> string) \<Rightarrow> (string \<Rightarrow> bool) \<Rightarrow> string \<Rightarrow> files \<Rightarrow> file_patch \<Rightarrow>
     patch_error + (conflict + string list \<times> bool)" where
  "source_content resolve is_dir base fs p =
     (let path = resolve (join_path base (patch_target p));
          source = map_option (\<lambda>q. resolve (join_path base q)) (fp_old_path p)
      in if \<not> strictly_inside base path \<and> path \<noteq> base then Inl (LeavesWorkspace (patch_target p))
         else if (case source of Some q \<Rightarrow> \<not> strictly_inside base q | None \<Rightarrow> False)
         then Inl (LeavesWorkspace (or_null_str (fp_old_path p)))
         else if patch_action p = Create then
           (if map_of fs path \<noteq> None \<or> is_dir path
            then Inr (Inl (simple_conflict (patch_target p) 1 AlreadyExists))
            else Inr (Inr ([], True)))
         else case source of
                None \<Rightarrow> Inl (NoSource (patch_target p))
              | Some q \<Rightarrow>
                  (case map_of fs q of
                     None \<Rightarrow> Inr (Inl (simple_conflict (or_null_str (fp_old_path p)) 1 DoesNotExist))
                   | Some t \<Rightarrow>
                       (let raw = universal_newlines t in
                        Inr (Inr (py_splitlines raw, ends_with raw linefeed)))))"

definition plan_patch ::
  "(int \<Rightarrow> int \<Rightarrow> int list) \<Rightarrow> (string \<Rightarrow> string) \<Rightarrow> (string \<Rightarrow> bool) \<Rightarrow> string \<Rightarrow> files \<Rightarrow> file_patch \<Rightarrow>
     patch_error + (conflict + planned)" where
  "plan_patch set_order resolve is_dir base fs p =
     res_bind (source_content resolve is_dir base fs p) (\<lambda>src.
       case src of
         Inl c \<Rightarrow> Inr (Inl c)
       | Inr (content, trailing) \<Rightarrow>
           (case apply_hunks set_order (patch_target p) 1 (fp_hunks p) content 0 0 0 of
              Inl c \<Rightarrow> Inr (Inl c)
            | Inr (content', added, removed) \<Rightarrow>
                (if patch_action p = Delete \<and> content' \<noteq> []
                 then Inr (Inl (simple_conflict (patch_target p) (length (fp_hunks p)) StillHasContent))
                 else Inr (Inr \<lparr>pl_patch = p, pl_path = resolve (join_path base (patch_target p)),
                        pl_text = (if patch_action p = Delete then None
                                   else Some (py_join linefeed content'
                                     @ (if content' \<noteq> [] \<and> trailing then linefeed else []))),
                        pl_added = added, pl_removed = removed\<rparr>))))"

text \<open>One write: \<open>mkdir\<close> of the parents, the atomic write, and the removal of a renamed file.\<close>

definition has_file_parent :: "files \<Rightarrow> string \<Rightarrow> bool" where
  "has_file_parent fs path = list_ex (\<lambda>q. strictly_inside q path) (map fst fs)"

definition write_plan ::
  "(string \<Rightarrow> bool) \<Rightarrow> string \<Rightarrow> planned \<Rightarrow> files \<Rightarrow> apply_error + files" where
  "write_plan is_dir base pl fs =
     (case pl_text pl of
        None \<Rightarrow> (if map_of fs (pl_path pl) = None then Inl (WriteFailed (pl_path pl))
                 else Inr (AList.delete (pl_path pl) fs))
      | Some t \<Rightarrow>
          (if has_file_parent fs (pl_path pl) \<or> is_dir (pl_path pl) then Inl (WriteFailed (pl_path pl))
           else let fs1 = AList.update (pl_path pl) t fs in
                if patch_action (pl_patch pl) = Rename
                then Inr (AList.delete (join_path base (or_null_str (fp_old_path (pl_patch pl)))) fs1)
                else Inr fs1))"

fun write_plans ::
  "(string \<Rightarrow> bool) \<Rightarrow> string \<Rightarrow> planned list \<Rightarrow> files \<Rightarrow> (apply_error + unit) \<times> files" where
  "write_plans is_dir base [] fs = (Inr (), fs)"
| "write_plans is_dir base (pl # pls) fs =
     (case write_plan is_dir base pl fs of
        Inl e \<Rightarrow> (Inl e, fs) | Inr fs' \<Rightarrow> write_plans is_dir base pls fs')"

fun split_plans :: "(conflict + planned) list \<Rightarrow> conflict list \<times> planned list" where
  "split_plans [] = ([], [])"
| "split_plans (Inl c # xs) = (case split_plans xs of (cs, ps) \<Rightarrow> (c # cs, ps))"
| "split_plans (Inr p # xs) = (case split_plans xs of (cs, ps) \<Rightarrow> (cs, p # ps))"

definition apply_patch ::
  "(int \<Rightarrow> int \<Rightarrow> int list) \<Rightarrow> (string \<Rightarrow> string) \<Rightarrow> (string \<Rightarrow> bool) \<Rightarrow> string \<Rightarrow> bool \<Rightarrow> string \<Rightarrow>
     files \<Rightarrow> (apply_error + patch_result) \<times> files" where
  "apply_patch set_order resolve is_dir base_dir dry_run t fs =
     (let base = resolve base_dir in
      case res_bind (parse_unified_diff t) (res_map (plan_patch set_order resolve is_dir base fs)) of
        Inl e \<Rightarrow> (Inl (Rejected e), fs)
      | Inr plans \<Rightarrow>
          (case split_plans plans of (conflicts, planned) \<Rightarrow>
             if conflicts \<noteq> [] \<or> dry_run
             then (Inr \<lparr>pr_applied = False, pr_dry_run = dry_run, pr_files = planned,
                        pr_conflicts = conflicts\<rparr>, fs)
             else case write_plans is_dir base planned fs of
                    (Inl e, fs') \<Rightarrow> (Inl e, fs')
                  | (Inr _, fs') \<Rightarrow>
                      (Inr \<lparr>pr_applied = True, pr_dry_run = False, pr_files = planned,
                            pr_conflicts = []\<rparr>, fs')))"

subsection \<open>Where a hunk is applied\<close>

text \<open>Python's set of the two candidate starts holds exactly these two numbers.\<close>

definition set_order_ok :: "(int \<Rightarrow> int \<Rightarrow> int list) \<Rightarrow> bool" where
  "set_order_ok f \<longleftrightarrow> (\<forall>a b. set (f a b) = {a, b})"

lemma candidates_split:
  assumes "set_order_ok f" and "candidates f hint = ys @ x # zs"
  shows "\<exists>k \<le> max_offset. (x = hint + int k \<or> x = hint - int k)
           \<and> (\<forall>j < k. hint + int j \<in> set ys \<and> hint - int j \<in> set ys)"
proof -
  have "\<forall>n ys. concat (map (\<lambda>k. f (hint + int k) (hint - int k)) [m..<m + n]) = ys @ x # zs \<longrightarrow>
      (\<exists>k \<ge> m. k < m + n \<and> (x = hint + int k \<or> x = hint - int k)
         \<and> (\<forall>j. m \<le> j \<and> j < k \<longrightarrow> hint + int j \<in> set ys \<and> hint - int j \<in> set ys))" for m
  proof (intro allI impI)
    fix n ys
    assume "concat (map (\<lambda>k. f (hint + int k) (hint - int k)) [m..<m + n]) = ys @ x # zs"
    then show "\<exists>k \<ge> m. k < m + n \<and> (x = hint + int k \<or> x = hint - int k)
         \<and> (\<forall>j. m \<le> j \<and> j < k \<longrightarrow> hint + int j \<in> set ys \<and> hint - int j \<in> set ys)"
    proof (induction n arbitrary: m ys)
      case 0
      then show ?case by simp
    next
      case (Suc n)
      let ?h = "f (hint + int m) (hint - int m)"
      have h: "set ?h = {hint + int m, hint - int m}" using assms(1) by (auto simp: set_order_ok_def)
      define R where "R = concat (map (\<lambda>k. f (hint + int k) (hint - int k)) [Suc m..<Suc m + n])"
      have "?h @ R = ys @ x # zs"
      proof -
        have "[m..<m + Suc n] = m # [Suc m..<Suc m + n]" by (simp add: upt_conv_Cons del: upt_Suc)
        then show ?thesis using Suc.prems by (simp only: R_def list.map concat.simps)
      qed
      then consider (front) us where "?h = ys @ x # us"
        | (later) us where "ys = ?h @ us" "R = us @ x # zs"
        by (auto simp: append_eq_append_conv2 Cons_eq_append_conv append_eq_Cons_conv)
      then show ?case
      proof cases
        case front
        then have "x \<in> set ?h" by simp
        then show ?thesis using h by (intro exI [of _ m]) auto
      next
        case later
        from Suc.IH [OF later(2) [unfolded R_def]] obtain k where k: "Suc m \<le> k" "k < Suc m + n"
          "x = hint + int k \<or> x = hint - int k"
          "\<forall>j. Suc m \<le> j \<and> j < k \<longrightarrow> hint + int j \<in> set us \<and> hint - int j \<in> set us" by blast
        have "hint + int j \<in> set ys \<and> hint - int j \<in> set ys" if "m \<le> j" "j < k" for j
          using that k(4) h later(1) by (cases "j = m") auto
        with k show ?thesis by (intro exI [of _ k]) auto
      qed
    qed
  qed
  moreover have "concat (map (\<lambda>k. f (hint + int k) (hint - int k)) [0..<0 + Suc max_offset]) = ys @ x # zs"
    using assms(2) by (simp only: candidates_def add_0)
  ultimately obtain k where "k < 0 + Suc max_offset" "x = hint + int k \<or> x = hint - int k"
    "\<forall>j. 0 \<le> j \<and> j < k \<longrightarrow> hint + int j \<in> set ys \<and> hint - int j \<in> set ys" by blast
  then show ?thesis by (intro exI [of _ k]) auto
qed

lemma set_candidates:
  assumes "set_order_ok f"
  shows "x \<in> set (candidates f hint) \<longleftrightarrow> \<bar>x - hint\<bar> \<le> int max_offset"
proof
  assume "x \<in> set (candidates f hint)"
  then obtain k where "k < Suc max_offset" "x \<in> set (f (hint + int k) (hint - int k))"
    by (auto simp: candidates_def simp del: upt_Suc)
  then show "\<bar>x - hint\<bar> \<le> int max_offset" using assms by (auto simp: set_order_ok_def)
next
  assume near: "\<bar>x - hint\<bar> \<le> int max_offset"
  let ?k = "nat \<bar>x - hint\<bar>"
  have "x \<in> set (f (hint + int ?k) (hint - int ?k))"
    using assms by (auto simp: set_order_ok_def)
  moreover have "?k \<in> set [0..<Suc max_offset]" using near by auto
  ultimately show "x \<in> set (candidates f hint)" unfolding candidates_def set_concat set_map by blast
qed

lemma matches_at_split:
  assumes "matches_at content before start"
  shows "content = take (nat start) content @ before @ drop (nat start + length before) content"
proof -
  have "take (length before) (drop (nat start) content) = before"
    using assms by (simp add: matches_at_def)
  then show ?thesis
    by (metis append_take_drop_id drop_drop add.commute)
qed


definition pair_order :: "int \<Rightarrow> int \<Rightarrow> int list" where
  "pair_order a b = [a, b]"

lemma pair_order_ok: "set_order_ok pair_order"
  by (simp add: set_order_ok_def pair_order_def)

definition example_hunk :: hunk where
  "example_hunk = \<lparr>hk_old_start = 1, hk_lines = ['' b'', ''-c'', ''+C'']\<rparr>"


subsection \<open>Reversing a hunk\<close>

definition reverse_line :: "string \<Rightarrow> string" where
  "reverse_line l = (case l of
     [] \<Rightarrow> [] | c # cs \<Rightarrow> (if c = CHR ''+'' then CHR ''-'' else if c = CHR ''-'' then CHR ''+'' else c) # cs)"

definition reverse_hunk :: "hunk \<Rightarrow> hunk" where
  "reverse_hunk h = h\<lparr>hk_lines := map reverse_line (hk_lines h)\<rparr>"

lemma reverse_line_simps:
  "tl (reverse_line l) = tl l"
  "(reverse_line l \<noteq> [] \<and> hd (reverse_line l) \<in> {CHR '' '', CHR ''-''})
     = (l \<noteq> [] \<and> hd l \<in> {CHR '' '', CHR ''+''})"
  "(reverse_line l \<noteq> [] \<and> hd (reverse_line l) \<in> {CHR '' '', CHR ''+''})
     = (l \<noteq> [] \<and> hd l \<in> {CHR '' '', CHR ''-''})"
  by (cases l; auto simp: reverse_line_def)+

lemma reverse_hunk_sides:
  "hunk_before (reverse_hunk h) = hunk_after h" "hunk_after (reverse_hunk h) = hunk_before h"
  unfolding hunk_before_def hunk_after_def reverse_hunk_def
  by (simp_all add: filter_map comp_def reverse_line_simps del: insert_iff)

lemma splice_reverse:
  assumes "matches_at content (hunk_before h) start"
  shows "splice_lines (splice_lines content start h) start (reverse_hunk h) = content"
    and "matches_at (splice_lines content start h) (hunk_after h) start"
proof -
  have len: "nat start \<le> length content" "0 \<le> start" using assms by (auto simp: matches_at_def)
  let ?new = "splice_lines content start h"
  have t: "take (nat start) ?new = take (nat start) content"
    using len by (simp add: splice_lines_def)
  have d: "drop (nat start + length (hunk_after h)) ?new
      = drop (nat start + length (hunk_before h)) content"
    using len by (simp add: splice_lines_def)
  show "splice_lines ?new start (reverse_hunk h) = content"
    using matches_at_split [OF assms] by (simp add: splice_lines_def [of ?new] reverse_hunk_sides t d)
  show "matches_at ?new (hunk_after h) start"
    using len by (simp add: matches_at_def splice_lines_def)
qed



subsection \<open>Nothing is written outside the root, or on a conflict\<close>

definition beneath :: "string \<Rightarrow> string \<Rightarrow> bool" where
  "beneath base p = (\<exists>zs. path_parts p = path_parts base @ zs)"

lemma strictly_inside_beneath: "strictly_inside base p \<Longrightarrow> beneath base p"
  by (metis append_take_drop_id beneath_def strictly_inside_def)

lemma beneath_refl [simp]: "beneath p p"
  by (simp add: beneath_def)

lemma split_on_append:
  "split_on c (xs @ c # ys) = split_on c xs @ split_on c ys"
proof (induction xs)
  case (Cons x xs)
  then show ?case by (cases "split_on c xs") auto
qed simp

lemma beneath_join:
  assumes "\<not> is_absolute q"
  shows "beneath base (join_path base q)"
  using assms by (auto simp: join_path_def beneath_def path_parts_def split_on_append)

lemma path_parts_join_words:
  assumes "\<forall>w \<in> set ws. path_word w" and "ws \<noteq> []"
  shows "\<not> is_absolute (py_join ''/'' ws)"
proof -
  obtain w rest where ws: "ws = w # rest" using assms(2) by (cases ws) auto
  then obtain c cs where w: "w = c # cs" "c \<noteq> CHR ''/''"
    using assms(1) by (cases w) (auto simp: path_word_def)
  then have "\<exists>t. py_join ''/'' ws = c # t" using ws by (cases rest) auto
  with w show ?thesis by (auto simp: is_absolute_def)
qed

lemma safe_relative_not_absolute: "safe_relative p = Inr q \<Longrightarrow> \<not> is_absolute q"
  using path_parts_words [of _ p] path_parts_join_words [of "path_parts p"]
  by (auto simp: safe_relative_def pure_path_str_def is_absolute_def split: if_splits list.splits)

definition safe_patch :: "file_patch \<Rightarrow> bool" where
  "safe_patch p = (\<forall>q. fp_old_path p = Some q \<longrightarrow> \<not> is_absolute q)"

lemma parse_files_safe: "parse_files ls = Inr ps \<Longrightarrow> p \<in> set ps \<Longrightarrow> safe_patch p"
proof (induction ls arbitrary: ps p rule: parse_files.induct)
  case (3 line nxt rest)
  show ?case
  proof (cases "starts_with line ''--- '' \<and> starts_with nxt ''+++ ''")
    case False
    have "parse_files (nxt # rest) = Inr ps" using 3(3) False by auto
    from 3(2) [OF False this 3(4)] show ?thesis .
  next
    case True
    then obtain old new hs r ps' where h: "paths_of_header line nxt = Inr (old, new)"
      "parse_hunks (patch_target \<lparr>fp_old_path = old, fp_new_path = new, fp_hunks = []\<rparr>) rest = Inr (hs, r)"
      "parse_files r = Inr ps'" "ps = \<lparr>fp_old_path = old, fp_new_path = new, fp_hunks = hs\<rparr> # ps'"
      using 3(3) by (auto simp: res_simps split: sum.splits prod.splits)
    have "\<not> is_absolute q" if "old = Some q" for q
      using h(1) that
      by (auto simp: paths_of_header_def Let_def res_simps header_path_def split: if_splits option.splits list.splits
          dest: safe_relative_not_absolute)
    moreover have "safe_patch p'" if "p' \<in> set ps'" for p'
      using 3(1) [OF True h(1) refl h(2) refl h(3) that] .
    ultimately show ?thesis using 3(4) h(4) by (auto simp: safe_patch_def)
  qed
qed auto

lemma plan_patch_inside:
  assumes "plan_patch so resolve is_dir base fs p = Inr (Inr pl)"
  shows "beneath base (pl_path pl) \<and> pl_patch pl = p"
proof -
  obtain src where src: "source_content resolve is_dir base fs p = Inr src"
    using assms by (auto simp: plan_patch_def res_simps)
  obtain c where c: "src = Inr c"
    using assms src by (cases src) (auto simp: plan_patch_def res_simps)
  have "beneath base (resolve (join_path base (patch_target p)))"
    using src c by (auto simp: source_content_def Let_def strictly_inside_beneath split: if_splits)
  moreover have "pl_path pl = resolve (join_path base (patch_target p)) \<and> pl_patch pl = p"
    using assms src c by (auto simp: plan_patch_def res_simps split: sum.splits if_splits prod.splits)
  ultimately show ?thesis by simp
qed

lemma split_plans_mem: "split_plans xs = (cs, ps) \<Longrightarrow> pl \<in> set ps \<Longrightarrow> Inr pl \<in> set xs"
  by (induction xs arbitrary: cs ps rule: split_plans.induct) (auto split: prod.splits)

lemma write_plan_beneath:
  assumes "write_plan is_dir base pl fs = Inr fs'" and "beneath base (pl_path pl)"
    and "safe_patch (pl_patch pl)" and "map_of fs' q \<noteq> map_of fs q"
  shows "beneath base q"
  using assms beneath_join [of "or_null_str (fp_old_path (pl_patch pl))" base]
  by (auto simp: write_plan_def Let_def dict_simps safe_patch_def patch_action_def or_null_str_def
      split: option.splits if_splits)

lemma write_plans_beneath:
  assumes "write_plans is_dir base pls fs = (res, fs')"
    and "\<forall>pl \<in> set pls. beneath base (pl_path pl) \<and> safe_patch (pl_patch pl)"
    and "map_of fs' q \<noteq> map_of fs q"
  shows "beneath base q"
  using assms
proof (induction is_dir base pls fs rule: write_plans.induct)
  case (1 is_dir base fs)
  then show ?case by simp
next
  case (2 is_dir base pl pls fs)
  show ?case
  proof (cases "write_plan is_dir base pl fs")
    case (Inl e)
    then show ?thesis using 2 by auto
  next
    case (Inr fs1)
    show ?thesis
    proof (cases "map_of fs1 q = map_of fs q")
      case True
      then show ?thesis using 2 Inr by auto
    next
      case False
      then show ?thesis using write_plan_beneath [OF Inr] "2.prems"(2) by simp
    qed
  qed
qed

lemma res_map_set: "res_map f xs = Inr ys \<Longrightarrow> y \<in> set ys \<Longrightarrow> \<exists>x \<in> set xs. f x = Inr y"
  by (induction xs arbitrary: ys) (auto simp: res_simps)


definition example_lines :: "string list \<Rightarrow> string" where
  "example_lines ls = concat (map (\<lambda>l. l @ linefeed) ls)"

definition example_patch :: string where
  "example_patch = example_lines
     [''--- a/x'', ''+++ b/x'', ''@@ -1 +1 @@'', ''-old'', ''+new'']"

definition example_apply :: "string \<Rightarrow> files \<Rightarrow> (apply_error + patch_result) \<times> files" where
  "example_apply = apply_patch pair_order (\<lambda>p. p) (\<lambda>p. False) ''/w'' False"

lemma example_apply_run:
  "snd (example_apply example_patch [(''/w/x'', example_lines [''old''])])
     = [(''/w/x'', example_lines [''new''])]"
  by code_simp


subsection \<open>Behaviours to know about\<close>

text \<open>In a diff \<open>@@ -2,0 +3 @@\<close> inserts after line 2; here the line lands before line 2.\<close>

lemma insertion_lands_one_line_early:
  "snd (example_apply (example_lines [''--- a/x'', ''+++ b/x'', ''@@ -2,0 +3 @@'', ''+new''])
     [(''/w/x'', example_lines [''one'', ''two'', ''three''])])
   = [(''/w/x'', example_lines [''one'', ''new'', ''two'', ''three''])]"
  by code_simp

text \<open>A rename onto an existing file replaces that file without a conflict.\<close>

lemma rename_overwrites_target:
  "snd (example_apply (example_lines [''--- a/x'', ''+++ b/y''])
     [(''/w/x'', example_lines [''mine'']), (''/w/y'', example_lines [''precious''])])
   = [(''/w/y'', example_lines [''mine''])]"
  by code_simp

text \<open>Of two sections for the same file, planned from the same original, only the last survives.\<close>

lemma second_section_discards_first:
  "snd (example_apply (example_lines
       [''--- a/x'', ''+++ b/x'', ''@@ -1 +1 @@'', ''-a'', ''+A'',
        ''--- a/x'', ''+++ b/x'', ''@@ -2 +2 @@'', ''-b'', ''+B''])
     [(''/w/x'', example_lines [''a'', ''b''])])
   = [(''/w/x'', example_lines [''a'', ''B''])]"
  by code_simp

text \<open>A failing write in the middle leaves the earlier files of the patch written.\<close>

lemma failed_write_leaves_partial_patch:
  "example_apply (example_lines
       [''--- /dev/null'', ''+++ b/a'', ''@@ -0,0 +1 @@'', ''+1'',
        ''--- /dev/null'', ''+++ b/a/b'', ''@@ -0,0 +1 @@'', ''+2'']) []
   = (Inl (WriteFailed ''/w/a/b''), [(''/w/a'', example_lines [''1''])])"
  by code_simp

text \<open>A file with DOS line ends comes back with line feeds on every line.\<close>

lemma dos_line_ends_are_rewritten:
  "snd (example_apply example_patch
     [(''/w/x'', ''old'' @ [CHR 0x0D, CHR 0x0A] @ ''rest'' @ [CHR 0x0D, CHR 0x0A])])
   = [(''/w/x'', example_lines [''new'', ''rest''])]"
  by code_simp

end
