(* ===== verification/Hash_Chain.thy ===== *)
theory Hash_Chain
  imports Json_Value
begin

text \<open>
  What the two audit logs of the program share: every record is bound to the digest of the
  record before it. The cryptographic digest is the parameter \<open>sha\<close>; a log is described by
  \<open>enc\<close>, the text that is hashed for a record after a given previous digest. The locale
  \<open>hash_chain\<close> asks that this text determines both, and gives tamper evidence: two logs that
  end in the same digest are equal unless two of the texts hashed for them collide.
\<close>

subsection \<open>Digests\<close>

text \<open>
  \<open>hmac.compare_digest\<close> of two strings raises \<open>TypeError\<close> (here \<open>None\<close>) unless both are ASCII.
\<close>

definition is_ascii :: "string \<Rightarrow> bool" where
  "is_ascii s = list_all (\<lambda>c. code c < 128) s"

definition compare_digest :: "string \<Rightarrow> string \<Rightarrow> bool option" where
  "compare_digest a b = (if is_ascii a \<and> is_ascii b then Some (a = b) else None)"

definition sha_label :: "(string \<Rightarrow> string) \<Rightarrow> string \<Rightarrow> string" where
  "sha_label sha t = ''sha256:'' @ sha t"

text \<open>A hexadecimal digest of SHA-256 has 64 lower-case hexadecimal digits.\<close>

definition hex_char :: "char \<Rightarrow> bool" where
  "hex_char c = ((48 \<le> code c \<and> code c \<le> 57) \<or> (97 \<le> code c \<and> code c \<le> 102))"

definition hex_digest :: "(string \<Rightarrow> string) \<Rightarrow> bool" where
  "hex_digest sha \<longleftrightarrow> (\<forall>t. length (sha t) = 64 \<and> list_all hex_char (sha t))"

text \<open>The shape of a digest as the logs store it.\<close>

definition label_ok :: "string option \<Rightarrow> bool" where
  "label_ok p = (case p of None \<Rightarrow> True
     | Some h \<Rightarrow> length h = 71 \<and> list_all (\<lambda>c. hex_char c \<or> c \<in> set ''sha256:'') h)"

definition link_json :: "string option \<Rightarrow> json" where
  "link_json p = (case p of None \<Rightarrow> JNull | Some h \<Rightarrow> JStr h)"

definition link_text :: "string option \<Rightarrow> string" where
  "link_text p = (case p of None \<Rightarrow> ''null'' | Some h \<Rightarrow> json_quote h)"

lemma label_ok_sha: "hex_digest sha \<Longrightarrow> label_ok (Some (sha_label sha t))"
  by (auto simp: label_ok_def sha_label_def hex_digest_def list_all_iff)

lemma json_quote_plain:
  "list_all (\<lambda>c. json_escape c = [c]) s \<Longrightarrow> json_quote s = CHR 0x22 # s @ [CHR 0x22]"
  by (simp add: json_quote_def) (induction s; simp)

lemma json_escape_plain:
  "32 \<le> code c \<Longrightarrow> code c \<le> 126 \<Longrightarrow> code c \<noteq> 34 \<Longrightarrow> code c \<noteq> 92 \<Longrightarrow> json_escape c = [c]"
  by (simp add: json_escape_def Let_def)

lemma label_escape: "hex_char c \<or> c \<in> set ''sha256:'' \<Longrightarrow> json_escape c = [c]"
proof -
  assume "hex_char c \<or> c \<in> set ''sha256:''"
  then show ?thesis
  proof
    assume "hex_char c"
    then show ?thesis by (intro json_escape_plain) (auto simp: hex_char_def)
  next
    assume "c \<in> set ''sha256:''"
    moreover have "list_all (\<lambda>c. json_escape c = [c]) ''sha256:''" by code_simp
    ultimately show ?thesis by auto
  qed
qed

lemma link_text_label:
  "label_ok p \<Longrightarrow> link_text p = (case p of None \<Rightarrow> ''null'' | Some h \<Rightarrow> CHR 0x22 # h @ [CHR 0x22])"
  by (auto simp: link_text_def label_ok_def list_all_iff label_escape
      intro!: json_quote_plain split: option.splits)

lemma link_suffix_inj:
  assumes "label_ok p" and "label_ok q" and "xs @ link_text p @ zs = ys @ link_text q @ zs"
  shows "p = q \<and> xs = ys"
proof (cases p)
  case None
  show ?thesis
  proof (cases q)
    case (Some h)
    then have "xs @ ''null'' = (ys @ CHR 0x22 # h) @ [CHR 0x22]"
      using assms None by (simp add: link_text_label)
    then have "last (xs @ ''null'') = CHR 0x22" by simp
    then show ?thesis by simp
  qed (use assms None in \<open>simp add: link_text_label\<close>)
next
  case (Some h)
  show ?thesis
  proof (cases q)
    case None
    then have "(xs @ CHR 0x22 # h) @ [CHR 0x22] = ys @ ''null''"
      using assms Some by (simp add: link_text_label)
    then have "last (ys @ ''null'') = CHR 0x22" by (metis last_snoc)
    then show ?thesis by simp
  next
    case (Some h')
    have "length h = length h'" using assms Some \<open>p = Some h\<close> by (simp add: label_ok_def)
    then show ?thesis using assms Some \<open>p = Some h\<close> by (simp add: link_text_label)
  qed
qed

subsection \<open>Chains\<close>

fun chain_texts ::
  "(string \<Rightarrow> string) \<Rightarrow> (string option \<Rightarrow> 'e \<Rightarrow> string) \<Rightarrow> string option \<Rightarrow> 'e list \<Rightarrow> string list" where
  "chain_texts sha enc p [] = []"
| "chain_texts sha enc p (e # es) = enc p e # chain_texts sha enc (Some (sha_label sha (enc p e))) es"

fun chain_end ::
  "(string \<Rightarrow> string) \<Rightarrow> (string option \<Rightarrow> 'e \<Rightarrow> string) \<Rightarrow> string option \<Rightarrow> 'e list \<Rightarrow> string option" where
  "chain_end sha enc p [] = p"
| "chain_end sha enc p (e # es) = chain_end sha enc (Some (sha_label sha (enc p e))) es"

lemma chain_end_snoc [simp]:
  "chain_end sha enc p (es @ [e]) = Some (sha_label sha (enc (chain_end sha enc p es) e))"
  by (induction es arbitrary: p) auto

lemma chain_texts_snoc [simp]:
  "chain_texts sha enc p (es @ [e]) = chain_texts sha enc p es @ [enc (chain_end sha enc p es) e]"
  by (induction es arbitrary: p) auto

lemma label_ok_None [simp]: "label_ok None"
  by (simp add: label_ok_def)

lemma chain_end_label:
  "hex_digest sha \<Longrightarrow> label_ok p \<Longrightarrow> label_ok (chain_end sha enc p es)"
  by (induction es arbitrary: p) (auto simp: label_ok_sha)

locale hash_chain =
  fixes enc :: "string option \<Rightarrow> 'e \<Rightarrow> string"
  assumes enc_inj: "label_ok p \<Longrightarrow> label_ok q \<Longrightarrow> enc p e = enc q f \<Longrightarrow> p = q \<and> e = f"
begin

lemma tamper_evident:
  assumes "hex_digest sha"
    and "inj_on sha (set (chain_texts sha enc None es) \<union> set (chain_texts sha enc None fs))"
    and "chain_end sha enc None es = chain_end sha enc None fs"
  shows "es = fs"
  using assms(2,3)
proof (induction es arbitrary: fs rule: rev_induct)
  case Nil
  then show ?case by (cases fs rule: rev_cases) auto
next
  case (snoc e es)
  show ?case
  proof (cases fs rule: rev_cases)
    case Nil
    then show ?thesis using snoc.prems by simp
  next
    case (snoc fs' f)
    let ?p = "chain_end sha enc None es" and ?q = "chain_end sha enc None fs'"
    have "sha (enc ?p e) = sha (enc ?q f)"
      using snoc.prems(2) snoc by (simp add: sha_label_def)
    then have "enc ?p e = enc ?q f"
      by (rule inj_onD [OF snoc.prems(1)]) (simp_all add: snoc)
    moreover have "label_ok ?p" "label_ok ?q"
      using assms(1) by (simp_all add: chain_end_label)
    ultimately have "?p = ?q" "e = f" using enc_inj by blast+
    moreover have "inj_on sha (set (chain_texts sha enc None es) \<union> set (chain_texts sha enc None fs'))"
      using snoc.prems(1) snoc by (auto intro: inj_on_subset)
    ultimately show ?thesis using snoc.IH snoc by blast
  qed
qed

end

end
