(* ===== verification/Audit_Collector.thy ===== *)
theory Audit_Collector
  imports Hash_Chain
begin

text \<open>
  \<open>src/loro/audit/collector.py\<close>: the collector authenticates a batch of events, validates it,
  drops replays and appends the rest to a hash-chained table. The database is the list of its
  rows with the final hash kept beside them; a transaction that raises leaves it as it was.
  Parameters: \<open>sha\<close> (SHA-256), \<open>loads\<close> (\<open>json.loads\<close> of the request body), \<open>renorm\<close> (the
  canonical text of the value a stored text decodes to), and in \<open>cx\<close> the text of floats and of
  lists and dictionaries.
\<close>

subsection \<open>Data\<close>

record json_env =
  je_float :: "rat \<Rightarrow> string"
  je_repr :: "json \<Rightarrow> string"

record audit_row =
  ar_event_id :: string
  ar_received :: string
  ar_payload :: string
  ar_previous :: "string option"
  ar_hash :: string

record collector_db =
  db_rows :: "audit_row list"
  db_final :: "string option"

definition empty_db :: collector_db where
  "empty_db = \<lparr>db_rows = [], db_final = None\<rparr>"

record collector =
  co_token :: string
  co_max_body :: int

datatype collector_error =
    InvalidToken | BodyTooLarge | NotJson | InvalidEvents | UnsupportedSchema | NotUuid
  | InvalidEventType | MissingTimestamp | ConflictingReplay | BadContentLength

text \<open>Exceptions the code does not turn into an \<open>AuditCollectorError\<close>.\<close>

datatype crash = DigestTypeError | StorageError | DecodeError | LengthError

type_synonym failure = "collector_error + crash"

record collector_result =
  cr_accepted :: nat
  cr_duplicates :: nat
  cr_final :: "string option"

record verification =
  vf_ok :: bool
  vf_events :: nat
  vf_final :: "string option"
  vf_issue :: "string option"

subsection \<open>Validation of an event\<close>

text \<open>\<open>value or other\<close> and \<open>text.replace(needle, "")\<close>.\<close>

definition py_or :: "json \<Rightarrow> json \<Rightarrow> json" where
  "py_or a b = (if truthy a then a else b)"

fun remove_skip :: "string \<Rightarrow> nat \<Rightarrow> string \<Rightarrow> string" where
  "remove_skip needle k [] = []"
| "remove_skip needle k (c # cs) =
     (if 0 < k then remove_skip needle (k - 1) cs
      else if starts_with (c # cs) needle then remove_skip needle (length needle - 1) cs
      else c # remove_skip needle 0 cs)"

definition remove_all :: "string \<Rightarrow> string \<Rightarrow> string" where
  "remove_all needle s = remove_skip needle 0 s"

definition hex_letter :: "char \<Rightarrow> bool" where
  "hex_letter c = (hex_char c \<or> (65 \<le> code c \<and> code c \<le> 70))"

text \<open>\<open>int(text, 16)\<close> succeeds; underscores may separate digits, a prefix \<open>0x\<close> may precede them.\<close>

fun hex_tail :: "string \<Rightarrow> bool" where
  "hex_tail [] = True"
| "hex_tail (c # cs) =
     (if c = CHR ''_'' then (case cs of d # ds \<Rightarrow> hex_letter d \<and> hex_tail ds | [] \<Rightarrow> False)
      else hex_letter c \<and> hex_tail cs)"

definition hex_number :: "string \<Rightarrow> bool" where
  "hex_number s = (case s of [] \<Rightarrow> False | c # cs \<Rightarrow> hex_letter c \<and> hex_tail cs)"

definition is_hex_int :: "string \<Rightarrow> bool" where
  "is_hex_int s =
     (let t = py_strip s;
          u = (if starts_with t ''+'' \<or> starts_with t ''-'' then tl t else t)
      in if starts_with u ''0x'' \<or> starts_with u ''0X''
         then hex_number (drop 2 u) \<or> (starts_with (drop 2 u) ''_'' \<and> hex_number (drop 3 u))
         else hex_number u)"

definition is_uuid :: "string \<Rightarrow> bool" where
  "is_uuid s =
     (let t = remove_all ''uuid:'' (remove_all ''urn:'' s);
          brace = (\<lambda>c. c = CHR 0x7B \<or> c = CHR 0x7D);
          h = remove_all ''-'' (rstrip_by brace (lstrip_by brace t))
      in length h = 32 \<and> is_hex_int h)"

definition lower_letter :: "char \<Rightarrow> bool" where
  "lower_letter c = (97 \<le> code c \<and> code c \<le> 122)"

definition event_word :: "string \<Rightarrow> bool" where
  "event_word w = (case w of [] \<Rightarrow> False
     | c # cs \<Rightarrow> lower_letter c
         \<and> list_all (\<lambda>d. lower_letter d \<or> (48 \<le> code d \<and> code d \<le> 57) \<or> d = CHR ''_'') cs)"

definition event_type_ok :: "string \<Rightarrow> bool" where
  "event_type_ok s = (let ws = split_on (CHR ''.'') s in 2 \<le> length ws \<and> list_all event_word ws)"

definition audit_schema_version :: string where
  "audit_schema_version = ''1.0''"

definition event_text :: "json_env \<Rightarrow> string \<Rightarrow> (string, json) dict \<Rightarrow> string" where
  "event_text cx k ev = py_str (je_repr cx) (py_or (or_null (map_of ev k)) (JStr []))"

definition validated_event :: "json_env \<Rightarrow> (string, json) dict \<Rightarrow> collector_error + (string, json) dict" where
  "validated_event cx ev =
     (if or_null (map_of ev ''schema_version'') \<noteq> JStr audit_schema_version then Inl UnsupportedSchema
      else if \<not> is_uuid (event_text cx ''event_id'' ev) then Inl NotUuid
      else if \<not> event_type_ok (event_text cx ''event_type'' ev) then Inl InvalidEventType
      else case py_or (or_null (map_of ev ''timestamp'')) (or_null (map_of ev ''created_at'')) of
             JStr _ \<Rightarrow> Inr ev
           | _ \<Rightarrow> Inl MissingTimestamp)"

subsection \<open>The chain\<close>

text \<open>The canonical text of \<open>{"previous_hash": previous, "event": event}\<close>.\<close>

definition bound_text :: "string option \<Rightarrow> string \<Rightarrow> string" where
  "bound_text previous event =
     CHR 0x7B # json_quote ''event'' @ '':'' @ event @ '','' @ json_quote ''previous_hash'' @ '':''
       @ link_text previous @ [CHR 0x7D]"

definition event_hash ::
  "(string \<Rightarrow> string) \<Rightarrow> (string \<Rightarrow> string option) \<Rightarrow> string \<Rightarrow> string option \<Rightarrow> string option" where
  "event_hash sha renorm payload previous =
     map_option (\<lambda>t. sha_label sha (bound_text previous t)) (renorm payload)"

lemma bound_text_canonical:
  "bound_text p (canonical_json fl ev)
     = canonical_json fl (JObj [(''previous_hash'', link_json p), (''event'', ev)])"
  by (simp add: bound_text_def link_json_def link_text_def split: option.splits)

subsection \<open>Accepting a batch\<close>

fun insert_events ::
  "json_env \<Rightarrow> (string \<Rightarrow> string) \<Rightarrow> (string \<Rightarrow> string option) \<Rightarrow> string \<Rightarrow> audit_row list \<Rightarrow>
     string option \<Rightarrow> nat \<Rightarrow> nat \<Rightarrow> (string, json) dict list \<Rightarrow>
     failure + audit_row list \<times> string option \<times> nat \<times> nat" where
  "insert_events cx sha renorm now rows final accepted duplicates [] =
     Inr (rows, final, accepted, duplicates)"
| "insert_events cx sha renorm now rows final accepted duplicates (ev # evs) =
     (let canonical = canonical_json (je_float cx) (JObj ev) in
      case map_of ev ''event_id'' of
        Some (JStr i) \<Rightarrow>
          (case List.find (\<lambda>r. ar_event_id r = i) rows of
             Some r \<Rightarrow>
               (case compare_digest (ar_payload r) canonical of
                  None \<Rightarrow> Inl (Inr DigestTypeError)
                | Some False \<Rightarrow> Inl (Inl ConflictingReplay)
                | Some True \<Rightarrow>
                    insert_events cx sha renorm now rows final accepted (Suc duplicates) evs)
           | None \<Rightarrow>
               (case event_hash sha renorm canonical final of
                  None \<Rightarrow> Inl (Inr DecodeError)
                | Some h \<Rightarrow>
                    (if h \<in> ar_hash ` set rows then Inl (Inr StorageError)
                     else insert_events cx sha renorm now
                            (rows @ [\<lparr>ar_event_id = i, ar_received = now, ar_payload = canonical,
                                      ar_previous = final, ar_hash = h\<rparr>])
                            (Some h) (Suc accepted) duplicates evs)))
      | _ \<Rightarrow> Inl (Inr StorageError))"

definition batch_events :: "json \<Rightarrow> json list" where
  "batch_events payload =
     (case payload of
        JObj d \<Rightarrow> (case map_of d ''events'' of Some (JArr evs) \<Rightarrow> evs | _ \<Rightarrow> [payload])
      | _ \<Rightarrow> [payload])"

definition event_objects :: "json list \<Rightarrow> collector_error + (string, json) dict list" where
  "event_objects evs =
     (if evs = [] \<or> list_ex (\<lambda>e. as_obj e = None) evs then Inl InvalidEvents
      else Inr (map (\<lambda>e. case e of JObj d \<Rightarrow> d | _ \<Rightarrow> []) evs))"

definition lift_error :: "collector_error + 'a \<Rightarrow> failure + 'a" where
  "lift_error r = (case r of Inl e \<Rightarrow> Inl (Inl e) | Inr v \<Rightarrow> Inr v)"

definition checked_batch ::
  "json_env \<Rightarrow> (string \<Rightarrow> json option) \<Rightarrow> collector \<Rightarrow> string option \<Rightarrow> string \<Rightarrow>
     failure + (string, json) dict list" where
  "checked_batch cx loads co authorization body =
     res_bind (case authorization of
                 None \<Rightarrow> Inl (Inl InvalidToken)
               | Some a \<Rightarrow> (case compare_digest a (''Bearer '' @ co_token co) of
                              None \<Rightarrow> Inl (Inr DigestTypeError)
                            | Some False \<Rightarrow> Inl (Inl InvalidToken)
                            | Some True \<Rightarrow> Inr ()))
       (\<lambda>_. if co_max_body co < int (length body) then Inl (Inl BodyTooLarge)
            else case loads body of
                   None \<Rightarrow> Inl (Inl NotJson)
                 | Some payload \<Rightarrow>
                     lift_error (res_bind (event_objects (batch_events payload))
                       (res_map (validated_event cx))))"

definition collector_accept ::
  "json_env \<Rightarrow> (string \<Rightarrow> string) \<Rightarrow> (string \<Rightarrow> string option) \<Rightarrow> (string \<Rightarrow> json option) \<Rightarrow> collector \<Rightarrow>
     string \<Rightarrow> string option \<Rightarrow> string \<Rightarrow> collector_db \<Rightarrow> (failure + collector_result) \<times> collector_db" where
  "collector_accept cx sha renorm loads co now authorization body db =
     (case res_bind (checked_batch cx loads co authorization body)
             (insert_events cx sha renorm now (db_rows db) (db_final db) 0 0) of
        Inl e \<Rightarrow> (Inl e, db)
      | Inr (rows, final, accepted, duplicates) \<Rightarrow>
          (Inr \<lparr>cr_accepted = accepted, cr_duplicates = duplicates, cr_final = final\<rparr>,
           \<lparr>db_rows = rows, db_final = final\<rparr>))"

subsection \<open>Verification\<close>

definition not_verified :: "nat \<Rightarrow> string option \<Rightarrow> string \<Rightarrow> verification" where
  "not_verified n previous issue =
     \<lparr>vf_ok = False, vf_events = n, vf_final = previous, vf_issue = Some issue\<rparr>"

fun verify_rows ::
  "(string \<Rightarrow> string) \<Rightarrow> (string \<Rightarrow> string option) \<Rightarrow> string option \<Rightarrow> string option \<Rightarrow> nat \<Rightarrow>
     audit_row list \<Rightarrow> crash + verification" where
  "verify_rows sha renorm anchor previous n [] =
     Inr (if anchor \<noteq> previous then not_verified n previous ''Anchor does not match.''
          else \<lparr>vf_ok = True, vf_events = n, vf_final = previous, vf_issue = None\<rparr>)"
| "verify_rows sha renorm anchor previous n (r # rs) =
     (if ar_previous r \<noteq> previous then Inr (not_verified n previous ''Previous hash does not match.'')
      else case event_hash sha renorm (ar_payload r) previous of
             None \<Rightarrow> Inl DecodeError
           | Some expected \<Rightarrow>
               (case compare_digest (ar_hash r) expected of
                  None \<Rightarrow> Inl DigestTypeError
                | Some False \<Rightarrow> Inr (not_verified n previous ''Event hash does not match.'')
                | Some True \<Rightarrow> verify_rows sha renorm anchor (Some expected) (Suc n) rs))"

definition collector_verify ::
  "(string \<Rightarrow> string) \<Rightarrow> (string \<Rightarrow> string option) \<Rightarrow> collector_db \<Rightarrow> crash + verification" where
  "collector_verify sha renorm db = verify_rows sha renorm (db_final db) None 0 (db_rows db)"

subsection \<open>The HTTP front\<close>

text \<open>A reply, or a connection that is dropped because the handler raised.\<close>

datatype 'a reply = Reply nat 'a | Dropped crash

definition collector_post ::
  "json_env \<Rightarrow> (string \<Rightarrow> string) \<Rightarrow> (string \<Rightarrow> string option) \<Rightarrow> (string \<Rightarrow> json option) \<Rightarrow> collector \<Rightarrow>
     string \<Rightarrow> string \<Rightarrow> string option \<Rightarrow> string option \<Rightarrow> string \<Rightarrow> collector_db \<Rightarrow>
     (collector_error + collector_result) option reply \<times> collector_db" where
  "collector_post cx sha renorm loads co now path content_length authorization stream db =
     (if path \<noteq> ''/events'' then (Reply 404 None, db)
      else case int_of_str (case content_length of Some s \<Rightarrow> s | None \<Rightarrow> ''0'') of
             None \<Rightarrow> (Dropped LengthError, db)
           | Some n \<Rightarrow>
               (if n < 1 \<or> co_max_body co < n then (Reply 400 (Some (Inl BadContentLength)), db)
                else case collector_accept cx sha renorm loads co now authorization (take (nat n) stream) db of
                       (Inr result, db') \<Rightarrow> (Reply 200 (Some (Inr result)), db')
                     | (Inl (Inl InvalidToken), db') \<Rightarrow> (Reply 401 (Some (Inl InvalidToken)), db')
                     | (Inl (Inl e), db') \<Rightarrow> (Reply 400 (Some (Inl e)), db')
                     | (Inl (Inr c), db') \<Rightarrow> (Dropped c, db')))"

definition collector_health ::
  "(string \<Rightarrow> string) \<Rightarrow> (string \<Rightarrow> string option) \<Rightarrow> collector_db \<Rightarrow> verification reply" where
  "collector_health sha renorm db =
     (case collector_verify sha renorm db of
        Inl c \<Rightarrow> Dropped c
      | Inr v \<Rightarrow> Reply (if vf_ok v then 200 else 503) v)"

subsection \<open>What the JSON library promises\<close>

text \<open>
  Decoding the canonical text of a decoded event gives the same canonical text again, and the
  text of a float is ASCII.
\<close>

definition json_ok :: "json_env \<Rightarrow> (string \<Rightarrow> json option) \<Rightarrow> (string \<Rightarrow> string option) \<Rightarrow> bool" where
  "json_ok cx loads renorm \<longleftrightarrow>
     (\<forall>r. is_ascii (je_float cx r))
     \<and> (\<forall>body payload e. loads body = Some payload \<longrightarrow> e \<in> set (batch_events payload) \<longrightarrow>
          renorm (canonical_json (je_float cx) e) = Some (canonical_json (je_float cx) e))"

lemma is_ascii_append [simp]: "is_ascii (s @ t) \<longleftrightarrow> is_ascii s \<and> is_ascii t"
  by (simp add: is_ascii_def)

lemma is_ascii_Cons [simp]: "is_ascii (c # s) \<longleftrightarrow> code c < 128 \<and> is_ascii s"
  by (simp add: is_ascii_def)

lemma is_ascii_Nil [simp]: "is_ascii []"
  by (simp add: is_ascii_def)

lemma code_char_of [simp]: "n < 256 \<Longrightarrow> code (char_of n) = n"
  by (simp add: code_def of_char_of)

lemma is_ascii_nat_str: "is_ascii (nat_str n)"
proof (induction n rule: nat_str.induct)
  case (1 n)
  have "n mod 10 < 10" by simp
  then have "code (char_of (48 + n mod 10)) < 128" by (subst code_char_of) linarith+
  then show ?case using 1 by (subst nat_str.simps) simp
qed

lemma is_ascii_int_str: "is_ascii (int_str i)"
proof -
  have "code CHR ''-'' < 128" by code_simp
  then show ?thesis by (simp add: int_str_def is_ascii_nat_str)
qed

lemma is_ascii_escape: "is_ascii (json_escape c)"
proof -
  have lits: "code CHR 0x5C < 128" "code CHR ''n'' < 128" "code CHR ''r'' < 128" "code CHR ''t'' < 128"
    "code CHR ''f'' < 128" "code CHR ''b'' < 128" "code CHR ''u'' < 128" "code CHR ''0'' < 128"
    by code_simp+
  have "code (hex_digit n) < 128" if "n < 16" for n
    using that by (simp add: hex_digit_def)
  moreover have "code c div 16 < 16" "code c mod 16 < 16"
    using code_less [of c] by auto
  ultimately show ?thesis using lits by (simp add: json_escape_def Let_def)
qed

lemma is_ascii_concat: "\<forall>x \<in> set xs. is_ascii x \<Longrightarrow> is_ascii (concat xs)"
  by (induction xs) auto

lemma is_ascii_join: "is_ascii sep \<Longrightarrow> \<forall>x \<in> set xs. is_ascii x \<Longrightarrow> is_ascii (py_join sep xs)"
  by (induction sep xs rule: py_join.induct) auto

lemma is_ascii_quote: "is_ascii (json_quote s)"
proof -
  have "code CHR 0x22 < 128" by code_simp
  then show ?thesis by (auto simp: json_quote_def is_ascii_escape intro!: is_ascii_concat)
qed

lemma canonical_ascii: "(\<And>r. is_ascii (fl r)) \<Longrightarrow> is_ascii (canonical_json fl v)"
proof (induction fl v rule: canonical_json.induct)
  case (6 fl xs)
  have "is_ascii '','' \<and> is_ascii ''['' \<and> is_ascii '']''" by code_simp
  then show ?case using 6 by (auto intro!: is_ascii_join)
next
  case (7 fl d)
  have "is_ascii '','' \<and> code CHR 0x7B < 128 \<and> code CHR 0x7D < 128 \<and> is_ascii '':''" by code_simp
  then show ?case using 7 by (auto simp: is_ascii_quote intro!: is_ascii_join)
qed (simp_all add: is_ascii_int_str is_ascii_quote, simp_all add: code_def)

lemma sha_label_ascii: "hex_digest sha \<Longrightarrow> is_ascii (sha_label sha t)"
proof -
  assume "hex_digest sha"
  then have "is_ascii (sha t)"
    by (fastforce simp: hex_digest_def is_ascii_def hex_char_def list_all_iff)
  moreover have "is_ascii ''sha256:''" by code_simp
  ultimately show ?thesis by (simp add: sha_label_def)
qed

interpretation collector_chain: hash_chain bound_text
proof
  fix p q e f
  assume "label_ok p" "label_ok q" "bound_text p e = bound_text q f"
  then show "p = q \<and> e = f"
    using link_suffix_inj [of p q "e @ '','' @ json_quote ''previous_hash'' @ '':''"
        "[CHR 0x7D]" "f @ '','' @ json_quote ''previous_hash'' @ '':''"]
    by (simp add: bound_text_def)
qed

subsection \<open>Everything accepted verifies\<close>

fun chained :: "(string \<Rightarrow> string) \<Rightarrow> (string \<Rightarrow> string option) \<Rightarrow> string option \<Rightarrow> audit_row list \<Rightarrow> bool" where
  "chained sha renorm p [] = True"
| "chained sha renorm p (r # rs) =
     (ar_previous r = p \<and> renorm (ar_payload r) = Some (ar_payload r)
      \<and> ar_hash r = sha_label sha (bound_text p (ar_payload r))
      \<and> chained sha renorm (Some (ar_hash r)) rs)"

definition last_hash :: "string option \<Rightarrow> audit_row list \<Rightarrow> string option" where
  "last_hash p rs = (if rs = [] then p else Some (ar_hash (last rs)))"

lemma chained_snoc:
  "chained sha renorm p (rs @ [r]) \<longleftrightarrow>
     chained sha renorm p rs \<and> ar_previous r = last_hash p rs
     \<and> renorm (ar_payload r) = Some (ar_payload r)
     \<and> ar_hash r = sha_label sha (bound_text (ar_previous r) (ar_payload r))"
  by (induction rs arbitrary: p) (auto simp: last_hash_def)

definition db_ok :: "(string \<Rightarrow> string) \<Rightarrow> (string \<Rightarrow> string option) \<Rightarrow> collector_db \<Rightarrow> bool" where
  "db_ok sha renorm db \<longleftrightarrow>
     chained sha renorm None (db_rows db) \<and> db_final db = last_hash None (db_rows db)
     \<and> distinct (map ar_event_id (db_rows db))"

lemma insert_events_ok:
  assumes "insert_events cx sha renorm now rows final a d evs = Inr (rows', final', a', d')"
    and "chained sha renorm None rows" and "final = last_hash None rows"
    and "distinct (map ar_event_id rows)"
    and "\<And>ev. ev \<in> set evs \<Longrightarrow> renorm (canonical_json (je_float cx) (JObj ev))
           = Some (canonical_json (je_float cx) (JObj ev))"
  shows "chained sha renorm None rows' \<and> final' = last_hash None rows' \<and> distinct (map ar_event_id rows')"
  using assms
proof (induction cx sha renorm now rows final a d evs rule: insert_events.induct)
  case (1 cx sha renorm now rows final a d)
  then show ?case by auto
next
  case (2 cx sha renorm now rows final a d ev evs)
  obtain i where i: "map_of ev ''event_id'' = Some (JStr i)"
    using 2(3) by (auto simp: Let_def split: option.splits json.splits)
  show ?case
  proof (cases "List.find (\<lambda>r. ar_event_id r = i) rows")
    case (Some r)
    then have cmp: "compare_digest (ar_payload r) (canonical_json (je_float cx) (JObj ev)) = Some True"
      using 2(3) i by (auto simp: Let_def split: option.splits bool.splits)
    then show ?thesis
      using 2(2) [OF refl i refl Some cmp refl] 2(3-) i Some by (simp add: Let_def)
  next
    case None
    let ?c = "canonical_json (je_float cx) (JObj ev)"
    let ?h = "sha_label sha (bound_text final ?c)"
    let ?r = "\<lparr>ar_event_id = i, ar_received = now, ar_payload = ?c, ar_previous = final, ar_hash = ?h\<rparr>"
    have rn: "renorm ?c = Some ?c" using 2(7) by simp
    then have eh: "event_hash sha renorm ?c final = Some ?h" by (simp add: event_hash_def)
    have new: "?h \<notin> ar_hash ` set rows"
      and run: "insert_events cx sha renorm now (rows @ [?r]) (Some ?h) (Suc a) d evs
          = Inr (rows', final', a', d')"
      using 2(3) i None eh by (auto simp: Let_def split: if_splits)
    have "i \<notin> set (map ar_event_id rows)"
      using None by (auto simp: find_None_iff)
    moreover have "chained sha renorm None (rows @ [?r])"
      using 2(4,5) rn by (simp add: chained_snoc)
    ultimately show ?thesis
      using 2(1) [OF refl i refl None eh new run] 2(6,7) by (simp add: last_hash_def)
  qed
qed

lemma verify_rows_ok:
  assumes "hex_digest sha" and "chained sha renorm p rows"
  shows "verify_rows sha renorm (last_hash p rows) p n rows
    = Inr \<lparr>vf_ok = True, vf_events = n + length rows, vf_final = last_hash p rows, vf_issue = None\<rparr>"
  using assms(2)
proof (induction rows arbitrary: p n)
  case (Cons r rs)
  have "event_hash sha renorm (ar_payload r) p = Some (ar_hash r)"
    using Cons.prems by (simp add: event_hash_def)
  moreover have "compare_digest (ar_hash r) (ar_hash r) = Some True"
    using Cons.prems sha_label_ascii [OF assms(1)] by (simp add: compare_digest_def)
  moreover have "last_hash p (r # rs) = last_hash (Some (ar_hash r)) rs"
    by (simp add: last_hash_def)
  moreover have "chained sha renorm (Some (ar_hash r)) rs" using Cons.prems unfolding chained.simps by blast
  from Cons.IH [OF this, of "Suc n"]
  have "verify_rows sha renorm (last_hash (Some (ar_hash r)) rs) (Some (ar_hash r)) (Suc n) rs
    = Inr \<lparr>vf_ok = True, vf_events = Suc n + length rs,
           vf_final = last_hash (Some (ar_hash r)) rs, vf_issue = None\<rparr>" .
  moreover have "ar_previous r = p" using Cons.prems by simp
  ultimately show ?case by simp
qed (simp add: last_hash_def)

lemma checked_batch_events:
  assumes "checked_batch cx loads co authorization body = Inr evs" and "ev \<in> set evs"
  shows "\<exists>payload. loads body = Some payload \<and> JObj ev \<in> set (batch_events payload)"
proof -
  obtain payload ds where p: "loads body = Some payload"
    "event_objects (batch_events payload) = Inr ds" "res_map (validated_event cx) ds = Inr evs"
    using assms(1)
    by (auto simp: checked_batch_def res_simps lift_error_def split: option.splits bool.splits if_splits sum.splits)
  have "res_map (validated_event cx) ds = Inr evs \<Longrightarrow> evs = ds"
  proof (induction ds arbitrary: evs)
    case (Cons d ds)
    then show ?case
      by (auto simp: res_simps validated_event_def split: if_splits json.splits)
  qed simp
  then have "ev \<in> set ds" using p(3) assms(2) by simp
  moreover have "JObj d \<in> set (batch_events payload)" if "d \<in> set ds" for d
  proof -
    obtain e where e: "e \<in> set (batch_events payload)" "d = (case e of JObj d \<Rightarrow> d | _ \<Rightarrow> [])"
      using p(2) \<open>d \<in> set ds\<close> by (auto simp: event_objects_def split: if_splits)
    moreover have "as_obj e \<noteq> None"
      using p(2) e(1) by (auto simp: event_objects_def list_ex_iff split: if_splits)
    ultimately show ?thesis by (cases e) auto
  qed
  ultimately show ?thesis using p(1) by blast
qed

lemma collector_accept_ok:
  assumes "json_ok cx loads renorm" and "db_ok sha renorm db"
    and "collector_accept cx sha renorm loads co now authorization body db = (res, db')"
  shows "db_ok sha renorm db'"
proof (cases "res_bind (checked_batch cx loads co authorization body)
    (insert_events cx sha renorm now (db_rows db) (db_final db) 0 0)")
  case (Inl e)
  then show ?thesis using assms by (simp add: collector_accept_def)
next
  case (Inr out)
  obtain rows final a d where out: "out = (rows, final, a, d)" by (cases out)
  then obtain evs where evs: "checked_batch cx loads co authorization body = Inr evs"
    "insert_events cx sha renorm now (db_rows db) (db_final db) 0 0 evs = Inr (rows, final, a, d)"
    using Inr by (auto simp: res_simps)
  have "renorm (canonical_json (je_float cx) (JObj ev)) = Some (canonical_json (je_float cx) (JObj ev))"
    if "ev \<in> set evs" for ev
    using checked_batch_events [OF evs(1) that] assms(1) unfolding json_ok_def by blast
  with insert_events_ok [OF evs(2)] assms(2)
  have "chained sha renorm None rows \<and> final = last_hash None rows \<and> distinct (map ar_event_id rows)"
    by (simp add: db_ok_def)
  then show ?thesis
    using assms(3) Inr out by (auto simp: collector_accept_def db_ok_def)
qed

text \<open>The databases the collector can reach: any requests at all, accepted or refused.\<close>

inductive collected ::
  "json_env \<Rightarrow> (string \<Rightarrow> string) \<Rightarrow> (string \<Rightarrow> string option) \<Rightarrow> (string \<Rightarrow> json option) \<Rightarrow> collector \<Rightarrow>
     collector_db \<Rightarrow> bool"
  for cx sha renorm loads co where
  start: "collected cx sha renorm loads co empty_db"
| request: "collected cx sha renorm loads co db \<Longrightarrow>
    collector_accept cx sha renorm loads co now authorization body db = (res, db') \<Longrightarrow>
    collected cx sha renorm loads co db'"

lemma collected_ok:
  assumes "json_ok cx loads renorm" and "collected cx sha renorm loads co db"
  shows "db_ok sha renorm db"
  using assms(2)
  by induction (simp add: db_ok_def empty_db_def last_hash_def, rule collector_accept_ok [OF assms(1)])

text \<open>
  C28. Everything the collector stores verifies. After any sequence of requests, accepted or
  refused, verification succeeds, counts every row and ends in the recorded final hash, and no
  event identifier is stored twice.
\<close>

theorem collected_log_verifies:
  assumes "hex_digest sha" and "json_ok cx loads renorm" and "collected cx sha renorm loads co db"
  shows "collector_verify sha renorm db
           = Inr \<lparr>vf_ok = True, vf_events = length (db_rows db), vf_final = db_final db, vf_issue = None\<rparr>
         \<and> distinct (map ar_event_id (db_rows db))"
  using collected_ok [OF assms(2,3)] verify_rows_ok [OF assms(1), of renorm None "db_rows db" 0]
  by (simp add: db_ok_def collector_verify_def)

definition example_event :: json where
  "example_event = JObj [(''schema_version'', JStr ''1.0''),
     (''event_id'', JStr ''0123456789abcdef0123456789abcdef''),
     (''event_type'', JStr ''tool.call''), (''timestamp'', JStr ''now'')]"

definition example_env :: json_env where
  "example_env = \<lparr>je_float = (\<lambda>r. ''0.0''), je_repr = (\<lambda>v. [])\<rparr>"

definition zero_sha :: "string \<Rightarrow> string" where
  "zero_sha t = replicate 64 (CHR ''0'')"

definition example_collector :: collector where
  "example_collector = \<lparr>co_token = ''t'', co_max_body = 100\<rparr>"

definition example_accept :: "(failure + collector_result) \<times> collector_db" where
  "example_accept = collector_accept example_env zero_sha Some (\<lambda>b. Some example_event) example_collector
     ''now'' (Some ''Bearer t'') ''body'' empty_db"

lemma zero_sha_hex: "hex_digest zero_sha"
  by (simp add: hex_digest_def zero_sha_def list_all_iff hex_char_def code_def)

lemma example_json_ok: "json_ok example_env (\<lambda>b. Some example_event) Some"
  by (simp add: json_ok_def example_env_def is_ascii_def code_def)

theorem collected_log_verifies_witness:
  "vf_ok (projr (collector_verify zero_sha Some (snd example_accept)))
   \<and> vf_events (projr (collector_verify zero_sha Some (snd example_accept))) = 1"
proof -
  have "collector_accept example_env zero_sha Some (\<lambda>b. Some example_event) example_collector
      ''now'' (Some ''Bearer t'') ''body'' empty_db = (fst example_accept, snd example_accept)"
    by (simp add: example_accept_def)
  then have c: "collected example_env zero_sha Some (\<lambda>b. Some example_event) example_collector
      (snd example_accept)"
    by (rule collected.request [OF collected.start])
  have "length (db_rows (snd example_accept)) = 1" by code_simp
  then show ?thesis
    using collected_log_verifies [OF zero_sha_hex example_json_ok c] by simp
qed

subsection \<open>Replays are harmless\<close>

definition recorded :: "json_env \<Rightarrow> audit_row list \<Rightarrow> (string, json) dict \<Rightarrow> bool" where
  "recorded cx rows ev = (\<exists>i r. map_of ev ''event_id'' = Some (JStr i)
     \<and> List.find (\<lambda>r. ar_event_id r = i) rows = Some r
     \<and> ar_payload r = canonical_json (je_float cx) (JObj ev))"

lemma find_append: "List.find P (xs @ ys) = (case List.find P xs of None \<Rightarrow> List.find P ys | r \<Rightarrow> r)"
  by (induction xs) auto

lemma recorded_append: "recorded cx rows ev \<Longrightarrow> recorded cx (rows @ ext) ev"
  by (auto simp: recorded_def find_append)

lemma insert_events_recorded:
  assumes "insert_events cx sha renorm now rows final a d evs = Inr (rows', final', a', d')"
  shows "(\<exists>ext. rows' = rows @ ext \<and> length ext + a = a') \<and> a' + d' = a + d + length evs
         \<and> (\<forall>ev \<in> set evs. recorded cx rows' ev)"
  using assms
proof (induction cx sha renorm now rows final a d evs rule: insert_events.induct)
  case (1 cx sha renorm now rows final a d)
  then show ?case by auto
next
  case (2 cx sha renorm now rows final a d ev evs)
  let ?c = "canonical_json (je_float cx) (JObj ev)"
  obtain i where i: "map_of ev ''event_id'' = Some (JStr i)"
    using 2(3) by (auto simp: Let_def split: option.splits json.splits)
  show ?case
  proof (cases "List.find (\<lambda>r. ar_event_id r = i) rows")
    case (Some r)
    then have cmp: "compare_digest (ar_payload r) ?c = Some True"
      using 2(3) i by (auto simp: Let_def split: option.splits bool.splits)
    then have "recorded cx rows ev"
      using i Some by (auto simp: recorded_def compare_digest_def split: if_splits)
    moreover have "insert_events cx sha renorm now rows final a (Suc d) evs = Inr (rows', final', a', d')"
      using 2(3) i Some cmp by (simp add: Let_def)
    from 2(2) [OF refl i refl Some cmp refl this]
    have "(\<exists>ext. rows' = rows @ ext \<and> length ext + a = a') \<and> a' + d' = a + Suc d + length evs
        \<and> (\<forall>ev \<in> set evs. recorded cx rows' ev)" .
    ultimately show ?thesis by (auto intro: recorded_append)
  next
    case None
    then obtain h where h: "event_hash sha renorm ?c final = Some h" "h \<notin> ar_hash ` set rows"
      using 2(3) i by (auto simp: Let_def split: option.splits if_splits)
    let ?r = "\<lparr>ar_event_id = i, ar_received = now, ar_payload = ?c, ar_previous = final, ar_hash = h\<rparr>"
    have "insert_events cx sha renorm now (rows @ [?r]) (Some h) (Suc a) d evs = Inr (rows', final', a', d')"
      using 2(3) i None h by (simp add: Let_def)
    from 2(1) [OF refl i refl None h this]
    have ih: "(\<exists>ext. rows' = (rows @ [?r]) @ ext \<and> length ext + Suc a = a')"
      "a' + d' = Suc a + d + length evs" "\<forall>ev \<in> set evs. recorded cx rows' ev" by blast+
    then obtain ext where ext: "rows' = (rows @ [?r]) @ ext" "length ext + Suc a = a'" by blast
    have "recorded cx (rows @ [?r]) ev"
      using i None by (auto simp: recorded_def find_append)
    then have "recorded cx rows' ev" unfolding ext(1) by (rule recorded_append)
    moreover have "rows' = rows @ (?r # ext) \<and> length (?r # ext) + a = a'" using ext by simp
    ultimately show ?thesis using ih(2,3) by auto
  qed
qed

lemma insert_events_replay:
  assumes "\<And>r. is_ascii (je_float cx r)" and "\<forall>ev \<in> set evs. recorded cx rows ev"
  shows "insert_events cx sha renorm now rows final a d evs = Inr (rows, final, a, d + length evs)"
  using assms(2)
proof (induction evs arbitrary: d)
  case (Cons ev evs)
  have "is_ascii (canonical_json (je_float cx) (JObj ev))"
    using assms(1) by (rule canonical_ascii)
  then show ?case
    using Cons by (auto simp: recorded_def compare_digest_def Let_def)
qed simp

text \<open>
  Replays are harmless. A batch that was accepted once is accepted again at any later time
  without storing anything: every event counts as a duplicate and the final hash is unchanged.
\<close>

theorem accepted_batch_is_idempotent:
  assumes "json_ok cx loads renorm"
    and "collector_accept cx sha renorm loads co now authorization body db = (Inr result, db')"
  shows "collector_accept cx sha renorm loads co later authorization body db'
           = (Inr \<lparr>cr_accepted = 0, cr_duplicates = cr_accepted result + cr_duplicates result,
                   cr_final = cr_final result\<rparr>, db')
         \<and> length (db_rows db') = length (db_rows db) + cr_accepted result"
proof -
  obtain evs rows final a d where run: "checked_batch cx loads co authorization body = Inr evs"
    "insert_events cx sha renorm now (db_rows db) (db_final db) 0 0 evs = Inr (rows, final, a, d)"
    "result = \<lparr>cr_accepted = a, cr_duplicates = d, cr_final = final\<rparr>"
    "db' = \<lparr>db_rows = rows, db_final = final\<rparr>"
    using assms(2) by (auto simp: collector_accept_def res_simps split: sum.splits)
  have rec: "\<forall>ev \<in> set evs. recorded cx rows ev" and cnt: "a + d = length evs"
    and len: "length rows = length (db_rows db) + a"
    using insert_events_recorded [OF run(2)] by auto
  have "insert_events cx sha renorm later rows final 0 0 evs = Inr (rows, final, 0, length evs)"
    using insert_events_replay [OF _ rec, of sha renorm later final 0 0] assms(1)
    by (simp add: json_ok_def)
  then show ?thesis using run(1,3,4) cnt len by (simp add: collector_accept_def)
qed

theorem accepted_batch_is_idempotent_witness:
  "cr_accepted (projr (fst example_accept)) = 1
   \<and> fst (collector_accept example_env zero_sha Some (\<lambda>b. Some example_event) example_collector
       ''later'' (Some ''Bearer t'') ''body'' (snd example_accept))
     = Inr \<lparr>cr_accepted = 0, cr_duplicates = 1, cr_final = cr_final (projr (fst example_accept))\<rparr>"
proof -
  have "\<not> isl (fst example_accept) \<and> cr_accepted (projr (fst example_accept)) = 1
      \<and> cr_duplicates (projr (fst example_accept)) = 0"
    by code_simp
  moreover from this have "collector_accept example_env zero_sha Some (\<lambda>b. Some example_event) example_collector
      ''now'' (Some ''Bearer t'') ''body'' empty_db = (Inr (projr (fst example_accept)), snd example_accept)"
    by (simp add: example_accept_def [symmetric] prod_eq_iff)
  from accepted_batch_is_idempotent [OF example_json_ok this, of "''later''"]
  have "fst (collector_accept example_env zero_sha Some (\<lambda>b. Some example_event) example_collector
       ''later'' (Some ''Bearer t'') ''body'' (snd example_accept))
     = Inr \<lparr>cr_accepted = 0, cr_duplicates = cr_accepted (projr (fst example_accept))
              + cr_duplicates (projr (fst example_accept)),
            cr_final = cr_final (projr (fst example_accept))\<rparr>" by simp
  ultimately show ?thesis by simp
qed

subsection \<open>Tampering is visible against a known final hash\<close>

definition row_texts :: "(string \<Rightarrow> string option) \<Rightarrow> collector_db \<Rightarrow> string option list" where
  "row_texts renorm db = map (\<lambda>r. renorm (ar_payload r)) (db_rows db)"

definition hashed_texts ::
  "(string \<Rightarrow> string) \<Rightarrow> (string \<Rightarrow> string option) \<Rightarrow> collector_db \<Rightarrow> string list" where
  "hashed_texts sha renorm db = chain_texts sha bound_text None (map the (row_texts renorm db))"

lemma verify_rows_chain:
  assumes "verify_rows sha renorm anchor p n rows = Inr v" and "vf_ok v"
  shows "None \<notin> (\<lambda>r. renorm (ar_payload r)) ` set rows
         \<and> vf_final v = chain_end sha bound_text p (map (\<lambda>r. the (renorm (ar_payload r))) rows)"
  using assms
proof (induction rows arbitrary: p n)
  case Nil
  then show ?case by (auto simp: not_verified_def split: if_splits)
next
  case (Cons r rs)
  then obtain t where t: "renorm (ar_payload r) = Some t"
    by (auto simp: event_hash_def not_verified_def split: option.splits if_splits)
  then have "verify_rows sha renorm anchor (Some (sha_label sha (bound_text p t))) (Suc n) rs = Inr v"
    using Cons.prems
    by (auto simp: event_hash_def not_verified_def split: option.splits if_splits bool.splits)
  from Cons.IH [OF this Cons.prems(2)] t show ?case by auto
qed

text \<open>
  C17. Tampering is visible. Two databases that both verify with the same final hash hold the
  same events in the same order, unless two of the texts hashed for them collide under the
  digest: whoever kept the final hash of a batch detects any later edit, removal, insertion or
  reordering of the stored events.
\<close>

theorem collector_tamper_evident:
  assumes "hex_digest sha"
    and "collector_verify sha renorm db = Inr v" and "vf_ok v"
    and "collector_verify sha renorm db' = Inr v'" and "vf_ok v'" and "vf_final v = vf_final v'"
    and "inj_on sha (set (hashed_texts sha renorm db) \<union> set (hashed_texts sha renorm db'))"
  shows "row_texts renorm db = row_texts renorm db'"
proof -
  let ?es = "\<lambda>db. map (\<lambda>r. the (renorm (ar_payload r))) (db_rows db)"
  have l: "None \<notin> (\<lambda>r. renorm (ar_payload r)) ` set (db_rows db)"
    "vf_final v = chain_end sha bound_text None (?es db)"
    using verify_rows_chain assms(2,3) unfolding collector_verify_def by blast+
  have r: "None \<notin> (\<lambda>r. renorm (ar_payload r)) ` set (db_rows db')"
    "vf_final v' = chain_end sha bound_text None (?es db')"
    using verify_rows_chain assms(4,5) unfolding collector_verify_def by blast+
  have "?es db = ?es db'"
    using collector_chain.tamper_evident [OF assms(1), of "?es db" "?es db'"] l(2) r(2) assms(6,7)
    by (simp add: hashed_texts_def row_texts_def comp_def)
  then have "map Some (?es db) = map Some (?es db')" by simp
  moreover have "row_texts renorm d = map Some (?es d)"
    if "None \<notin> (\<lambda>r. renorm (ar_payload r)) ` set (db_rows d)" for d
    using that by (auto simp: row_texts_def image_iff)
  ultimately show ?thesis using l(1) r(1) by simp
qed

theorem collector_tamper_evident_witness:
  "row_texts Some (snd example_accept)
     = row_texts Some \<lparr>db_rows = map (\<lambda>r. r\<lparr>ar_received := ''then''\<rparr>) (db_rows (snd example_accept)),
                      db_final = db_final (snd example_accept)\<rparr>"
proof -
  let ?db = "snd example_accept"
  let ?db' = "\<lparr>db_rows = map (\<lambda>r. r\<lparr>ar_received := ''then''\<rparr>) (db_rows ?db), db_final = db_final ?db\<rparr>"
  have "collector_verify zero_sha Some ?db = collector_verify zero_sha Some ?db'
      \<and> \<not> isl (collector_verify zero_sha Some ?db) \<and> vf_ok (projr (collector_verify zero_sha Some ?db))"
    by code_simp
  then obtain v where v: "collector_verify zero_sha Some ?db = Inr v" "vf_ok v"
    "collector_verify zero_sha Some ?db' = Inr v"
    by (metis sum.collapse(2))
  have same: "hashed_texts zero_sha Some ?db' = hashed_texts zero_sha Some ?db"
    by (simp add: hashed_texts_def row_texts_def comp_def)
  have "length (hashed_texts zero_sha Some ?db) = 1" by code_simp
  then obtain t where "hashed_texts zero_sha Some ?db = [t]" by (auto simp: length_Suc_conv)
  with collector_tamper_evident [OF zero_sha_hex v(1,2,3,2)] same show ?thesis by simp
qed

subsection \<open>Behaviours to know about\<close>

text \<open>
  An unauthenticated request with a character outside ASCII in its Authorization header gets no
  reply: \<open>hmac.compare_digest\<close> raises \<open>TypeError\<close>, which the handler does not catch.
\<close>

lemma foreign_authorization_drops_connection:
  "fst (collector_post example_env zero_sha Some (\<lambda>b. Some example_event) example_collector ''now''
     ''/events'' (Some ''4'') (Some [CHR 0xE9]) ''body'' empty_db) = Dropped DigestTypeError"
  by code_simp

text \<open>A number of 32 digits is a valid \<open>UUID\<close>, but SQLite cannot bind it.\<close>

definition numeric_event :: "(string, json) dict" where
  "numeric_event = [(''schema_version'', JStr ''1.0''), (''event_id'', JInt 12345678901234567890123456789012),
     (''event_type'', JStr ''tool.call''), (''timestamp'', JStr ''now'')]"

lemma numeric_event_id_drops_connection:
  "validated_event example_env numeric_event = Inr numeric_event"
  "insert_events example_env zero_sha Some ''now'' [] None 0 0 [numeric_event] = Inl (Inr StorageError)"
proof -
  have "event_text example_env ''event_id'' numeric_event = ''12345678901234567890123456789012''"
    by (simp add: event_text_def numeric_event_def or_null_def py_or_def int_str_def nat_str.simps) code_simp
  moreover have "is_uuid ''12345678901234567890123456789012''" by code_simp
  moreover have "event_text example_env ''event_type'' numeric_event = ''tool.call''"
    by (simp add: event_text_def numeric_event_def or_null_def py_or_def)
  moreover have "event_type_ok ''tool.call''" by code_simp
  ultimately show "validated_event example_env numeric_event = Inr numeric_event"
    by (simp add: validated_event_def) (simp add: numeric_event_def or_null_def py_or_def audit_schema_version_def)
  show "insert_events example_env zero_sha Some ''now'' [] None 0 0 [numeric_event] = Inl (Inr StorageError)"
    by (simp add: Let_def numeric_event_def)
qed

lemma bad_length_drops_connection:
  "fst (collector_post example_env zero_sha Some (\<lambda>b. Some example_event) example_collector ''now''
     ''/events'' (Some ''four'') (Some ''Bearer t'') ''body'' empty_db) = Dropped LengthError"
  by code_simp

end
