(* ===== verification/Audit_Jsonl.thy ===== *)
theory Audit_Jsonl
  imports Audit_Collector
begin

text \<open>
  \<open>src/loro/audit/sinks.py\<close>, the JSONL sink and its verifier: an append-only file of one JSON
  object per line. Lines written before the chain was introduced are its legacy prefix; the first
  chained event carries the digest of that prefix, every event the digest of the one before it.
  The file is its text; \<open>loads\<close> and \<open>dumps\<close> are \<open>json.loads\<close> and \<open>json.dumps\<close> with sorted keys.
\<close>

subsection \<open>Sorted objects\<close>

fun json_sorted :: "json \<Rightarrow> json" where
  "json_sorted (JArr xs) = JArr (map json_sorted xs)"
| "json_sorted (JObj d) = JObj (sort_key fst (map (\<lambda>(k, v). (k, json_sorted v)) d))"
| "json_sorted v = v"

lemma insort_key_map_fst:
  "insort_key fst (k, h k v) (map (\<lambda>(k, v). (k, h k v)) xs)
     = map (\<lambda>(k, v). (k, h k v)) (insort_key fst (k, v) xs)"
  by (induction xs) auto

lemma sort_key_map_fst:
  "sort_key fst (map (\<lambda>(k, v). (k, h k v)) xs) = map (\<lambda>(k, v). (k, h k v)) (sort_key fst xs)"
  by (induction xs) (auto simp: insort_key_map_fst)

lemma canonical_sorted [simp]: "canonical_json fl (json_sorted v) = canonical_json fl v"
proof (induction v rule: json_sorted.induct)
  case (1 xs)
  then have "map (canonical_json fl) (map json_sorted xs) = map (canonical_json fl) xs" by auto
  then show ?case by (simp only: json_sorted.simps canonical_json.simps)
next
  case (2 d)
  let ?h = "\<lambda>k v. json_quote k @ '':'' @ canonical_json fl v"
  have "map (\<lambda>(k, v). (k, ?h k v)) (sort_key fst (map (\<lambda>(k, v). (k, json_sorted v)) d))
      = sort_key fst (map (\<lambda>(k, v). (k, ?h k v)) (map (\<lambda>(k, v). (k, json_sorted v)) d))"
    by (rule sort_key_map_fst [symmetric])
  also have "map (\<lambda>(k, v). (k, ?h k v)) (map (\<lambda>(k, v). (k, json_sorted v)) d)
      = map (\<lambda>(k, v). (k, ?h k v)) d"
    using 2 by auto
  finally show ?case by simp
qed auto

lemma map_of_map_value: "map_of (map (\<lambda>(k, v). (k, f v)) d) k = map_option f (map_of d k)"
  by (induction d) auto

text \<open>What survives of an object that was written with sorted keys and read back.\<close>

definition sorted_dict :: "(string, json) dict \<Rightarrow> (string, json) dict" where
  "sorted_dict d = sort_key fst (map (\<lambda>(k, v). (k, json_sorted v)) d)"

lemma sorted_dict_get:
  "distinct (map fst d) \<Longrightarrow> map_of (sorted_dict d) k = map_option json_sorted (map_of d k)"
  by (simp add: sorted_dict_def map_of_sort_key map_of_map_value comp_def case_prod_beta)

lemma sorted_dict_delete: "AList.delete k (sorted_dict d) = sorted_dict (AList.delete k d)"
  by (simp add: sorted_dict_def AList.delete_eq filter_sort filter_map comp_def split_def)

subsection \<open>The hash of an event\<close>

definition integrity_of :: "json \<Rightarrow> (string, json) dict option" where
  "integrity_of payload =
     (case payload of JObj d \<Rightarrow> (case map_of d ''integrity'' of Some (JObj i) \<Rightarrow> Some i | _ \<Rightarrow> None)
                    | _ \<Rightarrow> None)"

definition event_digest ::
  "(string \<Rightarrow> string) \<Rightarrow> (rat \<Rightarrow> string) \<Rightarrow> (string, json) dict \<Rightarrow> string option \<Rightarrow> json \<Rightarrow> string" where
  "event_digest sha fl payload previous legacy =
     sha_label sha (canonical_json fl
       (JObj [(''previous_hash'', link_json previous), (''legacy_prefix_hash'', legacy),
              (''event'', JObj (AList.delete ''integrity'' payload))]))"

definition chain_payload ::
  "(string \<Rightarrow> string) \<Rightarrow> (rat \<Rightarrow> string) \<Rightarrow> (string, json) dict \<Rightarrow> string option \<Rightarrow> string option \<Rightarrow>
     (string, json) dict" where
  "chain_payload sha fl payload previous legacy =
     AList.update ''integrity''
       (JObj [(''algorithm'', JStr ''sha256''), (''previous_hash'', link_json previous),
              (''legacy_prefix_hash'', link_json legacy),
              (''event_hash'', JStr (event_digest sha fl payload previous (link_json legacy)))]) payload"

subsection \<open>Lines of the file\<close>

text \<open>\<open>bytes.splitlines(keepends=True)\<close>, which knows only line feed and carriage return.\<close>

fun raw_lines :: "string \<Rightarrow> string list" where
  "raw_lines [] = []"
| "raw_lines [c] = [[c]]"
| "raw_lines (c # d # cs) =
     (if code c = 13 \<and> code d = 10 then [c, d] # raw_lines cs
      else if code c = 10 \<or> code c = 13 then [c] # raw_lines (d # cs)
      else (case raw_lines (d # cs) of [] \<Rightarrow> [[c]] | l # ls \<Rightarrow> (c # l) # ls))"

definition blank_bytes :: "string \<Rightarrow> bool" where
  "blank_bytes l = list_all (\<lambda>c. (9 \<le> code c \<and> code c \<le> 13) \<or> code c = 32) l"

definition legacy_prefix_bytes :: "string list \<Rightarrow> string" where
  "legacy_prefix_bytes ls = concat (filter (\<lambda>l. \<not> blank_bytes l) ls)"

subsection \<open>Appending an event\<close>

datatype sink_error = InvalidExistingJson

definition chain_state ::
  "(string \<Rightarrow> string) \<Rightarrow> (string \<Rightarrow> json option) \<Rightarrow> string option \<Rightarrow>
     sink_error + string option \<times> string option" where
  "chain_state sha loads file_text =
     (case file_text of
        None \<Rightarrow> Inr (None, None)
      | Some f \<Rightarrow>
          (let ls = filter (\<lambda>l. py_strip l \<noteq> []) (py_splitlines f) in
           if ls = [] then Inr (None, None)
           else case loads (last ls) of
                  None \<Rightarrow> Inl InvalidExistingJson
                | Some payload \<Rightarrow>
                    (case integrity_of payload of
                       Some i \<Rightarrow>
                         (case map_of i ''event_hash'' of
                            Some (JStr h) \<Rightarrow> Inr (Some h, None)
                          | _ \<Rightarrow> Inr (None, Some (sha_label sha (legacy_prefix_bytes (raw_lines f)))))
                     | None \<Rightarrow> Inr (None, Some (sha_label sha (legacy_prefix_bytes (raw_lines f)))))))"

definition newline :: string where
  "newline = [CHR 0x0A]"

definition jsonl_deliver ::
  "(string \<Rightarrow> string) \<Rightarrow> (rat \<Rightarrow> string) \<Rightarrow> (string \<Rightarrow> json option) \<Rightarrow> (json \<Rightarrow> string) \<Rightarrow>
     (string, json) dict \<Rightarrow> string option \<Rightarrow> (sink_error + unit) \<times> string option" where
  "jsonl_deliver sha fl loads dumps payload file_text =
     (case chain_state sha loads file_text of
        Inl e \<Rightarrow> (Inl e, file_text)
      | Inr (previous, legacy) \<Rightarrow>
          (Inr (), Some ((case file_text of Some f \<Rightarrow> f | None \<Rightarrow> [])
             @ dumps (JObj (chain_payload sha fl payload previous legacy)) @ newline)))"

subsection \<open>Verification\<close>

datatype jsonl_issue =
    InvalidJson | NotObject | UnchainedEvent | LegacyMismatch | PreviousMismatch | ContentMismatch
  | AnchorMismatch | FileMissing

record scan_state =
  ss_previous :: "string option"
  ss_events :: nat
  ss_legacy :: nat
  ss_prefix :: string
  ss_started :: bool

record jsonl_result =
  jr_ok :: bool
  jr_events :: nat
  jr_final :: "string option"
  jr_legacy :: nat
  jr_issue :: "jsonl_issue option"
  jr_line :: "nat option"

definition scan_start :: scan_state where
  "scan_start = \<lparr>ss_previous = None, ss_events = 0, ss_legacy = 0, ss_prefix = [], ss_started = False\<rparr>"

definition scan_line ::
  "(string \<Rightarrow> string) \<Rightarrow> (rat \<Rightarrow> string) \<Rightarrow> (string \<Rightarrow> json option) \<Rightarrow> scan_state \<Rightarrow> string \<Rightarrow>
     jsonl_issue + scan_state" where
  "scan_line sha fl loads s raw =
     (if blank_bytes raw then Inr s
      else case loads raw of
             None \<Rightarrow> Inl InvalidJson
           | Some payload \<Rightarrow>
               (case as_obj payload of
                  None \<Rightarrow> Inl NotObject
                | Some d \<Rightarrow>
                    (case integrity_of payload of
                       None \<Rightarrow>
                         (if ss_started s then Inl UnchainedEvent
                          else Inr (s\<lparr>ss_prefix := ss_prefix s @ raw, ss_legacy := Suc (ss_legacy s)\<rparr>))
                     | Some i \<Rightarrow>
                         (let legacy = or_null (map_of i ''legacy_prefix_hash'');
                              expected_legacy =
                                (if ss_prefix s = [] then None else Some (sha_label sha (ss_prefix s)))
                          in if \<not> ss_started s \<and> legacy \<noteq> link_json expected_legacy
                             then Inl LegacyMismatch
                             else if or_null (map_of i ''previous_hash'') \<noteq> link_json (ss_previous s)
                             then Inl PreviousMismatch
                             else let expected = event_digest sha fl d (ss_previous s) legacy in
                                  if or_null (map_of i ''event_hash'') \<noteq> JStr expected then Inl ContentMismatch
                                  else Inr (s\<lparr>ss_previous := Some expected,
                                             ss_events := Suc (ss_events s), ss_started := True\<rparr>)))))"

fun scan_lines ::
  "(string \<Rightarrow> string) \<Rightarrow> (rat \<Rightarrow> string) \<Rightarrow> (string \<Rightarrow> json option) \<Rightarrow> scan_state \<Rightarrow> nat \<Rightarrow>
     string list \<Rightarrow> (jsonl_issue \<times> nat \<times> scan_state) + scan_state" where
  "scan_lines sha fl loads s n [] = Inr s"
| "scan_lines sha fl loads s n (raw # rest) =
     (case scan_line sha fl loads s raw of
        Inl e \<Rightarrow> Inl (e, n, s)
      | Inr s' \<Rightarrow> scan_lines sha fl loads s' (Suc n) rest)"

definition scan_result :: "scan_state \<Rightarrow> (jsonl_issue \<times> nat option) option \<Rightarrow> jsonl_result" where
  "scan_result s issue =
     \<lparr>jr_ok = (issue = None), jr_events = ss_events s, jr_final = ss_previous s,
      jr_legacy = ss_legacy s, jr_issue = map_option fst issue,
      jr_line = (case issue of Some (_, n) \<Rightarrow> n | None \<Rightarrow> None)\<rparr>"

definition verify_jsonl ::
  "(string \<Rightarrow> string) \<Rightarrow> (rat \<Rightarrow> string) \<Rightarrow> (string \<Rightarrow> json option) \<Rightarrow> string option \<Rightarrow> string option \<Rightarrow>
     jsonl_result" where
  "verify_jsonl sha fl loads anchor file_text =
     (case file_text of
        None \<Rightarrow> \<lparr>jr_ok = (anchor = None), jr_events = 0, jr_final = None, jr_legacy = 0,
                 jr_issue = (case anchor of Some (c # cs) \<Rightarrow> Some FileMissing | _ \<Rightarrow> None), jr_line = None\<rparr>
      | Some f \<Rightarrow>
          (case scan_lines sha fl loads scan_start 1 (raw_lines f) of
             Inl (e, n, s) \<Rightarrow> scan_result s (Some (e, Some n))
           | Inr s \<Rightarrow>
               (if anchor \<noteq> None \<and> ss_previous s \<noteq> anchor then scan_result s (Some (AnchorMismatch, None))
                else scan_result s None)))"

subsection \<open>An untouched file verifies\<close>

definition lf_ended :: "string \<Rightarrow> bool" where
  "lf_ended f = (f = [] \<or> last f = CHR 0x0A)"

definition one_line :: "string \<Rightarrow> bool" where
  "one_line l = list_all (\<lambda>c. \<not> is_linebreak c) l"

lemma code_LF [simp]: "code (CHR 0x0A) = 10"
  by (simp add: code_def)

lemma code_eq_LF: "code c = 10 \<longleftrightarrow> c = CHR 0x0A"
  using code_inj [of c "CHR 0x0A"] by simp

lemma is_linebreak_LF [simp]: "is_linebreak (CHR 0x0A)"
  by (simp add: is_linebreak_def Let_def)

lemma raw_lines_append:
  "lf_ended f \<Longrightarrow> raw_lines (f @ g) = raw_lines f @ raw_lines g"
proof (induction f rule: raw_lines.induct)
  case (2 c)
  then have "c = CHR 0x0A" by (simp add: lf_ended_def)
  then show ?case by (cases g) auto
next
  case (3 c d cs)
  have e: "lf_ended (d # cs)" "code c = 13 \<and> code d = 10 \<Longrightarrow> lf_ended cs"
    using 3(4) by (auto simp: lf_ended_def split: if_splits)
  have ne: "raw_lines (d # cs) \<noteq> []"
    by (cases cs) (auto split: list.splits)
  then show ?case
    using 3(1) [OF _ e(2)] 3(2) [OF _ _ e(1)] 3(3) [OF _ _ e(1)] e
    by (auto split: list.splits)
qed simp

lemma one_line_no_break:
  "one_line l \<Longrightarrow> c \<in> set l \<Longrightarrow> code c \<noteq> 10 \<and> code c \<noteq> 13 \<and> \<not> is_linebreak c"
  by (auto simp: one_line_def list_all_iff is_linebreak_def Let_def)

lemma raw_lines_one: "one_line l \<Longrightarrow> raw_lines (l @ newline) = [l @ newline]"
proof (induction l)
  case Nil
  then show ?case by (simp add: newline_def)
next
  case (Cons c l)
  then have "raw_lines (l @ newline) = [l @ newline]" by (simp add: one_line_def)
  moreover have "code c \<noteq> 10" "code c \<noteq> 13" using one_line_no_break [OF Cons.prems, of c] by auto
  moreover obtain d ds where "l @ newline = d # ds" by (cases "l @ newline") (auto simp: newline_def)
  ultimately show ?case by simp
qed

lemma py_splitlines_append:
  "lf_ended f \<Longrightarrow> py_splitlines (f @ g) = py_splitlines f @ py_splitlines g"
proof (induction f rule: py_splitlines.induct)
  case (2 c)
  then have "c = CHR 0x0A" by (simp add: lf_ended_def)
  then show ?case by (cases g) auto
next
  case (3 c d cs)
  have e: "lf_ended (d # cs)" "code c = 13 \<and> code d = 10 \<Longrightarrow> lf_ended cs"
    using 3(4) by (auto simp: lf_ended_def split: if_splits)
  have ne: "py_splitlines (d # cs) \<noteq> []" by simp
  then show ?case
    using 3(1) [OF _ _ e(2)] 3(2) [OF _ _ e(1)] 3(3) [OF _ e(1)] e
    by (auto split: list.splits)
qed simp

lemma py_splitlines_one: "one_line l \<Longrightarrow> py_splitlines (l @ newline) = [l]"
proof (induction l)
  case Nil
  then show ?case by (simp add: newline_def)
next
  case (Cons c l)
  then have "py_splitlines (l @ newline) = [l]" by (simp add: one_line_def)
  moreover have "\<not> is_linebreak c" using one_line_no_break [OF Cons.prems, of c] by auto
  moreover obtain d ds where "l @ newline = d # ds" by (cases "l @ newline") (auto simp: newline_def)
  ultimately show ?case by simp
qed

lemma scan_lines_append:
  "scan_lines sha fl loads s n xs = Inr s' \<Longrightarrow>
     scan_lines sha fl loads s n (xs @ ys) = scan_lines sha fl loads s' (n + length xs) ys"
  by (induction xs arbitrary: s n) (auto split: sum.splits)

lemma event_digest_sorted:
  "event_digest sha fl (sorted_dict d) previous legacy = event_digest sha fl d previous legacy"
proof -
  have "canonical_json fl (JObj (AList.delete ''integrity'' (sorted_dict d)))
      = canonical_json fl (json_sorted (JObj (AList.delete ''integrity'' d)))"
    by (simp add: sorted_dict_delete) (simp add: sorted_dict_def)
  then show ?thesis by (simp only: event_digest_def canonical_sorted) simp
qed

lemma event_digest_chain:
  "event_digest sha fl (AList.update ''integrity'' v d) previous legacy
     = event_digest sha fl d previous legacy"
proof -
  have "AList.delete ''integrity'' (AList.update ''integrity'' v d) = AList.delete ''integrity'' d"
    by (induction d) auto
  then show ?thesis by (simp only: event_digest_def)
qed

text \<open>
  What the JSON library owes for one written event: its text is one non-blank line, and reading
  the line, with or without its line feed, gives the object back with sorted keys.
\<close>

definition readable :: "(string \<Rightarrow> json option) \<Rightarrow> (json \<Rightarrow> string) \<Rightarrow> (string, json) dict \<Rightarrow> bool" where
  "readable loads dumps d =
     (let t = dumps (JObj d) in
      one_line t \<and> py_strip t \<noteq> [] \<and> \<not> blank_bytes (t @ newline)
      \<and> loads t = Some (JObj (sorted_dict d)) \<and> loads (t @ newline) = Some (JObj (sorted_dict d)))"

lemma chain_payload_integrity:
  assumes "distinct (map fst d)"
  shows "integrity_of (JObj (sorted_dict (chain_payload sha fl d previous legacy)))
    = Some (sorted_dict [(''algorithm'', JStr ''sha256''), (''previous_hash'', link_json previous),
              (''legacy_prefix_hash'', link_json legacy),
              (''event_hash'', JStr (event_digest sha fl d previous (link_json legacy)))])"
proof -
  have "distinct (map fst (chain_payload sha fl d previous legacy))"
    using assms by (simp add: chain_payload_def dict_distinct_update)
  then show ?thesis
    by (simp add: integrity_of_def sorted_dict_get)
      (simp add: chain_payload_def dict_simps sorted_dict_def)
qed

lemma link_json_sorted [simp]: "json_sorted (link_json p) = link_json p"
  by (simp add: link_json_def split: option.splits)

lemma integrity_fields:
  fixes v1 v2 v3 v4 :: json
  defines "i \<equiv> [(''algorithm'', v1), (''previous_hash'', v2), (''legacy_prefix_hash'', v3), (''event_hash'', v4)]"
  shows "map_of (sorted_dict i) ''previous_hash'' = Some (json_sorted v2)"
    and "map_of (sorted_dict i) ''legacy_prefix_hash'' = Some (json_sorted v3)"
    and "map_of (sorted_dict i) ''event_hash'' = Some (json_sorted v4)"
  unfolding i_def by (simp_all add: sorted_dict_get)

text \<open>The file after a sequence of deliveries to a file with the legacy text \<open>old\<close>.\<close>

inductive delivered ::
  "(string \<Rightarrow> string) \<Rightarrow> (rat \<Rightarrow> string) \<Rightarrow> (string \<Rightarrow> json option) \<Rightarrow> (json \<Rightarrow> string) \<Rightarrow> string option \<Rightarrow>
     (string, json) dict list \<Rightarrow> string option \<Rightarrow> bool"
  for sha fl loads dumps old where
  untouched: "delivered sha fl loads dumps old [] old"
| deliver: "delivered sha fl loads dumps old ps f \<Longrightarrow> distinct (map fst p) \<Longrightarrow>
    chain_state sha loads f = Inr (previous, legacy) \<Longrightarrow>
    readable loads dumps (chain_payload sha fl p previous legacy) \<Longrightarrow>
    jsonl_deliver sha fl loads dumps p f = (Inr (), f') \<Longrightarrow>
    delivered sha fl loads dumps old (ps @ [p]) f'"

text \<open>A legacy file: whole lines, each blank or an object without an integrity record.\<close>

definition legacy_line :: "(string \<Rightarrow> json option) \<Rightarrow> string \<Rightarrow> bool" where
  "legacy_line loads l =
     (one_line l
      \<and> (if py_strip l = [] then blank_bytes (l @ newline)
         else \<not> blank_bytes (l @ newline)
           \<and> (\<exists>d. loads l = Some (JObj d) \<and> loads (l @ newline) = Some (JObj d)
                \<and> integrity_of (JObj d) = None)))"

definition legacy_text :: "string list \<Rightarrow> string" where
  "legacy_text ls = concat (map (\<lambda>l. l @ newline) ls)"

definition log_state ::
  "(string \<Rightarrow> string) \<Rightarrow> (rat \<Rightarrow> string) \<Rightarrow> (string \<Rightarrow> json option) \<Rightarrow> string \<Rightarrow> nat \<Rightarrow> string list \<Rightarrow> bool" where
  "log_state sha fl loads f n ls =
     (\<exists>s. lf_ended f \<and> scan_lines sha fl loads scan_start 1 (raw_lines f) = Inr s
        \<and> ss_events s = n \<and> ss_started s = (n \<noteq> 0)
        \<and> ss_legacy s = length (filter (\<lambda>l. py_strip l \<noteq> []) ls)
        \<and> (n = 0 \<longrightarrow> ss_previous s = None)
        \<and> chain_state sha loads (Some f) = Inr (ss_previous s,
            if n = 0 \<and> ss_prefix s \<noteq> [] then Some (sha_label sha (ss_prefix s)) else None))"

lemma lf_ended_newline [simp]: "lf_ended (t @ newline)"
  by (simp add: lf_ended_def newline_def)

lemma legacy_lf_ended: "lf_ended (legacy_text ls)"
  by (cases ls rule: rev_cases) (auto simp: legacy_text_def lf_ended_def newline_def)

lemma legacy_lines:
  assumes "\<forall>l \<in> set ls. legacy_line loads l"
  shows "raw_lines (legacy_text ls) = map (\<lambda>l. l @ newline) ls \<and> py_splitlines (legacy_text ls) = ls"
  using assms
proof (induction ls)
  case (Cons l ls)
  then have "one_line l" by (simp add: legacy_line_def)
  then have "raw_lines (l @ newline) = [l @ newline]" "py_splitlines (l @ newline) = [l]"
    by (rule raw_lines_one, rule py_splitlines_one)
  then show ?case
    using Cons raw_lines_append [of "l @ newline" "legacy_text ls"]
      py_splitlines_append [of "l @ newline" "legacy_text ls"]
    by (simp add: legacy_text_def)
qed (simp add: legacy_text_def)

lemma legacy_scan:
  assumes "\<forall>l \<in> set ls. legacy_line loads l" and "\<not> ss_started s"
  shows "scan_lines sha fl loads s n (map (\<lambda>l. l @ newline) ls)
    = Inr (s\<lparr>ss_prefix := ss_prefix s @ legacy_prefix_bytes (map (\<lambda>l. l @ newline) ls),
            ss_legacy := ss_legacy s + length (filter (\<lambda>l. py_strip l \<noteq> []) ls)\<rparr>)"
  using assms
proof (induction ls arbitrary: s n)
  case (Cons l ls)
  show ?case
  proof (cases "py_strip l = []")
    case True
    then have "blank_bytes (l @ newline)" using Cons.prems by (simp add: legacy_line_def)
    then show ?thesis using Cons True by (simp add: scan_line_def legacy_prefix_bytes_def)
  next
    case False
    then obtain d where "\<not> blank_bytes (l @ newline)" "loads (l @ newline) = Some (JObj d)"
      "integrity_of (JObj d) = None"
      using Cons.prems by (auto simp: legacy_line_def)
    then show ?thesis using Cons False by (simp add: scan_line_def legacy_prefix_bytes_def)
  qed
qed (simp add: legacy_prefix_bytes_def)

lemma legacy_log_state:
  assumes "\<forall>l \<in> set ls. legacy_line loads l"
  shows "log_state sha fl loads (legacy_text ls) 0 ls"
proof -
  let ?f = "legacy_text ls" and ?ne = "filter (\<lambda>l. py_strip l \<noteq> []) ls"
  let ?raw = "map (\<lambda>l. l @ newline) ls"
  note lines = legacy_lines [OF assms]
  have empty: "legacy_prefix_bytes ?raw = [] \<longleftrightarrow> ?ne = []"
  proof -
    have "blank_bytes (l @ newline) \<longleftrightarrow> py_strip l = []" if "l \<in> set ls" for l
      using assms that by (auto simp: legacy_line_def split: if_splits)
    then have "legacy_prefix_bytes ?raw = concat (map (\<lambda>l. l @ newline) ?ne)"
      by (simp add: legacy_prefix_bytes_def filter_map comp_def cong: filter_cong)
    then show ?thesis by (cases ?ne) (auto simp: newline_def)
  qed
  have "chain_state sha loads (Some ?f) = Inr (None,
      if legacy_prefix_bytes ?raw \<noteq> [] then Some (sha_label sha (legacy_prefix_bytes ?raw)) else None)"
  proof (cases "?ne = []")
    case True
    then show ?thesis using empty lines by (simp add: chain_state_def)
  next
    case False
    then have "last ?ne \<in> set ?ne" by (rule last_in_set)
    then have "legacy_line loads (last ?ne)" "py_strip (last ?ne) \<noteq> []" using assms by auto
    then obtain d where "loads (last ?ne) = Some (JObj d)" "integrity_of (JObj d) = None"
      by (auto simp: legacy_line_def)
    then show ?thesis using False empty lines by (simp add: chain_state_def)
  qed
  moreover have "scan_lines sha fl loads scan_start 1 (raw_lines ?f)
      = Inr (scan_start\<lparr>ss_prefix := legacy_prefix_bytes ?raw, ss_legacy := length ?ne\<rparr>)"
    using legacy_scan [OF assms, of scan_start] lines by (simp add: scan_start_def)
  ultimately show ?thesis
    by (simp add: log_state_def legacy_lf_ended) (simp add: scan_start_def)
qed

lemma deliver_log_state:
  assumes "log_state sha fl loads f n ls" and "distinct (map fst p)"
    and "chain_state sha loads (Some f) = Inr (previous, legacy)"
    and "readable loads dumps (chain_payload sha fl p previous legacy)"
    and "jsonl_deliver sha fl loads dumps p (Some f) = (Inr (), Some f')"
  shows "log_state sha fl loads f' (Suc n) ls"
proof -
  let ?c = "chain_payload sha fl p previous legacy" and ?h = "event_digest sha fl p previous (link_json legacy)"
  let ?t = "dumps (JObj ?c)"
  let ?i = "sorted_dict [(''algorithm'', JStr ''sha256''), (''previous_hash'', link_json previous),
              (''legacy_prefix_hash'', link_json legacy), (''event_hash'', JStr ?h)]"
  obtain s where s: "lf_ended f" "scan_lines sha fl loads scan_start 1 (raw_lines f) = Inr s"
    "ss_events s = n" "ss_started s = (n \<noteq> 0)"
    "ss_legacy s = length (filter (\<lambda>l. py_strip l \<noteq> []) ls)" "n = 0 \<longrightarrow> ss_previous s = None"
    "previous = ss_previous s"
    "legacy = (if n = 0 \<and> ss_prefix s \<noteq> [] then Some (sha_label sha (ss_prefix s)) else None)"
    using assms(1,3) by (auto simp: log_state_def)
  have f': "f' = f @ ?t @ newline"
    using assms(3,5) by (simp add: jsonl_deliver_def)
  have t: "one_line ?t" "py_strip ?t \<noteq> []" "\<not> blank_bytes (?t @ newline)"
    "loads ?t = Some (JObj (sorted_dict ?c))" "loads (?t @ newline) = Some (JObj (sorted_dict ?c))"
    using assms(4) by (auto simp: readable_def Let_def)
  have int: "integrity_of (JObj (sorted_dict ?c)) = Some ?i"
    by (rule chain_payload_integrity [OF assms(2)])
  have dig: "event_digest sha fl (sorted_dict ?c) previous (link_json legacy) = ?h"
    by (simp add: event_digest_sorted) (simp add: chain_payload_def event_digest_chain)
  let ?s' = "s\<lparr>ss_previous := Some ?h, ss_events := Suc n, ss_started := True\<rparr>"
  have "\<not> ss_started s \<Longrightarrow> link_json legacy
      = link_json (if ss_prefix s = [] then None else Some (sha_label sha (ss_prefix s)))"
    using s(4,8) by simp
  then have "scan_line sha fl loads s (?t @ newline) = Inr ?s'"
    using t(3,5) int dig s(3,7)
    by (cases "ss_started s") (simp_all add: scan_line_def integrity_fields or_null_def Let_def)
  then have scan: "scan_lines sha fl loads scan_start 1 (raw_lines f') = Inr ?s'"
    using raw_lines_append [OF s(1), of "?t @ newline"] raw_lines_one [OF t(1)]
      scan_lines_append [OF s(2), of "[?t @ newline]"] f' by simp
  have "py_splitlines f' = py_splitlines f @ [?t]"
    using py_splitlines_append [OF s(1), of "?t @ newline"] py_splitlines_one [OF t(1)] f' by simp
  then have "chain_state sha loads (Some f') = Inr (Some ?h, None)"
    using t(2,4) int by (simp add: chain_state_def Let_def integrity_fields)
  moreover have "lf_ended f'" using f' by (simp add: lf_ended_def newline_def)
  ultimately show ?thesis
    unfolding log_state_def using scan s(3,5) by (intro exI [of _ ?s']) simp
qed

definition log_ok ::
  "(string \<Rightarrow> string) \<Rightarrow> (rat \<Rightarrow> string) \<Rightarrow> (string \<Rightarrow> json option) \<Rightarrow> string option \<Rightarrow> nat \<Rightarrow> string list \<Rightarrow>
     bool" where
  "log_ok sha fl loads f n ls =
     (case f of None \<Rightarrow> n = 0 \<and> ls = [] | Some t \<Rightarrow> log_state sha fl loads t n ls)"

lemma delivered_log_ok:
  assumes "delivered sha fl loads dumps old ps f"
    and "\<forall>l \<in> set ls. legacy_line loads l"
    and "old = Some (legacy_text ls) \<or> old = None \<and> ls = []"
  shows "log_ok sha fl loads f (length ps) ls"
  using assms(1)
proof induction
  case untouched
  show ?case using assms(2,3) by (auto simp: log_ok_def legacy_log_state)
next
  case (deliver ps f p previous legacy f')
  obtain t' where f': "f' = Some t'"
    using deliver(3,5) by (auto simp: jsonl_deliver_def)
  show ?case
  proof (cases f)
    case (Some t)
    then show ?thesis
      using deliver_log_state [of sha fl loads t "length ps" ls p] deliver f' by (simp add: log_ok_def)
  next
    case None
    then have n: "length ps = 0" "ls = []" using deliver.IH by (auto simp: log_ok_def)
    have "log_state sha fl loads [] 0 []"
      using legacy_log_state [of "[]"] by (simp add: legacy_text_def)
    moreover have "chain_state sha loads (Some []) = Inr (previous, legacy)"
      using deliver(3) None by (simp add: chain_state_def)
    moreover from this have "jsonl_deliver sha fl loads dumps p (Some []) = (Inr (), Some t')"
      using deliver(3,5) None f' by (simp add: jsonl_deliver_def)
    ultimately show ?thesis
      using deliver_log_state [of sha fl loads "[]" 0 "[]" p] deliver(2,4) n f' by (simp add: log_ok_def)
  qed
qed

text \<open>
  C29. An untouched audit file verifies. From no file, or from a file of whole legacy lines, any
  sequence of deliveries leaves a file that verification accepts, with exactly the delivered
  events chained and the legacy lines counted apart.
\<close>

theorem untouched_audit_file_verifies:
  assumes "delivered sha fl loads dumps old ps f"
    and "\<forall>l \<in> set ls. legacy_line loads l"
    and "old = Some (legacy_text ls) \<or> old = None \<and> ls = []"
  shows "jr_ok (verify_jsonl sha fl loads None f)
       \<and> jr_events (verify_jsonl sha fl loads None f) = length ps
       \<and> jr_legacy (verify_jsonl sha fl loads None f) = length (filter (\<lambda>l. py_strip l \<noteq> []) ls)"
  using delivered_log_ok [OF assms]
  by (cases f) (auto simp: log_ok_def log_state_def verify_jsonl_def scan_result_def)

definition example_payload :: "(string, json) dict" where
  "example_payload = [(''event_type'', JStr ''run.started'')]"

definition example_chained :: "(string, json) dict" where
  "example_chained = chain_payload zero_sha (\<lambda>r. ''0'') example_payload None None"

theorem untouched_audit_file_verifies_witness:
  "jr_events (verify_jsonl zero_sha (\<lambda>r. ''0'') (\<lambda>t. Some (JObj (sorted_dict example_chained))) None
     (Some (canonical_json (\<lambda>r. ''0'') (JObj example_chained) @ newline))) = 1"
proof -
  let ?loads = "\<lambda>t :: string. Some (JObj (sorted_dict example_chained))"
  let ?dumps = "canonical_json (\<lambda>r. ''0'')"
  have cs: "chain_state zero_sha ?loads None = Inr (None, None)"
    by (simp add: chain_state_def)
  have "readable ?loads ?dumps example_chained" by code_simp
  then have r: "readable ?loads ?dumps (chain_payload zero_sha (\<lambda>r. ''0'') example_payload None None)"
    by (simp add: example_chained_def)
  have d: "jsonl_deliver zero_sha (\<lambda>r. ''0'') ?loads ?dumps example_payload None
      = (Inr (), Some (?dumps (JObj example_chained) @ newline))"
    unfolding jsonl_deliver_def cs
    by (simp only: sum.case prod.case option.case example_chained_def append_Nil)
  have "delivered zero_sha (\<lambda>r. ''0'') ?loads ?dumps None ([] @ [example_payload])
      (Some (?dumps (JObj example_chained) @ newline))"
    by (rule delivered.deliver [OF delivered.untouched _ cs r d]) (simp add: example_payload_def)
  from untouched_audit_file_verifies [OF this, of "[]"] show ?thesis by simp
qed

text \<open>
  The sink appends without looking for a final line feed. After a legacy line, or a write that was
  cut off, without one the next event is glued to it and neither can be read again.
\<close>

lemma unterminated_line_is_glued:
  assumes "loads ''{}'' = Some (JObj [])"
    and "jsonl_deliver sha fl loads dumps p (Some ''{}'') = (Inr (), Some f)"
    and "one_line (''{}'' @ dumps (JObj (chain_payload sha fl p None (Some (sha_label sha ''{}'')))))"
    and "loads f = None"
  shows "jr_issue (verify_jsonl sha fl loads None (Some f)) = Some InvalidJson"
proof -
  let ?t = "''{}'' @ dumps (JObj (chain_payload sha fl p None (Some (sha_label sha ''{}''))))"
  have "py_splitlines ''{}'' = [''{}'']" "py_strip ''{}'' \<noteq> []" "raw_lines ''{}'' = [''{}'']"
    "\<not> blank_bytes ''{}''"
    by code_simp+
  then have "chain_state sha loads (Some ''{}'') = Inr (None, Some (sha_label sha ''{}''))"
    using assms(1) by (simp add: chain_state_def integrity_of_def legacy_prefix_bytes_def)
  then have f: "f = ?t @ newline" using assms(2) by (simp add: jsonl_deliver_def)
  have "code CHR 0x7B = 123" by (simp add: code_def)
  then have "\<not> blank_bytes f" using f by (simp add: blank_bytes_def)
  moreover have "raw_lines f = [f]" using raw_lines_one [OF assms(3)] f by simp
  ultimately show ?thesis
    using assms(4) by (simp add: verify_jsonl_def scan_line_def scan_result_def)
qed

end
