(* ===== verification/Audit_Delivery.thy ===== *)
theory Audit_Delivery
  imports Data_Protection Identity
begin

text \<open>
  \<open>src/loro/audit/__init__.py\<close>, \<open>src/loro/audit/schema.py\<close> and the buffer and retries of
  \<open>src/loro/audit/sinks.py\<close>: how an event is built, protected, delivered or buffered, and how
  the buffer is drained later. The buffer file is the list of its events and a sidecar with a
  cached count; \<open>sz\<close> gives the bytes of one buffered line. Whether an attempt to deliver
  succeeds is decided by the network and is a parameter.
\<close>

subsection \<open>The bounded buffer\<close>

record buffer_stats =
  bs_size :: "nat option"
  bs_events :: "int option"
  bs_evicted :: int

record 'e audit_buffer =
  bf_file :: "'e list option"
  bf_stats :: "buffer_stats option"

datatype buffer_error = BufferFull

definition buffer_events :: "'e audit_buffer \<Rightarrow> 'e list" where
  "buffer_events b = (case bf_file b of Some es \<Rightarrow> es | None \<Rightarrow> [])"

definition file_bytes :: "('e \<Rightarrow> nat) \<Rightarrow> 'e list \<Rightarrow> nat" where
  "file_bytes sz es = sum_list (map sz es)"

definition read_stats :: "'e audit_buffer \<Rightarrow> buffer_stats" where
  "read_stats b = (case bf_stats b of Some s \<Rightarrow> s
     | None \<Rightarrow> \<lparr>bs_size = None, bs_events = None, bs_evicted = 0\<rparr>)"

definition write_stats :: "('e \<Rightarrow> nat) \<Rightarrow> int \<Rightarrow> int \<Rightarrow> 'e audit_buffer \<Rightarrow> 'e audit_buffer" where
  "write_stats sz events evicted_delta b =
     b\<lparr>bf_stats := Some \<lparr>bs_size = map_option (file_bytes sz) (bf_file b), bs_events = Some events,
                         bs_evicted = bs_evicted (read_stats b) + evicted_delta\<rparr>\<rparr>"

definition buffer_count :: "('e \<Rightarrow> nat) \<Rightarrow> 'e audit_buffer \<Rightarrow> int" where
  "buffer_count sz b =
     (case bf_file b of
        None \<Rightarrow> 0
      | Some es \<Rightarrow>
          (case (bs_size (read_stats b) = Some (file_bytes sz es), bs_events (read_stats b)) of
             (True, Some n) \<Rightarrow> n
           | _ \<Rightarrow> int (length es)))"

text \<open>\<open>xs[k:]\<close>, where a negative \<open>k\<close> counts from the end.\<close>

definition slice_from :: "int \<Rightarrow> 'a list \<Rightarrow> 'a list" where
  "slice_from k xs = drop (if 0 \<le> k then nat k else length xs - nat (- k)) xs"

definition buffer_append ::
  "('e \<Rightarrow> nat) \<Rightarrow> int \<Rightarrow> 'e \<Rightarrow> 'e audit_buffer \<Rightarrow> buffer_error + int \<times> 'e audit_buffer" where
  "buffer_append sz max_events e b =
     (if max_events \<le> 0 then Inl BufferFull
      else let count = buffer_count sz b; es = buffer_events b in
           if count < max_events
           then Inr (0, write_stats sz (count + 1) 0 (b\<lparr>bf_file := Some (es @ [e])\<rparr>))
           else let evicted = int (length es) + 1 - max_events;
                    retained = slice_from evicted es @ [e]
                in Inr (evicted, write_stats sz (int (length retained)) evicted
                                   (b\<lparr>bf_file := Some retained\<rparr>)))"

text \<open>The batches of \<open>range(0, len(events), max(1, batch_size))\<close>.\<close>

function chunks :: "nat \<Rightarrow> 'a list \<Rightarrow> 'a list list" where
  "chunks k [] = []"
| "chunks k (x # xs) = take (max 1 k) (x # xs) # chunks k (drop (max 1 k) (x # xs))"
  by pat_completeness auto
termination by (relation "measure (\<lambda>(k, xs). length xs)") auto

record drain_result =
  dr_attempted :: nat
  dr_delivered :: nat
  dr_remaining :: nat

fun drain_batches :: "(nat \<Rightarrow> bool) \<Rightarrow> nat \<Rightarrow> 'e list list \<Rightarrow> 'e list list \<times> 'e list list" where
  "drain_batches ok i [] = ([], [])"
| "drain_batches ok i (batch # rest) =
     (if ok i then (case drain_batches ok (Suc i) rest of (sent, left) \<Rightarrow> (batch # sent, left))
      else ([], batch # rest))"

definition buffer_replace :: "('e \<Rightarrow> nat) \<Rightarrow> 'e list \<Rightarrow> 'e audit_buffer \<Rightarrow> 'e audit_buffer" where
  "buffer_replace sz es b = write_stats sz (int (length es)) 0 (b\<lparr>bf_file := Some es\<rparr>)"

text \<open>The batches sent, the result and the buffer afterwards.\<close>

definition buffer_drain ::
  "('e \<Rightarrow> nat) \<Rightarrow> (nat \<Rightarrow> bool) \<Rightarrow> nat \<Rightarrow> 'e audit_buffer \<Rightarrow>
     'e list list \<times> drain_result \<times> 'e audit_buffer" where
  "buffer_drain sz ok batch_size b =
     (let es = buffer_events b in
      case drain_batches ok 0 (chunks batch_size es) of
        (sent, left) \<Rightarrow>
          (let delivered = length (concat sent); remaining = concat left in
           (sent,
            (case left of
               [] \<Rightarrow> \<lparr>dr_attempted = length es, dr_delivered = delivered, dr_remaining = 0\<rparr>
             | batch # _ \<Rightarrow> \<lparr>dr_attempted = delivered + length batch, dr_delivered = delivered,
                            dr_remaining = length remaining\<rparr>),
            buffer_replace sz remaining b)))"

subsection \<open>Retries of one request\<close>

text \<open>Whether a request got through, and the exponents of the waits between its attempts.\<close>

fun post_attempts :: "(nat \<Rightarrow> bool) \<Rightarrow> nat \<Rightarrow> nat \<Rightarrow> bool \<times> nat list" where
  "post_attempts ok attempt 0 = (ok attempt, [])"
| "post_attempts ok attempt (Suc retries) =
     (if ok attempt then (True, [])
      else (case post_attempts ok (Suc attempt) retries of (r, waits) \<Rightarrow> (r, attempt # waits)))"

definition http_post :: "string \<Rightarrow> string option option \<Rightarrow> (nat \<Rightarrow> bool) \<Rightarrow> nat \<Rightarrow> bool \<times> nat list" where
  "http_post url token ok max_retries =
     (if py_strip url = [] then (False, [])
      else case token of
             Some None \<Rightarrow> (False, [])
           | Some (Some []) \<Rightarrow> (False, [])
           | _ \<Rightarrow> post_attempts ok 0 max_retries)"

definition batch_payload :: "json list \<Rightarrow> json option" where
  "batch_payload payloads =
     (case payloads of [] \<Rightarrow> None | [p] \<Rightarrow> Some p | ps \<Rightarrow> Some (JObj [(''events'', JArr ps)]))"

subsection \<open>The event record\<close>

definition or_value :: "json \<Rightarrow> json \<Rightarrow> json" where
  "or_value a b = (if truthy a then a else b)"

definition sub_object :: "json \<Rightarrow> (string, json) dict" where
  "sub_object v = (case v of JObj d \<Rightarrow> d | _ \<Rightarrow> [])"

fun first_present :: "(string, json) dict \<Rightarrow> string list \<Rightarrow> json option" where
  "first_present details [] = None"
| "first_present details (k # ks) =
     (case map_of details k of
        Some v \<Rightarrow> (if v \<noteq> JNull then Some v else first_present details ks)
      | None \<Rightarrow> first_present details ks)"

definition present_fields ::
  "(string, json) dict \<Rightarrow> (string \<times> string list) list \<Rightarrow> (string, json) dict" where
  "present_fields details fields_of =
     concat (map (\<lambda>(out, ks). case first_present details ks of Some v \<Rightarrow> [(out, v)] | None \<Rightarrow> [])
       fields_of)"

definition or_none :: "(string, json) dict \<Rightarrow> json" where
  "or_none d = (if d = [] then JNull else JObj d)"

definition policy_payload :: "(string, json) dict \<Rightarrow> json" where
  "policy_payload details = or_none (present_fields details
     [(''decision'', [''policy_decision'', ''decision'']), (''version'', [''policy_version'']),
      (''source'', [''policy_source'']), (''reason'', [''policy_reason''])])"

definition approval_payload :: "(string, json) dict \<Rightarrow> json" where
  "approval_payload details = or_none (present_fields details
     [(''approval_id'', [''approval_id'']), (''request_id'', [''request_id'']), (''scope'', [''scope'']),
      (''method'', [''method'']), (''status'', [''status''])])"

definition result_payload :: "(string, json) dict \<Rightarrow> json" where
  "result_payload details = or_none (present_fields details
     [(''ok'', [''ok'', ''success'']), (''returncode'', [''returncode'']),
      (''stop_reason'', [''stop_reason'']), (''error'', [''error''])])"

definition redaction_payload :: "(string, json) dict \<Rightarrow> json" where
  "redaction_payload details =
     (case or_value (or_null (map_of details ''redaction'')) (or_null (map_of details ''redaction_metadata'')) of
        JObj d \<Rightarrow> JObj d
      | _ \<Rightarrow>
          (if or_null (map_of details ''prompt_preview'') \<noteq> JNull
           then JObj [(''applied'', JBool True), (''fields'', JArr [JStr ''details.prompt_preview'']),
                      (''method'', JStr ''truncated-preview'')]
           else JObj [(''applied'', JBool False), (''fields'', JArr [])]))"

record audit_event =
  ae_event_type :: string
  ae_details :: "(string, json) dict"
  ae_schema_version :: string
  ae_event_id :: string
  ae_created_at :: string

definition event_payload :: "audit_event \<Rightarrow> (string, json) dict" where
  "event_payload ev =
     (let details = ae_details ev;
          get = (\<lambda>k. or_null (map_of details k));
          identity = sub_object (get ''identity'');
          of_identity = (\<lambda>k. or_null (map_of identity k))
      in [(''schema_version'', JStr (ae_schema_version ev)), (''event_id'', JStr (ae_event_id ev)),
          (''event_type'', JStr (ae_event_type ev)), (''timestamp'', JStr (ae_created_at ev)),
          (''created_at'', JStr (ae_created_at ev)),
          (''actor'', or_value (get ''actor'') (of_identity ''subject'')),
          (''tenant_id'', or_value (get ''tenant_id'') (of_identity ''tenant'')),
          (''session_id'', or_value (get ''session_id'') (of_identity ''session_id'')),
          (''trace_id'', or_value (get ''trace_id'') (JStr (ae_event_id ev))),
          (''action'', or_value (get ''action'') (JStr (ae_event_type ev))),
          (''target'', get ''target''), (''policy'', policy_payload details),
          (''approval'', approval_payload details), (''result'', result_payload details),
          (''redaction'', redaction_payload details), (''details'', JObj details)])"

subsection \<open>Protection of the details\<close>

datatype audit_failure =
    FieldBlocked string | ProtectionFailed protection_error | DeliveryFailed | DeliveryBuffered

fun visit_value ::
  "safety_config \<Rightarrow> (string \<Rightarrow> finding list) list \<Rightarrow> string \<Rightarrow> json \<Rightarrow>
     audit_failure + json \<times> string list \<times> classification list"
and visit_fields ::
  "safety_config \<Rightarrow> (string \<Rightarrow> finding list) list \<Rightarrow> string \<Rightarrow> (string \<times> json) list \<Rightarrow>
     audit_failure + (string \<times> json) list \<times> string list \<times> classification list"
and visit_items ::
  "safety_config \<Rightarrow> (string \<Rightarrow> finding list) list \<Rightarrow> string \<Rightarrow> nat \<Rightarrow> json list \<Rightarrow>
     audit_failure + json list \<times> string list \<times> classification list" where
  "visit_value cfg scanners path (JStr s) =
     (case evaluate_content cfg scanners s ''audit'' None False of
        Inl e \<Rightarrow> Inl (ProtectionFailed e)
      | Inr d \<Rightarrow>
          (if pd_action d = ActBlock then Inl (FieldBlocked path)
           else Inr (JStr (pd_content d), (if pd_action d = ActRedact then [path] else []),
                     [pd_classification d])))"
| "visit_value cfg scanners path (JObj d) =
     res_bind (visit_fields cfg scanners path d) (\<lambda>(d', ps, cs). Inr (JObj d', ps, cs))"
| "visit_value cfg scanners path (JArr xs) =
     res_bind (visit_items cfg scanners path 0 xs) (\<lambda>(xs', ps, cs). Inr (JArr xs', ps, cs))"
| "visit_value cfg scanners path JNull = Inr (JNull, [], [])"
| "visit_value cfg scanners path (JBool b) = Inr (JBool b, [], [])"
| "visit_value cfg scanners path (JInt i) = Inr (JInt i, [], [])"
| "visit_value cfg scanners path (JFloat r) = Inr (JFloat r, [], [])"
| "visit_fields cfg scanners path [] = Inr ([], [], [])"
| "visit_fields cfg scanners path ((k, v) # rest) =
     res_bind (visit_value cfg scanners (path @ ''.'' @ k) v) (\<lambda>(v', ps, cs).
       res_bind (visit_fields cfg scanners path rest) (\<lambda>(rest', ps', cs').
         Inr ((k, v') # rest', ps @ ps', cs @ cs')))"
| "visit_items cfg scanners path i [] = Inr ([], [], [])"
| "visit_items cfg scanners path i (v # rest) =
     res_bind (visit_value cfg scanners (path @ ''['' @ nat_str i @ '']'') v) (\<lambda>(v', ps, cs).
       res_bind (visit_items cfg scanners path (Suc i) rest) (\<lambda>(rest', ps', cs').
         Inr (v' # rest', ps @ ps', cs @ cs')))"

definition protect_details ::
  "safety_config \<Rightarrow> (string \<Rightarrow> finding list) list \<Rightarrow> (string, json) dict \<Rightarrow>
     audit_failure + (string, json) dict \<times> string list \<times> classification list" where
  "protect_details cfg scanners details =
     res_bind (visit_fields cfg scanners ''details'' details) (\<lambda>(d, ps, cs). Inr (d, ps, remdups cs))"

subsection \<open>Writing an event\<close>

record logger_config =
  lc_enabled :: bool
  lc_http :: bool
  lc_fail :: bool
  lc_max_buffer :: int
  lc_schema :: string
  lc_metrics :: bool
  lc_forward :: bool

record audit_world =
  aw_sink :: "(string, json) dict list"
  aw_buffer :: "(string, json) dict audit_buffer"
  aw_metrics :: "(string \<times> string) list"
  aw_forwarded :: "(string, json) dict list"

datatype delivery_status = Disabled | Delivered | Buffered

definition setdefault :: "string \<Rightarrow> json \<Rightarrow> (string, json) dict \<Rightarrow> (string, json) dict" where
  "setdefault k v d = (if map_of d k = None then d @ [(k, v)] else d)"

definition bind_context :: "(string, json) dict \<Rightarrow> (string, json) dict" where
  "bind_context context = filter (\<lambda>(k, v). v \<noteq> JNull) context"

definition opt_str :: "string option \<Rightarrow> json" where
  "opt_str v = (case v of Some s \<Rightarrow> JStr s | None \<Rightarrow> JNull)"

definition identity_payload :: "identity_context \<Rightarrow> (string, json) dict" where
  "identity_payload c =
     [(''subject'', JStr (id_subject c)), (''display_name'', JStr (id_display_name c)),
      (''organization'', opt_str (id_organization c)), (''tenant'', JStr (id_tenant c)),
      (''groups'', JArr (map JStr (id_groups c))), (''roles'', JArr (map JStr (id_roles c))),
      (''auth_method'', JStr (id_auth_method c)), (''session_id'', JStr (id_session_id c)),
      (''source'', JStr (id_source c)), (''verified'', JBool (id_verified c))]"

definition merged_details ::
  "(string, json) dict \<Rightarrow> identity_context option \<Rightarrow> (string, json) dict \<Rightarrow> (string, json) dict" where
  "merged_details context identity details =
     (let d = fold (\<lambda>(k, v). setdefault k v) context details in
      case identity of
        None \<Rightarrow> d
      | Some c \<Rightarrow>
          setdefault ''identity'' (JObj (identity_payload c))
            (setdefault ''session_id'' (JStr (id_session_id c))
              (setdefault ''tenant_id'' (JStr (id_tenant c))
                (setdefault ''actor'' (JStr (id_subject c)) d))))"

definition redaction_metadata :: "string list \<Rightarrow> classification list \<Rightarrow> json" where
  "redaction_metadata ps cs =
     JObj [(''applied'', JBool True), (''fields'', JArr (map JStr ps)),
           (''method'', JStr ''managed-data-protection''),
           (''classifications'', JArr (map JStr (sort (map classification_name cs))))]"

definition protected_details ::
  "(safety_config \<times> (string \<Rightarrow> finding list) list) option \<Rightarrow> (string, json) dict \<Rightarrow>
     audit_failure + (string, json) dict" where
  "protected_details protection details =
     (case protection of
        None \<Rightarrow> Inr details
      | Some (cfg, scanners) \<Rightarrow>
          res_bind (protect_details cfg scanners details) (\<lambda>(d, ps, cs).
            Inr (if ps = [] then d else AList.update ''redaction_metadata'' (redaction_metadata ps cs) d)))"

definition observe :: "logger_config \<Rightarrow> string \<Rightarrow> string \<Rightarrow> audit_world \<Rightarrow> audit_world" where
  "observe cfg event_type status w =
     (if lc_metrics cfg then w\<lparr>aw_metrics := aw_metrics w @ [(event_type, status)]\<rparr> else w)"

definition forward :: "logger_config \<Rightarrow> bool \<Rightarrow> (string, json) dict \<Rightarrow> audit_world \<Rightarrow> audit_world" where
  "forward cfg forward_ok payload w =
     (if lc_forward cfg \<and> forward_ok then w\<lparr>aw_forwarded := aw_forwarded w @ [payload]\<rparr> else w)"

definition deliver_event ::
  "((string, json) dict \<Rightarrow> nat) \<Rightarrow> logger_config \<Rightarrow> bool \<Rightarrow> bool \<Rightarrow> string \<Rightarrow> (string, json) dict \<Rightarrow>
     audit_world \<Rightarrow> (audit_failure + delivery_status) \<times> audit_world" where
  "deliver_event sz cfg sink_ok forward_ok event_type payload w =
     (if sink_ok then
        (Inr Delivered, forward cfg forward_ok payload
           (observe cfg event_type ''delivered'' (w\<lparr>aw_sink := aw_sink w @ [payload]\<rparr>)))
      else if \<not> lc_http cfg then (Inl DeliveryFailed, w)
      else case buffer_append sz (lc_max_buffer cfg) payload (aw_buffer w) of
             Inl BufferFull \<Rightarrow> (Inl DeliveryFailed, w)
           | Inr (evicted, b) \<Rightarrow>
               (if lc_fail cfg then Inl DeliveryBuffered else Inr Buffered,
                observe cfg event_type ''buffered'' (w\<lparr>aw_buffer := b\<rparr>)))"

definition audit_write ::
  "((string, json) dict \<Rightarrow> nat) \<Rightarrow> logger_config \<Rightarrow> identity_context option \<Rightarrow> (string, json) dict \<Rightarrow>
     (safety_config \<times> (string \<Rightarrow> finding list) list) option \<Rightarrow> bool \<Rightarrow> bool \<Rightarrow> string \<Rightarrow> string \<Rightarrow>
     string \<Rightarrow> (string, json) dict \<Rightarrow> audit_world \<Rightarrow> (audit_failure + delivery_status) \<times> audit_world" where
  "audit_write sz cfg identity context protection sink_ok forward_ok event_id now event_type details w =
     (case protected_details protection (merged_details context identity details) of
        Inl e \<Rightarrow> (Inl e, w)
      | Inr d \<Rightarrow>
          (if \<not> lc_enabled cfg then (Inr Disabled, observe cfg event_type ''disabled'' w)
           else deliver_event sz cfg sink_ok forward_ok event_type
                  (event_payload \<lparr>ae_event_type = event_type, ae_details = d,
                     ae_schema_version = lc_schema cfg, ae_event_id = event_id, ae_created_at = now\<rparr>) w))"

definition audit_flush ::
  "((string, json) dict \<Rightarrow> nat) \<Rightarrow> logger_config \<Rightarrow> (nat \<Rightarrow> bool) \<Rightarrow> nat \<Rightarrow> audit_world \<Rightarrow>
     drain_result \<times> audit_world" where
  "audit_flush sz cfg ok batch_size w =
     (if \<not> lc_http cfg then (\<lparr>dr_attempted = 0, dr_delivered = 0, dr_remaining = 0\<rparr>, w)
      else case buffer_drain sz ok batch_size (aw_buffer w) of
             (sent, r, b) \<Rightarrow> (r, w\<lparr>aw_sink := aw_sink w @ concat sent, aw_buffer := b\<rparr>))"

subsection \<open>The buffer keeps the newest events\<close>

definition stats_ok :: "('e \<Rightarrow> nat) \<Rightarrow> 'e audit_buffer \<Rightarrow> bool" where
  "stats_ok sz b \<longleftrightarrow> buffer_count sz b = int (length (buffer_events b))"

lemma stats_ok_write:
  "bf_file b = Some es \<Longrightarrow> n = int (length es) \<Longrightarrow> stats_ok sz (write_stats sz n d b)"
  by (simp add: stats_ok_def write_stats_def buffer_count_def buffer_events_def read_stats_def)

lemma buffer_events_write [simp]: "buffer_events (write_stats sz n d b) = buffer_events b"
  by (simp add: buffer_events_def write_stats_def)

lemma buffer_append_newest:
  assumes "stats_ok sz b" and "buffer_append sz m e b = Inr (evicted, b')"
  shows "buffer_events b' = drop (length (buffer_events b) + 1 - nat m) (buffer_events b @ [e])
         \<and> evicted = int (length (buffer_events b) + 1 - nat m)
         \<and> bs_evicted (read_stats b') = bs_evicted (read_stats b) + evicted
         \<and> stats_ok sz b'"
proof -
  let ?es = "buffer_events b"
  have m: "0 < m" using assms(2) by (auto simp: buffer_append_def split: if_splits)
  have count: "buffer_count sz b = int (length ?es)" using assms(1) by (simp add: stats_ok_def)
  show ?thesis
  proof (cases "int (length ?es) < m")
    case True
    then have r: "evicted = 0" "b' = write_stats sz (int (length ?es) + 1) 0 (b\<lparr>bf_file := Some (?es @ [e])\<rparr>)"
      using assms(2) m count by (auto simp: buffer_append_def)
    have z: "length ?es + 1 - nat m = 0" using True by simp
    have "stats_ok sz b'" unfolding r(2) by (rule stats_ok_write [where es = "?es @ [e]"]) simp_all
    then show ?thesis using r z by (simp add: buffer_events_def) (simp add: write_stats_def read_stats_def)
  next
    case False
    let ?k = "length ?es + 1 - nat m"
    have k: "int (length ?es) + 1 - m = int ?k" "?k \<le> length ?es" using False m by auto
    have "slice_from (int ?k) ?es @ [e] = drop ?k (?es @ [e])" using k(2) by (simp add: slice_from_def)
    then have s: "slice_from (int (length ?es) + 1 - m) ?es @ [e] = drop ?k (?es @ [e])" by (simp only: k(1))
    then have r: "evicted = int ?k"
      "b' = write_stats sz (int (length (drop ?k (?es @ [e])))) (int ?k)
              (b\<lparr>bf_file := Some (drop ?k (?es @ [e]))\<rparr>)"
      using assms(2) m count False k(1) by (auto simp: buffer_append_def Let_def)
    have "stats_ok sz b'" unfolding r(2) by (rule stats_ok_write [OF _ refl]) simp
    then show ?thesis using r by (simp add: buffer_events_def) (simp add: write_stats_def read_stats_def)
  qed
qed

lemma concat_chunks: "concat (chunks k xs) = xs"
  by (induction k xs rule: chunks.induct) auto

lemma chunk_sizes: "c \<in> set (chunks k xs) \<Longrightarrow> 1 \<le> length c \<and> length c \<le> max 1 k"
  by (induction k xs rule: chunks.induct) auto

lemma drain_batches_split:
  "drain_batches ok i bs = (sent, left) \<Longrightarrow>
     bs = sent @ left \<and> (\<forall>j < length sent. ok (i + j)) \<and> (left \<noteq> [] \<longrightarrow> \<not> ok (i + length sent))"
proof (induction ok i bs arbitrary: sent left rule: drain_batches.induct)
  case (2 ok i batch rest)
  show ?case
  proof (cases "ok i")
    case True
    obtain sent' left' where r: "drain_batches ok (Suc i) rest = (sent', left')" by fastforce
    have "\<forall>j < length sent. ok (i + j)" if "sent = batch # sent'"
    proof (intro allI impI)
      fix j assume "j < length sent"
      then show "ok (i + j)" using 2(1) [OF True r] True that by (cases j) auto
    qed
    then show ?thesis using 2(1) [OF True r] 2(2) True r by auto
  qed (use 2 in auto)
qed auto

text \<open>
  The bounded audit buffer keeps the newest events. With a consistent sidecar an append drops
  exactly as many of the oldest events as the capacity demands, counts them, and keeps the rest in
  order with the new event last; the sidecar stays consistent.
\<close>

theorem buffer_keeps_newest:
  assumes "stats_ok sz b" and "buffer_append sz m e b = Inr (evicted, b')"
    and "int (length (buffer_events b)) \<le> m"
  shows "int (length (buffer_events b')) \<le> m \<and> last (buffer_events b') = e
         \<and> (\<exists>old. buffer_events b @ [e] = old @ buffer_events b' \<and> int (length old) = evicted)
         \<and> bs_evicted (read_stats b') = bs_evicted (read_stats b) + evicted \<and> stats_ok sz b'"
proof -
  let ?es = "buffer_events b" and ?k = "length (buffer_events b) + 1 - nat m"
  note new = buffer_append_newest [OF assms(1,2)]
  have m: "0 < m" using assms(2) by (auto simp: buffer_append_def split: if_splits)
  then have k: "?k \<le> length ?es" by simp
  have "?es @ [e] = take ?k (?es @ [e]) @ buffer_events b'"
    using new append_take_drop_id [of ?k "?es @ [e]"] by (simp only:)
  moreover have "int (length (take ?k (?es @ [e]))) = evicted" using new k by simp
  moreover have "last (buffer_events b') = e" using new k by (simp add: last_append)
  moreover have "int (length (buffer_events b')) \<le> m" using new assms(3) m by simp
  ultimately show ?thesis using new by blast
qed

definition example_buffer :: "nat audit_buffer" where
  "example_buffer = \<lparr>bf_file = Some [1, 2], bf_stats = None\<rparr>"

theorem buffer_keeps_newest_witness:
  "buffer_events (snd (projr (buffer_append (\<lambda>_. 1) 2 3 example_buffer))) = [2, 3]
   \<and> last (buffer_events (snd (projr (buffer_append (\<lambda>_. 1) 2 3 example_buffer)))) = 3"
proof -
  let ?r = "buffer_append (\<lambda>_. 1) 2 3 example_buffer"
  have run: "?r = Inr (fst (projr ?r), snd (projr ?r))" by code_simp
  have "stats_ok (\<lambda>_. 1) example_buffer" "int (length (buffer_events example_buffer)) \<le> 2" by code_simp+
  moreover have "buffer_events (snd (projr ?r)) = [2, 3]" by code_simp
  ultimately show ?thesis using buffer_keeps_newest [OF _ run] by blast
qed

text \<open>
  Draining loses, repeats and reorders nothing. The events of the batches sent, followed by the
  events that stay in the buffer, are the buffered events; sending stops at the first failure,
  whose batch stays first, and the reported numbers are the sizes of the two parts.
\<close>

theorem drain_partitions_buffer:
  assumes "buffer_drain sz ok batch_size b = (sent, r, b')"
  shows "buffer_events b = concat sent @ buffer_events b'
         \<and> (\<forall>j < length sent. ok j \<and> length (sent ! j) \<le> max 1 batch_size)
         \<and> (buffer_events b' \<noteq> [] \<longrightarrow> \<not> ok (length sent))
         \<and> dr_delivered r = length (concat sent) \<and> dr_remaining r = length (buffer_events b')
         \<and> dr_delivered r \<le> dr_attempted r \<and> dr_attempted r \<le> length (buffer_events b)
         \<and> stats_ok sz b'"
proof -
  let ?es = "buffer_events b"
  obtain sent' left where d: "drain_batches ok 0 (chunks batch_size ?es) = (sent', left)" by fastforce
  note split = drain_batches_split [OF d]
  have s: "sent' = sent" and b': "b' = buffer_replace sz (concat left) b"
    using assms d by (auto simp: buffer_drain_def Let_def)
  have ev: "buffer_events b' = concat left" by (simp add: b' buffer_replace_def buffer_events_def write_stats_def)
  have es: "?es = concat sent @ concat left" using split concat_chunks [of batch_size ?es] s by simp
  have "length (sent ! j) \<le> max 1 batch_size" if "j < length sent" for j
    using chunk_sizes [of "sent ! j" batch_size ?es] split s that by (simp add: nth_append)
  moreover have "concat left \<noteq> [] \<longrightarrow> \<not> ok (length sent)" using split s by auto
  moreover have "stats_ok sz b'"
    unfolding b' buffer_replace_def by (rule stats_ok_write) simp_all
  moreover have "dr_delivered r = length (concat sent) \<and> dr_remaining r = length (concat left)
      \<and> dr_delivered r \<le> dr_attempted r \<and> dr_attempted r \<le> length ?es"
    using assms d s es by (cases left) (auto simp: buffer_drain_def Let_def)
  ultimately show ?thesis using split s ev es by auto
qed

theorem drain_partitions_buffer_witness:
  "fst (buffer_drain (\<lambda>_. 1) (\<lambda>i. i = 0) 1 example_buffer) = [[1]]
   \<and> buffer_events (snd (snd (buffer_drain (\<lambda>_. 1) (\<lambda>i. i = 0) 1 example_buffer))) = [2]"
proof -
  let ?d = "buffer_drain (\<lambda>_. 1) (\<lambda>i. i = 0) 1 example_buffer"
  have sent: "fst ?d = [[1]]" by code_simp
  have "?d = (fst ?d, fst (snd ?d), snd (snd ?d))" by simp
  from drain_partitions_buffer [OF this] sent
  have "buffer_events example_buffer = [1] @ buffer_events (snd (snd ?d))" by simp
  then show ?thesis using sent by (simp add: example_buffer_def buffer_events_def)
qed

subsection \<open>Only cleared text is audited\<close>

text \<open>The strings among the values of a JSON value; the keys of objects are not values.\<close>

fun strings_in :: "json \<Rightarrow> string set" where
  "strings_in (JStr s) = {s}"
| "strings_in (JArr xs) = \<Union> (set (map strings_in xs))"
| "strings_in (JObj d) = \<Union> (set (map (\<lambda>(k, v). strings_in v) d))"
| "strings_in _ = {}"

definition cleared :: "safety_config \<Rightarrow> (string \<Rightarrow> finding list) list \<Rightarrow> string \<Rightarrow> bool" where
  "cleared cfg scanners s = (\<exists>t d. evaluate_content cfg scanners t ''audit'' None False = Inr d
     \<and> pd_action d \<noteq> ActBlock \<and> s = pd_content d)"

lemma visit_cleared:
  "visit_value cfg scanners path v = Inr (v', ps, cs) \<Longrightarrow> \<forall>s \<in> strings_in v'. cleared cfg scanners s"
  "visit_fields cfg scanners path d = Inr (d', ps', cs') \<Longrightarrow>
     \<forall>(k, v) \<in> set d'. \<forall>s \<in> strings_in v. cleared cfg scanners s"
  "visit_items cfg scanners path i xs = Inr (xs', ps'', cs'') \<Longrightarrow>
     \<forall>v \<in> set xs'. \<forall>s \<in> strings_in v. cleared cfg scanners s"
proof (induction cfg scanners path v and cfg scanners path d and cfg scanners path i xs
    arbitrary: v' ps cs and d' ps' cs' and xs' ps'' cs''
    rule: visit_value_visit_fields_visit_items.induct)
  case (1 cfg scanners path s)
  then obtain d where "evaluate_content cfg scanners s ''audit'' None False = Inr d"
    "pd_action d \<noteq> ActBlock" "v' = JStr (pd_content d)"
    by (auto split: sum.splits if_splits)
  then show ?case unfolding cleared_def by fastforce
next
  case (2 cfg scanners path d)
  then show ?case by (fastforce simp: res_simps)
next
  case (3 cfg scanners path xs)
  then show ?case by (fastforce simp: res_simps)
next
  case (9 cfg scanners path k v rest)
  then show ?case by (fastforce simp: res_simps)
next
  case (11 cfg scanners path i v rest)
  then show ?case by (fastforce simp: res_simps)
qed auto

lemma protected_details_cleared:
  assumes "protected_details (Some (cfg, scanners)) details = Inr d"
    and "(k, v) \<in> set d" and "k \<noteq> ''redaction_metadata''"
  shows "\<forall>s \<in> strings_in v. cleared cfg scanners s"
proof -
  obtain d0 ps cs where d0: "visit_fields cfg scanners ''details'' details = Inr (d0, ps, cs)"
    "d = (if ps = [] then d0
          else AList.update ''redaction_metadata'' (redaction_metadata ps (remdups cs)) d0)"
    using assms(1) by (auto simp: protected_details_def protect_details_def res_simps)
  have "(k, v) \<in> set (AList.update ''redaction_metadata'' m xs) \<Longrightarrow> (k, v) \<in> set xs" for m xs
    using assms(3) by (induction xs) (auto split: if_splits)
  then have "(k, v) \<in> set d0" using assms(2) d0(2) by (auto split: if_splits)
  then show ?thesis using visit_cleared(2) [OF d0(1)] by blast
qed

lemma deliver_event_adds:
  assumes "deliver_event sz cfg sink_ok forward_ok event_type payload w = (res, w')"
    and "p \<in> set (aw_sink w') \<union> set (buffer_events (aw_buffer w'))"
  shows "p \<in> set (aw_sink w) \<union> set (buffer_events (aw_buffer w)) \<or> p = payload"
proof -
  have grow: "q \<in> set (buffer_events b0) \<or> q = payload"
    if r: "buffer_append sz m payload b0 = Inr (n, b)" and q: "q \<in> set (buffer_events b)" for q b b0 m n
  proof -
    have "buffer_events b = buffer_events b0 @ [payload] \<or> (\<exists>k. buffer_events b = slice_from k (buffer_events b0) @ [payload])"
      using r by (auto simp: buffer_append_def Let_def buffer_events_def write_stats_def split: if_splits)
    then show ?thesis using q by (auto simp: slice_from_def dest: in_set_dropD)
  qed
  show ?thesis
  proof (cases "sink_ok \<or> \<not> lc_http cfg")
    case True
    then show ?thesis
      using assms by (auto simp: deliver_event_def forward_def observe_def split: if_splits)
  next
    case False
    show ?thesis
    proof (cases "buffer_append sz (lc_max_buffer cfg) payload (aw_buffer w)")
      case (Inl e)
      then show ?thesis using assms False by (cases e) (simp add: deliver_event_def)
    next
      case (Inr r)
      then obtain n b where b: "buffer_append sz (lc_max_buffer cfg) payload (aw_buffer w) = Inr (n, b)"
        by (cases r) simp
      then have "aw_sink w' = aw_sink w" "aw_buffer w' = b"
        using assms(1) False by (auto simp: deliver_event_def observe_def split: if_splits)
      then show ?thesis using grow [OF b] assms(2) by auto
    qed
  qed
qed

lemma event_payload_details: "map_of (event_payload ev) ''details'' = Some (JObj (ae_details ev))"
  by (simp add: event_payload_def Let_def)


definition example_logger :: logger_config where
  "example_logger = \<lparr>lc_enabled = True, lc_http = False, lc_fail = False, lc_max_buffer = 10,
     lc_schema = ''1.0'', lc_metrics = False, lc_forward = False\<rparr>"

definition example_world :: audit_world where
  "example_world = \<lparr>aw_sink = [], aw_buffer = \<lparr>bf_file = None, bf_stats = None\<rparr>, aw_metrics = [],
     aw_forwarded = []\<rparr>"

definition example_write :: "(audit_failure + delivery_status) \<times> audit_world" where
  "example_write = audit_write (\<lambda>_. 1) example_logger None [] (Some (example_safety, [example_scan])) True True
     ''id'' ''now'' ''tool.call'' [(''output'', JStr ''key ghp_1!'')] example_world"

lemma example_write_sink:
  "map (\<lambda>p. map_of p ''details'') (aw_sink (snd example_write)) =
     [Some (JObj [(''output'', JStr ''key [redacted]!''),
        (''redaction_metadata'', JObj [(''applied'', JBool True),
           (''fields'', JArr [JStr ''details.output'']), (''method'', JStr ''managed-data-protection''),
           (''classifications'', JArr [JStr ''restricted''])])])]"
  by code_simp


text \<open>A secret in a key of the details is audited as it is.\<close>

lemma secret_key_is_audited:
  "protected_details (Some (example_safety, [example_scan])) [(''ghp_1'', JStr ''x'')]
     = Inr [(''ghp_1'', JStr ''x'')]"
  by code_simp

lemma visit_error:
  "visit_value cfg scanners path v = Inl e \<Longrightarrow> e \<noteq> DeliveryBuffered"
  "visit_fields cfg scanners path d = Inl e \<Longrightarrow> e \<noteq> DeliveryBuffered"
  "visit_items cfg scanners path i xs = Inl e \<Longrightarrow> e \<noteq> DeliveryBuffered"
  by (induction cfg scanners path v and cfg scanners path d and cfg scanners path i xs
      arbitrary: e and e and e rule: visit_value_visit_fields_visit_items.induct)
    (auto simp: res_simps split: sum.splits if_splits)

text \<open>What a call returns says where its event is.\<close>

lemma audit_write_outcome:
  assumes "audit_write sz lc identity context protection sink_ok forward_ok event_id now event_type details w
      = (res, w')"
  shows "case res of
           Inr Disabled \<Rightarrow> \<not> lc_enabled lc \<and> aw_sink w' = aw_sink w \<and> aw_buffer w' = aw_buffer w
         | Inr Delivered \<Rightarrow> sink_ok \<and> (\<exists>p. aw_sink w' = aw_sink w @ [p]) \<and> aw_buffer w' = aw_buffer w
         | Inr Buffered \<Rightarrow> lc_http lc \<and> \<not> lc_fail lc \<and> aw_sink w' = aw_sink w
             \<and> (\<exists>p n. buffer_append sz (lc_max_buffer lc) p (aw_buffer w) = Inr (n, aw_buffer w'))
         | Inl DeliveryBuffered \<Rightarrow> lc_http lc \<and> lc_fail lc \<and> aw_sink w' = aw_sink w
             \<and> (\<exists>p n. buffer_append sz (lc_max_buffer lc) p (aw_buffer w) = Inr (n, aw_buffer w'))
         | Inl _ \<Rightarrow> w' = w"
proof (cases "protected_details protection (merged_details context identity details)")
  case (Inl e)
  then have "e \<noteq> DeliveryBuffered"
    by (auto simp: protected_details_def protect_details_def res_simps dest: visit_error(2)
        split: option.splits)
  moreover have "res = Inl e" "w' = w" using assms Inl by (simp_all add: audit_write_def)
  ultimately show ?thesis by (cases e) simp_all
next
  case (Inr d)
  let ?p = "event_payload \<lparr>ae_event_type = event_type, ae_details = d, ae_schema_version = lc_schema lc,
               ae_event_id = event_id, ae_created_at = now\<rparr>"
  show ?thesis
  proof (cases "lc_enabled lc \<and> \<not> sink_ok \<and> lc_http lc")
    case True
    show ?thesis
    proof (cases "buffer_append sz (lc_max_buffer lc) ?p (aw_buffer w)")
      case (Inl e)
      then show ?thesis using assms Inr True by (cases e) (auto simp: audit_write_def deliver_event_def)
    next
      case app: (Inr r)
      obtain n b where r: "r = (n, b)" by (cases r)
      then have out: "res = (if lc_fail lc then Inl DeliveryBuffered else Inr Buffered)"
        "aw_sink w' = aw_sink w" "aw_buffer w' = b"
        using assms Inr True app by (auto simp: audit_write_def deliver_event_def observe_def)
      have "\<exists>p n. buffer_append sz (lc_max_buffer lc) p (aw_buffer w) = Inr (n, aw_buffer w')"
        using app r out(3) by blast
      then show ?thesis using out True by auto
    qed
  next
    case False
    then show ?thesis
      using assms Inr
      by (auto simp: audit_write_def deliver_event_def forward_def observe_def split: if_splits)
  qed
qed

end
