(* ===== verification/Session_Mailbox.thy ===== *)
theory Session_Mailbox
  imports Data_Protection Hash_Chain
begin

text \<open>
  \<open>src/loro/sessions.py\<close> and \<open>src/loro/session_messages.py\<close>: the store of session records and
  the mailbox between sessions, one JSON file per record or message. A stored file is its size in
  bytes and the JSON value it decodes to, if it decodes. Parameters: \<open>sha\<close> (SHA-256), \<open>rp\<close> (the
  text of floats, lists and dictionaries) and the clock.
\<close>

subsection \<open>Files and session records\<close>

record stored_file =
  sf_bytes :: nat
  sf_value :: "json option"

datatype session_error =
    BadSessionId | SessionNotFound | SessionTooLarge | SessionNotJson | SessionNotObject
  | SessionIdentity | SessionProtected protection_error

definition word_char :: "char \<Rightarrow> bool" where
  "word_char c = ((48 \<le> code c \<and> code c \<le> 57) \<or> (65 \<le> code c \<and> code c \<le> 90)
                  \<or> (97 \<le> code c \<and> code c \<le> 122))"

definition id_char :: "char \<Rightarrow> bool" where
  "id_char c = (word_char c \<or> c = CHR ''_'' \<or> c = CHR ''-'')"

definition session_id_ok :: "string \<Rightarrow> bool" where
  "session_id_ok s = (case s of [] \<Rightarrow> False
     | c # cs \<Rightarrow> word_char c \<and> length cs \<le> 127 \<and> list_all id_char cs)"

definition safe_session_id :: "string \<Rightarrow> session_error + string" where
  "safe_session_id s = (if session_id_ok s then Inr s else Inl BadSessionId)"

record session_config =
  se_max_message :: nat
  se_max_record :: nat

type_synonym session_files = "(string, stored_file) dict"

definition read_session :: "session_config \<Rightarrow> string \<Rightarrow> stored_file \<Rightarrow> session_error + (string, json) dict" where
  "read_session cfg stem f =
     (if se_max_record cfg < sf_bytes f then Inl SessionTooLarge
      else case sf_value f of
             None \<Rightarrow> Inl SessionNotJson
           | Some (JObj d) \<Rightarrow>
               (if or_null (map_of d ''session_id'') = JStr stem
                then res_bind (safe_session_id stem) (\<lambda>_. Inr d)
                else Inl SessionIdentity)
           | Some _ \<Rightarrow> Inl SessionNotObject)"

definition session_get :: "session_config \<Rightarrow> session_files \<Rightarrow> string \<Rightarrow> session_error + (string, json) dict" where
  "session_get cfg files session_id =
     res_bind (safe_session_id session_id) (\<lambda>s.
       case map_of files s of None \<Rightarrow> Inl SessionNotFound | Some f \<Rightarrow> read_session cfg s f)"

text \<open>\<open>save\<close> of a record with the given payload; \<open>dumps\<close> is its indented JSON text.\<close>

definition session_save ::
  "session_config \<Rightarrow> (safety_config \<times> (string \<Rightarrow> finding list) list) option \<Rightarrow> (json \<Rightarrow> string) \<Rightarrow>
     string \<Rightarrow> (string, json) dict \<Rightarrow> session_files \<Rightarrow> session_error + session_files" where
  "session_save cfg protection dumps session_id payload files =
     (let t = dumps (JObj payload) @ [CHR 0x0A] in
      if se_max_record cfg < utf8_len t then Inl SessionTooLarge
      else res_bind
        (case protection of
           None \<Rightarrow> Inr ()
         | Some (safety, scanners) \<Rightarrow>
             (case enforce_content safety scanners t ''session'' None False of
                Inl e \<Rightarrow> Inl (SessionProtected e) | Inr _ \<Rightarrow> Inr ()))
        (\<lambda>_. res_bind (safe_session_id session_id) (\<lambda>s.
           Inr (AList.update s \<lparr>sf_bytes = utf8_len t, sf_value = Some (JObj payload)\<rparr> files))))"

subsection \<open>Messages\<close>

datatype message_status = Queued | Sent | Acknowledged

fun status_rank :: "message_status \<Rightarrow> nat" where
  "status_rank Queued = 0"
| "status_rank Sent = 1"
| "status_rank Acknowledged = 2"

instantiation message_status :: linorder
begin

definition less_eq_message_status :: "message_status \<Rightarrow> message_status \<Rightarrow> bool" where
  "less_eq_message_status a b = (status_rank a \<le> status_rank b)"

definition less_message_status :: "message_status \<Rightarrow> message_status \<Rightarrow> bool" where
  "less_message_status a b = (status_rank a < status_rank b)"

lemma status_rank_inj: "status_rank a = status_rank b \<Longrightarrow> a = b"
  by (cases a; cases b) auto

instance
  by standard (auto simp: less_eq_message_status_def less_message_status_def dest: status_rank_inj)

end

fun status_text :: "message_status \<Rightarrow> string" where
  "status_text Queued = ''queued''"
| "status_text Sent = ''delivered''"
| "status_text Acknowledged = ''acknowledged''"

definition status_of :: "string \<Rightarrow> message_status option" where
  "status_of s = map_of [(''queued'', Queued), (''delivered'', Sent), (''acknowledged'', Acknowledged)] s"

lemma status_of_text [simp]: "status_of (status_text st) = Some st"
  by (cases st) (simp_all add: status_of_def)

record session_message =
  sm_sender :: string
  sm_recipient :: string
  sm_content :: string
  sm_id :: string
  sm_status :: message_status
  sm_created :: string
  sm_delivered :: json
  sm_acknowledged :: json
  sm_authority :: bool
  sm_trust :: string

definition untrusted :: string where
  "untrusted = ''untrusted-cross-session''"

definition message_digest :: "(string \<Rightarrow> string) \<Rightarrow> string \<Rightarrow> string" where
  "message_digest sha content = sha_label sha content"

definition message_payload :: "(string \<Rightarrow> string) \<Rightarrow> session_message \<Rightarrow> (string, json) dict" where
  "message_payload sha m =
     [(''message_id'', JStr (sm_id m)), (''sender_session_id'', JStr (sm_sender m)),
      (''recipient_session_id'', JStr (sm_recipient m)), (''content'', JStr (sm_content m)),
      (''content_digest'', JStr (message_digest sha (sm_content m))),
      (''status'', JStr (status_text (sm_status m))), (''created_at'', JStr (sm_created m)),
      (''delivered_at'', sm_delivered m), (''acknowledged_at'', sm_acknowledged m),
      (''carries_user_authority'', JBool False), (''trust'', JStr (sm_trust m))]"

datatype mail_error =
    EmptyMessage | MessageTooLarge | MailProtected protection_error | MailSession session_error
  | UnsafeId | RecordTooLarge | RecordNotJson | RecordNotObject | RecordIncomplete | NoDigest
  | DigestTypeError | DigestMismatch | BadStatus | IdentityMismatch | NotDelivered | MessageNotFound

definition safe_id :: "string \<Rightarrow> mail_error + string" where
  "safe_id s = (if s \<noteq> [] \<and> list_all id_char s then Inr s else Inl UnsafeId)"

definition required_fields :: "string list" where
  "required_fields = [''message_id'', ''sender_session_id'', ''recipient_session_id'', ''content'',
     ''status'', ''created_at'']"

definition mail_session :: "session_error + 'a \<Rightarrow> mail_error + unit" where
  "mail_session r = (case r of Inl e \<Rightarrow> Inl (MailSession e) | Inr _ \<Rightarrow> Inr ())"

text \<open>\<open>SessionMessage.from_payload\<close>; an unknown status is reported after the digest check.\<close>

definition message_of_payload ::
  "(json \<Rightarrow> string) \<Rightarrow> (string, json) dict \<Rightarrow> message_status \<Rightarrow> session_message" where
  "message_of_payload rp d st =
     (let field = (\<lambda>k. py_str rp (or_null (map_of d k))) in
      \<lparr>sm_sender = field ''sender_session_id'', sm_recipient = field ''recipient_session_id'',
       sm_content = field ''content'', sm_id = field ''message_id'', sm_status = st,
       sm_created = field ''created_at'', sm_delivered = or_null (map_of d ''delivered_at''),
       sm_acknowledged = or_null (map_of d ''acknowledged_at''), sm_authority = False,
       sm_trust = untrusted\<rparr>)"

definition read_message ::
  "(string \<Rightarrow> string) \<Rightarrow> (json \<Rightarrow> string) \<Rightarrow> session_config \<Rightarrow> string \<Rightarrow> string \<Rightarrow> stored_file \<Rightarrow>
     mail_error + session_message" where
  "read_message sha rp cfg recipient stem f =
     (if se_max_message cfg + 8192 < sf_bytes f then Inl RecordTooLarge
      else case sf_value f of
             None \<Rightarrow> Inl RecordNotJson
           | Some (JObj d) \<Rightarrow>
               (if \<not> list_all (\<lambda>k. map_of d k \<noteq> None) required_fields then Inl RecordIncomplete
                else let content = py_str rp (or_null (map_of d ''content''));
                         status = py_str rp (or_null (map_of d ''status'')) in
                     case map_of d ''content_digest'' of
                       Some (JStr (c # cs)) \<Rightarrow>
                         (case compare_digest (c # cs) (message_digest sha content) of
                            None \<Rightarrow> Inl DigestTypeError
                          | Some False \<Rightarrow> Inl DigestMismatch
                          | Some True \<Rightarrow>
                              (case status_of status of
                                 None \<Rightarrow> Inl BadStatus
                               | Some st \<Rightarrow>
                                   (let m = message_of_payload rp d st in
                                    if sm_recipient m \<noteq> recipient \<or> stem \<noteq> sm_id m then Inl IdentityMismatch
                                    else res_bind (mail_session (safe_session_id (sm_sender m))) (\<lambda>_.
                                         res_bind (mail_session (safe_session_id (sm_recipient m))) (\<lambda>_.
                                         res_bind (safe_id (sm_id m)) (\<lambda>_.
                                           if se_max_message cfg < utf8_len (sm_content m)
                                           then Inl MessageTooLarge else Inr m))))))
                     | _ \<Rightarrow> Inl NoDigest)
           | Some _ \<Rightarrow> Inl RecordNotObject)"

subsection \<open>Saving\<close>

text \<open>The files by recipient and by name without the suffix.\<close>

type_synonym mailbox = "(string \<times> string, stored_file) dict"

text \<open>\<open>json.dumps(payload, indent=2, sort_keys=True) + "\n"\<close> of an object of scalars.\<close>

definition record_text :: "(string, json) dict \<Rightarrow> string" where
  "record_text d =
     [CHR 0x7B, CHR 0x0A]
     @ py_join [CHR '','', CHR 0x0A]
         (map (\<lambda>(k, v). ''  '' @ json_quote k @ '': '' @ canonical_json (\<lambda>r. []) v) (sort_key fst d))
     @ [CHR 0x0A, CHR 0x7D, CHR 0x0A]"

definition message_file :: "(string \<Rightarrow> string) \<Rightarrow> session_message \<Rightarrow> stored_file" where
  "message_file sha m =
     \<lparr>sf_bytes = utf8_len (record_text (message_payload sha m)),
      sf_value = Some (JObj (message_payload sha m))\<rparr>"

definition save_message ::
  "(string \<Rightarrow> string) \<Rightarrow> session_message \<Rightarrow> mailbox \<Rightarrow> mail_error + mailbox" where
  "save_message sha m box =
     res_bind (safe_id (sm_recipient m)) (\<lambda>r. res_bind (safe_id (sm_id m)) (\<lambda>i.
       Inr (AList.update (r, i) (message_file sha m) box)))"

subsection \<open>The operations of the mailbox\<close>

record mail_env =
  me_sha :: "string \<Rightarrow> string"
  me_repr :: "json \<Rightarrow> string"
  me_config :: session_config
  me_protection :: "(safety_config \<times> (string \<Rightarrow> finding list) list) option"
  me_sessions :: session_files

definition mail_protection :: "mail_env \<Rightarrow> string \<Rightarrow> bool \<Rightarrow> mail_error + unit" where
  "mail_protection env content allow_sensitive =
     (case me_protection env of
        None \<Rightarrow> Inr ()
      | Some (safety, scanners) \<Rightarrow>
          (case enforce_content safety scanners content ''session_message'' None allow_sensitive of
             Inl e \<Rightarrow> Inl (MailProtected e) | Inr _ \<Rightarrow> Inr ()))"

definition mail_send ::
  "mail_env \<Rightarrow> string \<Rightarrow> string \<Rightarrow> string \<Rightarrow> string \<Rightarrow> string \<Rightarrow> bool \<Rightarrow> bool \<Rightarrow> mailbox \<Rightarrow>
     mail_error + session_message \<times> mailbox" where
  "mail_send env message_id now sender recipient content validate_sender allow_sensitive box =
     (if py_strip content = [] then Inl EmptyMessage
      else if se_max_message (me_config env) < utf8_len content then Inl MessageTooLarge
      else res_bind (mail_protection env content allow_sensitive) (\<lambda>_.
           res_bind (if validate_sender
                     then mail_session (session_get (me_config env) (me_sessions env) sender)
                     else Inr ()) (\<lambda>_.
           res_bind (mail_session (session_get (me_config env) (me_sessions env) recipient)) (\<lambda>_.
             let m = \<lparr>sm_sender = sender, sm_recipient = recipient, sm_content = content,
                      sm_id = message_id, sm_status = Queued, sm_created = now,
                      sm_delivered = JNull, sm_acknowledged = JNull, sm_authority = False,
                      sm_trust = untrusted\<rparr> in
             res_bind (save_message (me_sha env) m box) (\<lambda>box'. Inr (m, box'))))))"

definition mail_stems :: "mailbox \<Rightarrow> string \<Rightarrow> string list" where
  "mail_stems box recipient =
     sort_key (\<lambda>stem. stem @ ''.json'') (map (\<lambda>(k, f). snd k) (filter (\<lambda>(k, f). fst k = recipient) box))"

definition read_stem :: "mail_env \<Rightarrow> mailbox \<Rightarrow> string \<Rightarrow> string \<Rightarrow> mail_error + session_message" where
  "read_stem env box recipient stem =
     (case map_of box (recipient, stem) of
        None \<Rightarrow> Inl MessageNotFound
      | Some f \<Rightarrow> read_message (me_sha env) (me_repr env) (me_config env) recipient stem f)"

definition mail_list :: "mail_env \<Rightarrow> string \<Rightarrow> bool \<Rightarrow> mailbox \<Rightarrow> mail_error + session_message list" where
  "mail_list env recipient include_acknowledged box =
     res_bind (safe_id recipient) (\<lambda>r.
       res_bind (res_map (read_stem env box r) (mail_stems box r)) (\<lambda>ms.
         Inr (if include_acknowledged then ms else filter (\<lambda>m. sm_status m \<noteq> Acknowledged) ms)))"

fun deliver_all ::
  "(string \<Rightarrow> string) \<Rightarrow> string \<Rightarrow> session_message list \<Rightarrow> mailbox \<Rightarrow>
     (mail_error + session_message list) \<times> mailbox" where
  "deliver_all sha now [] box = (Inr [], box)"
| "deliver_all sha now (m # ms) box =
     (if sm_status m = Queued then
        (let m' = m\<lparr>sm_status := Sent, sm_delivered := JStr now\<rparr> in
         case save_message sha m' box of
           Inl e \<Rightarrow> (Inl e, box)
         | Inr box1 \<Rightarrow>
             (case deliver_all sha now ms box1 of
                (Inl e, box') \<Rightarrow> (Inl e, box') | (Inr out, box') \<Rightarrow> (Inr (m' # out), box')))
      else (case deliver_all sha now ms box of
              (Inl e, box') \<Rightarrow> (Inl e, box') | (Inr out, box') \<Rightarrow> (Inr (m # out), box')))"

definition mail_deliver ::
  "mail_env \<Rightarrow> string \<Rightarrow> string \<Rightarrow> mailbox \<Rightarrow> (mail_error + session_message list) \<times> mailbox" where
  "mail_deliver env now recipient box =
     (case res_bind (mail_session (session_get (me_config env) (me_sessions env) recipient)) (\<lambda>_.
             mail_list env recipient False box) of
        Inl e \<Rightarrow> (Inl e, box)
      | Inr ms \<Rightarrow> deliver_all (me_sha env) now ms box)"

definition mail_get :: "mail_env \<Rightarrow> string \<Rightarrow> string \<Rightarrow> mailbox \<Rightarrow> mail_error + session_message" where
  "mail_get env recipient message_id box =
     res_bind (safe_id recipient) (\<lambda>r. res_bind (safe_id message_id) (\<lambda>i. read_stem env box r i))"

definition mail_acknowledge ::
  "mail_env \<Rightarrow> string \<Rightarrow> string \<Rightarrow> string \<Rightarrow> mailbox \<Rightarrow> mail_error + session_message \<times> mailbox" where
  "mail_acknowledge env now recipient message_id box =
     res_bind (mail_get env recipient message_id box) (\<lambda>m.
       case sm_status m of
         Queued \<Rightarrow> Inl NotDelivered
       | Acknowledged \<Rightarrow> Inr (m, box)
       | Sent \<Rightarrow>
           (let m' = m\<lparr>sm_status := Acknowledged, sm_acknowledged := JStr now\<rparr> in
            res_bind (save_message (me_sha env) m' box) (\<lambda>box'. Inr (m', box'))))"

subsection \<open>What is read is checked\<close>

definition stored_field :: "(json \<Rightarrow> string) \<Rightarrow> stored_file \<Rightarrow> string \<Rightarrow> string" where
  "stored_field rp f k =
     (case sf_value f of Some (JObj d) \<Rightarrow> py_str rp (or_null (map_of d k)) | _ \<Rightarrow> [])"

lemma read_message_checked:
  assumes "read_message sha rp cfg recipient stem f = Inr m"
  shows "\<exists>d. sf_value f = Some (JObj d) \<and> m = message_of_payload rp d (sm_status m)
           \<and> map_of d ''content_digest'' = Some (JStr (message_digest sha (sm_content m)))
           \<and> status_of (stored_field rp f ''status'') = Some (sm_status m)
           \<and> sm_recipient m = recipient \<and> sm_id m = stem
           \<and> session_id_ok (sm_sender m) \<and> session_id_ok recipient \<and> safe_id stem = Inr stem
           \<and> utf8_len (sm_content m) \<le> se_max_message cfg"
proof -
  obtain d where d: "sf_value f = Some (JObj d)"
    using assms by (auto simp: read_message_def split: if_splits option.splits json.splits)
  let ?content = "py_str rp (or_null (map_of d ''content''))"
  let ?status = "py_str rp (or_null (map_of d ''status''))"
  obtain c cs where dig: "map_of d ''content_digest'' = Some (JStr (c # cs))"
    using assms d
    by (auto simp: read_message_def Let_def split: if_splits option.splits json.splits list.splits)
  have cmp: "compare_digest (c # cs) (message_digest sha ?content) = Some True"
    using assms d dig
    by (auto simp: read_message_def Let_def split: if_splits option.splits bool.splits)
  then have eq: "c # cs = message_digest sha ?content"
    by (auto simp: compare_digest_def split: if_splits)
  obtain st where st: "status_of ?status = Some st"
    using assms d dig cmp by (auto simp: read_message_def Let_def split: if_splits option.splits)
  have rest: "m = message_of_payload rp d st" "sm_recipient m = recipient" "sm_id m = stem"
    "session_id_ok (sm_sender m)" "session_id_ok (sm_recipient m)" "safe_id (sm_id m) = Inr (sm_id m)"
    "utf8_len (sm_content m) \<le> se_max_message cfg"
    using assms d dig cmp st
    by (auto simp: read_message_def Let_def res_simps mail_session_def safe_session_id_def safe_id_def
        split: if_splits sum.splits)
  then have "sm_content m = ?content" "sm_status m = st"
    by (simp_all add: message_of_payload_def Let_def)
  then show ?thesis using d dig eq st rest by (auto simp: stored_field_def)
qed

lemma read_stem_checked:
  assumes "read_stem env box recipient stem = Inr m"
  shows "\<exists>f. map_of box (recipient, stem) = Some f
           \<and> read_message (me_sha env) (me_repr env) (me_config env) recipient stem f = Inr m"
  using assms by (auto simp: read_stem_def split: option.splits)

lemma read_stem_id: "read_stem env box recipient stem = Inr m \<Longrightarrow> sm_id m = stem"
  using read_stem_checked read_message_checked by blast

lemma mail_list_members:
  assumes "mail_list env recipient ack box = Inr ms" and "m \<in> set ms"
  shows "read_stem env box recipient (sm_id m) = Inr m \<and> (ack \<or> sm_status m \<noteq> Acknowledged)"
proof -
  obtain all where all: "res_map (read_stem env box recipient) (mail_stems box recipient) = Inr all"
    "ms = (if ack then all else filter (\<lambda>m. sm_status m \<noteq> Acknowledged) all)"
    using assms(1) by (auto simp: mail_list_def res_simps safe_id_def split: if_splits)
  have "m \<in> set all" using assms(2) all(2) by (auto split: if_splits)
  then obtain i where i: "i < length all" "all ! i = m" by (auto simp: in_set_conv_nth)
  then have "read_stem env box recipient (mail_stems box recipient ! i) = Inr m"
    using res_map_nth [OF all(1)] res_map_length [OF all(1)] by simp
  moreover from this have "sm_id m = mail_stems box recipient ! i"
    by (rule read_stem_id)
  ultimately show ?thesis using assms(2) all(2) by (auto split: if_splits)
qed

lemma deliver_all_result:
  assumes "deliver_all sha now ms box = (Inr out, box')"
  shows "out = map (\<lambda>m. if sm_status m = Queued then m\<lparr>sm_status := Sent, sm_delivered := JStr now\<rparr> else m) ms"
  using assms
  by (induction sha now ms box arbitrary: out box' rule: deliver_all.induct)
    (auto simp: Let_def split: if_splits sum.splits prod.splits)

text \<open>
  C26. What a session receives was checked. Whatever the files of the mailbox contain, a message
  that is delivered to a session is addressed to it, comes from a file named after its identifier,
  carries exactly the content its recorded digest was computed from, is within the size limit, has
  not been acknowledged, and never carries user authority.
\<close>

theorem delivered_messages_are_checked:
  assumes "mail_deliver env now recipient box = (Inr ms, box')" and "m \<in> set ms"
  shows "sm_recipient m = recipient \<and> sm_status m = Sent \<and> \<not> sm_authority m \<and> sm_trust m = untrusted
       \<and> utf8_len (sm_content m) \<le> se_max_message (me_config env) \<and> session_id_ok (sm_sender m)
       \<and> (\<exists>f d. map_of box (recipient, sm_id m) = Some f \<and> sf_value f = Some (JObj d)
            \<and> map_of d ''content_digest'' = Some (JStr (message_digest (me_sha env) (sm_content m)))
            \<and> stored_field (me_repr env) f ''content'' = sm_content m)"
proof -
  obtain all where all: "mail_list env recipient False box = Inr all"
    "deliver_all (me_sha env) now all box = (Inr ms, box')"
    using assms(1) by (auto simp: mail_deliver_def res_simps split: sum.splits)
  let ?sent = "\<lambda>m. if sm_status m = Queued then m\<lparr>sm_status := Sent, sm_delivered := JStr now\<rparr> else m"
  have "m \<in> ?sent ` set all"
    using assms(2) unfolding deliver_all_result [OF all(2)] set_map .
  then obtain m0 where m0: "m = ?sent m0" "m0 \<in> set all" by (rule imageE)
  have r: "read_stem env box recipient (sm_id m0) = Inr m0" "sm_status m0 \<noteq> Acknowledged"
    using mail_list_members [OF all(1) m0(2)] by auto
  obtain f where f: "map_of box (recipient, sm_id m0) = Some f"
    "read_message (me_sha env) (me_repr env) (me_config env) recipient (sm_id m0) f = Inr m0"
    using read_stem_checked [OF r(1)] by blast
  obtain d where d: "sf_value f = Some (JObj d)" "m0 = message_of_payload (me_repr env) d (sm_status m0)"
    "map_of d ''content_digest'' = Some (JStr (message_digest (me_sha env) (sm_content m0)))"
    "sm_recipient m0 = recipient" "session_id_ok (sm_sender m0)"
    "utf8_len (sm_content m0) \<le> se_max_message (me_config env)"
    using read_message_checked [OF f(2)] by blast
  have same: "sm_id m = sm_id m0" "sm_content m = sm_content m0" "sm_sender m = sm_sender m0"
    "sm_recipient m = sm_recipient m0" "sm_authority m = sm_authority m0" "sm_trust m = sm_trust m0"
    by (simp_all add: m0(1))
  have "sm_authority (message_of_payload (me_repr env) d st) = False"
    "sm_trust (message_of_payload (me_repr env) d st) = untrusted"
    "sm_content (message_of_payload (me_repr env) d st) = py_str (me_repr env) (or_null (map_of d ''content''))" for st
    by (simp_all add: message_of_payload_def Let_def)
  then have "\<not> sm_authority m0" "sm_trust m0 = untrusted"
    "sm_content m0 = stored_field (me_repr env) f ''content''"
    using d(1,2) by (metis, metis, simp add: stored_field_def, metis)
  moreover have "sm_status m = Sent" using r(2) m0(1) by (cases "sm_status m0") auto
  ultimately show ?thesis using f(1) d same by auto
qed

subsection \<open>The life of a message\<close>

inductive mail_step :: "mail_env \<Rightarrow> mailbox \<Rightarrow> mailbox \<Rightarrow> bool" for env where
  send: "map_of box (recipient, message_id) = None \<Longrightarrow>
    mail_send env message_id now sender recipient content validate allow box = Inr (m, box') \<Longrightarrow>
    mail_step env box box'"
| deliver: "mail_deliver env now recipient box = (res, box') \<Longrightarrow> mail_step env box box'"
| acknowledge: "mail_acknowledge env now recipient message_id box = Inr (m, box') \<Longrightarrow>
    mail_step env box box'"

definition stored_rank :: "(json \<Rightarrow> string) \<Rightarrow> stored_file \<Rightarrow> nat" where
  "stored_rank rp f =
     (case status_of (stored_field rp f ''status'') of Some st \<Rightarrow> status_rank st | None \<Rightarrow> 0)"

definition delivered_at :: "stored_file \<Rightarrow> json" where
  "delivered_at f = (case sf_value f of Some (JObj d) \<Rightarrow> or_null (map_of d ''delivered_at'') | _ \<Rightarrow> JNull)"

definition kept_fields :: "string list" where
  "kept_fields = [''message_id'', ''sender_session_id'', ''recipient_session_id'', ''content'',
     ''content_digest'', ''created_at'']"

text \<open>A file keeps its message: only the status moves, forward, and a delivery time stays.\<close>

definition advances :: "(json \<Rightarrow> string) \<Rightarrow> stored_file \<Rightarrow> stored_file \<Rightarrow> bool" where
  "advances rp f f' \<longleftrightarrow>
     list_all (\<lambda>k. stored_field rp f' k = stored_field rp f k) kept_fields
     \<and> stored_rank rp f \<le> stored_rank rp f'
     \<and> (1 \<le> stored_rank rp f \<longrightarrow> delivered_at f' = delivered_at f)"

lemma advances_refl [simp]: "advances rp f f"
  by (simp add: advances_def list_all_iff)

lemma advances_trans: "advances rp f g \<Longrightarrow> advances rp g h \<Longrightarrow> advances rp f h"
  by (auto simp: advances_def list_all_iff)

definition box_advances :: "mail_env \<Rightarrow> mailbox \<Rightarrow> mailbox \<Rightarrow> bool" where
  "box_advances env box box' \<longleftrightarrow>
     (\<forall>k f. map_of box k = Some f \<longrightarrow> (\<exists>f'. map_of box' k = Some f' \<and> advances (me_repr env) f f'))"

lemma box_advances_refl: "box_advances env box box"
  by (auto simp: box_advances_def)

lemma box_advances_trans: "box_advances env a b \<Longrightarrow> box_advances env b c \<Longrightarrow> box_advances env a c"
  unfolding box_advances_def by (meson advances_trans)

lemma stored_field_message:
  "stored_field rp (message_file sha m) k = py_str rp (or_null (map_of (message_payload sha m) k))"
  by (simp add: stored_field_def message_file_def)

lemma rewrite_advances:
  assumes "read_message sha rp cfg r i f = Inr m"
    and "sm_sender m' = sm_sender m" and "sm_recipient m' = sm_recipient m" and "sm_id m' = sm_id m"
    and "sm_content m' = sm_content m" and "sm_created m' = sm_created m"
    and "sm_status m < sm_status m'"
    and "sm_status m \<noteq> Queued \<longrightarrow> sm_delivered m' = sm_delivered m"
  shows "advances rp f (message_file sha m')"
proof -
  obtain d where d: "sf_value f = Some (JObj d)" "m = message_of_payload rp d (sm_status m)"
    "map_of d ''content_digest'' = Some (JStr (message_digest sha (sm_content m)))"
    "status_of (stored_field rp f ''status'') = Some (sm_status m)"
    using read_message_checked [OF assms(1)] by blast
  have fd: "stored_field rp f k = py_str rp (or_null (map_of d k))" for k
    using d(1) by (simp add: stored_field_def)
  have m: "sm_sender m = stored_field rp f ''sender_session_id''"
    "sm_recipient m = stored_field rp f ''recipient_session_id''"
    "sm_content m = stored_field rp f ''content''" "sm_id m = stored_field rp f ''message_id''"
    "sm_created m = stored_field rp f ''created_at''" "sm_delivered m = or_null (map_of d ''delivered_at'')"
    by (subst d(2), simp add: message_of_payload_def Let_def fd)+
  have "list_all (\<lambda>k. stored_field rp (message_file sha m') k = stored_field rp f k) kept_fields"
    using m d(3) assms(2-6)
    by (simp add: kept_fields_def stored_field_message message_payload_def or_null_def)
      (simp add: fd or_null_def)
  moreover have "stored_rank rp (message_file sha m') = status_rank (sm_status m')"
    by (simp add: stored_rank_def stored_field_message message_payload_def or_null_def)
  moreover have "stored_rank rp f = status_rank (sm_status m)" by (simp add: stored_rank_def d(4))
  moreover have "delivered_at (message_file sha m') = sm_delivered m'"
    by (simp add: delivered_at_def message_file_def message_payload_def or_null_def)
  moreover have "delivered_at f = sm_delivered m" using d(1) m(6) by (simp add: delivered_at_def)
  ultimately show ?thesis
    using assms(7,8) by (cases "sm_status m") (auto simp: advances_def less_message_status_def)
qed

lemma save_message_eq:
  "save_message sha m box = Inr box' \<Longrightarrow> box' = AList.update (sm_recipient m, sm_id m) (message_file sha m) box"
  by (auto simp: save_message_def safe_id_def split: if_splits)

lemma save_advances:
  assumes "save_message (me_sha env) m' box = Inr box'"
    and "\<And>f. map_of box (sm_recipient m', sm_id m') = Some f \<Longrightarrow> advances (me_repr env) f (message_file (me_sha env) m')"
  shows "box_advances env box box'"
  using assms(2) by (auto simp: save_message_eq [OF assms(1)] box_advances_def dict_simps)

lemma deliver_all_advances:
  assumes "deliver_all (me_sha env) now ms box = (res, box')"
    and "\<forall>m \<in> set ms. read_stem env box recipient (sm_id m) = Inr m"
    and "distinct (map sm_id ms)" and "distinct (map fst box)"
  shows "box_advances env box box' \<and> distinct (map fst box')"
  using assms
proof (induction ms arbitrary: box res)
  case Nil
  then show ?case by (simp add: box_advances_refl)
next
  case (Cons m ms)
  obtain f where f: "map_of box (recipient, sm_id m) = Some f"
    "read_message (me_sha env) (me_repr env) (me_config env) recipient (sm_id m) f = Inr m"
    using Cons.prems(2) read_stem_checked by (meson list.set_intros(1))
  have r: "sm_recipient m = recipient" using read_message_checked [OF f(2)] by blast
  show ?case
  proof (cases "sm_status m = Queued")
    case False
    then obtain res' where "deliver_all (me_sha env) now ms box = (res', box')"
      using Cons.prems(1) by (auto split: sum.splits prod.splits)
    then show ?thesis using Cons by simp
  next
    case True
    let ?m = "m\<lparr>sm_status := Sent, sm_delivered := JStr now\<rparr>"
    show ?thesis
    proof (cases "save_message (me_sha env) ?m box")
      case (Inl e)
      then show ?thesis using Cons.prems True by (simp add: box_advances_refl)
    next
      case (Inr box1)
      have b1: "box1 = AList.update (recipient, sm_id m) (message_file (me_sha env) ?m) box"
        using save_message_eq [OF Inr] r by simp
      have "advances (me_repr env) f (message_file (me_sha env) ?m)"
        by (rule rewrite_advances [OF f(2)]) (simp_all add: True less_message_status_def)
      then have first: "box_advances env box box1"
        using save_advances [OF Inr] f(1) r by simp
      have "read_stem env box1 recipient (sm_id x) = Inr x" if "x \<in> set ms" for x
      proof -
        have "sm_id x \<noteq> sm_id m" using Cons.prems(3) that by (auto simp: image_iff)
        then show ?thesis using Cons.prems(2) that by (simp add: read_stem_def b1 dict_simps)
      qed
      moreover obtain res' where "deliver_all (me_sha env) now ms box1 = (res', box')"
        using Cons.prems(1) True Inr by (auto simp: Let_def split: sum.splits prod.splits)
      moreover have "distinct (map fst box1)"
        unfolding b1 by (rule dict_distinct_update [OF Cons.prems(4)])
      ultimately have "box_advances env box1 box' \<and> distinct (map fst box')"
        using Cons.IH [of box1] Cons.prems(3) by simp
      then show ?thesis using box_advances_trans [OF first] by blast
    qed
  qed
qed

lemma distinct_stems: "distinct (map fst box) \<Longrightarrow> distinct (mail_stems box recipient)"
proof -
  assume "distinct (map fst box)"
  then have "distinct (map (\<lambda>(k, f). snd k) (filter (\<lambda>(k, f). fst k = recipient) box))"
    by (induction box) (auto simp: image_iff)
  then show ?thesis by (simp add: mail_stems_def)
qed

lemma mail_list_ids:
  assumes "mail_list env recipient ack box = Inr ms" and "distinct (map fst box)"
  shows "distinct (map sm_id ms)"
proof -
  obtain all where all: "res_map (read_stem env box recipient) (mail_stems box recipient) = Inr all"
    "ms = (if ack then all else filter (\<lambda>m. sm_status m \<noteq> Acknowledged) all)"
    using assms(1) by (auto simp: mail_list_def res_simps safe_id_def split: if_splits)
  have "map sm_id all = mail_stems box recipient"
  proof (rule nth_equalityI)
    show len: "length (map sm_id all) = length (mail_stems box recipient)"
      using res_map_length [OF all(1)] by simp
    fix i assume "i < length (map sm_id all)"
    then show "map sm_id all ! i = mail_stems box recipient ! i"
      using res_map_nth [OF all(1), of i] len read_stem_id by simp
  qed
  then have "distinct (map sm_id all)" using distinct_stems [OF assms(2)] by simp
  then show ?thesis using all(2) by (auto simp: distinct_map_filter)
qed

lemma mail_step_advances:
  assumes "mail_step env box box'" and "distinct (map fst box)"
  shows "box_advances env box box' \<and> distinct (map fst box')"
  using assms(1)
proof (cases rule: mail_step.cases)
  case (send recipient message_id now sender content validate allow m)
  obtain m' where m': "save_message (me_sha env) m' box = Inr box'" "sm_recipient m' = recipient"
    "sm_id m' = message_id"
    using send(2) by (auto simp: mail_send_def Let_def res_simps split: if_splits)
  then have "box_advances env box box'" using send(1) by (intro save_advances [OF m'(1)]) simp
  then show ?thesis
    using save_message_eq [OF m'(1)] dict_distinct_update [OF assms(2)] by simp
next
  case (deliver now recipient res)
  show ?thesis
  proof (cases "res_bind (mail_session (session_get (me_config env) (me_sessions env) recipient)) (\<lambda>_.
             mail_list env recipient False box)")
    case (Inl e)
    then show ?thesis using deliver assms(2) by (simp add: mail_deliver_def box_advances_refl)
  next
    case (Inr ms)
    then have l: "mail_list env recipient False box = Inr ms" by (auto simp: res_simps)
    then have r: "\<forall>m \<in> set ms. read_stem env box recipient (sm_id m) = Inr m"
      using mail_list_members by blast
    have "deliver_all (me_sha env) now ms box = (res, box')"
      using deliver Inr by (simp add: mail_deliver_def)
    from deliver_all_advances [OF this r mail_list_ids [OF l assms(2)] assms(2)] show ?thesis .
  qed
next
  case (acknowledge now recipient message_id m)
  obtain m0 where m0: "read_stem env box recipient message_id = Inr m0"
    using acknowledge by (auto simp: mail_acknowledge_def mail_get_def safe_id_def res_simps split: if_splits)
  obtain f where f: "map_of box (recipient, message_id) = Some f"
    "read_message (me_sha env) (me_repr env) (me_config env) recipient message_id f = Inr m0"
    using read_stem_checked [OF m0] by blast
  have ids: "sm_recipient m0 = recipient" "sm_id m0 = message_id"
    using read_message_checked [OF f(2)] by blast+
  show ?thesis
  proof (cases "sm_status m0 = Sent")
    case False
    then show ?thesis
      using acknowledge m0 assms(2)
      by (auto simp: mail_acknowledge_def mail_get_def safe_id_def res_simps box_advances_refl
          split: if_splits message_status.splits)
  next
    case True
    let ?m = "m0\<lparr>sm_status := Acknowledged, sm_acknowledged := JStr now\<rparr>"
    have s: "save_message (me_sha env) ?m box = Inr box'"
      using acknowledge m0 True
      by (auto simp: mail_acknowledge_def mail_get_def safe_id_def res_simps Let_def split: if_splits)
    have "advances (me_repr env) f (message_file (me_sha env) ?m)"
      by (rule rewrite_advances [OF f(2)]) (simp_all add: True less_message_status_def)
    then have "box_advances env box box'" using save_advances [OF s] f(1) ids by simp
    then show ?thesis using save_message_eq [OF s] dict_distinct_update [OF assms(2)] by simp
  qed
qed


definition example_mail_env :: mail_env where
  "example_mail_env =
     \<lparr>me_sha = (\<lambda>t. ''d''), me_repr = (\<lambda>v. []),
      me_config = \<lparr>se_max_message = 100, se_max_record = 1000\<rparr>, me_protection = None,
      me_sessions = [(''r'', \<lparr>sf_bytes = 10, sf_value = Some (JObj [(''session_id'', JStr ''r'')])\<rparr>)]\<rparr>"

definition example_sent :: "mail_error + session_message \<times> mailbox" where
  "example_sent = mail_send example_mail_env ''m1'' ''t0'' ''s'' ''r'' ''hello'' False False []"

definition example_delivered :: "(mail_error + session_message list) \<times> mailbox" where
  "example_delivered = mail_deliver example_mail_env ''t1'' ''r'' (snd (projr example_sent))"


lemma example_delivered_messages:
  "map_sum id (map (\<lambda>m. (sm_content m, sm_id m))) (fst example_delivered) = Inr [(''hello'', ''m1'')]"
  by code_simp

theorem delivered_messages_are_checked_witness:
  "\<exists>m. fst example_delivered = Inr [m] \<and> sm_content m = ''hello'' \<and> sm_status m = Sent
     \<and> \<not> sm_authority m"
proof -
  obtain m where m: "fst example_delivered = Inr [m]" "sm_content m = ''hello''"
    using example_delivered_messages by (cases "fst example_delivered") auto
  then have "mail_deliver example_mail_env ''t1'' ''r'' (snd (projr example_sent))
      = (Inr [m], snd example_delivered)"
    by (simp add: example_delivered_def prod_eq_iff)
  from delivered_messages_are_checked [OF this, of m] m show ?thesis by simp
qed

subsection \<open>Behaviours to know about\<close>

lemma utf8_len_ge: "length s \<le> utf8_len s"
  using utf8_len_bounds by blast

lemma record_text_content:
  assumes "(k, JStr s) \<in> set d"
  shows "length (json_quote s) \<le> length (record_text d)"
proof -
  let ?line = "\<lambda>(k, v). ''  '' @ json_quote k @ '': '' @ canonical_json (\<lambda>r. []) v"
  have join: "x \<in> set xs \<Longrightarrow> length x \<le> length (py_join sep xs)" for x sep xs
    by (induction sep xs rule: py_join.induct) auto
  have "?line (k, JStr s) \<in> set (map ?line (sort_key fst d))"
    unfolding set_map set_sort using assms by (rule imageI)
  from join [OF this, of "[CHR '','', CHR 0x0A]"]
  have "length (?line (k, JStr s))
      \<le> length (py_join [CHR '','', CHR 0x0A] (map ?line (sort_key fst d)))" .
  then show ?thesis by (simp add: record_text_def)
qed

text \<open>
  The limit on a message counts the bytes of its content, the limit on its file counts the bytes of
  its JSON text, in which a character outside ASCII takes six. A message of such characters within
  the first limit is sent, and afterwards the whole mailbox of its recipient cannot be read.
\<close>

lemma escaped_message_blocks_mailbox:
  assumes "2 * n \<le> se_max_message (me_config env)" and "se_max_message (me_config env) + 8192 < 6 * n"
    and "me_protection env = None" and "session_get (me_config env) (me_sessions env) ''r'' = Inr d"
  shows "\<exists>m box. mail_send env ''m'' now sender ''r'' (replicate n (CHR 0xE9)) False False [] = Inr (m, box)
           \<and> mail_list env ''r'' True box = Inl RecordTooLarge"
proof -
  let ?c = "replicate n (CHR 0xE9)"
  have n: "0 < n" using assms(2) by (cases n) auto
  have code: "code (CHR 0xE9) = 233" "\<not> is_space (CHR 0xE9)"
    by (simp_all add: is_space_def code_def Let_def)
  have len: "utf8_len ?c = 2 * n" using code by (simp add: utf8_len_def sum_list_replicate)
  obtain k where k: "n = Suc k" using n by (cases n) auto
  have ls: "lstrip_by is_space ?c = ?c" unfolding k using code(2) by simp
  have "py_strip ?c = ?c" by (simp add: py_strip_def rstrip_by_def ls)
  then have strip: "py_strip ?c \<noteq> []" using n by simp
  have ids: "safe_id ''r'' = Inr ''r''" "safe_id ''m'' = Inr ''m''" by code_simp+
  let ?m = "\<lparr>sm_sender = sender, sm_recipient = ''r'', sm_content = ?c, sm_id = ''m'',
      sm_status = Queued, sm_created = now, sm_delivered = JNull, sm_acknowledged = JNull,
      sm_authority = False, sm_trust = untrusted\<rparr>"
  let ?box = "[((''r'', ''m''), message_file (me_sha env) ?m)]"
  have send: "mail_send env ''m'' now sender ''r'' ?c False False [] = Inr (?m, ?box)"
    using strip len assms(1,3,4) ids
    by (simp add: mail_send_def mail_protection_def mail_session_def save_message_def Let_def)
  have "length (json_escape (CHR 0xE9)) = 6" by code_simp
  then have "length (json_quote ?c) = 6 * n + 2"
    by (simp add: json_quote_def length_concat sum_list_replicate)
  moreover have "(''content'', JStr ?c) \<in> set (message_payload (me_sha env) ?m)"
    by (simp add: message_payload_def)
  ultimately have "6 * n + 2 \<le> sf_bytes (message_file (me_sha env) ?m)"
    using record_text_content [of "''content''" ?c] utf8_len_ge order_trans
    by (fastforce simp: message_file_def)
  then have "mail_list env ''r'' True ?box = Inl RecordTooLarge"
    using assms(2) ids by (simp add: mail_list_def mail_stems_def read_stem_def read_message_def)
  then show ?thesis using send by blast
qed

end
