(* ===== verification/Agx_Values.thy ===== *)
theory Agx_Values
  imports Json_Value
begin

text \<open>
  The values of AGX, the expression language of Agentic Graphs: tokens, comparison, arithmetic and
  the function table of \<open>src/loro/agraph/expressions.py\<close>. \<open>None\<close> stands for an error, which the
  evaluator turns into an \<open>ExpressionError\<close>. Parameters: Python builtins that the table only
  passes on (\<open>int\<close>, \<open>float\<close>, \<open>str\<close>, \<open>json.loads\<close>, \<open>re.search\<close>, \<open>lower\<close>, \<open>upper\<close>, \<open>split\<close>) and
  the decoding of string literals.
\<close>

record agx_env =
  ax_builtin :: "string \<Rightarrow> json list \<Rightarrow> json option"
  ax_json_string :: "string \<Rightarrow> string option"
  ax_unicode_escape :: "string \<Rightarrow> string option"

subsection \<open>Tokens\<close>

datatype token_kind = TNumber | TString | TOp | TName

type_synonym token = "token_kind \<times> string"

definition is_digit_char :: "char \<Rightarrow> bool" where
  "is_digit_char c = (48 \<le> code c \<and> code c \<le> 57)"

fun span_chars :: "(char \<Rightarrow> bool) \<Rightarrow> string \<Rightarrow> string \<times> string" where
  "span_chars P [] = ([], [])"
| "span_chars P (c # cs) = (if P c then (case span_chars P cs of (a, r) \<Rightarrow> (c # a, r)) else ([], c # cs))"

definition lex_number :: "string \<Rightarrow> (string \<times> string) option" where
  "lex_number s =
     (let sign = (if starts_with s ''-'' then ''-'' else []) in
      case span_chars is_digit_char (drop (length sign) s) of
        ([], _) \<Rightarrow> None
      | (ds, r) \<Rightarrow>
          (case (starts_with r ''.'', span_chars is_digit_char (drop 1 r)) of
             (True, (f # fs, r')) \<Rightarrow> Some (sign @ ds @ ''.'' @ (f # fs), r')
           | _ \<Rightarrow> Some (sign @ ds, r)))"

text \<open>After the opening quote \<open>q\<close>: the rest of the literal with its closing quote.\<close>

fun lex_quoted :: "char \<Rightarrow> string \<Rightarrow> (string \<times> string) option" where
  "lex_quoted q [] = None"
| "lex_quoted q (c # cs) =
     (if c = q then Some ([c], cs)
      else if c = CHR 0x5C then
        (case cs of
           [] \<Rightarrow> None
         | d # ds \<Rightarrow> (if code d = 10 then None
                    else map_option (\<lambda>(t, r). (c # d # t, r)) (lex_quoted q ds)))
      else map_option (\<lambda>(t, r). (c # t, r)) (lex_quoted q cs))"

definition lex_string :: "string \<Rightarrow> (string \<times> string) option" where
  "lex_string s =
     (case s of
        c # cs \<Rightarrow> (if c = CHR 0x22 \<or> c = CHR 0x27
                  then map_option (\<lambda>(t, r). (c # t, r)) (lex_quoted c cs) else None)
      | [] \<Rightarrow> None)"

definition two_char_ops :: "string list" where
  "two_char_ops = [''&&'', ''||'', ''=='', ''!='', ''<='', ''>='']"

definition lex_op :: "string \<Rightarrow> (string \<times> string) option" where
  "lex_op s =
     (if list_ex (\<lambda>p. starts_with s p) two_char_ops then Some (take 2 s, drop 2 s)
      else case s of
             c # cs \<Rightarrow> (if c \<in> set ''-+*/%<>!()[],.'' then Some ([c], cs) else None)
           | [] \<Rightarrow> None)"

definition is_letter :: "char \<Rightarrow> bool" where
  "is_letter c = ((65 \<le> code c \<and> code c \<le> 90) \<or> (97 \<le> code c \<and> code c \<le> 122) \<or> c = CHR ''_'')"

definition lex_name :: "string \<Rightarrow> (string \<times> string) option" where
  "lex_name s =
     (case s of
        c # cs \<Rightarrow> (if is_letter c
                  then (case span_chars (\<lambda>d. is_letter d \<or> is_digit_char d) cs of (t, r) \<Rightarrow> Some (c # t, r))
                  else None)
      | [] \<Rightarrow> None)"

definition lex_one :: "string \<Rightarrow> (token \<times> string) option" where
  "lex_one s =
     (case lex_number s of
        Some (t, r) \<Rightarrow> Some ((TNumber, t), r)
      | None \<Rightarrow>
          (case lex_string s of
             Some (t, r) \<Rightarrow> Some ((TString, t), r)
           | None \<Rightarrow>
               (case lex_op s of
                  Some (t, r) \<Rightarrow> Some ((TOp, t), r)
                | None \<Rightarrow> map_option (\<lambda>(t, r). ((TName, t), r)) (lex_name s))))"

lemma span_chars_length: "span_chars P s = (a, r) \<Longrightarrow> length s = length a + length r"
  by (induction s arbitrary: a) (auto split: if_splits prod.splits)

lemma lex_quoted_length: "lex_quoted q s = Some (t, r) \<Longrightarrow> length r < length s"
proof (induction q s arbitrary: t r rule: lex_quoted.induct)
  case (2 q c cs)
  show ?case
  proof (cases "c = q")
    case False
    show ?thesis
    proof (cases "c = CHR 0x5C")
      case True
      then obtain d ds t' where "cs = d # ds" "lex_quoted q ds = Some (t', r)" "code d \<noteq> 10"
        using 2(3) False by (auto split: list.splits if_splits)
      then show ?thesis using 2(1) [OF False True, of d ds t' r] by simp
    next
      case bs: False
      then obtain t' where "lex_quoted q cs = Some (t', r)" using 2(3) False by auto
      then show ?thesis using 2(2) [OF False bs, of t' r] by simp
    qed
  qed (use 2 in auto)
qed simp

lemma lex_number_length: "lex_number s = Some (t, r) \<Longrightarrow> length r < length s"
proof -
  assume a: "lex_number s = Some (t, r)"
  define sign where "sign = (if starts_with s ''-'' then ''-'' else [])"
  obtain ds r1 where d: "span_chars is_digit_char (drop (length sign) s) = (ds, r1)" by fastforce
  obtain fs r2 where f: "span_chars is_digit_char (drop 1 r1) = (fs, r2)" by fastforce
  have e: "ds \<noteq> []" "r = r1 \<or> r = r2"
    using a d f by (auto simp: lex_number_def Let_def sign_def [symmetric] split: list.splits bool.splits)
  have l: "length ds + length r1 \<le> length s" "length r2 \<le> length r1"
    using span_chars_length [OF d] span_chars_length [OF f] by simp_all
  have "length r \<le> length r1" using e(2) l(2) by auto
  moreover have "1 \<le> length ds" using e(1) by (cases ds) auto
  ultimately show ?thesis using l(1) by linarith
qed

lemma lex_string_length: "lex_string s = Some (t, r) \<Longrightarrow> length r < length s"
  by (auto simp: lex_string_def dest: lex_quoted_length split: list.splits if_splits)

lemma lex_op_length: "lex_op s = Some (t, r) \<Longrightarrow> length r < length s"
  by (cases s) (auto simp: lex_op_def two_char_ops_def split: if_splits)

lemma lex_name_length: "lex_name s = Some (t, r) \<Longrightarrow> length r < length s"
  by (auto simp: lex_name_def dest: span_chars_length split: list.splits if_splits prod.splits)

lemma lex_one_length:
  assumes "lex_one s = Some (t, r)"
  shows "length r < length s"
proof (cases "lex_number s")
  case (Some a)
  then show ?thesis using assms lex_number_length [of s] by (cases a) (simp add: lex_one_def)
next
  case num: None
  show ?thesis
  proof (cases "lex_string s")
    case (Some a)
    then show ?thesis using assms num lex_string_length [of s] by (cases a) (simp add: lex_one_def)
  next
    case str: None
    show ?thesis
    proof (cases "lex_op s")
      case (Some a)
      then show ?thesis using assms num str lex_op_length [of s] by (cases a) (simp add: lex_one_def)
    next
      case None
      then show ?thesis using assms num str lex_name_length by (auto simp: lex_one_def)
    qed
  qed
qed

function tokenize :: "string \<Rightarrow> token list option" where
  "tokenize [] = Some []"
| "tokenize (c # cs) =
     (if is_space c then tokenize cs
      else case lex_one (c # cs) of
             None \<Rightarrow> None
           | Some (t, r) \<Rightarrow> map_option (\<lambda>ts. t # ts) (tokenize r))"
  by pat_completeness auto
termination by (relation "measure length") (auto dest: lex_one_length)

subsection \<open>Equality and membership\<close>

text \<open>Python's \<open>==\<close>, where booleans are numbers.\<close>

fun py_number :: "json \<Rightarrow> rat option" where
  "py_number (JBool b) = Some (if b then 1 else 0)"
| "py_number (JInt i) = Some (of_int i)"
| "py_number (JFloat r) = Some r"
| "py_number _ = None"

fun py_eq :: "json \<Rightarrow> json \<Rightarrow> bool"
and py_eq_items :: "json list \<Rightarrow> json list \<Rightarrow> bool"
and py_eq_fields :: "(string \<times> json) list \<Rightarrow> (string \<times> json) list \<Rightarrow> bool" where
  "py_eq JNull w = (w = JNull)"
| "py_eq (JStr s) w = (w = JStr s)"
| "py_eq (JArr xs) w = (case w of JArr ys \<Rightarrow> py_eq_items xs ys | _ \<Rightarrow> False)"
| "py_eq (JObj d) w = (case w of JObj e \<Rightarrow> set (map fst d) = set (map fst e) \<and> py_eq_fields d e | _ \<Rightarrow> False)"
| "py_eq (JBool b) w = (py_number w = Some (if b then 1 else 0))"
| "py_eq (JInt i) w = (py_number w = Some (of_int i))"
| "py_eq (JFloat r) w = (py_number w = Some r)"
| "py_eq_items [] ys = (ys = [])"
| "py_eq_items (x # xs) ys = (case ys of y # ys' \<Rightarrow> py_eq x y \<and> py_eq_items xs ys' | [] \<Rightarrow> False)"
| "py_eq_fields [] e = True"
| "py_eq_fields ((k, v) # d) e =
     ((case map_of e k of Some w \<Rightarrow> py_eq v w | None \<Rightarrow> False) \<and> py_eq_fields d e)"

text \<open>\<open>_json_equal\<close>, where values of different types are unequal.\<close>

fun json_equal :: "json \<Rightarrow> json \<Rightarrow> bool"
and json_equal_items :: "json list \<Rightarrow> json list \<Rightarrow> bool"
and json_equal_fields :: "(string \<times> json) list \<Rightarrow> (string \<times> json) list \<Rightarrow> bool" where
  "json_equal JNull w = (w = JNull)"
| "json_equal (JBool b) w = (w = JBool b)"
| "json_equal (JStr s) w = (w = JStr s)"
| "json_equal (JInt i) w = (as_number w = Some (of_int i))"
| "json_equal (JFloat r) w = (as_number w = Some r)"
| "json_equal (JArr xs) w = (case w of JArr ys \<Rightarrow> json_equal_items xs ys | _ \<Rightarrow> False)"
| "json_equal (JObj d) w =
     (case w of JObj e \<Rightarrow> set (map fst d) = set (map fst e) \<and> json_equal_fields d e | _ \<Rightarrow> False)"
| "json_equal_items [] ys = (ys = [])"
| "json_equal_items (x # xs) ys = (case ys of y # ys' \<Rightarrow> json_equal x y \<and> json_equal_items xs ys' | [] \<Rightarrow> False)"
| "json_equal_fields [] e = True"
| "json_equal_fields ((k, v) # d) e =
     ((case map_of e k of Some w \<Rightarrow> json_equal v w | None \<Rightarrow> False) \<and> json_equal_fields d e)"

text \<open>\<open>item in container\<close>; a list or an object cannot be looked up in an object.\<close>

definition ag_contains :: "json \<Rightarrow> json \<Rightarrow> bool option" where
  "ag_contains item container =
     (case container of
        JStr s \<Rightarrow> (case item of JStr t \<Rightarrow> Some (contains s t) | _ \<Rightarrow> None)
      | JArr xs \<Rightarrow> Some (list_ex (\<lambda>x. py_eq x item) xs)
      | JObj d \<Rightarrow>
          (case item of
             JArr _ \<Rightarrow> None
           | JObj _ \<Rightarrow> None
           | JStr k \<Rightarrow> Some (map_of d k \<noteq> None)
           | _ \<Rightarrow> Some False)
      | _ \<Rightarrow> None)"

subsection \<open>Operators\<close>

datatype type_tag = TgNull | TgBool | TgInt | TgFloat | TgStr | TgList | TgDict

fun tag_of :: "json \<Rightarrow> type_tag" where
  "tag_of JNull = TgNull"
| "tag_of (JBool _) = TgBool"
| "tag_of (JInt _) = TgInt"
| "tag_of (JFloat _) = TgFloat"
| "tag_of (JStr _) = TgStr"
| "tag_of (JArr _) = TgList"
| "tag_of (JObj _) = TgDict"

definition same_type :: "json \<Rightarrow> json \<Rightarrow> bool" where
  "same_type v w = ((as_number v \<noteq> None \<and> as_number w \<noteq> None) \<or> tag_of v = tag_of w)"

definition rel_holds :: "string \<Rightarrow> ('a::linorder) \<Rightarrow> 'a \<Rightarrow> bool" where
  "rel_holds op x y =
     (if op = ''<'' then x < y else if op = ''<='' then x \<le> y else if op = ''>'' then x > y else x \<ge> y)"

definition ag_compare :: "string \<Rightarrow> json \<Rightarrow> json \<Rightarrow> json option" where
  "ag_compare op v w =
     (if \<not> same_type v w then None
      else case (as_number v, as_number w) of
             (Some a, Some b) \<Rightarrow> Some (JBool (rel_holds op a b))
           | _ \<Rightarrow> (case (v, w) of (JStr s, JStr t) \<Rightarrow> Some (JBool (rel_holds op s t)) | _ \<Rightarrow> None))"

definition ag_equality :: "string \<Rightarrow> json \<Rightarrow> json \<Rightarrow> json" where
  "ag_equality op v w = JBool (if op = ''=='' then json_equal v w else \<not> json_equal v w)"

text \<open>An arithmetic operation: on integers with \<open>f\<close>, otherwise on floats with \<open>g\<close>.\<close>

definition num_op :: "(int \<Rightarrow> int \<Rightarrow> int) \<Rightarrow> (rat \<Rightarrow> rat \<Rightarrow> rat) \<Rightarrow> json \<Rightarrow> json \<Rightarrow> json option" where
  "num_op f g v w =
     (case (v, w) of
        (JInt a, JInt b) \<Rightarrow> Some (JInt (f a b))
      | _ \<Rightarrow> (case (as_number v, as_number w) of
                (Some a, Some b) \<Rightarrow> Some (JFloat (g a b)) | _ \<Rightarrow> None))"

definition ag_additive :: "string \<Rightarrow> json \<Rightarrow> json \<Rightarrow> json option" where
  "ag_additive op v w =
     (if \<not> same_type v w then None
      else if op = ''+'' then
        (case (v, w) of
           (JArr xs, JArr ys) \<Rightarrow> Some (JArr (xs @ ys))
         | (JStr s, JStr t) \<Rightarrow> Some (JStr (s @ t))
         | _ \<Rightarrow> num_op (+) (+) v w)
      else num_op (-) (-) v w)"

definition rat_mod :: "rat \<Rightarrow> rat \<Rightarrow> rat" where
  "rat_mod a b = a - b * of_int \<lfloor>a / b\<rfloor>"

definition ag_multiplicative :: "string \<Rightarrow> json \<Rightarrow> json \<Rightarrow> json option" where
  "ag_multiplicative op v w =
     (case (as_number v, as_number w) of
        (Some a, Some b) \<Rightarrow>
          (if op = ''*'' then num_op (*) (*) v w
           else if b = 0 then None
           else if op = ''/'' then Some (JFloat (a / b))
           else num_op (mod) rat_mod v w)
      | _ \<Rightarrow> None)"

fun ag_negate :: "json \<Rightarrow> json option" where
  "ag_negate (JInt i) = Some (JInt (- i))"
| "ag_negate (JFloat r) = Some (JFloat (- r))"
| "ag_negate _ = None"

text \<open>\<open>_member\<close>: a missing name gives null.\<close>

definition ag_member :: "json \<Rightarrow> string \<Rightarrow> json option" where
  "ag_member v name = (case v of JObj d \<Rightarrow> Some (or_null (map_of d name)) | _ \<Rightarrow> None)"

subsection \<open>The function table\<close>

definition ag_iter :: "json \<Rightarrow> json list option" where
  "ag_iter v =
     (case v of
        JArr xs \<Rightarrow> Some xs
      | JStr s \<Rightarrow> Some (map (\<lambda>c. JStr [c]) s)
      | JObj d \<Rightarrow> Some (map (\<lambda>(k, w). JStr k) d)
      | _ \<Rightarrow> None)"

definition ag_len :: "json \<Rightarrow> json option" where
  "ag_len v = map_option (\<lambda>xs. JInt (int (length xs))) (ag_iter v)"

definition ag_text :: "agx_env \<Rightarrow> json \<Rightarrow> string option" where
  "ag_text env v =
     (case v of
        JStr s \<Rightarrow> Some s
      | _ \<Rightarrow> (case ax_builtin env ''str'' [v] of Some (JStr s) \<Rightarrow> Some s | _ \<Rightarrow> None))"

fun dotted_walk :: "json \<Rightarrow> json \<Rightarrow> string list \<Rightarrow> json" where
  "dotted_walk dflt v [] = v"
| "dotted_walk dflt v (seg # segs) =
     (case v of
        JObj d \<Rightarrow> (case map_of d seg of Some w \<Rightarrow> dotted_walk dflt w segs | None \<Rightarrow> dflt)
      | _ \<Rightarrow> dflt)"

definition dotted_get :: "agx_env \<Rightarrow> json \<Rightarrow> json \<Rightarrow> json \<Rightarrow> json option" where
  "dotted_get env v path dflt =
     map_option (\<lambda>p. dotted_walk dflt v (split_on (CHR ''.'') p)) (ag_text env path)"

definition bools_of :: "json list \<Rightarrow> bool list option" where
  "bools_of xs = those (map as_bool xs)"

text \<open>Looking a node up: an object key must be hashable; what is no string is no key.\<close>

definition member_arg :: "json \<Rightarrow> json \<Rightarrow> json option" where
  "member_arg v key =
     (case (v, key) of
        (JObj d, JStr k) \<Rightarrow> Some (or_null (map_of d k))
      | (JObj d, JArr _) \<Rightarrow> None
      | (JObj d, JObj _) \<Rightarrow> None
      | (JObj d, _) \<Rightarrow> Some JNull
      | _ \<Rightarrow> None)"

definition node_of :: "(string, json) dict \<Rightarrow> json \<Rightarrow> json option" where
  "node_of scope node = Option.bind (ag_member (JObj scope) ''nodes'') (\<lambda>ns. member_arg ns node)"

definition node_status :: "agx_env \<Rightarrow> (string, json) dict \<Rightarrow> json \<Rightarrow> string option" where
  "node_status env scope node =
     Option.bind (node_of scope node) (\<lambda>n. Option.bind (ag_member n ''status'') (ag_text env))"

definition status_in :: "agx_env \<Rightarrow> (string, json) dict \<Rightarrow> json \<Rightarrow> string list \<Rightarrow> json option" where
  "status_in env scope node wanted =
     map_option (\<lambda>s. JBool (s \<in> set wanted)) (node_status env scope node)"

text \<open>\<open>container[key]\<close>.\<close>

definition subscript :: "json \<Rightarrow> json \<Rightarrow> json option" where
  "subscript v key =
     (case (v, as_int key) of
        (JObj d, _) \<Rightarrow> (case key of JStr k \<Rightarrow> map_of d k | _ \<Rightarrow> None)
      | (JArr xs, Some i) \<Rightarrow>
          (if - int (length xs) \<le> i \<and> i < int (length xs)
           then Some (xs ! nat (if i < 0 then i + int (length xs) else i)) else None)
      | (JStr s, Some i) \<Rightarrow>
          (if - int (length s) \<le> i \<and> i < int (length s)
           then Some (JStr [s ! nat (if i < 0 then i + int (length s) else i)]) else None)
      | _ \<Rightarrow> None)"

definition builtin_names :: "string list" where
  "builtin_names = [''lower'', ''upper'', ''matches'', ''split'', ''int'', ''float'', ''str'', ''json'']"

definition ag_call :: "agx_env \<Rightarrow> (string, json) dict \<Rightarrow> string \<Rightarrow> json list \<Rightarrow> json option" where
  "ag_call env scope name args =
     (if name \<in> set builtin_names then ax_builtin env name args
      else case args of
        [] \<Rightarrow> (if name = ''bool'' then Some (JBool False) else None)
      | [v] \<Rightarrow>
          (if name = ''len'' \<or> name = ''count'' then ag_len v
           else if name = ''trim'' then (case v of JStr s \<Rightarrow> Some (JStr (py_strip s)) | _ \<Rightarrow> None)
           else if name = ''bool'' then Some (JBool (truthy v))
           else if name = ''any'' then
             map_option (\<lambda>xs. JBool (case bools_of xs of Some bs \<Rightarrow> list_ex id bs | None \<Rightarrow> False)) (ag_iter v)
           else if name = ''all'' then
             map_option (\<lambda>xs. JBool (case bools_of xs of Some bs \<Rightarrow> list_all id bs | None \<Rightarrow> False)) (ag_iter v)
           else if name = ''succeeded'' then status_in env scope v [''succeeded'']
           else if name = ''failed'' then status_in env scope v [''failed'', ''blocked'']
           else if name = ''skipped'' then status_in env scope v [''skipped'']
           else None)
      | [v, w] \<Rightarrow>
          (if name = ''contains'' then map_option JBool (ag_contains w v)
           else if name = ''startswith'' then
             (case (v, w) of (JStr s, JStr p) \<Rightarrow> Some (JBool (starts_with s p)) | _ \<Rightarrow> None)
           else if name = ''endswith'' then
             (case (v, w) of (JStr s, JStr p) \<Rightarrow> Some (JBool (ends_with s p)) | _ \<Rightarrow> None)
           else if name = ''join'' then
             (case w of
                JStr sep \<Rightarrow> Option.bind (ag_iter v) (\<lambda>xs.
                  map_option (\<lambda>ss. JStr (py_join sep ss)) (those (map as_str xs)))
              | _ \<Rightarrow> None)
           else if name = ''get'' then dotted_get env v w JNull
           else if name = ''default'' then Some (if v = JNull then w else v)
           else if name = ''output'' then
             Option.bind (node_of scope v) (\<lambda>n. Option.bind (ag_member n ''outputs'') (\<lambda>o_v. subscript o_v w))
           else None)
      | [v, w, x] \<Rightarrow> (if name = ''get'' then dotted_get env v w x else None)
      | _ \<Rightarrow> None)"

subsection \<open>Rendering\<close>

text \<open>\<open>json.dumps(value, separators=(",", ":"))\<close> keeps the order of the keys.\<close>

fun compact_json :: "(rat \<Rightarrow> string) \<Rightarrow> json \<Rightarrow> string" where
  "compact_json fl (JArr xs) = ''['' @ py_join '','' (map (compact_json fl) xs) @ '']''"
| "compact_json fl (JObj d) =
     CHR 0x7B # py_join '','' (map (\<lambda>(k, v). json_quote k @ '':'' @ compact_json fl v) d) @ [CHR 0x7D]"
| "compact_json fl v = canonical_json fl v"

definition stringify :: "(rat \<Rightarrow> string) \<Rightarrow> json \<Rightarrow> string" where
  "stringify fl v =
     (case v of JNull \<Rightarrow> [] | JBool b \<Rightarrow> (if b then ''true'' else ''false'') | JStr s \<Rightarrow> s
      | _ \<Rightarrow> compact_json fl v)"

end
