(* ===== verification/Agx_Expr.thy ===== *)
theory Agx_Expr
  imports Agx_Values
begin

text \<open>
  The evaluator of \<open>src/loro/agraph/expressions.py\<close>: a recursive descent over the tokens that
  computes values as it parses. One definition per method; \<open>rec\<close> is the recursive call, \<open>quiet\<close> says
  whether an enclosing short-circuited operand suppresses evaluation, and the loops of the methods
  are the calls that carry a value. \<open>descend\<close> ties the recursion with fuel. Beside it stand an
  abstract syntax, a parser into it and its semantics, to which the evaluator is proved equivalent.
\<close>

subsection \<open>Outcomes\<close>

datatype 'a outcome = OutOfFuel | Fail | Finished 'a

definition obind :: "'a outcome \<Rightarrow> ('a \<Rightarrow> 'b outcome) \<Rightarrow> 'b outcome" where
  "obind m f = (case m of OutOfFuel \<Rightarrow> OutOfFuel | Fail \<Rightarrow> Fail | Finished v \<Rightarrow> f v)"

lemma obind_simps [simp]:
  "obind OutOfFuel f = OutOfFuel" "obind Fail f = Fail" "obind (Finished v) f = f v"
  by (simp_all add: obind_def)

definition of_option :: "'a option \<Rightarrow> 'a outcome" where
  "of_option x = (case x of Some v \<Rightarrow> Finished v | None \<Rightarrow> Fail)"

lemma of_option_simps [simp]: "of_option None = Fail" "of_option (Some v) = Finished v"
  by (simp_all add: of_option_def)

text \<open>The calls of the descent; the last groups are the loops and carry what was read so far.\<close>

datatype 'v call =
    COr | CAnd | CIn | CEquality | CComparison | CAdditive | CMultiplicative | CUnary | CPrimary
  | CArgs string
  | LOr 'v | LAnd 'v | LIn 'v | LEquality 'v | LComparison 'v | LAdditive 'v | LMultiplicative 'v
  | LArgs string "'v list" | LDots 'v

type_synonym 'v descent = "'v call \<Rightarrow> bool \<Rightarrow> token list \<Rightarrow> ('v \<times> token list) outcome"

subsection \<open>Reading tokens\<close>

definition is_tok :: "token_kind \<Rightarrow> string \<Rightarrow> token list \<Rightarrow> bool" where
  "is_tok k v toks = (case toks of t # _ \<Rightarrow> t = (k, v) | [] \<Rightarrow> False)"

text \<open>The operator at the front, if its text is one of these.\<close>

definition op_of :: "string list \<Rightarrow> token list \<Rightarrow> string option" where
  "op_of ops toks = (case toks of (k, v) # _ \<Rightarrow> (if v \<in> set ops then Some v else None) | [] \<Rightarrow> None)"

definition expect :: "token_kind \<Rightarrow> string \<Rightarrow> token list \<Rightarrow> token list outcome" where
  "expect k v toks = (if is_tok k v toks then Finished (tl toks) else Fail)"

text \<open>\<open>_boolean\<close>.\<close>

definition ag_boolean :: "bool \<Rightarrow> json \<Rightarrow> bool outcome" where
  "ag_boolean quiet v = (if quiet then Finished False else of_option (as_bool v))"

subsection \<open>The methods of the evaluator\<close>

definition ev_or_loop :: "json descent \<Rightarrow> json \<Rightarrow> bool \<Rightarrow> token list \<Rightarrow> (json \<times> token list) outcome" where
  "ev_or_loop rec v quiet toks =
     (if is_tok TOp ''||'' toks \<or> is_tok TName ''or'' toks then
        obind (ag_boolean quiet v) (\<lambda>b.
          if b then obind (rec CAnd True (tl toks)) (\<lambda>(_, r). rec (LOr (JBool True)) quiet r)
          else obind (rec CAnd quiet (tl toks)) (\<lambda>(w, r).
                 obind (ag_boolean quiet w) (\<lambda>b'. rec (LOr (JBool b')) quiet r)))
      else Finished (v, toks))"

definition ev_and_loop :: "json descent \<Rightarrow> json \<Rightarrow> bool \<Rightarrow> token list \<Rightarrow> (json \<times> token list) outcome" where
  "ev_and_loop rec v quiet toks =
     (if is_tok TOp ''&&'' toks \<or> is_tok TName ''and'' toks then
        obind (ag_boolean quiet v) (\<lambda>b.
          if \<not> b then obind (rec CIn True (tl toks)) (\<lambda>(_, r). rec (LAnd (JBool False)) quiet r)
          else obind (rec CIn quiet (tl toks)) (\<lambda>(w, r).
                 obind (ag_boolean quiet w) (\<lambda>b'. rec (LAnd (JBool b')) quiet r)))
      else Finished (v, toks))"

definition ev_in_loop :: "json descent \<Rightarrow> json \<Rightarrow> bool \<Rightarrow> token list \<Rightarrow> (json \<times> token list) outcome" where
  "ev_in_loop rec v quiet toks =
     (if is_tok TName ''in'' toks then
        obind (rec CEquality quiet (tl toks)) (\<lambda>(container, r).
          if quiet then rec (LIn JNull) quiet r
          else obind (of_option (ag_contains v container)) (\<lambda>b. rec (LIn (JBool b)) quiet r))
      else Finished (v, toks))"

definition ev_equality_loop ::
  "json descent \<Rightarrow> json \<Rightarrow> bool \<Rightarrow> token list \<Rightarrow> (json \<times> token list) outcome" where
  "ev_equality_loop rec v quiet toks =
     (case op_of [''=='', ''!=''] toks of
        Some op \<Rightarrow>
          obind (rec CComparison quiet (tl toks)) (\<lambda>(right, r).
            rec (LEquality (if quiet then JNull else ag_equality op v right)) quiet r)
      | None \<Rightarrow> Finished (v, toks))"

text \<open>The three loops over operators that check the types of their operands.\<close>

definition ev_binary_loop ::
  "string list \<Rightarrow> json call \<Rightarrow> (json \<Rightarrow> json call) \<Rightarrow> (string \<Rightarrow> json \<Rightarrow> json \<Rightarrow> json option) \<Rightarrow>
     json descent \<Rightarrow> json \<Rightarrow> bool \<Rightarrow> token list \<Rightarrow> (json \<times> token list) outcome" where
  "ev_binary_loop ops sub loop apply_op rec v quiet toks =
     (case op_of ops toks of
        Some op \<Rightarrow>
          obind (rec sub quiet (tl toks)) (\<lambda>(right, r).
            if quiet then rec (loop JNull) quiet r
            else obind (of_option (apply_op op v right)) (\<lambda>w. rec (loop w) quiet r))
      | None \<Rightarrow> Finished (v, toks))"

definition ev_comparison_loop ::
  "json descent \<Rightarrow> json \<Rightarrow> bool \<Rightarrow> token list \<Rightarrow> (json \<times> token list) outcome" where
  "ev_comparison_loop = ev_binary_loop [''<'', ''<='', ''>'', ''>=''] CAdditive LComparison ag_compare"

definition ev_additive_loop ::
  "json descent \<Rightarrow> json \<Rightarrow> bool \<Rightarrow> token list \<Rightarrow> (json \<times> token list) outcome" where
  "ev_additive_loop = ev_binary_loop [''+'', ''-''] CMultiplicative LAdditive ag_additive"

definition ev_multiplicative_loop ::
  "json descent \<Rightarrow> json \<Rightarrow> bool \<Rightarrow> token list \<Rightarrow> (json \<times> token list) outcome" where
  "ev_multiplicative_loop = ev_binary_loop [''*'', ''/'', ''%''] CUnary LMultiplicative ag_multiplicative"

definition ev_unary :: "json descent \<Rightarrow> bool \<Rightarrow> token list \<Rightarrow> (json \<times> token list) outcome" where
  "ev_unary rec quiet toks =
     (if is_tok TOp ''!'' toks \<or> is_tok TName ''not'' toks then
        obind (rec CUnary quiet (tl toks)) (\<lambda>(v, r).
          obind (ag_boolean quiet v) (\<lambda>b. Finished (JBool (\<not> b), r)))
      else if is_tok TOp ''-'' toks then
        obind (rec CUnary quiet (tl toks)) (\<lambda>(v, r).
          if quiet then Finished (JNull, r)
          else obind (of_option (ag_negate v)) (\<lambda>w. Finished (w, r)))
      else rec CPrimary quiet toks)"

text \<open>A number token is an integer unless it has a point.\<close>

definition decimal_value :: "string \<Rightarrow> rat option" where
  "decimal_value s =
     (let neg = starts_with s ''-''; t = (if neg then tl s else s) in
      case split_on (CHR ''.'') t of
        [a, b] \<Rightarrow>
          (case (unsigned_value a, unsigned_value b) of
             (Some n, Some m) \<Rightarrow>
               (let q = of_int n + of_int m / 10 ^ length b in Some (if neg then - q else q))
           | _ \<Rightarrow> None)
      | _ \<Rightarrow> None)"

definition number_value :: "string \<Rightarrow> json option" where
  "number_value s =
     (if contains s ''.'' then map_option JFloat (decimal_value s) else map_option JInt (int_of_str s))"

text \<open>\<open>_single_quote\<close> decodes the UTF-8 bytes of the text as a \<open>unicode_escape\<close> text.\<close>

definition utf8_bytes :: "string \<Rightarrow> string" where
  "utf8_bytes s = concat (map (\<lambda>c. if code c < 128 then [c]
     else [char_of (192 + code c div 64), char_of (128 + code c mod 64)]) s)"

definition single_quote :: "agx_env \<Rightarrow> string \<Rightarrow> string option" where
  "single_quote env s = ax_unicode_escape env (utf8_bytes (butlast (tl s)))"

definition literal_value :: "agx_env \<Rightarrow> token \<Rightarrow> json option" where
  "literal_value env t =
     (case t of
        (TNumber, s) \<Rightarrow> number_value s
      | (TString, s) \<Rightarrow>
          map_option JStr (if starts_with s [CHR 0x22] then ax_json_string env s else single_quote env s)
      | _ \<Rightarrow> None)"

definition keyword_value :: "string \<Rightarrow> json option" where
  "keyword_value s = map_of [(''true'', JBool True), (''false'', JBool False), (''null'', JNull)] s"

definition ev_lookup :: "(string, json) dict \<Rightarrow> bool \<Rightarrow> string \<Rightarrow> json outcome" where
  "ev_lookup scope quiet name =
     (case map_of scope name of
        Some v \<Rightarrow> Finished v | None \<Rightarrow> (if quiet then Finished JNull else Fail))"

definition elements :: "json \<Rightarrow> json list" where
  "elements v = (case v of JArr xs \<Rightarrow> xs | _ \<Rightarrow> [])"

definition ev_args :: "json descent \<Rightarrow> string \<Rightarrow> bool \<Rightarrow> token list \<Rightarrow> (json \<times> token list) outcome" where
  "ev_args rec closer quiet toks =
     (if is_tok TOp closer toks then Finished (JArr [], tl toks)
      else obind (rec COr quiet toks) (\<lambda>(v, r). rec (LArgs closer [v]) quiet r))"

definition ev_args_loop ::
  "json descent \<Rightarrow> string \<Rightarrow> json list \<Rightarrow> bool \<Rightarrow> token list \<Rightarrow> (json \<times> token list) outcome" where
  "ev_args_loop rec closer vs quiet toks =
     (if is_tok TOp '','' toks then
        obind (rec COr quiet (tl toks)) (\<lambda>(v, r). rec (LArgs closer (vs @ [v])) quiet r)
      else obind (expect TOp closer toks) (\<lambda>r. Finished (JArr vs, r)))"

definition ev_primary ::
  "agx_env \<Rightarrow> (string, json) dict \<Rightarrow> json descent \<Rightarrow> bool \<Rightarrow> token list \<Rightarrow> (json \<times> token list) outcome" where
  "ev_primary env scope rec quiet toks =
     (case toks of
        [] \<Rightarrow> Fail
      | (k, s) # r \<Rightarrow>
          (if k = TNumber \<or> k = TString then
             obind (of_option (literal_value env (k, s))) (\<lambda>v. Finished (v, r))
           else if (k, s) = (TOp, ''('') then
             obind (rec COr quiet r) (\<lambda>(v, r'). obind (expect TOp '')'' r') (\<lambda>r''. Finished (v, r'')))
           else if (k, s) = (TOp, ''['') then rec (CArgs '']'') quiet r
           else if k \<noteq> TName then Fail
           else case keyword_value s of
                  Some v \<Rightarrow> Finished (v, r)
                | None \<Rightarrow>
                    (if is_tok TOp ''('' r then
                       obind (rec (CArgs '')'') quiet (tl r)) (\<lambda>(vs, r').
                         if quiet then Finished (JNull, r')
                         else obind (of_option (ag_call env scope s (elements vs))) (\<lambda>v. Finished (v, r')))
                     else obind (ev_lookup scope quiet s) (\<lambda>v. rec (LDots v) quiet r))))"

definition ev_dots_loop :: "json descent \<Rightarrow> json \<Rightarrow> bool \<Rightarrow> token list \<Rightarrow> (json \<times> token list) outcome" where
  "ev_dots_loop rec v quiet toks =
     (if is_tok TOp ''.'' toks then
        (case tl toks of
           (TName, name) # r \<Rightarrow>
             (if quiet then rec (LDots JNull) quiet r
              else obind (of_option (ag_member v name)) (\<lambda>w. rec (LDots w) quiet r))
         | _ \<Rightarrow> Fail)
      else Finished (v, toks))"

text \<open>A method whose body is its operand level followed by its loop.\<close>

definition ev_level ::
  "'v call \<Rightarrow> ('v \<Rightarrow> 'v call) \<Rightarrow> 'v descent \<Rightarrow> bool \<Rightarrow> token list \<Rightarrow> ('v \<times> token list) outcome" where
  "ev_level sub loop rec quiet toks = obind (rec sub quiet toks) (\<lambda>(v, r). rec (loop v) quiet r)"

definition ev_step :: "agx_env \<Rightarrow> (string, json) dict \<Rightarrow> json descent \<Rightarrow> json descent" where
  "ev_step env scope rec c quiet toks =
     (case c of
        COr \<Rightarrow> ev_level CAnd LOr rec quiet toks
      | CAnd \<Rightarrow> ev_level CIn LAnd rec quiet toks
      | CIn \<Rightarrow> ev_level CEquality LIn rec quiet toks
      | CEquality \<Rightarrow> ev_level CComparison LEquality rec quiet toks
      | CComparison \<Rightarrow> ev_level CAdditive LComparison rec quiet toks
      | CAdditive \<Rightarrow> ev_level CMultiplicative LAdditive rec quiet toks
      | CMultiplicative \<Rightarrow> ev_level CUnary LMultiplicative rec quiet toks
      | CUnary \<Rightarrow> ev_unary rec quiet toks
      | CPrimary \<Rightarrow> ev_primary env scope rec quiet toks
      | CArgs closer \<Rightarrow> ev_args rec closer quiet toks
      | LOr v \<Rightarrow> ev_or_loop rec v quiet toks
      | LAnd v \<Rightarrow> ev_and_loop rec v quiet toks
      | LIn v \<Rightarrow> ev_in_loop rec v quiet toks
      | LEquality v \<Rightarrow> ev_equality_loop rec v quiet toks
      | LComparison v \<Rightarrow> ev_comparison_loop rec v quiet toks
      | LAdditive v \<Rightarrow> ev_additive_loop rec v quiet toks
      | LMultiplicative v \<Rightarrow> ev_multiplicative_loop rec v quiet toks
      | LArgs closer vs \<Rightarrow> ev_args_loop rec closer vs quiet toks
      | LDots v \<Rightarrow> ev_dots_loop rec v quiet toks)"

primrec descend :: "agx_env \<Rightarrow> (string, json) dict \<Rightarrow> nat \<Rightarrow> json descent" where
  "descend env scope 0 = (\<lambda>c quiet toks. OutOfFuel)"
| "descend env scope (Suc n) = ev_step env scope (descend env scope n)"

text \<open>
  Every call consumes a token or goes one of eleven levels down, so this fuel is enough;
  \<open>evaluate_returns\<close> below proves it.
\<close>

definition enough_fuel :: "token list \<Rightarrow> nat" where
  "enough_fuel toks = 12 * length toks + 12"

definition parse_tokens :: "agx_env \<Rightarrow> (string, json) dict \<Rightarrow> token list \<Rightarrow> json outcome" where
  "parse_tokens env scope toks =
     obind (descend env scope (enough_fuel toks) COr False toks) (\<lambda>(v, r).
       if r = [] then Finished v else Fail)"

definition agx_evaluate :: "agx_env \<Rightarrow> (string, json) dict \<Rightarrow> string \<Rightarrow> json outcome" where
  "agx_evaluate env scope t = obind (of_option (tokenize t)) (parse_tokens env scope)"

text \<open>\<open>interpolate\<close>: every \<open>${{ expression }}\<close> is replaced by the rendered value of its expression.\<close>

fun split_close :: "string \<Rightarrow> (string \<times> string) option" where
  "split_close [] = None"
| "split_close (c # cs) =
     (if starts_with (c # cs) [CHR 0x7D, CHR 0x7D] then Some ([], drop 1 cs)
      else map_option (\<lambda>(a, r). (c # a, r)) (split_close cs))"

lemma split_close_length: "split_close s = Some (a, r) \<Longrightarrow> length r < length s"
  by (induction s arbitrary: a) (auto split: if_splits)

function agx_interpolate ::
  "agx_env \<Rightarrow> (rat \<Rightarrow> string) \<Rightarrow> (string, json) dict \<Rightarrow> string \<Rightarrow> string outcome" where
  "agx_interpolate env fl scope [] = Finished []"
| "agx_interpolate env fl scope (c # cs) =
     (case (if starts_with (c # cs) [CHR 0x24, CHR 0x7B, CHR 0x7B] then split_close (drop 2 cs) else None) of
        Some (e, r) \<Rightarrow>
          obind (agx_evaluate env scope (py_strip e)) (\<lambda>v.
            obind (agx_interpolate env fl scope r) (\<lambda>s. Finished (stringify fl v @ s)))
      | None \<Rightarrow> obind (agx_interpolate env fl scope cs) (\<lambda>s. Finished (c # s)))"
  by pat_completeness auto
termination
  by (relation "measure (\<lambda>(env, fl, scope, s). length s)")
    (auto dest!: split_close_length split: if_splits)

subsection \<open>Abstract syntax and its parser\<close>

datatype ast =
    ALit json | AVar string | AMember ast string | AArr "ast list" | AFun string ast
  | ANot ast | ANeg ast | AOr ast ast | AAnd ast ast | AIn ast ast | AEqual string ast ast
  | ACompare string ast ast | AAdd string ast ast | AMul string ast ast

type_synonym builder = "ast call \<Rightarrow> token list \<Rightarrow> (ast \<times> token list) outcome"

definition b_level :: "ast call \<Rightarrow> (ast \<Rightarrow> ast call) \<Rightarrow> builder \<Rightarrow> token list \<Rightarrow> (ast \<times> token list) outcome" where
  "b_level sub loop rec toks = obind (rec sub toks) (\<lambda>(a, r). rec (loop a) r)"

definition b_op_loop ::
  "string list \<Rightarrow> ast call \<Rightarrow> (ast \<Rightarrow> ast call) \<Rightarrow> (string \<Rightarrow> ast \<Rightarrow> ast \<Rightarrow> ast) \<Rightarrow> builder \<Rightarrow> ast \<Rightarrow>
     token list \<Rightarrow> (ast \<times> token list) outcome" where
  "b_op_loop ops sub loop mk rec a toks =
     (case op_of ops toks of
        Some op \<Rightarrow> obind (rec sub (tl toks)) (\<lambda>(b, r). rec (loop (mk op a b)) r)
      | None \<Rightarrow> Finished (a, toks))"

definition b_word_loop ::
  "bool \<Rightarrow> ast call \<Rightarrow> (ast \<Rightarrow> ast call) \<Rightarrow> (ast \<Rightarrow> ast \<Rightarrow> ast) \<Rightarrow> builder \<Rightarrow> ast \<Rightarrow> token list \<Rightarrow>
     (ast \<times> token list) outcome" where
  "b_word_loop found sub loop mk rec a toks =
     (if found then obind (rec sub (tl toks)) (\<lambda>(b, r). rec (loop (mk a b)) r) else Finished (a, toks))"

definition b_primary :: "agx_env \<Rightarrow> builder \<Rightarrow> token list \<Rightarrow> (ast \<times> token list) outcome" where
  "b_primary env rec toks =
     (case toks of
        [] \<Rightarrow> Fail
      | (k, s) # r \<Rightarrow>
          (if k = TNumber \<or> k = TString then
             obind (of_option (literal_value env (k, s))) (\<lambda>v. Finished (ALit v, r))
           else if (k, s) = (TOp, ''('') then
             obind (rec COr r) (\<lambda>(a, r'). obind (expect TOp '')'' r') (\<lambda>r''. Finished (a, r'')))
           else if (k, s) = (TOp, ''['') then rec (CArgs '']'') r
           else if k \<noteq> TName then Fail
           else case keyword_value s of
                  Some v \<Rightarrow> Finished (ALit v, r)
                | None \<Rightarrow>
                    (if is_tok TOp ''('' r then
                       obind (rec (CArgs '')'') (tl r)) (\<lambda>(a, r'). Finished (AFun s a, r'))
                     else rec (LDots (AVar s)) r)))"

definition b_step :: "agx_env \<Rightarrow> builder \<Rightarrow> builder" where
  "b_step env rec c toks =
     (case c of
        COr \<Rightarrow> b_level CAnd LOr rec toks
      | CAnd \<Rightarrow> b_level CIn LAnd rec toks
      | CIn \<Rightarrow> b_level CEquality LIn rec toks
      | CEquality \<Rightarrow> b_level CComparison LEquality rec toks
      | CComparison \<Rightarrow> b_level CAdditive LComparison rec toks
      | CAdditive \<Rightarrow> b_level CMultiplicative LAdditive rec toks
      | CMultiplicative \<Rightarrow> b_level CUnary LMultiplicative rec toks
      | CUnary \<Rightarrow>
          (if is_tok TOp ''!'' toks \<or> is_tok TName ''not'' toks then
             obind (rec CUnary (tl toks)) (\<lambda>(a, r). Finished (ANot a, r))
           else if is_tok TOp ''-'' toks then
             obind (rec CUnary (tl toks)) (\<lambda>(a, r). Finished (ANeg a, r))
           else rec CPrimary toks)
      | CPrimary \<Rightarrow> b_primary env rec toks
      | CArgs closer \<Rightarrow>
          (if is_tok TOp closer toks then Finished (AArr [], tl toks)
           else obind (rec COr toks) (\<lambda>(a, r). rec (LArgs closer [a]) r))
      | LOr a \<Rightarrow> b_word_loop (is_tok TOp ''||'' toks \<or> is_tok TName ''or'' toks) CAnd LOr AOr rec a toks
      | LAnd a \<Rightarrow> b_word_loop (is_tok TOp ''&&'' toks \<or> is_tok TName ''and'' toks) CIn LAnd AAnd rec a toks
      | LIn a \<Rightarrow> b_word_loop (is_tok TName ''in'' toks) CEquality LIn AIn rec a toks
      | LEquality a \<Rightarrow> b_op_loop [''=='', ''!=''] CComparison LEquality AEqual rec a toks
      | LComparison a \<Rightarrow> b_op_loop [''<'', ''<='', ''>'', ''>=''] CAdditive LComparison ACompare rec a toks
      | LAdditive a \<Rightarrow> b_op_loop [''+'', ''-''] CMultiplicative LAdditive AAdd rec a toks
      | LMultiplicative a \<Rightarrow> b_op_loop [''*'', ''/'', ''%''] CUnary LMultiplicative AMul rec a toks
      | LArgs closer as \<Rightarrow>
          (if is_tok TOp '','' toks then obind (rec COr (tl toks)) (\<lambda>(a, r). rec (LArgs closer (as @ [a])) r)
           else obind (expect TOp closer toks) (\<lambda>r. Finished (AArr as, r)))
      | LDots a \<Rightarrow>
          (if is_tok TOp ''.'' toks then
             (case tl toks of (TName, name) # r \<Rightarrow> rec (LDots (AMember a name)) r | _ \<Rightarrow> Fail)
           else Finished (a, toks)))"

primrec build :: "agx_env \<Rightarrow> nat \<Rightarrow> builder" where
  "build env 0 = (\<lambda>c toks. OutOfFuel)"
| "build env (Suc n) = b_step env (build env n)"

definition parse_ast :: "agx_env \<Rightarrow> token list \<Rightarrow> ast outcome" where
  "parse_ast env toks =
     obind (build env (enough_fuel toks) COr toks) (\<lambda>(a, r). if r = [] then Finished a else Fail)"

subsection \<open>Semantics of the abstract syntax\<close>

fun sem :: "agx_env \<Rightarrow> (string, json) dict \<Rightarrow> ast \<Rightarrow> json option" where
  "sem env scope (ALit v) = Some v"
| "sem env scope (AVar x) = map_of scope x"
| "sem env scope (AMember a name) = Option.bind (sem env scope a) (\<lambda>v. ag_member v name)"
| "sem env scope (AArr as) = map_option JArr (those (map (sem env scope) as))"
| "sem env scope (AFun f a) = Option.bind (sem env scope a) (\<lambda>v. ag_call env scope f (elements v))"
| "sem env scope (ANot a) = Option.bind (sem env scope a) (\<lambda>v. map_option (\<lambda>b. JBool (\<not> b)) (as_bool v))"
| "sem env scope (ANeg a) = Option.bind (sem env scope a) ag_negate"
| "sem env scope (AOr a b) = Option.bind (sem env scope a) (\<lambda>v. Option.bind (as_bool v) (\<lambda>x.
     if x then Some (JBool True)
     else Option.bind (sem env scope b) (\<lambda>w. map_option JBool (as_bool w))))"
| "sem env scope (AAnd a b) = Option.bind (sem env scope a) (\<lambda>v. Option.bind (as_bool v) (\<lambda>x.
     if x then Option.bind (sem env scope b) (\<lambda>w. map_option JBool (as_bool w))
     else Some (JBool False)))"
| "sem env scope (AIn a b) = Option.bind (sem env scope a) (\<lambda>v. Option.bind (sem env scope b) (\<lambda>w.
     map_option JBool (ag_contains v w)))"
| "sem env scope (AEqual op a b) = Option.bind (sem env scope a) (\<lambda>v. Option.bind (sem env scope b) (\<lambda>w.
     Some (ag_equality op v w)))"
| "sem env scope (ACompare op a b) = Option.bind (sem env scope a) (\<lambda>v. Option.bind (sem env scope b)
     (ag_compare op v))"
| "sem env scope (AAdd op a b) = Option.bind (sem env scope a) (\<lambda>v. Option.bind (sem env scope b)
     (ag_additive op v))"
| "sem env scope (AMul op a b) = Option.bind (sem env scope a) (\<lambda>v. Option.bind (sem env scope b)
     (ag_multiplicative op v))"

subsection \<open>A suppressed operand is only parsed\<close>

definition same_shape :: "(json \<times> token list) outcome \<Rightarrow> (ast \<times> token list) outcome \<Rightarrow> bool" where
  "same_shape E P = (case P of OutOfFuel \<Rightarrow> E = OutOfFuel | Fail \<Rightarrow> E = Fail
     | Finished (a, r) \<Rightarrow> (\<exists>v. E = Finished (v, r)))"

lemma same_shape_simps [simp]:
  "same_shape E OutOfFuel \<longleftrightarrow> E = OutOfFuel" "same_shape E Fail \<longleftrightarrow> E = Fail"
  "same_shape E (Finished (a, r)) \<longleftrightarrow> (\<exists>v. E = Finished (v, r))"
  by (simp_all add: same_shape_def)

lemma same_shape_bind:
  assumes "same_shape E P" and "\<And>a v r. same_shape (F (v, r)) (G (a, r))"
  shows "same_shape (obind E F) (obind P G)"
  using assms by (cases P) auto

lemma same_shape_both: "(\<And>x. same_shape (F x) (G x)) \<Longrightarrow> same_shape (obind m F) (obind m G)"
  by (cases m) auto

abbreviation parallel :: "ast call \<Rightarrow> json call \<Rightarrow> bool" where
  "parallel \<equiv> rel_call (\<lambda>_ _. True)"

lemma list_all2_True: "list_all2 (\<lambda>_ _. True) xs ys \<longleftrightarrow> length xs = length ys"
  by (auto simp: list_all2_conv_all_nth)

lemma ev_boolean_quiet [simp]: "ag_boolean True v = Finished False"
  by (simp add: ag_boolean_def)

lemmas ev_defs = ev_level_def ev_or_loop_def ev_and_loop_def ev_in_loop_def ev_equality_loop_def
  ev_binary_loop_def ev_comparison_loop_def ev_additive_loop_def ev_multiplicative_loop_def ev_unary_def
  ev_args_def ev_args_loop_def ev_dots_loop_def

lemmas b_defs = b_level_def b_op_loop_def b_word_loop_def

lemma quiet_step:
  assumes rec: "\<And>c c' toks. parallel c c' \<Longrightarrow> same_shape (ev c' True toks) (bu c toks)"
    and "parallel c c'"
  shows "same_shape (ev_step env scope ev c' True toks) (b_step env bu c toks)"
proof -
  have look: "obind (ev_lookup scope True s) f = f (case map_of scope s of Some v \<Rightarrow> v | None \<Rightarrow> JNull)" for s f
    by (simp add: ev_lookup_def split: option.splits)
  show ?thesis
    using assms(2)
    by (cases c; cases c')
      (auto simp: ev_step_def b_step_def ev_defs b_defs ev_primary_def b_primary_def look list_all2_True
        intro!: same_shape_bind same_shape_both rec split: option.splits list.splits token_kind.splits prod.splits)
qed

lemma quiet_agrees: "parallel c c' \<Longrightarrow> same_shape (descend env scope n c' True toks) (build env n c toks)"
proof (induction n arbitrary: c c' toks)
  case (Suc n)
  show ?case
    unfolding descend.simps build.simps by (rule quiet_step [OF _ Suc.prems]) (rule Suc.IH)
qed simp

subsection \<open>An operand that is evaluated agrees with the semantics\<close>

definition agrees ::
  "agx_env \<Rightarrow> (string, json) dict \<Rightarrow> (json \<times> token list) outcome \<Rightarrow> (ast \<times> token list) outcome \<Rightarrow> bool" where
  "agrees env scope E P = (case P of OutOfFuel \<Rightarrow> True | Fail \<Rightarrow> E = Fail
     | Finished (a, r) \<Rightarrow> E = (case sem env scope a of Some v \<Rightarrow> Finished (v, r) | None \<Rightarrow> Fail))"

lemma agrees_simps [simp]:
  "agrees env scope E OutOfFuel" "agrees env scope E Fail \<longleftrightarrow> E = Fail"
  "agrees env scope E (Finished (a, r)) \<longleftrightarrow>
     E = (case sem env scope a of Some v \<Rightarrow> Finished (v, r) | None \<Rightarrow> Fail)"
  by (simp_all add: agrees_def)

text \<open>A failing operand makes every expression built on it fail.\<close>

definition strict_after :: "agx_env \<Rightarrow> (string, json) dict \<Rightarrow> ast set \<Rightarrow> (ast \<times> token list) outcome \<Rightarrow> bool" where
  "strict_after env scope as P =
     (\<forall>a r. P = Finished (a, r) \<longrightarrow> (\<exists>b \<in> as. sem env scope b = None) \<longrightarrow> sem env scope a = None)"

lemma strict_after_simps [simp]:
  "strict_after env scope as OutOfFuel" "strict_after env scope as Fail"
  "strict_after env scope as (Finished (a, r)) \<longleftrightarrow>
     ((\<exists>b \<in> as. sem env scope b = None) \<longrightarrow> sem env scope a = None)"
  "strict_after env scope {} P"
  by (auto simp: strict_after_def)

lemma strict_after_bind:
  "(\<And>x. P = Finished x \<Longrightarrow> strict_after env scope as (G x)) \<Longrightarrow> strict_after env scope as (obind P G)"
  by (cases P) auto

lemma strict_after_mono:
  assumes "strict_after env scope bs P"
    and "(\<exists>b \<in> as. sem env scope b = None) \<Longrightarrow> (\<exists>b \<in> bs. sem env scope b = None)"
  shows "strict_after env scope as P"
  using assms by (auto simp: strict_after_def)

lemma strict_step:
  assumes rec: "\<And>c toks. strict_after env scope (set_call c) (bu c toks)"
  shows "strict_after env scope (set_call c) (b_step env bu c toks)"
proof -
  have one: "strict_after env scope {a} (bu c toks)"
    if "set_call c = {b}" "sem env scope a = None \<Longrightarrow> sem env scope b = None" for a b c toks
    using rec [of c toks] that by (auto intro: strict_after_mono)
  have many: "strict_after env scope (set as) (bu (LArgs cl (as @ [a])) toks)" for as a cl toks
    using rec [of "LArgs cl (as @ [a])" toks] by (rule strict_after_mono) auto
  have arr: "(\<exists>a \<in> set as. sem env scope a = None) \<Longrightarrow> those (map (sem env scope) as) = None" for as
    by (induction as) (auto split: option.splits)
  show ?thesis
    by (cases c)
      (auto simp: b_step_def b_defs b_primary_def arr intro!: strict_after_bind one many
        split: option.splits list.splits token_kind.splits prod.splits)
qed

lemma strict_build: "strict_after env scope (set_call c) (build env n c toks)"
proof (induction n arbitrary: c toks)
  case (Suc n)
  show ?case unfolding build.simps by (rule strict_step) (rule Suc.IH)
qed simp

lemma agrees_bind:
  assumes "agrees env scope E P"
    and "\<And>a v r. sem env scope a = Some v \<Longrightarrow> agrees env scope (F (v, r)) (G (a, r))"
    and "\<And>a r. strict_after env scope {a} (G (a, r))"
  shows "agrees env scope (obind E F) (obind P G)"
proof (cases P)
  case (Finished x)
  obtain a r where x: "x = (a, r)" by (cases x)
  show ?thesis
  proof (cases "sem env scope a")
    case None
    then have "E = Fail" using assms(1) Finished x by simp
    moreover have "agrees env scope Fail (G (a, r))"
      using assms(3) [of a r] None by (cases "G (a, r)") (auto simp: strict_after_def)
    ultimately show ?thesis using Finished x by simp
  next
    case (Some v)
    then show ?thesis using assms(1,2) Finished x by simp
  qed
qed (use assms(1) in auto)

lemma agrees_quiet_bind:
  assumes "same_shape E P" and "\<And>a v r. agrees env scope (F (v, r)) (G (a, r))"
  shows "agrees env scope (obind E F) (obind P G)"
  using assms by (cases P) auto

abbreviation evaluates :: "agx_env \<Rightarrow> (string, json) dict \<Rightarrow> ast \<Rightarrow> json \<Rightarrow> bool" where
  "evaluates env scope \<equiv> (\<lambda>a v. sem env scope a = Some v)"

lemma those_map_Some: "list_all2 (evaluates env scope) as vs \<Longrightarrow> those (map (sem env scope) as) = Some vs"
  by (induction rule: list_all2_induct) auto

lemma loud_step:
  assumes rec: "\<And>c c' toks. rel_call (evaluates env scope) c c' \<Longrightarrow>
      agrees env scope (ev c' False toks) (bu c toks)"
    and quiet: "\<And>c c' toks. parallel c c' \<Longrightarrow> same_shape (ev c' True toks) (bu c toks)"
    and strict: "\<And>c toks. strict_after env scope (set_call c) (bu c toks)"
    and "rel_call (evaluates env scope) c c'"
  shows "agrees env scope (ev_step env scope ev c' False toks) (b_step env bu c toks)"
proof -
  have one: "strict_after env scope {a} (bu c toks)"
    if "set_call c = {b}" "sem env scope a = None \<Longrightarrow> sem env scope b = None" for a b c toks
    using strict [of c toks] that by (auto intro: strict_after_mono)
  have many: "strict_after env scope {a} (bu (LArgs cl (as @ [a])) toks)" for as a cl toks
    using strict [of "LArgs cl (as @ [a])" toks] by (rule strict_after_mono) auto
  have bool: "ag_boolean False v = of_option (as_bool v)" for v
    by (simp add: ag_boolean_def)
  have after: "agrees env scope E (bu (la A) r)"
    if "set_call (la A) = {A}"
      and "\<And>v. sem env scope A = Some v \<Longrightarrow> rel_call (evaluates env scope) (la A) (lv v)"
      and "E = (case sem env scope A of Some v \<Rightarrow> ev (lv v) False r | None \<Rightarrow> Fail)"
    for A la lv r E
  proof (cases "sem env scope A")
    case None
    then show ?thesis
      using strict [of "la A" r] that(1,3) by (cases "bu (la A) r") (auto simp: strict_after_def)
  qed (use rec that in auto)
  have loop: "agrees env scope (ev_binary_loop ops cv lv app ev v False toks)
      (b_op_loop ops ca la mk bu a toks)"
    if "sem env scope a = Some v" and "rel_call (evaluates env scope) ca cv"
      and "\<And>A. set_call (la A) = {A}" and "\<And>A v. sem env scope A = Some v \<Longrightarrow> rel_call (evaluates env scope) (la A) (lv v)"
      and "\<And>op b. sem env scope (mk op a b) = Option.bind (sem env scope b) (app op v)"
    for ops cv ca lv la app mk a v
    using that(1,2)
    by (auto simp: ev_binary_loop_def b_op_loop_def of_option_def that(5)
        intro!: agrees_bind rec after [OF that(3,4)] one [OF that(3)] split: option.splits)
  show ?thesis
  proof (cases c)
    case COr
    then show ?thesis using assms(4)
      by (cases c') (auto simp: ev_step_def b_step_def ev_defs b_defs intro!: agrees_bind rec one)
  next
    case CAnd
    then show ?thesis using assms(4)
      by (cases c') (auto simp: ev_step_def b_step_def ev_defs b_defs intro!: agrees_bind rec one)
  next
    case CIn
    then show ?thesis using assms(4)
      by (cases c') (auto simp: ev_step_def b_step_def ev_defs b_defs intro!: agrees_bind rec one)
  next
    case CEquality
    then show ?thesis using assms(4)
      by (cases c') (auto simp: ev_step_def b_step_def ev_defs b_defs intro!: agrees_bind rec one)
  next
    case CComparison
    then show ?thesis using assms(4)
      by (cases c') (auto simp: ev_step_def b_step_def ev_defs b_defs intro!: agrees_bind rec one)
  next
    case CAdditive
    then show ?thesis using assms(4)
      by (cases c') (auto simp: ev_step_def b_step_def ev_defs b_defs intro!: agrees_bind rec one)
  next
    case CMultiplicative
    then show ?thesis using assms(4)
      by (cases c') (auto simp: ev_step_def b_step_def ev_defs b_defs intro!: agrees_bind rec one)
  next
    case CUnary
    then show ?thesis using assms(4)
      by (cases c')
        (auto simp: ev_step_def b_step_def ev_defs bool of_option_def
          intro!: agrees_bind rec split: option.splits)
  next
    case CPrimary
    then have c': "c' = CPrimary" using assms(4) by (cases c') auto
    have call: "agrees env scope
        (obind (ev (CArgs cl) False ts) (\<lambda>(vs, r). obind (of_option (ag_call env scope s (elements vs)))
           (\<lambda>v. Finished (v, r))))
        (obind (bu (CArgs cl) ts) (\<lambda>(a, r). Finished (AFun s a, r)))" for cl s ts
      by (auto intro!: agrees_bind rec simp: of_option_def split: option.splits)
    have paren: "agrees env scope
        (obind (ev COr False ts) (\<lambda>(v, r). obind (expect TOp '')'' r) (\<lambda>r'. Finished (v, r'))))
        (obind (bu COr ts) (\<lambda>(a, r). obind (expect TOp '')'' r) (\<lambda>r'. Finished (a, r'))))" for ts
      by (auto intro!: agrees_bind rec simp: expect_def)
    have name: "agrees env scope (obind (ev_lookup scope False s) (\<lambda>v. ev (LDots v) False ts))
        (bu (LDots (AVar s)) ts)" for s ts
      by (rule after [where lv = LDots]) (auto simp: ev_lookup_def split: option.splits)
    have lit: "agrees env scope (obind (of_option x) (\<lambda>v. Finished (v, ts)))
        (obind (of_option x) (\<lambda>v. Finished (ALit v, ts)))" for x ts
      by (cases x) auto
    show ?thesis
      using call paren name lit CPrimary c'
      by (auto simp: ev_step_def b_step_def ev_primary_def b_primary_def
          intro!: rec split: list.splits option.splits prod.splits)
  next
    case (CArgs cl)
    then show ?thesis using assms(4)
      by (cases c') (auto simp: ev_step_def b_step_def ev_defs intro!: agrees_bind rec one)
  next
    case (LOr a)
    then obtain v where v: "c' = LOr v" "sem env scope a = Some v" using assms(4) by (cases c') auto
    have short: "agrees env scope
        (obind (ev CAnd True ts) (\<lambda>(_, r). ev (LOr (JBool b)) False r))
        (obind (bu CAnd ts) (\<lambda>(x, r). bu (LOr (AOr a x)) r))"
      if "\<And>x. sem env scope (AOr a x) = Some (JBool b)" for ts b
      by (auto intro!: agrees_quiet_bind quiet rec simp: that simp del: sem.simps)
    have long: "agrees env scope
        (obind (ev CAnd False ts) (\<lambda>(w, r). obind (of_option (as_bool w)) (\<lambda>b. ev (LOr (JBool b)) False r)))
        (obind (bu CAnd ts) (\<lambda>(x, r). bu (LOr (AOr a x)) r))"
      if "\<And>x. sem env scope (AOr a x) = Option.bind (sem env scope x) (\<lambda>w. map_option JBool (as_bool w))" for ts
      by (auto intro!: agrees_bind rec after [where lv = LOr] strict_after_mono [OF strict]
          simp: that of_option_def simp del: sem.simps split: option.splits)
    have fail: "agrees env scope Fail (obind (bu CAnd ts) (\<lambda>(x, r). bu (LOr (AOr a x)) r))"
      if "\<And>x. sem env scope (AOr a x) = None" for ts
      by (cases "bu CAnd ts") (auto intro!: after [where lv = LOr] simp: that simp del: sem.simps)
    show ?thesis
      using v LOr short [of True] short [of False] long fail
      by (cases "as_bool v") (auto simp: ev_step_def b_step_def ev_or_loop_def ev_and_loop_def b_word_loop_def bool)
  next
    case (LAnd a)
    then obtain v where v: "c' = LAnd v" "sem env scope a = Some v" using assms(4) by (cases c') auto
    have short: "agrees env scope
        (obind (ev CIn True ts) (\<lambda>(_, r). ev (LAnd (JBool b)) False r))
        (obind (bu CIn ts) (\<lambda>(x, r). bu (LAnd (AAnd a x)) r))"
      if "\<And>x. sem env scope (AAnd a x) = Some (JBool b)" for ts b
      by (auto intro!: agrees_quiet_bind quiet rec simp: that simp del: sem.simps)
    have long: "agrees env scope
        (obind (ev CIn False ts) (\<lambda>(w, r). obind (of_option (as_bool w)) (\<lambda>b. ev (LAnd (JBool b)) False r)))
        (obind (bu CIn ts) (\<lambda>(x, r). bu (LAnd (AAnd a x)) r))"
      if "\<And>x. sem env scope (AAnd a x) = Option.bind (sem env scope x) (\<lambda>w. map_option JBool (as_bool w))" for ts
      by (auto intro!: agrees_bind rec after [where lv = LAnd] strict_after_mono [OF strict]
          simp: that of_option_def simp del: sem.simps split: option.splits)
    have fail: "agrees env scope Fail (obind (bu CIn ts) (\<lambda>(x, r). bu (LAnd (AAnd a x)) r))"
      if "\<And>x. sem env scope (AAnd a x) = None" for ts
      by (cases "bu CIn ts") (auto intro!: after [where lv = LAnd] simp: that simp del: sem.simps)
    show ?thesis
      using v LAnd short [of True] short [of False] long fail
      by (cases "as_bool v") (auto simp: ev_step_def b_step_def ev_or_loop_def ev_and_loop_def b_word_loop_def bool)
  next
    case (LIn a)
    then obtain v where v: "c' = LIn v" "sem env scope a = Some v" using assms(4) by (cases c') auto
    then show ?thesis using LIn
      by (auto simp: ev_step_def b_step_def ev_in_loop_def b_word_loop_def of_option_def
          intro!: agrees_bind rec after strict_after_mono [OF strict] split: option.splits)
  next
    case (LEquality a)
    then obtain v where v: "c' = LEquality v" "sem env scope a = Some v" using assms(4) by (cases c') auto
    then show ?thesis using LEquality
      by (auto simp: ev_step_def b_step_def ev_equality_loop_def b_op_loop_def
          intro!: agrees_bind rec after strict_after_mono [OF strict] split: option.splits)
  next
    case (LComparison a)
    then show ?thesis using assms(4)
      by (cases c') (auto simp: ev_step_def b_step_def ev_comparison_loop_def intro!: loop)
  next
    case (LAdditive a)
    then show ?thesis using assms(4)
      by (cases c') (auto simp: ev_step_def b_step_def ev_additive_loop_def intro!: loop)
  next
    case (LMultiplicative a)
    then show ?thesis using assms(4)
      by (cases c') (auto simp: ev_step_def b_step_def ev_multiplicative_loop_def intro!: loop)
  next
    case (LArgs cl as)
    then show ?thesis using assms(4)
      by (cases c')
        (auto simp: ev_step_def b_step_def ev_defs expect_def those_map_Some list_all2_append
          intro!: agrees_bind rec many list_all2_appendI)
  next
    case (LDots a)
    then obtain v where v: "c' = LDots v" "sem env scope a = Some v" using assms(4) by (cases c') auto
    then show ?thesis using LDots
      by (auto simp: ev_step_def b_step_def ev_dots_loop_def of_option_def
          intro!: after [where lv = LDots] split: list.splits token_kind.splits option.splits)
  qed
qed

lemma loud_agrees:
  "rel_call (evaluates env scope) c c' \<Longrightarrow>
     agrees env scope (descend env scope n c' False toks) (build env n c toks)"
proof (induction n arbitrary: c c' toks)
  case (Suc n)
  show ?case
    unfolding descend.simps build.simps
    by (rule loud_step [OF _ _ _ Suc.prems]) (rule Suc.IH, assumption, rule quiet_agrees, assumption, rule strict_build)
qed simp

subsection \<open>The descent always returns\<close>

fun call_rank :: "'v call \<Rightarrow> nat" where
  "call_rank (CArgs _) = 11"
| "call_rank COr = 10"
| "call_rank CAnd = 9"
| "call_rank CIn = 8"
| "call_rank CEquality = 7"
| "call_rank CComparison = 6"
| "call_rank CAdditive = 5"
| "call_rank CMultiplicative = 4"
| "call_rank CUnary = 3"
| "call_rank CPrimary = 2"
| "call_rank _ = 1"

definition consumed :: "'v call \<Rightarrow> nat" where
  "consumed c = (if call_rank c = 1 then 0 else 1)"

lemma is_tok_tl: "is_tok k v toks \<Longrightarrow> 1 \<le> length toks"
  by (cases toks) (auto simp: is_tok_def)

lemma op_of_tl: "op_of ops toks = Some op \<Longrightarrow> 1 \<le> length toks"
  by (cases toks) (auto simp: op_of_def)

text \<open>A result that exists and leaves at most \<open>m\<close> tokens.\<close>

definition leaves :: "nat \<Rightarrow> ('v \<times> token list) outcome \<Rightarrow> bool" where
  "leaves m E = (E \<noteq> OutOfFuel \<and> (\<forall>v r. E = Finished (v, r) \<longrightarrow> length r \<le> m))"

lemma leaves_simps [simp]:
  "leaves m Fail" "\<not> leaves m OutOfFuel" "leaves m (Finished (v, r)) \<longleftrightarrow> length r \<le> m"
  by (auto simp: leaves_def)

lemma leaves_option: "(\<And>x. v = Some x \<Longrightarrow> leaves m (F x)) \<Longrightarrow> leaves m (obind (of_option v) F)"
  by (cases v) auto

lemma leaves_boolean: "(\<And>b. leaves m (F b)) \<Longrightarrow> leaves m (obind (ag_boolean q v) F)"
  by (cases "as_bool v") (auto simp: ag_boolean_def)

lemma leaves_expect:
  assumes "\<And>r. length toks = Suc (length r) \<Longrightarrow> leaves m (F r)"
  shows "leaves m (obind (expect k v toks) F)"
proof (cases "is_tok k v toks")
  case True
  then have "length toks = Suc (length (tl toks))" using is_tok_tl [OF True] by (cases toks) auto
  then show ?thesis using assms True by (simp add: expect_def)
qed (simp add: expect_def)

lemma leaves_lookup: "(\<And>v. leaves m (F v)) \<Longrightarrow> leaves m (obind (ev_lookup scope q s) F)"
  by (auto simp: ev_lookup_def split: option.splits)

lemma ate_simps [simp]:
  "consumed COr = 1" "consumed CAnd = 1" "consumed CIn = 1" "consumed CEquality = 1"
  "consumed CComparison = 1" "consumed CAdditive = 1" "consumed CMultiplicative = 1"
  "consumed CUnary = 1" "consumed CPrimary = 1" "consumed (CArgs cl) = 1" "consumed (LOr v) = 0"
  "consumed (LAnd v) = 0" "consumed (LIn v) = 0" "consumed (LEquality v) = 0"
  "consumed (LComparison v) = 0" "consumed (LAdditive v) = 0" "consumed (LMultiplicative v) = 0"
  "consumed (LArgs cl vs) = 0" "consumed (LDots v) = 0"
  by (simp_all add: consumed_def)

lemma fuel_step:
  assumes rec: "\<And>c q ts. 12 * length ts + call_rank c \<le> n \<Longrightarrow> leaves (length ts - consumed c) (ev c q ts)"
    and fuel: "12 * length toks + call_rank c \<le> Suc n"
  shows "leaves (length toks - consumed c) (ev_step env scope ev c q toks)"
proof -
  have call: "leaves m (ev c q ts)"
    if "12 * length ts + call_rank c \<le> n" "length ts \<le> m + consumed c" for c q ts m
    using rec [OF that(1), of q] that(2) by (fastforce simp: leaves_def)
  have bind: "leaves m (obind (ev c q ts) F)"
    if "12 * length ts + call_rank c \<le> n"
      and "\<And>v r. length r \<le> length ts - consumed c \<Longrightarrow> leaves m (F (v, r))" for c q ts F m
    using rec [OF that(1), of q] that(2) by (cases "ev c q ts") auto
  note intros = bind call leaves_option leaves_boolean leaves_expect leaves_lookup
  note tok = is_tok_tl op_of_tl
  show ?thesis
  proof (cases c)
    case COr
    with fuel show ?thesis
      by (auto simp: ev_step_def ev_level_def intro!: bind call)
  next
    case CAnd
    with fuel show ?thesis
      by (auto simp: ev_step_def ev_level_def intro!: bind call)
  next
    case CIn
    with fuel show ?thesis
      by (auto simp: ev_step_def ev_level_def intro!: bind call)
  next
    case CEquality
    with fuel show ?thesis
      by (auto simp: ev_step_def ev_level_def intro!: bind call)
  next
    case CComparison
    with fuel show ?thesis
      by (auto simp: ev_step_def ev_level_def intro!: bind call)
  next
    case CAdditive
    with fuel show ?thesis
      by (auto simp: ev_step_def ev_level_def intro!: bind call)
  next
    case CMultiplicative
    with fuel show ?thesis
      by (auto simp: ev_step_def ev_level_def intro!: bind call)
  next
    case CUnary
    have fuel3: "12 * length toks + 3 \<le> Suc n" using fuel CUnary by simp
    have neg: "leaves (length toks - 1) (obind (ev CUnary q (tl toks)) (\<lambda>(v, r).
        obind (ag_boolean q v) (\<lambda>b. Finished (JBool (\<not> b), r))))" if "is_tok k s toks" for k s
      using fuel3 is_tok_tl [OF that] by (intro bind) (auto intro!: leaves_boolean)
    have minus: "leaves (length toks - 1) (obind (ev CUnary q (tl toks)) (\<lambda>(v, r).
        if q then Finished (JNull, r)
        else obind (of_option (ag_negate v)) (\<lambda>w. Finished (w, r))))" if "is_tok k s toks" for k s
      using fuel3 is_tok_tl [OF that] by (intro bind) (auto intro!: leaves_option)
    have prim: "leaves (length toks - 1) (ev CPrimary q toks)"
      using fuel3 by (intro call) auto
    show ?thesis
      unfolding CUnary ev_step_def call.case ev_unary_def ate_simps
      using neg [of TOp "''!''"] neg [of TName "''not''"] minus [of TOp "''-''"] prim by presburger
  next
    case CPrimary
    show ?thesis
    proof (cases toks)
      case Nil
      then show ?thesis by (simp add: CPrimary ev_step_def ev_primary_def)
    next
      case (Cons t r)
      obtain k s where t: "t = (k, s)" by (cases t)
      have n: "12 * length r + 12 \<le> n" using fuel CPrimary Cons by simp
      have paren: "leaves (length r) (obind (ev COr q r) (\<lambda>(v, r'). obind (expect TOp '')'' r') (\<lambda>r''. Finished (v, r''))))"
        using n by (intro bind) (auto intro!: leaves_expect)
      have list: "leaves (length r) (ev (CArgs cl) q r)" for cl using n by (intro call) auto
      have fn: "leaves (length r) (obind (ev (CArgs cl) q (tl r)) (\<lambda>(vs, r').
          if q then Finished (JNull, r')
          else obind (of_option (ag_call env scope s (elements vs))) (\<lambda>v. Finished (v, r'))))" for cl
        using n by (intro bind) (auto intro!: leaves_option)
      have ref: "leaves (length r) (obind (ev_lookup scope q s) (\<lambda>v. ev (LDots v) q r))"
        using n by (intro leaves_lookup call) auto
      have lit: "leaves (length r) (obind (of_option x) (\<lambda>v. Finished (v, r)))" for x
        by (rule leaves_option) simp
      show ?thesis
        using paren list fn ref lit CPrimary Cons t
        by (cases k) (auto simp: ev_step_def ev_primary_def split: option.split)
    qed
  next
    case (CArgs cl)
    with fuel show ?thesis
      by (auto simp: ev_step_def ev_args_def intro!: bind call dest!: tok)
  next
    case (LOr a)
    with fuel show ?thesis
      by (auto simp: ev_step_def ev_or_loop_def intro!: intros dest!: tok)
  next
    case (LAnd a)
    with fuel show ?thesis
      by (auto simp: ev_step_def ev_and_loop_def intro!: intros dest!: tok)
  next
    case (LIn a)
    with fuel show ?thesis
      by (auto simp: ev_step_def ev_in_loop_def intro!: intros dest!: tok split: option.splits)
  next
    case (LEquality a)
    with fuel show ?thesis
      by (auto simp: ev_step_def ev_equality_loop_def intro!: intros dest!: tok split: option.splits)
  next
    case (LComparison a)
    with fuel show ?thesis
      by (auto simp: ev_step_def ev_comparison_loop_def ev_binary_loop_def intro!: intros dest!: tok split: option.splits)
  next
    case (LAdditive a)
    with fuel show ?thesis
      by (auto simp: ev_step_def ev_additive_loop_def ev_binary_loop_def intro!: intros dest!: tok split: option.splits)
  next
    case (LMultiplicative a)
    with fuel show ?thesis
      by (auto simp: ev_step_def ev_multiplicative_loop_def ev_binary_loop_def intro!: intros dest!: tok split: option.splits)
  next
    case (LArgs cl as)
    with fuel show ?thesis
      by (auto simp: ev_step_def ev_args_loop_def intro!: intros dest!: tok)
  next
    case (LDots a)
    with fuel show ?thesis
      by (cases toks)
        (auto simp: ev_step_def ev_dots_loop_def intro!: intros split: list.splits token_kind.splits)
  qed
qed

lemma descend_returns:
  "12 * length toks + call_rank c \<le> n \<Longrightarrow> leaves (length toks - consumed c) (descend env scope n c q toks)"
proof (induction n arbitrary: c q toks)
  case 0
  then show ?case by (cases c) auto
next
  case (Suc n)
  show ?case unfolding descend.simps by (rule fuel_step [OF _ Suc.prems]) (rule Suc.IH)
qed

lemma parse_tokens_returns: "parse_tokens env scope toks \<noteq> OutOfFuel"
  using descend_returns [of toks "COr :: json call" "enough_fuel toks" env scope False]
  by (cases "descend env scope (enough_fuel toks) COr False toks")
    (auto simp: parse_tokens_def enough_fuel_def split: if_splits)

lemma agx_evaluate_returns: "agx_evaluate env scope t \<noteq> OutOfFuel"
  by (cases "tokenize t") (simp_all add: agx_evaluate_def parse_tokens_returns)

lemma agx_interpolate_returns: "agx_interpolate env fl scope tmpl \<noteq> OutOfFuel"
proof (induction env fl scope tmpl rule: agx_interpolate.induct)
  case (2 env fl scope c cs)
  show ?case
  proof (cases "if starts_with (c # cs) [CHR 0x24, CHR 0x7B, CHR 0x7B] then split_close (drop 2 cs) else None")
    case None
    then show ?thesis using 2(1) by (cases "agx_interpolate env fl scope cs") auto
  next
    case (Some er)
    obtain e r where er: "er = (e, r)" by (cases er)
    then have "agx_interpolate env fl scope r \<noteq> OutOfFuel" using 2(2) [OF Some] by blast
    then show ?thesis
      using Some er agx_evaluate_returns [of env scope "py_strip e"]
      by (cases "agx_evaluate env scope (py_strip e)"; cases "agx_interpolate env fl scope r") auto
  qed
qed simp

text \<open>
  C40. Evaluation always returns. The fuel of the evaluator is enough for every list of tokens, so
  every expression and every template yields a value or an error.
\<close>

theorem evaluate_returns:
  "agx_evaluate env scope t \<noteq> OutOfFuel \<and> agx_interpolate env fl scope tmpl \<noteq> OutOfFuel"
  by (simp add: agx_evaluate_returns agx_interpolate_returns)

text \<open>
  C19. Evaluating while parsing is parsing and then evaluating. For every list of tokens the
  single-pass evaluator, with its suppressed operands, gives what the semantics of the abstract
  syntax gives on the parsed tree: the same value when the tokens parse and the tree has a value,
  and an error otherwise.
\<close>

theorem evaluator_implements_semantics:
  "parse_tokens env scope toks
     = (case parse_ast env toks of Finished a \<Rightarrow> of_option (sem env scope a) | _ \<Rightarrow> Fail)"
proof -
  let ?n = "enough_fuel toks"
  let ?E = "descend env scope ?n COr False toks" and ?P = "build env ?n COr toks"
  have a: "agrees env scope ?E ?P" by (rule loud_agrees) simp
  have "same_shape (descend env scope ?n COr True toks) ?P" by (rule quiet_agrees) simp
  moreover have "descend env scope ?n COr True toks \<noteq> OutOfFuel"
    using descend_returns [of toks "COr :: json call" ?n env scope True]
    by (auto simp: enough_fuel_def leaves_def)
  ultimately have "?P \<noteq> OutOfFuel" by auto
  then show ?thesis
    using a by (cases ?P) (auto simp: parse_tokens_def parse_ast_def of_option_def split: option.splits)
qed

subsection \<open>Behaviours to know about\<close>

definition plain_env :: agx_env where
  "plain_env = \<lparr>ax_builtin = (\<lambda>f args. None), ax_json_string = (\<lambda>s. Some (butlast (tl s))),
     ax_unicode_escape = Some\<rparr>"

text \<open>The tokenizer reads a minus before a digit as the sign of a number, so \<open>x-1\<close> does not parse.\<close>

lemma subtraction_needs_spaces:
  "agx_evaluate plain_env [(''x'', JInt 5)] ''x-1'' = Fail"
  "agx_evaluate plain_env [(''x'', JInt 5)] ''x - 1'' = Finished (JInt 4)"
  by code_simp+

text \<open>Values of different types are never equal, but membership in an array uses Python's equality.\<close>

lemma membership_ignores_types:
  "agx_evaluate plain_env [] ''true == 1'' = Finished (JBool False)"
  "agx_evaluate plain_env [] ''true in [1]'' = Finished (JBool True)"
  by code_simp+

text \<open>A character outside ASCII in single quotes comes out as the two bytes of its UTF-8 code.\<close>

lemma single_quoted_text_is_garbled:
  "agx_evaluate plain_env [] [CHR 0x27, CHR 0xE9, CHR 0x27] = Finished (JStr [CHR 0xC3, CHR 0xA9])"
  "agx_evaluate plain_env [] [CHR 0x22, CHR 0xE9, CHR 0x22] = Finished (JStr [CHR 0xE9])"
  by code_simp+

end
