(* ===== verification/Agraph_Plan.thy ===== *)
theory Agraph_Plan
  imports Agx_Expr
begin

text \<open>
  Agentic-graph documents and their order of execution: \<open>src/loro/agraph/plan.py\<close> and
  \<open>src/loro/agraph/schedule.py\<close>.

  A document is the JSON object that \<open>load_graph\<close> read and the schema of
  \<open>src/loro/agraph/schema/agentic-graph-1.0.schema.json\<close> accepted, as typed data. A member the
  code reads with \<open>.get(key, default)\<close> is stored with its effective value, one it tests for
  presence is an option. Blocks, fragments and graphs are mutually recursive; the members that
  are not recursive are kept in records.
\<close>

subsection \<open>Documents\<close>

record graph_edge =
  ed_from :: string
  ed_to :: string
  ed_kind :: string
  ed_when :: "string option"

record output_spec =
  os_type :: string
  os_required :: bool
  os_redact :: bool
  os_schema :: "json option"
  os_path_hint :: "string option"

datatype input_source = FromExpr string | FromTemplate string | FromValue json | FromDefault json

record input_spec =
  is_source :: input_source
  is_required :: bool

record criterion =
  cr_id :: string
  cr_kind :: string
  cr_severity :: string
  cr_item :: "(string, json) dict"

record success_block =
  su_mode :: string
  su_count :: "int option"
  su_criteria :: "criterion list"

record intelligence =
  it_tier :: string
  it_escalate :: "string option"
  it_allow_downgrade :: bool
  it_min_context :: "int option"

record requirements =
  rq_tools :: "json list"
  rq_permissions :: "string list"
  rq_mcp_servers :: "string list"
  rq_skills :: "string list"
  rq_environment :: "string list"
  rq_secrets :: "string list"
  rq_workspace :: string

datatype fallback_strategy =
    FbSkip | FbDegrade "string list" | FbRelax "string list" | FbHuman string | FbAlternate string

record fallback_step =
  fb_when :: "string option"
  fb_strategy :: fallback_strategy

record failure_policy =
  fp_max_attempts :: int
  fp_retry_on :: "string list"
  fp_fallback :: "fallback_step list"
  fp_on_exhausted :: string
  fp_compensation :: "string option"

record checkpoint =
  cp_at :: string
  cp_mode :: string
  cp_prompt :: string
  cp_roles :: "string list"
  cp_when :: "string option"

record collect_spec =
  co_type :: string
  co_required :: bool
  co_default :: "json option"

record gate_block =
  gt_mode :: string
  gt_prompt :: string
  gt_roles :: "string list"
  gt_collect :: "(string, collect_spec) dict"

record branch =
  br_label :: string
  br_when :: string

record decision_block =
  db_evaluator :: string
  db_question :: string
  db_branches :: "branch list"
  db_default :: "string option"

record node_constraints =
  nc_max_agent_steps :: "int option"
  nc_max_tool_calls :: "int option"
  nc_max_input_tokens :: "int option"
  nc_max_output_tokens :: "int option"
  nc_max_cost :: "rat option"
  nc_group :: string

record graph_ref =
  rf_uri :: string
  rf_integrity :: string
  rf_expected_id :: string

record block_info =
  bl_use :: "string option"
  bl_ref :: "graph_ref option"
  bl_mode :: string
  bl_condition :: string
  bl_over :: string
  bl_as :: string
  bl_index_as :: string
  bl_max_items :: "int option"
  bl_max_iterations :: "int option"
  bl_on_over_limit :: string
  bl_on_item_failure :: string
  bl_min_successes :: int
  bl_on_max_iterations :: string
  bl_collect :: "(string, string) dict"
  bl_carry :: "(string, string) dict"
  bl_params :: "(string, string) dict"
  bl_context :: "(string, json) dict"
  bl_inherit_context :: bool
  bl_outputs_from :: "(string, string) dict"

record node_info =
  nd_type :: string
  nd_title :: string
  nd_description :: string
  nd_instructions :: string
  nd_depends_on :: "string list"
  nd_join :: string
  nd_join_count :: int
  nd_when :: "string option"
  nd_inputs :: "(string, input_spec) dict"
  nd_outputs :: "(string, output_spec) dict"
  nd_success :: "success_block option"
  nd_intelligence :: "intelligence option"
  nd_requirements :: requirements
  nd_constraints :: node_constraints
  nd_failure :: failure_policy
  nd_human :: "checkpoint list"
  nd_gate :: "gate_block option"
  nd_decision :: "decision_block option"
  nd_cost :: "rat option"
  nd_profile :: "string option"
  nd_extensions :: "string list"

record param_spec =
  ps_type :: string
  ps_required :: bool
  ps_default :: "json option"
  ps_redact :: bool
  ps_schema :: "json option"

record graph_info =
  gi_id :: string
  gi_conformance :: int
  gi_entrypoints :: "string list"
  gi_edges :: "graph_edge list"
  gi_params :: "(string, param_spec) dict"
  gi_context :: "(string, json) dict"
  gi_secrets :: "(string, bool) dict"
  gi_outputs :: "(string, string) dict"
  gi_max_parallel :: int
  gi_max_executions :: "int option"
  gi_max_cost :: "rat option"
  gi_max_tokens :: "int option"
  gi_max_wall :: "rat option"
  gi_max_depth :: int

text \<open>
  \<open>gr_subgraphs\<close> is the member \<open>subgraphs\<close>; a node holds a block per member \<open>loop\<close>, \<open>map\<close> and
  \<open>subgraph\<close> it has, and a block its \<open>body\<close> and \<open>inline\<close> fragments.
\<close>

datatype graph =
  Graph (gr_info: graph_info) (gr_nodes: "(string \<times> node) list") (gr_subgraphs: "(string \<times> graph) list")
and node = Node (nd_info: node_info) (nd_blocks: "(string \<times> block) list")
and block = Block (bk_info: block_info) (bk_body: "graph option") (bk_inline: "graph option")

abbreviation node_ids :: "graph \<Rightarrow> string list" where
  "node_ids g \<equiv> map fst (gr_nodes g)"

subsection \<open>Edges\<close>

definition edge_key :: "graph_edge \<Rightarrow> string \<times> string \<times> string \<times> string" where
  "edge_key e = (ed_from e, ed_to e, ed_kind e, case ed_when e of None \<Rightarrow> [] | Some w \<Rightarrow> w)"

fun first_by_key :: "('a \<Rightarrow> 'k) \<Rightarrow> 'k set \<Rightarrow> 'a list \<Rightarrow> 'a list" where
  "first_by_key f seen [] = []"
| "first_by_key f seen (x # xs) =
     (if f x \<in> seen then first_by_key f seen xs
      else x # first_by_key f (insert (f x) seen) xs)"

definition declared_edges :: "graph \<Rightarrow> graph_edge list" where
  "declared_edges g =
     gi_edges (gr_info g)
     @ concat (map (\<lambda>(n, nd). map (\<lambda>d. \<lparr>ed_from = d, ed_to = n, ed_kind = ''sequence'', ed_when = None\<rparr>)
                                (nd_depends_on (nd_info nd))) (gr_nodes g))"

definition effective_edges :: "graph \<Rightarrow> graph_edge list" where
  "effective_edges g = first_by_key edge_key {} (declared_edges g)"

subsection \<open>Topological order\<close>

definition declaration_index :: "string list \<Rightarrow> string \<Rightarrow> nat" where
  "declaration_index ids n = length (takeWhile (\<lambda>m. m \<noteq> n) ids)"

text \<open>
  One target of the node just emitted: its count goes down, and at zero it joins the ready list,
  which is sorted again.
\<close>

definition relax ::
  "string list \<Rightarrow> string \<Rightarrow> (string \<Rightarrow> int) \<times> string list \<Rightarrow> (string \<Rightarrow> int) \<times> string list" where
  "relax ids t s =
     (case s of (inc, ready) \<Rightarrow>
        let inc' = inc(t := inc t - 1) in
        (inc', if inc' t = 0 then sort_key (declaration_index ids) (ready @ [t]) else ready))"

definition outgoing :: "string list \<Rightarrow> graph_edge list \<Rightarrow> string \<Rightarrow> string list" where
  "outgoing ids es n =
     map ed_to (filter (\<lambda>e. ed_from e = n \<and> ed_from e \<in> set ids \<and> ed_to e \<in> set ids) es)"

definition positive_counts :: "string list \<Rightarrow> (string \<Rightarrow> int) \<Rightarrow> nat" where
  "positive_counts ids inc = (\<Sum>n \<in> set ids. nat (inc n))"

lemma relax_measure:
  assumes "t \<in> set ids" and "relax ids t (inc, ready) = (inc', ready')"
  shows "positive_counts ids inc' + length ready' \<le> positive_counts ids inc + length ready"
proof -
  have split: "positive_counts ids f = nat (f t) + (\<Sum>n \<in> set ids - {t}. nat (f n))" for f :: "string \<Rightarrow> int"
    unfolding positive_counts_def using assms(1) by (intro sum.remove) auto
  have same: "(\<Sum>n \<in> set ids - {t}. nat ((inc(t := v)) n)) = (\<Sum>n \<in> set ids - {t}. nat (inc n))" for v
    by (intro sum.cong) auto
  have "positive_counts ids (inc(t := v)) = nat v + (\<Sum>n \<in> set ids - {t}. nat (inc n))" for v
    using split [of "inc(t := v)"] same by simp
  then show ?thesis
    using assms(2) split [of inc] by (auto simp: relax_def Let_def split: if_splits)
qed

lemma fold_relax_measure:
  assumes "set ts \<subseteq> set ids" and "fold (relax ids) ts (inc, ready) = (inc', ready')"
  shows "positive_counts ids inc' + length ready' \<le> positive_counts ids inc + length ready"
  using assms
proof (induction ts arbitrary: inc ready)
  case (Cons t ts)
  obtain i r where r: "relax ids t (inc, ready) = (i, r)" by fastforce
  have "positive_counts ids i + length r \<le> positive_counts ids inc + length ready"
    using Cons.prems(1) by (intro relax_measure [OF _ r]) simp
  moreover have "positive_counts ids inc' + length ready' \<le> positive_counts ids i + length r"
    using Cons.prems r by (intro Cons.IH) simp_all
  ultimately show ?case by simp
qed simp

function topo_loop ::
  "string list \<Rightarrow> graph_edge list \<Rightarrow> (string \<Rightarrow> int) \<Rightarrow> string list \<Rightarrow> string list \<Rightarrow> string list" where
  "topo_loop ids es inc [] result = result"
| "topo_loop ids es inc (n # ready) result =
     (case fold (relax ids) (outgoing ids es n) (inc, ready) of
        (inc', ready') \<Rightarrow> topo_loop ids es inc' ready' (result @ [n]))"
  by pat_completeness auto
termination
proof (relation "measure (\<lambda>(ids, es, inc, ready, result). positive_counts ids inc + length ready)")
  fix ids es inc n ready result inc' ready'
  assume "(inc', ready') = fold (relax ids) (outgoing ids es n) (inc, ready)"
  moreover have "set (outgoing ids es n) \<subseteq> set ids" by (auto simp: outgoing_def)
  ultimately have "positive_counts ids inc' + length ready' \<le> positive_counts ids inc + length ready"
    using fold_relax_measure by simp
  then show "((ids, es, inc', ready', result @ [n]), ids, es, inc, n # ready, result)
      \<in> measure (\<lambda>(ids, es, inc, ready, result). positive_counts ids inc + length ready)"
    by simp
qed simp

definition incoming_count :: "string list \<Rightarrow> graph_edge list \<Rightarrow> string \<Rightarrow> int" where
  "incoming_count ids es n =
     int (length (filter (\<lambda>e. ed_to e = n \<and> ed_from e \<in> set ids \<and> ed_to e \<in> set ids) es))"

definition topological_sort :: "string list \<Rightarrow> graph_edge list \<Rightarrow> string list" where
  "topological_sort ids es =
     (let inc = incoming_count ids es in
      topo_loop ids es inc (sort_key (declaration_index ids) (filter (\<lambda>n. inc n = 0) ids)) [])"

definition topological_order :: "graph \<Rightarrow> string list" where
  "topological_order g = topological_sort (node_ids g) (effective_edges g)"


subsection \<open>Agreement with the declarative order\<close>

text \<open>
  The order the documentation promises: again and again the first node in declaration order whose
  predecessors have all been emitted.
\<close>

definition available :: "string list \<Rightarrow> graph_edge list \<Rightarrow> string list \<Rightarrow> string \<Rightarrow> bool" where
  "available ids es emitted n \<longleftrightarrow>
     n \<notin> set emitted
     \<and> (\<forall>e \<in> set es. ed_to e = n \<and> ed_from e \<in> set ids \<longrightarrow> ed_from e \<in> set emitted)"

function first_available_order :: "string list \<Rightarrow> graph_edge list \<Rightarrow> string list \<Rightarrow> string list" where
  "first_available_order ids es emitted =
     (case List.find (available ids es emitted) ids of
        None \<Rightarrow> emitted
      | Some n \<Rightarrow> first_available_order ids es (emitted @ [n]))"
  by pat_completeness auto
termination
proof (relation "measure (\<lambda>(ids, es, emitted). card (set ids - set emitted))")
  fix ids es emitted n
  assume "List.find (available ids es emitted) ids = Some n"
  then have "n \<in> set ids" "n \<notin> set emitted"
    by (auto simp: find_Some_iff available_def)
  then have "set ids - set (emitted @ [n]) \<subset> set ids - set emitted" by auto
  then show "((ids, es, emitted @ [n]), ids, es, emitted)
      \<in> measure (\<lambda>(ids, es, emitted). card (set ids - set emitted))"
    by (simp add: psubset_card_mono)
qed simp

declare first_available_order.simps [simp del]

lemma declaration_index_nth:
  assumes "distinct ids" and "i < length ids"
  shows "declaration_index ids (ids ! i) = i"
proof -
  have "takeWhile (\<lambda>m. m \<noteq> ids ! i) ids = take i ids"
    using assms by (intro takeWhile_eq_take_P_nth) (auto simp: nth_eq_iff_index_eq)
  then show ?thesis using assms(2) by (simp add: declaration_index_def)
qed

lemma map_declaration_index: "distinct ids \<Longrightarrow> map (declaration_index ids) ids = [0..<length ids]"
  by (auto intro!: nth_equalityI simp: declaration_index_nth)

lemma inj_declaration_index: "distinct ids \<Longrightarrow> inj_on (declaration_index ids) (set ids)"
  using map_declaration_index [of ids] by (metis distinct_map distinct_upt)

lemma sorted_declared_filter:
  "distinct ids \<Longrightarrow> sorted (map (declaration_index ids) (filter P ids))"
  by (intro sorted_filter) (simp add: map_declaration_index)

lemma declared_list_unique:
  assumes "distinct ids" and "set xs \<subseteq> set ids" and "distinct xs"
    and "sorted (map (declaration_index ids) xs)" and "set xs = {n \<in> set ids. P n}"
  shows "xs = filter P ids"
proof -
  have inj: "inj_on (declaration_index ids) (set xs \<union> set (filter P ids))"
    using inj_declaration_index [OF assms(1)] assms(2) by (auto intro: inj_on_subset)
  have "map (declaration_index ids) xs = map (declaration_index ids) (filter P ids)"
    using assms inj sorted_declared_filter [OF assms(1), of P]
    by (intro sorted_distinct_set_unique) (auto simp: distinct_map intro: inj_on_subset)
  then show ?thesis using inj by (rule map_inj_on)
qed

lemma fold_relax:
  assumes "\<forall>t \<in> set ts. int (count_list ts t) \<le> inc t" and "\<forall>r \<in> set ready. inc r = 0"
    and "distinct ready" and "sorted (map (declaration_index ids) ready)"
    and "fold (relax ids) ts (inc, ready) = (inc', ready')"
  shows "inc' = (\<lambda>t. inc t - int (count_list ts t)) \<and> distinct ready'
    \<and> sorted (map (declaration_index ids) ready')
    \<and> set ready' = set ready \<union> {t \<in> set ts. inc' t = 0}"
  using assms
proof (induction ts arbitrary: inc ready)
  case (Cons t ts)
  define i where "i = inc(t := inc t - 1)"
  define r where "r = (if i t = 0 then sort_key (declaration_index ids) (ready @ [t]) else ready)"
  have pos: "1 \<le> inc t" using Cons.prems(1) by simp
  have relax: "relax ids t (inc, ready) = (i, r)"
    by (simp add: relax_def i_def r_def Let_def)
  have step: "fold (relax ids) ts (i, r) = (inc', ready')"
    using Cons.prems(5) by (simp add: relax)
  have ready: "\<forall>x \<in> set r. i x = 0" "distinct r" "sorted (map (declaration_index ids) r)"
    and set_r: "set r = set ready \<union> (if i t = 0 then {t} else {})"
    using Cons.prems(2-4) pos by (auto simp: r_def i_def)
  have below: "\<forall>x \<in> set ts. int (count_list ts x) \<le> i x"
    using Cons.prems(1) by (auto simp: i_def)
  have IH: "inc' = (\<lambda>x. i x - int (count_list ts x))" "distinct ready'"
      "sorted (map (declaration_index ids) ready')"
      "set ready' = set r \<union> {x \<in> set ts. inc' x = 0}"
    using Cons.IH [OF below ready step] by simp_all
  have counts: "inc' = (\<lambda>x. inc x - int (count_list (t # ts) x))"
    unfolding IH(1) by (auto simp: i_def)
  have hit: "inc' t = 0 \<longleftrightarrow> i t = 0 \<or> (t \<in> set ts \<and> inc' t = 0)"
  proof (cases "t \<in> set ts")
    case True
    then have "1 \<le> count_list ts t" using count_list_0_iff [of ts t] by linarith
    then show ?thesis using True below by auto
  next
    case False
    then show ?thesis by (simp add: IH(1))
  qed
  have "set ready' = set ready \<union> {x \<in> set (t # ts). inc' x = 0}"
    unfolding IH(4) set_r using hit by auto
  then show ?case using counts IH(2,3) by simp
qed auto

definition open_edges :: "string list \<Rightarrow> graph_edge list \<Rightarrow> string list \<Rightarrow> string \<Rightarrow> graph_edge list" where
  "open_edges ids es emitted n =
     filter (\<lambda>e. ed_to e = n \<and> ed_from e \<in> set ids \<and> ed_from e \<notin> set emitted) es"

lemma count_outgoing:
  "t \<in> set ids \<Longrightarrow> n \<notin> set emitted \<Longrightarrow> n \<in> set ids \<Longrightarrow>
     length (open_edges ids es emitted t)
       = count_list (outgoing ids es n) t + length (open_edges ids es (emitted @ [n]) t)"
  by (induction es) (auto simp: open_edges_def outgoing_def)

lemma outgoing_subset: "set (outgoing ids es n) \<subseteq> set ids"
  by (auto simp: outgoing_def)

lemma available_open:
  "available ids es emitted n \<longleftrightarrow> n \<notin> set emitted \<and> open_edges ids es emitted n = []"
  by (auto simp: available_def open_edges_def filter_empty_conv)

lemma find_filter: "List.find P xs = (case filter P xs of [] \<Rightarrow> None | x # _ \<Rightarrow> Some x)"
  by (induction xs) auto

lemma topo_loop_order:
  assumes "distinct ids"
    and "\<forall>n \<in> set ids. inc n = int (length (open_edges ids es emitted n))"
    and "\<forall>n \<in> set emitted. n \<in> set ids \<longrightarrow> inc n = 0"
    and "ready = filter (available ids es emitted) ids"
  shows "topo_loop ids es inc ready emitted = first_available_order ids es emitted"
  using assms
proof (induction ids es inc ready emitted rule: topo_loop.induct)
  case (1 ids es inc emitted)
  have "List.find (available ids es emitted) ids = None"
    using 1(4) by (simp add: find_filter)
  then show ?case by (subst first_available_order.simps) simp
next
  case (2 ids es inc n ready emitted)
  obtain inc' ready' where f: "fold (relax ids) (outgoing ids es n) (inc, ready) = (inc', ready')"
    by fastforce
  have "n \<in> set (filter (available ids es emitted) ids)"
    by (metis "2.prems"(4) list.set_intros(1))
  then have n: "n \<in> set ids" "n \<notin> set emitted" "open_edges ids es emitted n = []"
    by (auto simp: available_open)
  have all_ready: "set (n # ready) = {m \<in> set ids. available ids es emitted m}"
    and dist: "distinct (n # ready)" and sorted: "sorted (map (declaration_index ids) (n # ready))"
    using "2.prems"(1) sorted_declared_filter [OF "2.prems"(1)]
    by (simp_all only: "2.prems"(4) set_filter distinct_filter)
  have zero: "\<forall>r \<in> set ready. inc r = 0"
  proof
    fix r assume "r \<in> set ready"
    then have "r \<in> set ids" "available ids es emitted r" using all_ready by auto
    then show "inc r = 0" using "2.prems"(2) by (simp add: available_open)
  qed
  have open_le: "\<forall>t \<in> set (outgoing ids es n). int (count_list (outgoing ids es n) t) \<le> inc t"
    using count_outgoing [of _ ids n emitted es] "2.prems"(2) n(1,2) outgoing_subset [of ids es n]
    by (metis (no_types, lifting) in_mono le_add1 of_nat_mono)
  have out: "inc' = (\<lambda>t. inc t - int (count_list (outgoing ids es n) t))" "distinct ready'"
      "sorted (map (declaration_index ids) ready')"
      "set ready' = set ready \<union> {t \<in> set (outgoing ids es n). inc' t = 0}"
    using fold_relax [OF open_le zero _ _ f] dist sorted by simp_all
  have inc': "\<forall>m \<in> set ids. inc' m = int (length (open_edges ids es (emitted @ [n]) m))"
    using count_outgoing [OF _ n(2,1), of _ es] "2.prems"(2) by (simp add: out(1))
  have done_zero: "\<forall>m \<in> set (emitted @ [n]). m \<in> set ids \<longrightarrow> inc' m = 0"
  proof (intro ballI impI)
    fix m assume m: "m \<in> set (emitted @ [n])" "m \<in> set ids"
    have "open_edges ids es emitted m = []"
      using m "2.prems"(2,3) n(3) by auto
    then show "inc' m = 0" using inc' m(2) count_outgoing [OF m(2) n(2,1), of es] by simp
  qed
  have "set ready' = {m \<in> set ids. available ids es (emitted @ [n]) m}"
  proof (intro set_eqI iffI)
    fix m assume "m \<in> set ready'"
    then consider "m \<in> set ready" | "m \<in> set (outgoing ids es n)" "inc' m = 0"
      using out(4) by auto
    then show "m \<in> {m \<in> set ids. available ids es (emitted @ [n]) m}"
    proof cases
      case 1
      then have "m \<in> set ids" "available ids es emitted m" "m \<noteq> n" using all_ready dist by auto
      then show ?thesis by (auto simp: available_def)
    next
      case 2
      then have "m \<in> set ids" "count_list (outgoing ids es n) m \<noteq> 0"
        using outgoing_subset [of ids es n] by (auto simp: count_list_0_iff)
      moreover from this have "m \<notin> set (emitted @ [n])"
        using open_le "2.prems"(3) n(3) "2.prems"(2) \<open>m \<in> set (outgoing ids es n)\<close> by force
      ultimately show ?thesis using 2(2) inc' by (simp add: available_open)
    qed
  next
    fix m assume "m \<in> {m \<in> set ids. available ids es (emitted @ [n]) m}"
    then have m: "m \<in> set ids" "m \<notin> set (emitted @ [n])" "open_edges ids es (emitted @ [n]) m = []"
      by (auto simp: available_open)
    then have z: "inc' m = 0" using inc' by simp
    show "m \<in> set ready'"
    proof (cases "m \<in> set (outgoing ids es n)")
      case False
      then have "open_edges ids es emitted m = []"
        using count_outgoing [OF m(1) n(2,1), of es] m(3) by (simp add: count_list_0_iff)
      then have "m \<in> set (n # ready)" unfolding all_ready using m by (simp add: available_open)
      then show ?thesis using m(2) out(4) by simp
    qed (use z out(4) in simp)
  qed
  then have "ready' = filter (available ids es (emitted @ [n])) ids"
    using out(2,3) "2.prems"(1) by (intro declared_list_unique) auto
  then have "topo_loop ids es inc' ready' (emitted @ [n]) = first_available_order ids es (emitted @ [n])"
    using "2.IH" [OF f [symmetric]] "2.prems"(1) inc' done_zero by simp
  moreover have "List.find (available ids es emitted) ids = Some n"
    using "2.prems"(4) [symmetric] by (simp add: find_filter)
  ultimately show ?case using f by (subst first_available_order.simps) simp
qed


definition respects_edges :: "string list \<Rightarrow> graph_edge list \<Rightarrow> string list \<Rightarrow> bool" where
  "respects_edges ids es xs \<longleftrightarrow>
     distinct xs \<and> set xs \<subseteq> set ids
     \<and> (\<forall>i < length xs. \<forall>e \<in> set es. ed_to e = xs ! i \<and> ed_from e \<in> set ids \<longrightarrow>
           ed_from e \<in> set (take i xs))"

lemma respects_edges_snoc:
  assumes "respects_edges ids es xs" and "n \<in> set ids" and "available ids es xs n"
  shows "respects_edges ids es (xs @ [n])"
  using assms
  by (auto simp: respects_edges_def available_def nth_append less_Suc_eq)

lemma first_available_order_respects:
  "respects_edges ids es emitted \<Longrightarrow>
     respects_edges ids es (first_available_order ids es emitted)
     \<and> (\<forall>n \<in> set ids. \<not> available ids es (first_available_order ids es emitted) n)"
proof (induction ids es emitted rule: first_available_order.induct)
  case (1 ids es emitted)
  show ?case
  proof (cases "List.find (available ids es emitted) ids")
    case None
    then have "first_available_order ids es emitted = emitted"
      by (subst first_available_order.simps) simp
    then show ?thesis using None 1(2) by (simp add: find_None_iff)
  next
    case (Some n)
    then have "n \<in> set ids" "available ids es emitted n" by (auto simp: find_Some_iff)
    moreover have "first_available_order ids es emitted = first_available_order ids es (emitted @ [n])"
      using Some by (subst first_available_order.simps) simp
    ultimately show ?thesis using 1(1) [OF Some] respects_edges_snoc [OF 1(2)] by simp
  qed
qed

lemma topological_order_first_available:
  assumes "distinct (node_ids g)"
  shows "topological_order g = first_available_order (node_ids g) (effective_edges g) []"
proof -
  let ?ids = "node_ids g" and ?es = "effective_edges g"
  have inc: "\<forall>n \<in> set ?ids. incoming_count ?ids ?es n = int (length (open_edges ?ids ?es [] n))"
    by (auto simp: incoming_count_def open_edges_def intro!: arg_cong [of _ _ length] filter_cong)
  have "filter (\<lambda>n. incoming_count ?ids ?es n = 0) ?ids = filter (available ?ids ?es []) ?ids"
    using inc by (intro filter_cong) (auto simp: available_open)
  moreover have "sort_key (declaration_index ?ids) (filter P ?ids) = filter P ?ids" for P
    using sorted_declared_filter [OF assms] by (rule sort_key_id)
  ultimately show ?thesis
    using topo_loop_order [OF assms inc] by (simp add: topological_order_def topological_sort_def Let_def)
qed

lemma topological_order_respects:
  assumes "distinct (node_ids g)"
  shows "respects_edges (node_ids g) (effective_edges g) (topological_order g)"
    and "n \<in> set (node_ids g) \<Longrightarrow> \<not> available (node_ids g) (effective_edges g) (topological_order g) n"
  using first_available_order_respects [of "node_ids g" "effective_edges g" "[]"]
  unfolding topological_order_first_available [OF assms]
  by (auto simp: respects_edges_def)

subsection \<open>Plans\<close>

text \<open>\<open>_reachable\<close>: the breadth-first closure of the entry points along the edges.\<close>

definition targets_of :: "graph_edge list \<Rightarrow> string \<Rightarrow> string list" where
  "targets_of es n = map ed_to (filter (\<lambda>e. ed_from e = n) es)"

definition visit_target :: "string \<Rightarrow> string list \<times> string list \<Rightarrow> string list \<times> string list" where
  "visit_target t s =
     (case s of (found, queue) \<Rightarrow> if t \<in> set found then (found, queue) else (found @ [t], queue @ [t]))"

definition edge_nodes :: "graph_edge list \<Rightarrow> string set" where
  "edge_nodes es = ed_to ` set es"

lemma fold_visit_measure:
  assumes "set ts \<subseteq> edge_nodes es" and "fold visit_target ts (found, queue) = (found', queue')"
  shows "card (edge_nodes es - set found') + length queue' \<le> card (edge_nodes es - set found) + length queue"
  using assms
proof (induction ts arbitrary: found queue)
  case (Cons t ts)
  have fin: "finite (edge_nodes es)" by (simp add: edge_nodes_def)
  show ?case
  proof (cases "t \<in> set found")
    case True
    then show ?thesis using Cons by (simp add: visit_target_def)
  next
    case False
    have "card (edge_nodes es - set found') + length queue'
        \<le> card (edge_nodes es - set (found @ [t])) + length (queue @ [t])"
      using Cons.prems False by (intro Cons.IH) (simp_all add: visit_target_def)
    moreover have "edge_nodes es - set (found @ [t]) \<subset> edge_nodes es - set found"
      using Cons.prems(1) False by auto
    then have "card (edge_nodes es - set (found @ [t])) < card (edge_nodes es - set found)"
      using fin by (intro psubset_card_mono) auto
    ultimately show ?thesis by simp
  qed
qed simp

function reach_loop :: "graph_edge list \<Rightarrow> string list \<Rightarrow> string list \<Rightarrow> string list" where
  "reach_loop es found [] = found"
| "reach_loop es found (n # queue) =
     (case fold visit_target (targets_of es n) (found, queue) of (found', queue') \<Rightarrow> reach_loop es found' queue')"
  by pat_completeness auto
termination
proof (relation "measure (\<lambda>(es, found, queue). card (edge_nodes es - set found) + length queue)")
  fix es found n queue found' queue'
  assume "(found', queue') = fold visit_target (targets_of es n) (found, queue)"
  moreover have "set (targets_of es n) \<subseteq> edge_nodes es" by (auto simp: targets_of_def edge_nodes_def)
  ultimately have "card (edge_nodes es - set found') + length queue' \<le> card (edge_nodes es - set found) + length queue"
    using fold_visit_measure by simp
  then show "((es, found', queue'), es, found, n # queue)
      \<in> measure (\<lambda>(es, found, queue). card (edge_nodes es - set found) + length queue)"
    by simp
qed simp

definition reachable_from :: "string list \<Rightarrow> graph_edge list \<Rightarrow> string list" where
  "reachable_from entry es = reach_loop es (remdups entry) entry"

definition edge_relation :: "graph_edge list \<Rightarrow> (string \<times> string) set" where
  "edge_relation es = (\<lambda>e. (ed_from e, ed_to e)) ` set es"

lemma visit_target_old: "t \<in> set found \<Longrightarrow> visit_target t (found, queue) = (found, queue)"
  by (simp add: visit_target_def)

lemma visit_target_new:
  "t \<notin> set found \<Longrightarrow> visit_target t (found, queue) = (found @ [t], queue @ [t])"
  by (simp add: visit_target_def)

lemma fold_visit_found:
  "fold visit_target ts (found, queue) = (found', queue') \<Longrightarrow>
     set found' = set found \<union> set ts \<and> set queue' \<subseteq> set queue \<union> set ts
     \<and> set queue \<union> (set ts - set found) \<subseteq> set queue'"
proof (induction ts arbitrary: found queue)
  case (Cons t ts)
  show ?case
  proof (cases "t \<in> set found")
    case True
    then have "fold visit_target ts (found, queue) = (found', queue')"
      using Cons.prems visit_target_old [OF True] by simp
    from Cons.IH [OF this] True show ?thesis by auto
  next
    case False
    then have "fold visit_target ts (found @ [t], queue @ [t]) = (found', queue')"
      using Cons.prems visit_target_new [OF False] by simp
    from Cons.IH [OF this] show ?thesis by auto
  qed
qed simp

lemma targets_of_relation: "set (targets_of es n) = edge_relation es `` {n}"
  by (auto simp: targets_of_def edge_relation_def image_iff)

lemma reach_loop_closed:
  assumes "set queue \<subseteq> set found" and "edge_relation es `` (set found - set queue) \<subseteq> set found"
    and "set found \<subseteq> (edge_relation es)\<^sup>* `` R" and "R \<subseteq> set found"
  shows "set (reach_loop es found queue) = (edge_relation es)\<^sup>* `` R"
  using assms
proof (induction es found queue rule: reach_loop.induct)
  case (1 es found)
  have "(edge_relation es)\<^sup>* `` R \<subseteq> set found"
    using Image_closed_trancl [of "edge_relation es" "set found"] 1(2)
      Image_mono [OF subset_refl 1(4), of "(edge_relation es)\<^sup>*"]
    by simp
  then show ?case using 1(3) by auto
next
  case (2 es found n queue)
  obtain found' queue' where f: "fold visit_target (targets_of es n) (found, queue) = (found', queue')"
    by fastforce
  have sets: "set found' = set found \<union> edge_relation es `` {n}"
      "set queue' \<subseteq> set queue \<union> edge_relation es `` {n}"
      "set queue \<union> (edge_relation es `` {n} - set found) \<subseteq> set queue'"
    using fold_visit_found [OF f] by (auto simp: targets_of_relation)
  have n: "n \<in> (edge_relation es)\<^sup>* `` R" using "2.prems"(1,3) by auto
  have "set found' \<subseteq> (edge_relation es)\<^sup>* `` R"
    using "2.prems"(3) n unfolding sets(1) by (auto intro: rtrancl_into_rtrancl)
  moreover have "set queue' \<subseteq> set found'" using sets "2.prems"(1) by auto
  moreover have "edge_relation es `` (set found' - set queue') \<subseteq> set found'"
  proof
    fix t assume "t \<in> edge_relation es `` (set found' - set queue')"
    then obtain m where m: "m \<in> set found'" "m \<notin> set queue'" "(m, t) \<in> edge_relation es" by auto
    then have "m \<in> set found" "m \<notin> set queue" using sets by auto
    then show "t \<in> set found'" using "2.prems"(2) m(3) sets(1) by (cases "m = n") auto
  qed
  moreover have "R \<subseteq> set found'" using "2.prems"(4) sets(1) by blast
  ultimately have "set (reach_loop es found' queue') = (edge_relation es)\<^sup>* `` R"
    by (intro "2.IH" [OF f [symmetric]])
  then show ?case using f by simp
qed

lemma reachable_from_closure:
  "set (reachable_from entry es) = (edge_relation es)\<^sup>* `` set entry"
  unfolding reachable_from_def by (rule reach_loop_closed) auto

text \<open>
  \<open>_worst_case\<close> and \<open>_worst_cost\<close>. A block runs its \<open>body\<close>, its \<open>inline\<close> fragment or the fragment
  of the enclosing document that \<open>use\<close> names; the width multiplies what is inside.
\<close>

definition body_of :: "(string \<times> graph) list \<Rightarrow> block \<Rightarrow> graph option" where
  "body_of subs b =
     (case bk_body b of
        Some g \<Rightarrow> Some g
      | None \<Rightarrow>
          (case bk_inline b of
             Some g \<Rightarrow> Some g
           | None \<Rightarrow> (case bl_use (bk_info b) of None \<Rightarrow> None | Some u \<Rightarrow> map_of subs u)))"

definition own_body :: "graph \<Rightarrow> node \<Rightarrow> (block_info \<times> graph) option" where
  "own_body g nd =
     (case map_of (nd_blocks nd) (nd_type (nd_info nd)) of
        None \<Rightarrow> None
      | Some b \<Rightarrow> map_option (\<lambda>f. (bk_info b, f)) (body_of (gr_subgraphs g) b))"

definition block_width :: "block_info \<Rightarrow> int" where
  "block_width b =
     (case bl_max_iterations b of
        Some k \<Rightarrow> k
      | None \<Rightarrow> (case bl_max_items b of Some k \<Rightarrow> k | None \<Rightarrow> 1))"

lemma map_of_size:
  "map_of ps k = Some v \<Longrightarrow> f v \<le> size_list (size_prod g f) ps"
  by (induction ps) (auto split: if_splits)

lemma in_set_size: "(k, v) \<in> set ps \<Longrightarrow> f v \<le> size_list (size_prod h f) ps"
  by (induction ps) auto

lemma own_body_size:
  assumes "(k, nd) \<in> set (gr_nodes g)" and "own_body g nd = Some (b, f)"
  shows "size f < size g"
proof -
  obtain info ns subs where g: "g = Graph info ns subs" by (cases g)
  obtain ni bs where nd: "nd = Node ni bs" by (cases nd)
  obtain bk where bk: "map_of bs (nd_type ni) = Some bk" "body_of subs bk = Some f"
    using assms(2) by (auto simp: own_body_def g nd split: option.splits)
  have in_graph: "size nd \<le> size_list (size_prod (\<lambda>_. 0) size) ns"
    using assms(1) by (intro in_set_size) (simp add: g)
  have in_node: "size bk \<le> size_list (size_prod (\<lambda>_. 0) size) bs"
    by (rule map_of_size [OF bk(1)])
  have "size f \<le> size bk \<or> size f \<le> size_list (size_prod (\<lambda>_. 0) size) subs"
    using bk(2) map_of_size [of subs _ f size "\<lambda>_. 0"]
    by (cases bk) (auto simp: body_of_def split: option.splits)
  then show ?thesis using in_graph in_node by (auto simp: g nd)
qed

function worst_case :: "graph \<Rightarrow> int \<Rightarrow> int" where
  "worst_case g multiplier =
     sum_list (map (\<lambda>p.
       let factor = multiplier * fp_max_attempts (nd_failure (nd_info (snd p))) in
       factor
       + (case own_body g (snd p) of
            None \<Rightarrow> 0
          | Some bf \<Rightarrow> worst_case (snd bf) (factor * block_width (fst bf)))) (gr_nodes g))"
  by pat_completeness auto
termination
  by (relation "measure (size \<circ> fst)") (auto dest: own_body_size)

declare worst_case.simps [simp del]

definition add_cost :: "rat option \<Rightarrow> rat option \<Rightarrow> rat option" where
  "add_cost a b =
     (case (a, b) of (Some x, Some y) \<Rightarrow> Some (x + y) | (Some x, None) \<Rightarrow> Some x | (None, y) \<Rightarrow> y)"

function worst_cost :: "graph \<Rightarrow> int \<Rightarrow> rat option" where
  "worst_cost g multiplier =
     fold (\<lambda>p total.
       let factor = multiplier * fp_max_attempts (nd_failure (nd_info (snd p))) in
       add_cost
         (add_cost total (map_option (\<lambda>c. c * of_int factor) (nd_cost (nd_info (snd p)))))
         (case own_body g (snd p) of
            None \<Rightarrow> None
          | Some bf \<Rightarrow> worst_cost (snd bf) (factor * block_width (fst bf)))) (gr_nodes g) None"
  by pat_completeness auto
termination
  by (relation "measure (size \<circ> fst)") (auto dest: own_body_size)

declare worst_cost.simps [simp del]

definition node_tier :: "node \<Rightarrow> string" where
  "node_tier nd =
     (case nd_intelligence (nd_info nd) of None \<Rightarrow> ''standard'' | Some i \<Rightarrow> it_tier i)"

definition count_up :: "string \<Rightarrow> (string, nat) dict \<Rightarrow> (string, nat) dict" where
  "count_up k d = AList.update k (Suc (case map_of d k of None \<Rightarrow> 0 | Some n \<Rightarrow> n)) d"

definition tier_histogram :: "graph \<Rightarrow> (string, nat) dict" where
  "tier_histogram g =
     fold (\<lambda>(_, nd) d. if nd_type (nd_info nd) = ''gate'' then d else count_up (node_tier nd) d) (gr_nodes g) []"

record graph_plan =
  gp_graph_id :: string
  gp_node_count :: nat
  gp_order :: "string list"
  gp_reachable :: "string list"
  gp_edges :: "graph_edge list"
  gp_worst_case :: int
  gp_cost :: "rat option"
  gp_tiers :: "(string, nat) dict"
  gp_max_parallel :: int

definition build_plan :: "graph \<Rightarrow> graph_plan" where
  "build_plan g =
     (let edges = effective_edges g;
          order = topological_order g;
          reach = reachable_from (gi_entrypoints (gr_info g)) edges in
      \<lparr>gp_graph_id = gi_id (gr_info g), gp_node_count = length (gr_nodes g), gp_order = order,
       gp_reachable = filter (\<lambda>n. n \<in> set reach) order, gp_edges = edges,
       gp_worst_case = worst_case g 1, gp_cost = worst_cost g 1, gp_tiers = tier_histogram g,
       gp_max_parallel = gi_max_parallel (gr_info g)\<rparr>)"


subsection \<open>Scheduling\<close>

datatype run_status =
    Pending | Running | Succeeded | Failed | Skipped | Blocked | Cancelled | Awaiting_Human

fun run_status_text :: "run_status \<Rightarrow> string" where
  "run_status_text Pending = ''pending''"
| "run_status_text Running = ''running''"
| "run_status_text Succeeded = ''succeeded''"
| "run_status_text Failed = ''failed''"
| "run_status_text Skipped = ''skipped''"
| "run_status_text Blocked = ''blocked''"
| "run_status_text Cancelled = ''cancelled''"
| "run_status_text Awaiting_Human = ''awaiting_human''"

type_synonym scope = "(string, json) dict"
type_synonym states = "(string, run_status) dict"

definition terminal :: "run_status \<Rightarrow> bool" where
  "terminal s \<longleftrightarrow> s \<in> {Succeeded, Failed, Skipped, Blocked, Cancelled}"

text \<open>\<open>evaluate\<close>; an \<open>ExpressionError\<close> is \<open>None\<close>.\<close>

definition eval_in :: "agx_env \<Rightarrow> scope \<Rightarrow> string \<Rightarrow> json option" where
  "eval_in env scope t = (case agx_evaluate env scope t of Finished v \<Rightarrow> Some v | _ \<Rightarrow> None)"

definition scope_nodes :: "scope \<Rightarrow> (string, json) dict" where
  "scope_nodes scope = (case map_of scope ''nodes'' of Some (JObj d) \<Rightarrow> d | _ \<Rightarrow> [])"

definition node_binding :: "run_status \<Rightarrow> (string, json) dict \<Rightarrow> json" where
  "node_binding s outputs = JObj [(''status'', JStr (run_status_text s)), (''outputs'', JObj outputs)]"

text \<open>\<open>scope["nodes"][node_id] = {...}\<close>.\<close>

definition bind_node :: "string \<Rightarrow> json \<Rightarrow> scope \<Rightarrow> scope" where
  "bind_node n v scope = AList.update ''nodes'' (JObj (AList.update n v (scope_nodes scope))) scope"

definition edge_active :: "agx_env \<Rightarrow> states \<Rightarrow> scope \<Rightarrow> graph_edge \<Rightarrow> bool option" where
  "edge_active env states scope e =
     (let source = map_of states (ed_from e);
          base = (if ed_kind e = ''on_failure'' then source \<in> {Some Failed, Some Blocked}
                  else source = Some Succeeded) in
      if \<not> base then Some False
      else case ed_when e of
             None \<Rightarrow> Some True
           | Some w \<Rightarrow> map_option truthy (eval_in env scope w))"

definition edges_into :: "graph \<Rightarrow> string \<Rightarrow> graph_edge list" where
  "edges_into g n = filter (\<lambda>e. ed_to e = n) (effective_edges g)"

definition status_of :: "states \<Rightarrow> string \<Rightarrow> run_status" where
  "status_of states n = (case map_of states n of None \<Rightarrow> Pending | Some s \<Rightarrow> s)"

definition all_terminal :: "states \<Rightarrow> graph_edge list \<Rightarrow> bool" where
  "all_terminal states es \<longleftrightarrow>
     list_all (\<lambda>e. case map_of states (ed_from e) of None \<Rightarrow> False | Some s \<Rightarrow> terminal s) es"

definition edges_needed :: "node_info \<Rightarrow> nat \<Rightarrow> int" where
  "edges_needed ni count =
     (if nd_join ni = ''n_of'' then nd_join_count ni else if nd_join ni = ''all'' then int count else 1)"

definition active_count :: "bool list \<Rightarrow> int" where
  "active_count bs = int (length (filter id bs))"

definition skip_node :: "string \<Rightarrow> states \<Rightarrow> scope \<Rightarrow> states \<times> scope" where
  "skip_node n states scope = (AList.update n Skipped states, bind_node n (node_binding Skipped []) scope)"

text \<open>The body of the loop of \<open>ready_nodes\<close> for one node.\<close>

datatype visit = Passed | Ready | Skip

definition visit_node :: "agx_env \<Rightarrow> graph \<Rightarrow> string \<Rightarrow> states \<Rightarrow> scope \<Rightarrow> visit option" where
  "visit_node env g n states scope =
     (let es = edges_into g n in
      if status_of states n \<noteq> Pending then Some Passed
      else if es = [] then Some (if n \<in> set (gi_entrypoints (gr_info g)) then Ready else Skip)
      else if \<not> all_terminal states es then Some Passed
      else case (those (map (edge_active env states scope) es), map_of (gr_nodes g) n) of
             (Some active, Some nd) \<Rightarrow>
               Some (if edges_needed (nd_info nd) (length active) \<le> active_count active then Ready else Skip)
           | _ \<Rightarrow> None)"

fun ready_scan ::
  "agx_env \<Rightarrow> graph \<Rightarrow> string list \<Rightarrow> states \<Rightarrow> scope \<Rightarrow> string list \<Rightarrow> (string list \<times> states \<times> scope) option" where
  "ready_scan env g [] states scope ready = Some (ready, states, scope)"
| "ready_scan env g (n # ns) states scope ready =
     (case visit_node env g n states scope of
        None \<Rightarrow> None
      | Some Passed \<Rightarrow> ready_scan env g ns states scope ready
      | Some Ready \<Rightarrow> ready_scan env g ns states scope (ready @ [n])
      | Some Skip \<Rightarrow>
          (case skip_node n states scope of
             (states', scope') \<Rightarrow> ready_scan env g ns states' scope' ready))"

definition ready_nodes :: "agx_env \<Rightarrow> graph \<Rightarrow> states \<Rightarrow> scope \<Rightarrow> (string list \<times> states \<times> scope) option" where
  "ready_nodes env g states scope = ready_scan env g (topological_order g) states scope []"


subsection \<open>What the scheduler guarantees\<close>

definition edge_ready :: "states \<Rightarrow> graph_edge \<Rightarrow> bool" where
  "edge_ready states e \<longleftrightarrow>
     (if ed_kind e = ''on_failure'' then status_of states (ed_from e) \<in> {Failed, Blocked}
      else status_of states (ed_from e) = Succeeded)"

text \<open>
  A node may start: it is pending, everything it depends on has ended, and as many of its
  incoming edges as its join asks for come from a node that ended the way the edge asks for. A
  node without incoming edges has to be an entry point.
\<close>

definition may_start :: "graph \<Rightarrow> states \<Rightarrow> string \<Rightarrow> bool" where
  "may_start g states n \<longleftrightarrow>
     status_of states n = Pending
     \<and> (if edges_into g n = [] then n \<in> set (gi_entrypoints (gr_info g))
        else \<exists>nd. map_of (gr_nodes g) n = Some nd
          \<and> (\<forall>e \<in> set (edges_into g n). terminal (status_of states (ed_from e)))
          \<and> edges_needed (nd_info nd) (length (edges_into g n))
              \<le> int (length (filter (edge_ready states) (edges_into g n))))"

lemma terminal_simps [simp]:
  "terminal Succeeded" "terminal Failed" "terminal Skipped" "terminal Blocked" "terminal Cancelled"
  "\<not> terminal Pending" "\<not> terminal Running" "\<not> terminal Awaiting_Human"
  by (simp_all add: terminal_def)

lemma status_of_update [simp]:
  "status_of (AList.update n s states) m = (if m = n then s else status_of states m)"
  by (simp add: status_of_def dict_simps)

lemma all_terminal_iff: "all_terminal states es \<longleftrightarrow> (\<forall>e \<in> set es. terminal (status_of states (ed_from e)))"
  by (auto simp: all_terminal_def status_of_def list_all_iff split: option.splits)

lemma edge_active_ready: "edge_active env states scope e = Some True \<Longrightarrow> edge_ready states e"
  by (auto simp: edge_active_def edge_ready_def status_of_def Let_def split: if_splits)

lemma active_edges_ready:
  "those (map (edge_active env states scope) es) = Some active \<Longrightarrow>
     active_count active \<le> int (length (filter (edge_ready states) es)) \<and> length active = length es"
proof (induction es arbitrary: active)
  case (Cons e es)
  then obtain b bs where "edge_active env states scope e = Some b" "active = b # bs"
      "those (map (edge_active env states scope) es) = Some bs"
    by (auto split: option.splits)
  then show ?case using Cons.IH [of bs] edge_active_ready [of env states scope e]
    by (cases b) (auto simp: active_count_def)
qed (simp add: active_count_def)

lemma visit_ready: "visit_node env g n states scope = Some Ready \<Longrightarrow> may_start g states n"
  by (auto simp: visit_node_def may_start_def Let_def all_terminal_iff
      dest!: active_edges_ready split: if_splits option.splits)

lemma visit_skip: "visit_node env g n states scope = Some Skip \<Longrightarrow> status_of states n = Pending"
  by (auto simp: visit_node_def Let_def split: if_splits)

lemma visit_passed:
  "visit_node env g n states scope = Some Passed \<Longrightarrow>
     status_of states n \<noteq> Pending \<or> \<not> all_terminal states (edges_into g n)"
  by (auto simp: visit_node_def Let_def split: if_splits option.splits)

definition only_skips :: "states \<Rightarrow> states \<Rightarrow> string set \<Rightarrow> bool" where
  "only_skips states states' ns \<longleftrightarrow>
     (\<forall>m. status_of states' m = status_of states m
        \<or> (m \<in> ns \<and> status_of states m = Pending \<and> status_of states' m = Skipped))"

lemma only_skips_refl: "only_skips states states ns"
  by (simp add: only_skips_def)

lemma only_skips_step:
  assumes "status_of states n = Pending" and "only_skips (AList.update n Skipped states) states' ns"
  shows "only_skips states states' (insert n ns)"
  using assms by (auto simp: only_skips_def split: if_splits)

lemma only_skips_mono: "only_skips states states' ns \<Longrightarrow> ns \<subseteq> ms \<Longrightarrow> only_skips states states' ms"
  by (auto simp: only_skips_def)

lemma may_start_later:
  assumes "may_start g states n" and "only_skips states states' ns" and "n \<notin> ns"
  shows "may_start g states' n"
proof -
  have keep: "status_of states' m = status_of states m" if "m = n \<or> terminal (status_of states m)" for m
    using assms(2,3) that unfolding only_skips_def by (metis terminal_simps(6))
  have "filter (edge_ready states') (edges_into g n) = filter (edge_ready states) (edges_into g n)"
    if "\<forall>e \<in> set (edges_into g n). terminal (status_of states (ed_from e))"
    using that keep by (intro filter_cong) (auto simp: edge_ready_def)
  then show ?thesis
    using assms(1) keep unfolding may_start_def by (auto split: if_splits)
qed

lemma ready_scan_sound:
  assumes "ready_scan env g ns states scope ready = Some (ready', states', scope')" and "distinct ns"
  shows "only_skips states states' (set ns)
    \<and> set ready \<subseteq> set ready' \<and> (\<forall>n \<in> set ready'. n \<in> set ready \<or> (n \<in> set ns \<and> may_start g states' n))"
  using assms
proof (induction env g ns states scope ready rule: ready_scan.induct)
  case (2 env g n ns states scope ready)
  show ?case
  proof (cases "visit_node env g n states scope")
    case None
    then show ?thesis using 2(4) by simp
  next
    case (Some v)
    show ?thesis
    proof (cases v)
      case Passed
      then have "ready_scan env g ns states scope ready = Some (ready', states', scope')"
        using 2(4) Some by simp
      from 2(1) [OF Some Passed this] 2(5) show ?thesis by (auto intro: only_skips_mono)
    next
      case Ready
      then have "ready_scan env g ns states scope (ready @ [n]) = Some (ready', states', scope')"
        using 2(4) Some by simp
      from 2(2) [OF Some Ready this] 2(5)
      have IH: "only_skips states states' (set ns)" "set (ready @ [n]) \<subseteq> set ready'"
          "\<forall>m \<in> set ready'. m \<in> set (ready @ [n]) \<or> (m \<in> set ns \<and> may_start g states' m)"
        by auto
      have "may_start g states' n"
        using visit_ready [OF Some [unfolded Ready]] IH(1) 2(5) by (auto intro: may_start_later)
      then show ?thesis using IH by (auto intro: only_skips_mono)
    next
      case Skip
      obtain st sc where sk: "skip_node n states scope = (st, sc)" by fastforce
      then have "ready_scan env g ns st sc ready = Some (ready', states', scope')"
        using 2(4) Some Skip by simp
      from 2(3) [OF Some Skip sk [symmetric] this] 2(5)
      have IH: "only_skips st states' (set ns)" "set ready \<subseteq> set ready'"
          "\<forall>m \<in> set ready'. m \<in> set ready \<or> (m \<in> set ns \<and> may_start g states' m)"
        by auto
      moreover have "st = AList.update n Skipped states" using sk by (simp add: skip_node_def)
      ultimately show ?thesis
        using only_skips_step [OF visit_skip [OF Some [unfolded Skip]]] by auto
    qed
  qed
qed (auto simp: only_skips_refl)

lemma topological_order_distinct: "distinct (node_ids g) \<Longrightarrow> distinct (topological_order g)"
  using topological_order_respects(1) [of g] by (simp add: respects_edges_def)

lemma ready_scan_progress:
  assumes "ready_scan env g ns states scope [] = Some ([], states', scope')" and "distinct (pre @ ns)"
    and "\<forall>n \<in> set pre. terminal (status_of states n)"
    and "\<forall>n \<in> set ns. status_of states n = Pending \<or> terminal (status_of states n)"
    and "\<forall>i < length ns. \<forall>e \<in> set (edges_into g (ns ! i)). ed_from e \<in> set (pre @ take i ns)"
  shows "\<forall>n \<in> set (pre @ ns). terminal (status_of states' n)"
  using assms
proof (induction ns arbitrary: pre states scope)
  case (Cons n ns)
  have preds: "\<forall>e \<in> set (edges_into g n). ed_from e \<in> set pre"
    using Cons.prems(5) by (metis append_Nil2 length_greater_0_conv list.distinct(1) nth_Cons_0 take0)
  then have ended: "all_terminal states (edges_into g n)"
    using Cons.prems(3) by (simp add: all_terminal_iff)
  have later: "\<forall>i < length ns. \<forall>e \<in> set (edges_into g (ns ! i)). ed_from e \<in> set ((pre @ [n]) @ take i ns)"
  proof (intro allI impI ballI)
    fix i e assume "i < length ns" "e \<in> set (edges_into g (ns ! i))"
    then show "ed_from e \<in> set ((pre @ [n]) @ take i ns)"
      using Cons.prems(5) [rule_format, of "Suc i" e] by simp
  qed
  obtain v where v: "visit_node env g n states scope = Some v"
    using Cons.prems(1) by (cases "visit_node env g n states scope") auto
  show ?case
  proof (cases v)
    case Ready
    then have "ready_scan env g ns states scope [n] = Some ([], states', scope')"
      using Cons.prems(1) v by simp
    then have False using ready_scan_sound Cons.prems(2) by fastforce
    then show ?thesis ..
  next
    case Passed
    then have "terminal (status_of states n)"
      using visit_passed [OF v [unfolded Passed]] ended Cons.prems(4) by auto
    moreover have "ready_scan env g ns states scope [] = Some ([], states', scope')"
      using Cons.prems(1) v Passed by simp
    ultimately show ?thesis
      using Cons.IH [of states scope "pre @ [n]"] Cons.prems(2-4) later by auto
  next
    case Skip
    define st where "st = AList.update n Skipped states"
    have "ready_scan env g ns st (snd (skip_node n states scope)) [] = Some ([], states', scope')"
      using Cons.prems(1) v Skip by (simp add: skip_node_def st_def)
    then show ?thesis
      using Cons.IH [of st _ "pre @ [n]"] Cons.prems(2-4) later by (auto simp: st_def)
  qed
qed simp


lemma topological_order_edges:
  assumes "distinct (node_ids g)" and "i < length (topological_order g)"
    and "e \<in> set (edges_into g (topological_order g ! i))" and "ed_from e \<in> set (node_ids g)"
  shows "ed_from e \<in> set (take i (topological_order g))"
  using topological_order_respects(1) [OF assms(1)] assms(2-4)
  by (auto simp: respects_edges_def edges_into_def)

text \<open>
  C18. The order the plan computes with counters and a sorted ready list is the declared one:
  again and again the first declared node whose predecessors have been emitted. It repeats no
  node and puts every node behind its predecessors, and a node is missing from it only when
  one of its predecessors is. The reachable nodes of the plan are those that a path of edges
  leads to from an entry point.
\<close>

theorem plan_order_is_declared_order:
  assumes "distinct (node_ids g)"
  shows "gp_order (build_plan g) = first_available_order (node_ids g) (effective_edges g) []
    \<and> respects_edges (node_ids g) (effective_edges g) (gp_order (build_plan g))
    \<and> (\<forall>n \<in> set (node_ids g) - set (gp_order (build_plan g)).
         \<exists>e \<in> set (effective_edges g).
           ed_to e = n \<and> ed_from e \<in> set (node_ids g) - set (gp_order (build_plan g)))
    \<and> set (gp_reachable (build_plan g))
        = set (gp_order (build_plan g))
          \<inter> (edge_relation (effective_edges g))\<^sup>* `` set (gi_entrypoints (gr_info g))"
proof -
  have order: "gp_order (build_plan g) = topological_order g"
    by (simp add: build_plan_def Let_def)
  have "set (gp_reachable (build_plan g))
      = set (topological_order g)
        \<inter> (edge_relation (effective_edges g))\<^sup>* `` set (gi_entrypoints (gr_info g))"
    by (auto simp: build_plan_def Let_def reachable_from_closure)
  moreover have "\<exists>e \<in> set (effective_edges g). ed_to e = n \<and> ed_from e \<in> set (node_ids g) - set (topological_order g)"
    if n: "n \<in> set (node_ids g) - set (topological_order g)" for n
    using topological_order_respects(2) [OF assms, of n] n unfolding available_def by blast
  ultimately show ?thesis
    using topological_order_respects(1) [OF assms] topological_order_first_available [OF assms]
    unfolding order by simp
qed


text \<open>
  C24. The scheduler never stalls: when no node is running or waiting for a human and
  \<open>ready_nodes\<close> returns nothing, every node of the order has ended, so an acyclic graph is
  finished.
\<close>

theorem scheduler_never_stalls:
  assumes "distinct (node_ids g)" and "ed_from ` set (effective_edges g) \<subseteq> set (node_ids g)"
    and "\<forall>n \<in> set (node_ids g). status_of states n = Pending \<or> terminal (status_of states n)"
    and "ready_nodes env g states scope = Some ([], states', scope')"
  shows "\<forall>n \<in> set (topological_order g). terminal (status_of states' n)"
proof -
  have sub: "set (topological_order g) \<subseteq> set (node_ids g)"
    using topological_order_respects(1) [OF assms(1)] by (simp add: respects_edges_def)
  have "\<forall>i < length (topological_order g). \<forall>e \<in> set (edges_into g (topological_order g ! i)).
      ed_from e \<in> set ([] @ take i (topological_order g))"
  proof (intro allI impI ballI)
    fix i e assume i: "i < length (topological_order g)" "e \<in> set (edges_into g (topological_order g ! i))"
    then have "e \<in> set (effective_edges g)" by (simp add: edges_into_def)
    then have "ed_from e \<in> set (node_ids g)" using assms(2) by blast
    from topological_order_edges [OF assms(1) i this]
    show "ed_from e \<in> set ([] @ take i (topological_order g))" by simp
  qed
  from ready_scan_progress [OF assms(4) [unfolded ready_nodes_def] _ _ _ this]
  show ?thesis using topological_order_distinct [OF assms(1)] assms(3) sub by auto
qed

subsection \<open>An example\<close>

definition no_failure_policy :: failure_policy where
  "no_failure_policy =
     \<lparr>fp_max_attempts = 1, fp_retry_on = [''transient'', ''tool_error'', ''criteria_failed''],
      fp_fallback = [], fp_on_exhausted = ''fail'', fp_compensation = None\<rparr>"

definition no_requirements :: requirements where
  "no_requirements =
     \<lparr>rq_tools = [], rq_permissions = [], rq_mcp_servers = [], rq_skills = [], rq_environment = [],
      rq_secrets = [], rq_workspace = ''read_only''\<rparr>"

definition no_constraints :: node_constraints where
  "no_constraints =
     \<lparr>nc_max_agent_steps = None, nc_max_tool_calls = None, nc_max_input_tokens = None,
      nc_max_output_tokens = None, nc_max_cost = None, nc_group = []\<rparr>"

definition plain_node :: node_info where
  "plain_node =
     \<lparr>nd_type = ''task'', nd_title = ''t'', nd_description = ''d'', nd_instructions = [],
      nd_depends_on = [], nd_join = ''all'', nd_join_count = 1, nd_when = None, nd_inputs = [],
      nd_outputs = [], nd_success = None, nd_intelligence = None, nd_requirements = no_requirements,
      nd_constraints = no_constraints, nd_failure = no_failure_policy, nd_human = [], nd_gate = None,
      nd_decision = None, nd_cost = None, nd_profile = None, nd_extensions = []\<rparr>"

definition plain_graph :: graph_info where
  "plain_graph =
     \<lparr>gi_id = ''g'', gi_conformance = 1, gi_entrypoints = [''a''], gi_edges = [], gi_params = [],
      gi_context = [], gi_secrets = [], gi_outputs = [], gi_max_parallel = 1,
      gi_max_executions = None, gi_max_cost = None, gi_max_tokens = None, gi_max_wall = None,
      gi_max_depth = 5\<rparr>"

definition chain_graph :: graph where
  "chain_graph = Graph plain_graph
     [(''b'', Node (plain_node\<lparr>nd_depends_on := [''a'']\<rparr>) []), (''a'', Node plain_node [])] []"

lemma chain_graph_order: "topological_order chain_graph = [''a'', ''b'']"
  by code_simp

theorem plan_order_is_declared_order_witness:
  "gp_order (build_plan chain_graph) = [''a'', ''b'']
   \<and> first_available_order (node_ids chain_graph) (effective_edges chain_graph) [] = [''a'', ''b'']"
proof -
  have "distinct (node_ids chain_graph)" by code_simp
  from plan_order_is_declared_order [OF this]
  have "gp_order (build_plan chain_graph)
      = first_available_order (node_ids chain_graph) (effective_edges chain_graph) []" by simp
  moreover have "gp_order (build_plan chain_graph) = [''a'', ''b'']"
    using chain_graph_order by (simp add: build_plan_def Let_def)
  ultimately show ?thesis by simp
qed


theorem scheduler_never_stalls_witness:
  "terminal (status_of [(''b'', Skipped), (''a'', Failed)] ''b'')"
proof -
  have d: "distinct (node_ids chain_graph)" by code_simp
  have e: "ed_from ` set (effective_edges chain_graph) \<subseteq> set (node_ids chain_graph)" by code_simp
  have s: "\<forall>n \<in> set (node_ids chain_graph).
      status_of [(''b'', Pending), (''a'', Failed)] n = Pending
      \<or> terminal (status_of [(''b'', Pending), (''a'', Failed)] n)"
    by (simp add: chain_graph_def status_of_def)
  have "ready_nodes plain_env chain_graph [(''b'', Pending), (''a'', Failed)] []
      = Some ([], [(''b'', Skipped), (''a'', Failed)],
              snd (skip_node ''b'' [(''b'', Pending), (''a'', Failed)] []))" by code_simp
  from scheduler_never_stalls [OF d e s this] show ?thesis by (simp add: chain_graph_order)
qed

end
