(* ===== verification/Agraph_Policy.thy ===== *)
theory Agraph_Policy
  imports Agraph_Plan Permissions
begin

text \<open>
  What an administrator lets a graph do and which model a node runs on:
  \<open>src/loro/agraph/policy.py\<close>, \<open>src/loro/agraph/routing.py\<close> and \<open>src/loro/agraph/mapping.py\<close>
  with the settings \<open>AGraphConfig\<close> and \<open>ModelTierConfig\<close> of \<open>src/loro/config.py\<close>. Documents
  are typed, so the findings for malformed documents (AG001 for an object of the wrong type) do
  not arise; the text of a finding is left out.
\<close>

subsection \<open>Settings\<close>

record agraph_config =
  ag_enabled :: bool
  ag_conformance :: int
  ag_max_nodes :: nat
  ag_max_executions :: int
  ag_max_cost :: "rat option"
  ag_max_tier :: string
  ag_allow_command :: bool
  ag_allow_unknown_executors :: bool
  ag_allow_external :: bool
  ag_external_criteria :: "string list"
  ag_allow_refs :: bool
  ag_require_integrity :: bool
  ag_gate_before :: "string list"
  ag_forbidden :: "string list"
  ag_required_kinds :: "string list"
  ag_max_parallel :: int

definition tier_ranks :: "(string, nat) dict" where
  "tier_ranks = [(''minimal'', 1), (''standard'', 2), (''advanced'', 3), (''frontier'', 4)]"

definition tier_rank :: "string \<Rightarrow> nat option" where
  "tier_rank t = map_of tier_ranks t"

subsection \<open>Policy findings\<close>

record policy_finding =
  pf_code :: string
  pf_pointer :: string
  pf_error :: bool

definition error_at :: "string \<Rightarrow> string \<Rightarrow> policy_finding" where
  "error_at c p = \<lparr>pf_code = c, pf_pointer = p, pf_error = True\<rparr>"

definition flag :: "bool \<Rightarrow> string \<Rightarrow> string \<Rightarrow> policy_finding list" where
  "flag b c p = (if b then [error_at c p] else [])"

definition no_errors :: "policy_finding list \<Rightarrow> bool" where
  "no_errors fs \<longleftrightarrow> list_all (\<lambda>f. \<not> pf_error f) fs"

lemma no_errors_simps [simp]:
  "no_errors []" "no_errors (f # fs) \<longleftrightarrow> \<not> pf_error f \<and> no_errors fs"
  "no_errors (xs @ ys) \<longleftrightarrow> no_errors xs \<and> no_errors ys" "no_errors (flag b c p) \<longleftrightarrow> \<not> b"
  by (simp_all add: no_errors_def flag_def error_at_def)

lemma no_errors_concat: "no_errors (concat (map f xs)) \<longleftrightarrow> (\<forall>x \<in> set xs. no_errors (f x))"
  by (induction xs) auto

definition executor_extensions :: "node_info \<Rightarrow> string list" where
  "executor_extensions ni =
     sort_key id (filter (\<lambda>k. starts_with k ''x-'' \<and> (k = ''x-executor'' \<or> ends_with k ''-executor''))
                    (nd_extensions ni))"

definition predecessors :: "graph \<Rightarrow> string \<Rightarrow> string list" where
  "predecessors g n =
     (case map_of (gr_nodes g) n of None \<Rightarrow> [] | Some nd \<Rightarrow> nd_depends_on (nd_info nd))
     @ map ed_from (filter (\<lambda>e. ed_to e = n) (gi_edges (gr_info g)))"

definition is_gate :: "graph \<Rightarrow> string \<Rightarrow> bool" where
  "is_gate g n \<longleftrightarrow> (case map_of (gr_nodes g) n of None \<Rightarrow> False | Some nd \<Rightarrow> nd_type (nd_info nd) = ''gate'')"

text \<open>
  The worklist of \<open>_has_gate_predecessor\<close> is a set that Python empties in an order of its own;
  here it is a list, and \<open>has_gate_predecessor_iff\<close> shows that the order does not matter.
\<close>

function gate_search :: "graph \<Rightarrow> string set \<Rightarrow> string list \<Rightarrow> bool" where
  "gate_search g seen [] = False"
| "gate_search g seen (p # incoming) =
     (if p \<in> seen \<or> p \<notin> set (node_ids g) then gate_search g seen incoming
      else if is_gate g p then True
      else gate_search g (insert p seen) (predecessors g p @ incoming))"
  by pat_completeness auto
termination
proof (relation "measures [\<lambda>(g, seen, incoming). card (set (node_ids g) - seen), \<lambda>(g, seen, incoming). length incoming]")
  fix g :: graph and seen p and incoming :: "string list"
  assume "\<not> (p \<in> seen \<or> p \<notin> set (node_ids g))"
  then have "set (node_ids g) - insert p seen \<subset> set (node_ids g) - seen" by auto
  then have "card (set (node_ids g) - insert p seen) < card (set (node_ids g) - seen)"
    by (intro psubset_card_mono) auto
  then show "((g, insert p seen, predecessors g p @ incoming), g, seen, p # incoming)
      \<in> measures [\<lambda>(g, seen, incoming). card (set (node_ids g) - seen), \<lambda>(g, seen, incoming). length incoming]"
    by (simp only: in_measures prod.case simp_thms)
qed auto

definition has_gate_predecessor :: "graph \<Rightarrow> string \<Rightarrow> bool" where
  "has_gate_predecessor g n = gate_search g {} (predecessors g n)"

definition executor_findings :: "agraph_config \<Rightarrow> string \<Rightarrow> node_info \<Rightarrow> policy_finding list" where
  "executor_findings cfg pointer ni =
     map (\<lambda>k. \<lparr>pf_code = ''LP011'', pf_pointer = pointer @ ''/'' @ k,
                pf_error = (\<not> ag_allow_unknown_executors cfg)\<rparr>) (executor_extensions ni)"

definition tier_findings :: "agraph_config \<Rightarrow> string \<Rightarrow> node \<Rightarrow> policy_finding list" where
  "tier_findings cfg pointer nd =
     (let tier = node_tier nd; place = pointer @ ''/intelligence/tier'' in
      flag (tier_rank tier = None) ''AG001'' place
      @ flag (the (tier_rank (ag_max_tier cfg)) < (case tier_rank tier of Some r \<Rightarrow> r | None \<Rightarrow> 2)) ''LP003'' place)"

definition permission_findings ::
  "agraph_config \<Rightarrow> graph \<Rightarrow> string \<Rightarrow> string \<Rightarrow> string list \<Rightarrow> policy_finding list" where
  "permission_findings cfg g n pointer permissions =
     concat (map (\<lambda>perm.
       flag (list_ex (fnmatchcase perm) (ag_forbidden cfg)) ''LP004'' (pointer @ ''/requirements/permissions'')
       @ flag (list_ex (fnmatchcase perm) (ag_gate_before cfg) \<and> \<not> has_gate_predecessor g n) ''LP005'' pointer) permissions)"

definition criterion_kinds :: "node_info \<Rightarrow> string list" where
  "criterion_kinds ni = (case nd_success ni of None \<Rightarrow> [] | Some su \<Rightarrow> map cr_kind (su_criteria su))"

definition criteria_findings :: "agraph_config \<Rightarrow> string \<Rightarrow> node_info \<Rightarrow> policy_finding list" where
  "criteria_findings cfg pointer ni =
     (let kinds = criterion_kinds ni in
      flag (''command'' \<in> set kinds \<and> \<not> ag_allow_command cfg) ''LP006'' (pointer @ ''/success/criteria'')
      @ flag (''external'' \<in> set kinds \<and> \<not> ag_allow_external cfg) ''LP007'' (pointer @ ''/success/criteria'')
      @ flag (ag_required_kinds cfg \<noteq> [] \<and> nd_type ni = ''task''
            \<and> list_all (\<lambda>k. k \<notin> set (ag_required_kinds cfg)) kinds) ''LP008'' (pointer @ ''/success''))"

definition ref_findings :: "agraph_config \<Rightarrow> string \<Rightarrow> node \<Rightarrow> policy_finding list" where
  "ref_findings cfg pointer nd =
     (case map_of (nd_blocks nd) ''subgraph'' of
        None \<Rightarrow> []
      | Some b \<Rightarrow>
          (case bl_ref (bk_info b) of
             None \<Rightarrow> []
           | Some r \<Rightarrow>
               flag (rf_uri r \<noteq> [] \<and> \<not> starts_with (rf_uri r) ''.'' \<and> \<not> starts_with (rf_uri r) ''/''
                   \<and> \<not> ag_allow_refs cfg) ''LP009'' (pointer @ ''/subgraph/ref/uri'')
               @ flag (rf_uri r \<noteq> [] \<and> ag_require_integrity cfg \<and> rf_integrity r = []) ''LP010'' (pointer @ ''/subgraph/ref'')))"

definition node_findings :: "agraph_config \<Rightarrow> graph \<Rightarrow> string \<times> node \<Rightarrow> policy_finding list" where
  "node_findings cfg g p =
     (case p of (n, nd) \<Rightarrow>
        let pointer = ''/nodes/'' @ n in
        executor_findings cfg pointer (nd_info nd)
        @ tier_findings cfg pointer nd
        @ permission_findings cfg g n pointer (rq_permissions (nd_requirements (nd_info nd)))
        @ criteria_findings cfg pointer (nd_info nd)
        @ ref_findings cfg pointer nd)"

definition evaluate_policy :: "agraph_config \<Rightarrow> graph \<Rightarrow> policy_finding list" where
  "evaluate_policy cfg g =
     (if \<not> ag_enabled cfg then [error_at ''LP001'' []]
      else
        flag (ag_max_nodes cfg < length (gr_nodes g)) ''LP002'' ''/nodes''
        @ flag (min (ag_conformance cfg) 3 < gi_conformance (gr_info g)) ''AG303'' ''/requires_conformance''
        @ concat (map (node_findings cfg g) (gr_nodes g)))"

definition policy_ok :: "agraph_config \<Rightarrow> graph \<Rightarrow> bool" where
  "policy_ok cfg g \<longleftrightarrow> no_errors (evaluate_policy cfg g)"


subsection \<open>What an accepted document satisfies\<close>

definition precedes :: "graph \<Rightarrow> (string \<times> string) set" where
  "precedes g = {(q, p). q \<in> set (predecessors g p) \<and> q \<in> set (node_ids g)}"

lemma gate_search_iff:
  assumes "seen \<subseteq> set (node_ids g)" and "\<forall>s \<in> seen. \<not> is_gate g s"
    and "\<forall>s \<in> seen. \<forall>q. (q, s) \<in> precedes g \<longrightarrow> q \<in> seen \<union> set incoming"
  shows "gate_search g seen incoming
    \<longleftrightarrow> (\<exists>m. is_gate g m \<and> (\<exists>p \<in> seen \<union> (set incoming \<inter> set (node_ids g)). (m, p) \<in> (precedes g)\<^sup>*))"
  using assms
proof (induction g seen incoming rule: gate_search.induct)
  case (1 g seen)
  have "q \<in> seen" if "(q, s) \<in> (precedes g)\<^sup>*" "s \<in> seen" for q s
    using that by (induction rule: converse_rtrancl_induct) (use 1(3) in auto)
  then show ?case using 1(2) by auto
next
  case (2 g seen p incoming)
  show ?case
  proof (cases "p \<in> seen \<or> p \<notin> set (node_ids g)")
    case True
    have "\<forall>s \<in> seen. \<forall>q. (q, s) \<in> precedes g \<longrightarrow> q \<in> seen \<union> set incoming"
    proof (intro ballI allI impI)
      fix s q assume s: "s \<in> seen" and q: "(q, s) \<in> precedes g"
      then have "q \<in> seen \<union> set (p # incoming)" using 2(5) by blast
      moreover have "q \<in> set (node_ids g)" using q by (simp add: precedes_def)
      ultimately show "q \<in> seen \<union> set incoming" using True by auto
    qed
    then have "gate_search g seen incoming
        \<longleftrightarrow> (\<exists>m. is_gate g m \<and> (\<exists>x \<in> seen \<union> (set incoming \<inter> set (node_ids g)). (m, x) \<in> (precedes g)\<^sup>*))"
      using 2(3,4) True by (intro 2(1))
    moreover have "seen \<union> (set incoming \<inter> set (node_ids g)) = seen \<union> (set (p # incoming) \<inter> set (node_ids g))"
      using True by auto
    ultimately show ?thesis using True by simp
  next
    case False
    show ?thesis
    proof (cases "is_gate g p")
      case True
      then show ?thesis using False by auto
    next
      case no_gate: False
      have closed: "\<forall>s \<in> insert p seen. \<forall>q. (q, s) \<in> precedes g \<longrightarrow>
          q \<in> insert p seen \<union> set (predecessors g p @ incoming)"
        using 2(5) by (auto simp: precedes_def)
      have "gate_search g (insert p seen) (predecessors g p @ incoming)
          \<longleftrightarrow> (\<exists>m. is_gate g m \<and> (\<exists>x \<in> insert p seen \<union> (set (predecessors g p @ incoming) \<inter> set (node_ids g)).
                 (m, x) \<in> (precedes g)\<^sup>*))"
        using 2(3,4) False no_gate closed by (intro 2(2)) auto
      moreover have "(\<exists>x \<in> insert p seen \<union> (set (predecessors g p @ incoming) \<inter> set (node_ids g)). (m, x) \<in> (precedes g)\<^sup>*)
          \<longleftrightarrow> (\<exists>x \<in> seen \<union> (set (p # incoming) \<inter> set (node_ids g)). (m, x) \<in> (precedes g)\<^sup>*)" for m
        using False by (auto simp: precedes_def intro: rtrancl_into_rtrancl)
      ultimately show ?thesis using False no_gate by simp
    qed
  qed
qed

lemma has_gate_predecessor_iff:
  "has_gate_predecessor g n \<longleftrightarrow> (\<exists>m. is_gate g m \<and> (m, n) \<in> (precedes g)\<^sup>+)"
proof -
  have "has_gate_predecessor g n
      \<longleftrightarrow> (\<exists>m. is_gate g m \<and> (\<exists>p \<in> set (predecessors g n) \<inter> set (node_ids g). (m, p) \<in> (precedes g)\<^sup>*))"
    unfolding has_gate_predecessor_def by (subst gate_search_iff) auto
  also have "\<dots> \<longleftrightarrow> (\<exists>m. is_gate g m \<and> (\<exists>p. (p, n) \<in> precedes g \<and> (m, p) \<in> (precedes g)\<^sup>*))"
    by (auto simp: precedes_def)
  also have "\<dots> \<longleftrightarrow> (\<exists>m. is_gate g m \<and> (m, n) \<in> (precedes g)\<^sup>+)"
    by (simp add: trancl_unfold_right relcomp_unfold) blast
  finally show ?thesis .
qed

text \<open>What the administrator's settings ask of one node.\<close>

definition node_permitted :: "agraph_config \<Rightarrow> graph \<Rightarrow> string \<Rightarrow> node \<Rightarrow> bool" where
  "node_permitted cfg g n nd \<longleftrightarrow>
     (\<exists>r. tier_rank (node_tier nd) = Some r \<and> r \<le> the (tier_rank (ag_max_tier cfg)))
     \<and> list_all (\<lambda>perm. list_all (\<lambda>pat. \<not> fnmatchcase perm pat) (ag_forbidden cfg))
         (rq_permissions (nd_requirements (nd_info nd)))
     \<and> (list_ex (\<lambda>perm. list_ex (fnmatchcase perm) (ag_gate_before cfg))
           (rq_permissions (nd_requirements (nd_info nd)))
         \<longrightarrow> (\<exists>m. is_gate g m \<and> (m, n) \<in> (precedes g)\<^sup>+))
     \<and> (ag_allow_command cfg \<or> ''command'' \<notin> set (criterion_kinds (nd_info nd)))
     \<and> (ag_allow_external cfg \<or> ''external'' \<notin> set (criterion_kinds (nd_info nd)))
     \<and> (ag_required_kinds cfg = [] \<or> nd_type (nd_info nd) \<noteq> ''task''
         \<or> list_ex (\<lambda>k. k \<in> set (ag_required_kinds cfg)) (criterion_kinds (nd_info nd)))
     \<and> (ag_allow_unknown_executors cfg \<or> executor_extensions (nd_info nd) = [])
     \<and> (\<forall>b r. map_of (nd_blocks nd) ''subgraph'' = Some b \<and> bl_ref (bk_info b) = Some r \<and> rf_uri r \<noteq> [] \<longrightarrow>
           (ag_require_integrity cfg \<longrightarrow> rf_integrity r \<noteq> [])
           \<and> (ag_allow_refs cfg \<or> starts_with (rf_uri r) ''.'' \<or> starts_with (rf_uri r) ''/''))"

lemma no_node_errors:
  assumes "no_errors (node_findings cfg g (n, nd))"
  shows "node_permitted cfg g n nd"
proof -
  let ?ptr = "''/nodes/'' @ n" and ?perms = "rq_permissions (nd_requirements (nd_info nd))"
  have parts: "no_errors (executor_findings cfg ?ptr (nd_info nd))" "no_errors (tier_findings cfg ?ptr nd)"
      "no_errors (permission_findings cfg g n ?ptr ?perms)"
      "no_errors (criteria_findings cfg ?ptr (nd_info nd))" "no_errors (ref_findings cfg ?ptr nd)"
    using assms by (simp_all add: node_findings_def Let_def)
  have "ag_allow_unknown_executors cfg \<or> executor_extensions (nd_info nd) = []"
    using parts(1) by (cases "executor_extensions (nd_info nd)") (auto simp: executor_findings_def)
  moreover have "\<exists>r. tier_rank (node_tier nd) = Some r \<and> r \<le> the (tier_rank (ag_max_tier cfg))"
    using parts(2) by (auto simp: tier_findings_def Let_def not_less split: option.splits)
  moreover have "\<not> list_ex (fnmatchcase perm) (ag_forbidden cfg)
      \<and> (list_ex (fnmatchcase perm) (ag_gate_before cfg) \<longrightarrow> has_gate_predecessor g n)"
    if "perm \<in> set ?perms" for perm
    using parts(3) that by (auto simp: permission_findings_def no_errors_concat)
  moreover have "ag_allow_command cfg \<or> ''command'' \<notin> set (criterion_kinds (nd_info nd))"
      "ag_allow_external cfg \<or> ''external'' \<notin> set (criterion_kinds (nd_info nd))"
      "ag_required_kinds cfg = [] \<or> nd_type (nd_info nd) \<noteq> ''task''
         \<or> list_ex (\<lambda>k. k \<in> set (ag_required_kinds cfg)) (criterion_kinds (nd_info nd))"
    using parts(4) by (auto simp: criteria_findings_def Let_def list_all_iff list_ex_iff)
  moreover have "\<forall>b r. map_of (nd_blocks nd) ''subgraph'' = Some b \<and> bl_ref (bk_info b) = Some r \<and> rf_uri r \<noteq> [] \<longrightarrow>
           (ag_require_integrity cfg \<longrightarrow> rf_integrity r \<noteq> [])
           \<and> (ag_allow_refs cfg \<or> starts_with (rf_uri r) ''.'' \<or> starts_with (rf_uri r) ''/'')"
    using parts(5) by (auto simp: ref_findings_def)
  ultimately show ?thesis
    unfolding node_permitted_def has_gate_predecessor_iff [symmetric] list_all_iff list_ex_iff by blast
qed


subsection \<open>Routing\<close>

record tier_config =
  tc_provider :: string
  tc_model :: string
  tc_context :: "int option"
  tc_api_key_env :: "string option"
  tc_credential_ref :: "string option"
  tc_base_url :: "string option"

record model_settings =
  ms_provider :: string
  ms_model :: string
  ms_small_model :: string
  ms_api_key_env :: "string option"
  ms_credential_ref :: "string option"
  ms_base_url :: "string option"
  ms_tiers :: "(string, tier_config) dict"

record routing_decision =
  rd_requested :: string
  rd_effective :: string
  rd_provider :: string
  rd_model :: string
  rd_downgraded :: bool
  rd_context :: "int option"
  rd_api_key_env :: "string option"
  rd_credential_ref :: "string option"
  rd_base_url :: "string option"

definition or_else :: "string option \<Rightarrow> string option \<Rightarrow> string option" where
  "or_else a b = (case a of Some (c # cs) \<Rightarrow> Some (c # cs) | _ \<Rightarrow> b)"

definition routed_model :: "routing_decision \<Rightarrow> model_settings \<Rightarrow> model_settings" where
  "routed_model d ms =
     ms\<lparr>ms_provider := rd_provider d, ms_model := rd_model d,
        ms_api_key_env := or_else (rd_api_key_env d) (ms_api_key_env ms),
        ms_credential_ref := or_else (rd_credential_ref d) (ms_credential_ref ms),
        ms_base_url := or_else (rd_base_url d) (ms_base_url ms)\<rparr>"

text \<open>\<open>TIER_RANK[tier]\<close>; the keys of \<open>model.tiers\<close> and the tiers of a document are known tiers.\<close>

definition rank_of :: "string \<Rightarrow> nat" where
  "rank_of t = the (tier_rank t)"

definition route_fallback :: "model_settings \<Rightarrow> string \<Rightarrow> tier_config \<times> string" where
  "route_fallback ms target =
     (if ms_tiers ms = [] then
        (\<lparr>tc_provider = ms_provider ms,
          tc_model = (if target = ''minimal'' then ms_small_model ms else ms_model ms),
          tc_context = None, tc_api_key_env = None, tc_credential_ref = None, tc_base_url = None\<rparr>, target)
      else
        (let candidates = rev (sort_key rank_of (map fst (ms_tiers ms)));
             lower = filter (\<lambda>t. rank_of t \<le> rank_of target) candidates;
             effective = (if lower \<noteq> [] then hd lower else last candidates) in
         (the (map_of (ms_tiers ms) effective), effective)))"

datatype routing_error = NoModelForTier | ContextTooSmall

definition target_tier :: "intelligence option \<Rightarrow> int \<Rightarrow> string" where
  "target_tier it attempt =
     (case it of
        None \<Rightarrow> ''standard''
      | Some i \<Rightarrow> (case it_escalate i of Some e \<Rightarrow> if 1 < attempt then e else it_tier i | None \<Rightarrow> it_tier i))"

definition route_model ::
  "model_settings \<Rightarrow> intelligence option \<Rightarrow> int \<Rightarrow> routing_error + routing_decision" where
  "route_model ms it attempt =
     (let target = target_tier it attempt in
      case (case map_of (ms_tiers ms) target of Some c \<Rightarrow> (c, target) | None \<Rightarrow> route_fallback ms target) of
        (candidate, effective) \<Rightarrow>
          let downgraded = rank_of effective < rank_of target in
          if downgraded \<and> \<not> (case it of None \<Rightarrow> False | Some i \<Rightarrow> it_allow_downgrade i)
          then Inl NoModelForTier
          else if (case it of
                     None \<Rightarrow> False
                   | Some i \<Rightarrow>
                       (case it_min_context i of
                          None \<Rightarrow> False
                        | Some m \<Rightarrow> m \<noteq> 0 \<and> (case tc_context candidate of None \<Rightarrow> True | Some c \<Rightarrow> c < m)))
          then Inl ContextTooSmall
          else Inr \<lparr>rd_requested = target, rd_effective = effective, rd_provider = tc_provider candidate,
                    rd_model = tc_model candidate, rd_downgraded = downgraded,
                    rd_context = tc_context candidate, rd_api_key_env = tc_api_key_env candidate,
                    rd_credential_ref = tc_credential_ref candidate, rd_base_url = tc_base_url candidate\<rparr>)"


lemma hd_filter_rev_sorted:
  fixes f :: "'a \<Rightarrow> nat"
  assumes "filter P (rev (sort_key f xs)) \<noteq> []" and "t \<in> set xs" and "P t"
  shows "f t \<le> f (hd (filter P (rev (sort_key f xs))))"
proof -
  have "sorted (map f (rev (filter P (rev (sort_key f xs)))))"
    by (simp add: rev_filter sorted_filter)
  moreover have "t \<in> set (filter P (rev (sort_key f xs)))" using assms(2,3) by simp
  ultimately show ?thesis
    by (cases "filter P (rev (sort_key f xs))") (auto simp: sorted_append)
qed

lemma hd_sorted_least:
  fixes f :: "'a \<Rightarrow> nat"
  assumes "t \<in> set xs"
  shows "f (hd (sort_key f xs)) \<le> f t"
proof -
  have "sorted (map f (sort_key f xs))" "t \<in> set (sort_key f xs)" using assms by simp_all
  then show ?thesis by (cases "sort_key f xs") auto
qed

definition nearest_tier :: "string list \<Rightarrow> string \<Rightarrow> string \<Rightarrow> bool" where
  "nearest_tier tiers target effective \<longleftrightarrow>
     effective \<in> set tiers
     \<and> (if \<exists>t \<in> set tiers. rank_of t \<le> rank_of target
        then rank_of effective \<le> rank_of target
          \<and> (\<forall>t \<in> set tiers. rank_of t \<le> rank_of target \<longrightarrow> rank_of t \<le> rank_of effective)
        else \<forall>t \<in> set tiers. rank_of effective \<le> rank_of t)"

lemma route_fallback_nearest:
  assumes "ms_tiers ms \<noteq> []"
  shows "nearest_tier (map fst (ms_tiers ms)) target (snd (route_fallback ms target))"
proof -
  let ?keys = "map fst (ms_tiers ms)"
  let ?lower = "filter (\<lambda>t. rank_of t \<le> rank_of target) (rev (sort_key rank_of ?keys))"
  have keys: "?keys \<noteq> []" using assms by simp
  show ?thesis
  proof (cases "?lower = []")
    case True
    then have none: "\<forall>t \<in> set ?keys. \<not> rank_of t \<le> rank_of target"
      by (simp add: filter_empty_conv)
    have last: "last (rev (sort_key rank_of ?keys)) = hd (sort_key rank_of ?keys)"
      by (rule last_rev)
    have "hd (sort_key rank_of ?keys) \<in> set ?keys"
      using keys by (metis hd_in_set set_sort set_empty)
    then show ?thesis
      using none True last hd_sorted_least [of _ ?keys rank_of] assms
      unfolding nearest_tier_def route_fallback_def Let_def by (auto simp del: set_map)
  next
    case False
    have mem: "hd ?lower \<in> set ?lower" using False by (rule hd_in_set)
    then have "hd ?lower \<in> set ?keys" "rank_of (hd ?lower) \<le> rank_of target"
      by (simp_all del: set_map)
    then show ?thesis
      using False hd_filter_rev_sorted [OF False] assms
      unfolding nearest_tier_def route_fallback_def Let_def by (auto simp del: set_map)
  qed
qed

text \<open>
  Routing. The decision is for the tier of the node, or from the second attempt on for the
  tier it escalates to; a configured tier is used as it is, otherwise the nearest one, the
  highest below the target or else the lowest above it. A weaker tier than asked for is used
  only when the node allows it and is marked as a downgrade, and a declared minimum of context
  tokens is met by the candidate.
\<close>

theorem routing_never_downgrades_silently:
  assumes "route_model ms it attempt = Inr d"
  shows "rd_requested d = target_tier it attempt
    \<and> (rank_of (rd_effective d) < rank_of (target_tier it attempt) \<longleftrightarrow> rd_downgraded d)
    \<and> (rd_downgraded d \<longrightarrow> (\<exists>i. it = Some i \<and> it_allow_downgrade i))
    \<and> (case map_of (ms_tiers ms) (target_tier it attempt) of
         Some c \<Rightarrow> rd_effective d = target_tier it attempt \<and> rd_model d = tc_model c
           \<and> rd_provider d = tc_provider c
       | None \<Rightarrow> if ms_tiers ms = [] then rd_effective d = target_tier it attempt
                else nearest_tier (map fst (ms_tiers ms)) (target_tier it attempt) (rd_effective d))
    \<and> (\<forall>i m. it = Some i \<and> it_min_context i = Some m \<and> m \<noteq> 0 \<longrightarrow>
         (\<exists>c. rd_context d = Some c \<and> m \<le> c))"
proof -
  let ?t = "target_tier it attempt"
  obtain cand eff where c:
    "(case map_of (ms_tiers ms) ?t of Some c \<Rightarrow> (c, ?t) | None \<Rightarrow> route_fallback ms ?t) = (cand, eff)"
    by fastforce
  have ok: "rank_of eff < rank_of ?t \<Longrightarrow> \<exists>i. it = Some i \<and> it_allow_downgrade i"
    and ctx: "\<forall>i m. it = Some i \<and> it_min_context i = Some m \<and> m \<noteq> 0 \<longrightarrow> (\<exists>k. tc_context cand = Some k \<and> m \<le> k)"
    and d: "rd_requested d = ?t" "rd_effective d = eff" "rd_downgraded d = (rank_of eff < rank_of ?t)"
      "rd_context d = tc_context cand" "rd_model d = tc_model cand" "rd_provider d = tc_provider cand"
    using assms by (auto simp: route_model_def c Let_def not_less split: if_splits option.splits)
  have "case map_of (ms_tiers ms) ?t of
      Some c \<Rightarrow> eff = ?t \<and> cand = c
    | None \<Rightarrow> if ms_tiers ms = [] then eff = ?t else nearest_tier (map fst (ms_tiers ms)) ?t eff"
  proof (cases "map_of (ms_tiers ms) ?t")
    case None
    then have "route_fallback ms ?t = (cand, eff)" using c by simp
    then show ?thesis
      using None route_fallback_nearest [of ms ?t] by (auto simp: route_fallback_def)
  qed (use c in simp)
  then show ?thesis using ok ctx d by (auto split: option.splits)
qed

subsection \<open>Tools and permissions of a node\<close>

definition tool_names :: "(string, string) dict" where
  "tool_names =
     [(''file_read'', ''file.read''), (''file_search'', ''file.search''), (''file_write'', ''file.write''),
      (''file_replace'', ''file.replace''), (''shell_exec'', ''shell.run''), (''git_status'', ''git.status''),
      (''git_diff'', ''git.diff''), (''git_commit'', ''git.commit''), (''memory_search'', ''memory.search''),
      (''shared_memory_search'', ''memory.shared_search''), (''polaris_read'', ''polaris.readonly''),
      (''artifact_create'', ''artifact.create''), (''skill_read'', ''skill.read''),
      (''skill_run'', ''skill.run_script'')]"

definition available_tools :: "string list" where
  "available_tools = map fst tool_names @ map snd tool_names"

definition loro_tool_name :: "string \<Rightarrow> string" where
  "loro_tool_name n = (case map_of tool_names n of Some t \<Rightarrow> t | None \<Rightarrow> n)"

definition missing_tool :: "(json \<Rightarrow> string) \<Rightarrow> json \<Rightarrow> string option" where
  "missing_tool rp r =
     (case r of
        JStr t \<Rightarrow> (if t \<in> set available_tools then None else Some t)
      | JObj d \<Rightarrow>
          (if (case map_of d ''optional'' of Some v \<Rightarrow> truthy v | None \<Rightarrow> False) then None
           else let names = JStr (case map_of d ''name'' of Some v \<Rightarrow> py_str rp v | None \<Rightarrow> [])
                            # (case map_of d ''alternatives'' of Some (JArr xs) \<Rightarrow> xs | _ \<Rightarrow> []) in
                if list_ex (\<lambda>n. case n of JStr t \<Rightarrow> t \<in> set available_tools | _ \<Rightarrow> False) names
                then None else as_str (hd names))
      | _ \<Rightarrow> None)"

definition missing_tools :: "(json \<Rightarrow> string) \<Rightarrow> json list \<Rightarrow> string list" where
  "missing_tools rp required = sort_key id (List.map_filter (missing_tool rp) required)"

definition permission_resource :: "string \<Rightarrow> string \<times> string \<times> string" where
  "permission_resource p =
     (let kind = takeWhile (\<lambda>c. c \<noteq> CHR '':'') p;
          rest = dropWhile (\<lambda>c. c \<noteq> CHR '':'') p;
          action = (if rest = [] then ''use'' else takeWhile (\<lambda>c. c \<noteq> CHR '':'') (tl rest));
          rest' = (if rest = [] then [] else dropWhile (\<lambda>c. c \<noteq> CHR '':'') (tl rest));
          target = (if rest' = [] then ''*'' else tl rest');
          tool = (case map_of [(''fs'', ''edit''), (''shell'', ''shell''), (''git'', ''git''), (''net'', ''network''),
                               (''mcp'', ''mcp''), (''human'', ''approval''),
                               (''custom'', if action = ''polaris_read'' then ''governed_data'' else ''custom'')] kind of
                    Some t \<Rightarrow> t | None \<Rightarrow> kind) in
      (tool, action, target))"


subsection \<open>Examples and limits\<close>

definition example_policy :: agraph_config where
  "example_policy =
     \<lparr>ag_enabled = True, ag_conformance = 3, ag_max_nodes = 10, ag_max_executions = 100,
      ag_max_cost = None, ag_max_tier = ''standard'', ag_allow_command = False,
      ag_allow_unknown_executors = False, ag_allow_external = False, ag_external_criteria = [],
      ag_allow_refs = False, ag_require_integrity = True, ag_gate_before = [''git:push*''],
      ag_forbidden = [''fs:write:*''], ag_required_kinds = [], ag_max_parallel = 8\<rparr>"

definition with_permissions :: "string list \<Rightarrow> node_info" where
  "with_permissions ps = plain_node\<lparr>nd_requirements := no_requirements\<lparr>rq_permissions := ps\<rparr>\<rparr>"

definition approve_gate :: node_info where
  "approve_gate = plain_node\<lparr>nd_type := ''gate'',
     nd_gate := Some \<lparr>gt_mode = ''approve'', gt_prompt = ''ok?'', gt_roles = [], gt_collect = []\<rparr>\<rparr>"

text \<open>A push behind a gate, entered when the gate fails.\<close>

definition push_graph :: graph where
  "push_graph = Graph
     (plain_graph\<lparr>gi_entrypoints := [''gate''],
        gi_edges := [\<lparr>ed_from = ''gate'', ed_to = ''push'', ed_kind = ''on_failure'', ed_when = None\<rparr>]\<rparr>)
     [(''gate'', Node approve_gate []), (''push'', Node (with_permissions [''git:push'']) [])] []"


definition two_tiers :: model_settings where
  "two_tiers =
     \<lparr>ms_provider = ''mock'', ms_model = ''m'', ms_small_model = ''s'', ms_api_key_env = None,
      ms_credential_ref = None, ms_base_url = None,
      ms_tiers = [(''minimal'', \<lparr>tc_provider = ''p'', tc_model = ''tiny'', tc_context = None,
                                 tc_api_key_env = None, tc_credential_ref = None, tc_base_url = None\<rparr>),
                  (''frontier'', \<lparr>tc_provider = ''p'', tc_model = ''big'', tc_context = Some 1000,
                                 tc_api_key_env = None, tc_credential_ref = None, tc_base_url = None\<rparr>)]\<rparr>"

definition downgradable :: intelligence where
  "downgradable = \<lparr>it_tier = ''advanced'', it_escalate = Some ''frontier'', it_allow_downgrade = True,
                   it_min_context = None\<rparr>"

definition routed_to :: "string \<Rightarrow> string \<Rightarrow> string \<Rightarrow> bool \<Rightarrow> int option \<Rightarrow> routing_decision" where
  "routed_to requested effective m down ctx =
     \<lparr>rd_requested = requested, rd_effective = effective, rd_provider = ''p'', rd_model = m,
      rd_downgraded = down, rd_context = ctx, rd_api_key_env = None, rd_credential_ref = None,
      rd_base_url = None\<rparr>"

theorem routing_never_downgrades_silently_witness:
  "it_allow_downgrade downgradable
   \<and> nearest_tier [''minimal'', ''frontier''] ''advanced'' ''minimal''"
proof -
  have "route_model two_tiers (Some downgradable) 1
      = Inr (routed_to ''advanced'' ''minimal'' ''tiny'' True None)" by code_simp
  from routing_never_downgrades_silently [OF this] show ?thesis
    by (simp add: routed_to_def target_tier_def downgradable_def two_tiers_def)
qed

text \<open>
  Four gaps of the policy. A node inside a fragment is not looked at; \<open>escalate_to\<close> is not held
  against the maximal tier; nor is the tier that routing falls back to; and the gate that a
  permission asks for may be one whose rejection is what starts the node.
\<close>

definition nested_block :: block_info where
  "nested_block =
     \<lparr>bl_use = None, bl_ref = None, bl_mode = ''repeat'', bl_condition = [], bl_over = [], bl_as = [],
      bl_index_as = ''index'', bl_max_items = None, bl_max_iterations = Some 1,
      bl_on_over_limit = ''fail'', bl_on_item_failure = ''fail_fast'', bl_min_successes = 0,
      bl_on_max_iterations = ''fail'', bl_collect = [], bl_carry = [], bl_params = [], bl_context = [],
      bl_inherit_context = False, bl_outputs_from = []\<rparr>"

definition nested_write_graph :: graph where
  "nested_write_graph = Graph plain_graph
     [(''a'', Node (plain_node\<lparr>nd_type := ''loop''\<rparr>)
        [(''loop'', Block nested_block
            (Some (Graph plain_graph [(''a'', Node (with_permissions [''fs:write:/etc'']) [])] [])) None)])] []"

lemma nested_nodes_escape_policy:
  "evaluate_policy example_policy nested_write_graph = []
   \<and> own_body nested_write_graph (snd (hd (gr_nodes nested_write_graph)))
       = Some (nested_block, Graph plain_graph [(''a'', Node (with_permissions [''fs:write:/etc'']) [])] [])
   \<and> \<not> policy_ok example_policy (Graph plain_graph [(''a'', Node (with_permissions [''fs:write:/etc'']) [])] [])"
  by (intro conjI) code_simp+

lemma escalation_exceeds_max_tier:
  "policy_ok example_policy (Graph plain_graph
     [(''a'', Node (plain_node\<lparr>nd_intelligence := Some (downgradable\<lparr>it_tier := ''standard''\<rparr>)\<rparr>) [])] [])
   \<and> route_model two_tiers (Some (downgradable\<lparr>it_tier := ''standard''\<rparr>)) 2
       = Inr (routed_to ''frontier'' ''frontier'' ''big'' False (Some 1000))"
  by (intro conjI) code_simp+

lemma fallback_exceeds_max_tier:
  "policy_ok example_policy (Graph plain_graph [(''a'', Node plain_node [])] [])
   \<and> route_model (two_tiers\<lparr>ms_tiers := tl (ms_tiers two_tiers)\<rparr>) None 1
       = Inr (routed_to ''standard'' ''frontier'' ''big'' False (Some 1000))"
  by (intro conjI) code_simp+

lemma rejected_gate_starts_gated_node:
  "policy_ok example_policy push_graph
   \<and> ready_nodes plain_env push_graph [(''gate'', Failed), (''push'', Pending)] []
       = Some ([''push''], [(''gate'', Failed), (''push'', Pending)], [])"
  by (intro conjI) code_simp+

end
