(* ===== verification/Agraph_Criteria.thy ===== *)
theory Agraph_Criteria
  imports Agraph_Policy Resources
begin

text \<open>
  Success criteria of a node: \<open>src/loro/agraph/criteria.py\<close>. A criterion is checked against the
  outputs of the node and a scope, in a world that its checks may read and change. Parameters:
  the sandbox, the regular-expression engine, the file system, JSON Schema, the judge model and
  the human. Any exception makes the criterion fail; its text is left out.
\<close>

record run_result =
  sr_code :: int
  sr_stdout :: string
  sr_stderr :: string

record 'w criteria_env =
  ce_agx :: agx_env
  ce_str :: "json \<Rightarrow> string"
  ce_dumps :: "json \<Rightarrow> string"
  ce_loads :: "string \<Rightarrow> json option"
  ce_shlex :: "string \<Rightarrow> string list option"
  ce_search :: "string \<Rightarrow> string \<Rightarrow> string \<Rightarrow> bool option"
  ce_schema_ok :: "json \<Rightarrow> json \<Rightarrow> bool"
  ce_workspace :: string
  ce_resolve :: "string \<Rightarrow> string"
  ce_glob :: "string \<Rightarrow> 'w \<Rightarrow> string list"
  ce_size :: "string \<Rightarrow> 'w \<Rightarrow> int option"
  ce_read :: "string \<Rightarrow> 'w \<Rightarrow> string option"
  ce_sandbox :: "string list \<Rightarrow> string \<Rightarrow> int \<Rightarrow> 'w \<Rightarrow> run_result option \<times> 'w"
  ce_human :: "(string \<Rightarrow> string list \<Rightarrow> 'w \<Rightarrow> bool option \<times> 'w) option"
  ce_checkers :: "(string, (string, json) dict \<Rightarrow> scope \<Rightarrow> 'w \<Rightarrow> (bool \<times> string) option \<times> 'w) dict"
  ce_judge :: "string \<Rightarrow> 'w \<Rightarrow> string option \<times> 'w"

datatype evidence = Evidence string | ExceptionText

record criterion_result =
  cs_id :: string
  cs_kind :: string
  cs_severity :: string
  cs_passed :: bool
  cs_evidence :: evidence

subsection \<open>Members of a criterion\<close>

definition item_text :: "'w criteria_env \<Rightarrow> (string, json) dict \<Rightarrow> string \<Rightarrow> string option" where
  "item_text ce item k = map_option (ce_str ce) (map_of item k)"

definition item_text_or :: "'w criteria_env \<Rightarrow> (string, json) dict \<Rightarrow> string \<Rightarrow> string \<Rightarrow> string" where
  "item_text_or ce item k d = (case item_text ce item k of None \<Rightarrow> d | Some t \<Rightarrow> t)"

definition item_int :: "(string, json) dict \<Rightarrow> string \<Rightarrow> int \<Rightarrow> int option" where
  "item_int item k d = (case map_of item k of None \<Rightarrow> Some d | Some v \<Rightarrow> py_int v)"

definition text_list :: "json option \<Rightarrow> string list" where
  "text_list v = (case v of Some (JArr xs) \<Rightarrow> List.map_filter as_str xs | _ \<Rightarrow> [])"

text \<open>\<open>_path\<close>: a path below the workspace, or an exception.\<close>

definition workspace_path :: "'w criteria_env \<Rightarrow> string \<Rightarrow> string option" where
  "workspace_path ce v =
     (let p = ce_resolve ce v in if is_within p (ce_workspace ce) then Some p else None)"

subsection \<open>The checks\<close>

text \<open>The last 4000 characters of a text.\<close>

definition last_chars :: "nat \<Rightarrow> string \<Rightarrow> string" where
  "last_chars n s = drop (length s - n) s"

definition check_command ::
  "'w criteria_env \<Rightarrow> bool \<Rightarrow> (string, json) dict \<Rightarrow> 'w \<Rightarrow> (bool \<times> string) option \<times> 'w" where
  "check_command ce allowed item w =
     (if \<not> allowed then
        (Some (False, ''command criteria are disabled; set [agraph] allow_command_criteria = true to enable them''), w)
      else case (workspace_path ce (item_text_or ce item ''cwd'' ''.''),
                 Option.bind (item_text ce item ''run'') (ce_shlex ce),
                 item_int item ''timeout_seconds'' 60, item_int item ''expect_exit_code'' 0) of
             (Some cwd, Some args, Some timeout, Some expected) \<Rightarrow>
               (case ce_sandbox ce args cwd timeout w of
                  (None, w') \<Rightarrow> (None, w')
                | (Some r, w') \<Rightarrow>
                    (let passed = (sr_code r = expected);
                         out = last_chars 4000 (if sr_stdout r \<noteq> [] then sr_stdout r else sr_stderr r) in
                     case map_of item ''expect_stdout_matches'' of
                       Some p \<Rightarrow>
                         (if truthy p \<and> passed
                          then (map_option (\<lambda>b. (b, out)) (ce_search ce (ce_str ce p) [] (sr_stdout r)), w')
                          else (Some (passed, out), w'))
                     | None \<Rightarrow> (Some (passed, out), w')))
           | _ \<Rightarrow> (None, w))"

definition check_file_exists ::
  "'w criteria_env \<Rightarrow> (string, json) dict \<Rightarrow> 'w \<Rightarrow> (bool \<times> string) option \<times> 'w" where
  "check_file_exists ce item w =
     (case (item_text ce item ''path'', item_int item ''min_bytes'' 0) of
        (Some pat, Some minimum) \<Rightarrow>
          (let inside = filter (\<lambda>p. is_within p (ce_workspace ce) \<and> p \<noteq> ce_workspace ce) (ce_glob ce pat w);
               valid = filter (\<lambda>p. case ce_size ce p w of None \<Rightarrow> False | Some n \<Rightarrow> minimum \<le> n) inside in
           (Some (valid \<noteq> [], py_join '', ''
              (map (\<lambda>p. drop (length (ce_workspace ce) + 1) p) valid)), w))
      | _ \<Rightarrow> (None, w))"

definition check_artifact ::
  "'w criteria_env \<Rightarrow> (string, json) dict \<Rightarrow> (string, json) dict \<Rightarrow> 'w \<Rightarrow> (bool \<times> string) option \<times> 'w" where
  "check_artifact ce item outputs w =
     (case item_text ce item ''output'' of
        None \<Rightarrow> (None, w)
      | Some name \<Rightarrow>
          (case map_of outputs name of
             Some v \<Rightarrow>
               (if truthy v then
                  (map_option (\<lambda>p. (ce_size ce p w \<noteq> None, ce_str ce v)) (workspace_path ce (ce_str ce v)), w)
                else (Some (False, ''output is missing''), w))
           | None \<Rightarrow> (Some (False, ''output is missing''), w)))"

definition file_json :: "'w criteria_env \<Rightarrow> string \<Rightarrow> 'w \<Rightarrow> json option" where
  "file_json ce v w =
     Option.bind (workspace_path ce v) (\<lambda>p. Option.bind (ce_read ce p w) (ce_loads ce))"

definition check_json_schema ::
  "'w criteria_env \<Rightarrow> (string, json) dict \<Rightarrow> (string, json) dict \<Rightarrow> 'w \<Rightarrow> (bool \<times> string) option \<times> 'w" where
  "check_json_schema ce item outputs w =
     (case item_text ce item ''output'' of
        None \<Rightarrow> (None, w)
      | Some name \<Rightarrow>
          (let found = or_null (map_of outputs name);
               value = (case found of
                          JStr s \<Rightarrow>
                            Option.bind (workspace_path ce s) (\<lambda>p.
                              if ce_size ce p w \<noteq> None then file_json ce s w else Some found)
                        | _ \<Rightarrow> Some found);
               schema = (case or_null (map_of item ''schema'') of
                           JNull \<Rightarrow> Option.bind (item_text ce item ''schema_ref'') (\<lambda>r. file_json ce r w)
                         | s \<Rightarrow> Some s) in
           case (value, schema) of
             (Some v, Some s) \<Rightarrow>
               (if ce_schema_ok ce v s then Some (True, ''JSON Schema validation passed'') else None, w)
           | _ \<Rightarrow> (None, w)))"

definition check_regex ::
  "'w criteria_env \<Rightarrow> (string, json) dict \<Rightarrow> (string, json) dict \<Rightarrow> scope \<Rightarrow> 'w \<Rightarrow> (bool \<times> string) option \<times> 'w" where
  "check_regex ce item outputs scope w =
     (let value = (case item_text ce item ''target'' of
                     Some t \<Rightarrow> eval_in (ce_agx ce) scope t
                   | None \<Rightarrow> map_option (\<lambda>n. or_null (map_of outputs n)) (item_text ce item ''output''));
          negated = (case map_of item ''negate'' of Some v \<Rightarrow> truthy v | None \<Rightarrow> False) in
      (Option.bind value (\<lambda>v. Option.bind (item_text ce item ''pattern'') (\<lambda>p.
         map_option (\<lambda>m. (m \<noteq> negated, ''pattern '' @ (if m then ''matched'' else ''did not match'')))
           (ce_search ce p (item_text_or ce item ''flags'' []) (ce_str ce v)))), w))"

definition check_expression ::
  "'w criteria_env \<Rightarrow> (string, json) dict \<Rightarrow> scope \<Rightarrow> 'w \<Rightarrow> (bool \<times> string) option \<times> 'w" where
  "check_expression ce item scope w =
     (case Option.bind (item_text ce item ''expr'') (eval_in (ce_agx ce) scope) of
        Some (JBool b) \<Rightarrow> (Some (b, ''expression returned '' @ (if b then ''True'' else ''False'')), w)
      | _ \<Rightarrow> (None, w))"

definition check_human ::
  "'w criteria_env \<Rightarrow> (string, json) dict \<Rightarrow> 'w \<Rightarrow> (bool \<times> string) option \<times> 'w" where
  "check_human ce item w =
     (case ce_human ce of
        None \<Rightarrow> (Some (False, ''human review is unavailable''), w)
      | Some ask \<Rightarrow>
          (case item_text ce item ''prompt'' of
             None \<Rightarrow> (None, w)
           | Some p \<Rightarrow>
               (case ask p (text_list (map_of item ''roles'')) w of
                  (a, w') \<Rightarrow> (map_option (\<lambda>b. (b, if b then ''approved'' else ''rejected'')) a, w'))))"

definition check_external ::
  "'w criteria_env \<Rightarrow> agraph_config \<Rightarrow> (string, json) dict \<Rightarrow> scope \<Rightarrow> 'w \<Rightarrow> (bool \<times> string) option \<times> 'w" where
  "check_external ce cfg item scope w =
     (case item_text ce item ''check'' of
        None \<Rightarrow> (None, w)
      | Some name \<Rightarrow>
          (if \<not> ag_allow_external cfg \<or> name \<notin> set (ag_external_criteria cfg)
           then (Some (False, ''external checker '' @ ce_str ce (JStr name) @ '' is not allowed''), w)
           else case map_of (ce_checkers ce) name of
                  None \<Rightarrow> (Some (False, ''external checker '' @ ce_str ce (JStr name) @ '' is not registered''), w)
                | Some check \<Rightarrow>
                    check (case map_of item ''params'' of Some (JObj d) \<Rightarrow> d | _ \<Rightarrow> []) scope w))"

text \<open>From the first opening to the last closing brace, as the greedy pattern matches.\<close>

definition brace_text :: "string \<Rightarrow> string option" where
  "brace_text s =
     (let r = dropWhile (\<lambda>c. code c \<noteq> 123) s;
          t = rev (dropWhile (\<lambda>c. code c \<noteq> 125) (rev r)) in
      if t = [] then None else Some t)"

definition judge_score :: "'w criteria_env \<Rightarrow> string \<Rightarrow> rat option" where
  "judge_score ce reply =
     (case Option.bind (brace_text reply) (ce_loads ce) of
        Some (JObj d) \<Rightarrow>
          Option.bind (map_of d ''score'') (\<lambda>v. Option.bind (py_number v) (\<lambda>x.
            if 0 \<le> x \<and> x \<le> 1 then Some x else None))
      | _ \<Rightarrow> None)"

fun judge_samples :: "'w criteria_env \<Rightarrow> string \<Rightarrow> nat \<Rightarrow> 'w \<Rightarrow> rat list option \<times> 'w" where
  "judge_samples ce prompt 0 w = (Some [], w)"
| "judge_samples ce prompt (Suc n) w =
     (case ce_judge ce prompt w of
        (None, w') \<Rightarrow> (None, w')
      | (Some reply, w') \<Rightarrow>
          (case judge_score ce reply of
             None \<Rightarrow> (None, w')
           | Some x \<Rightarrow>
               (case judge_samples ce prompt n w' of
                  (xs, w'') \<Rightarrow> (map_option (\<lambda>xs. x # xs) xs, w''))))"

definition median :: "rat list \<Rightarrow> rat option" where
  "median xs =
     (let s = sort xs; n = length xs in
      if n = 0 then None
      else if odd n then Some (s ! (n div 2)) else Some ((s ! (n div 2 - 1) + s ! (n div 2)) / 2))"

definition check_judge ::
  "'w criteria_env \<Rightarrow> (string, json) dict \<Rightarrow> (string, json) dict \<Rightarrow> scope \<Rightarrow> 'w \<Rightarrow> (bool \<times> string) option \<times> 'w" where
  "check_judge ce item outputs scope w =
     (case (those (map (eval_in (ce_agx ce) scope)
              (case map_of item ''inputs'' of Some (JArr xs) \<Rightarrow> map (ce_str ce) xs | _ \<Rightarrow> [])),
            item_text ce item ''rubric'', item_int item ''samples'' 1) of
        (Some material, Some rubric, Some samples) \<Rightarrow>
          (let prompt = ''Return only JSON with a numeric score from 0 to 1 and a short reason. Rubric: ''
                 @ rubric @ [CHR 10] @ ''Material: ''
                 @ ce_dumps ce (JArr (if material = [] then [JObj outputs] else material)) in
           case judge_samples ce prompt (nat samples) w of
             (None, w') \<Rightarrow> (None, w')
           | (Some scores, w') \<Rightarrow>
               (Option.bind (median scores) (\<lambda>m.
                  map_option (\<lambda>threshold. (threshold \<le> m, ''median score''))
                    (case map_of item ''threshold'' of None \<Rightarrow> Some (4 / 5) | Some v \<Rightarrow> py_number v)), w'))
      | _ \<Rightarrow> (None, w))"

definition check_criterion ::
  "'w criteria_env \<Rightarrow> agraph_config \<Rightarrow> criterion \<Rightarrow> (string, json) dict \<Rightarrow> scope \<Rightarrow> 'w \<Rightarrow>
     (bool \<times> string) option \<times> 'w" where
  "check_criterion ce cfg c outputs scope w =
     (let item = cr_item c; kind = cr_kind c in
      if kind = ''command'' then check_command ce (ag_allow_command cfg) item w
      else if kind = ''file_exists'' then check_file_exists ce item w
      else if kind = ''artifact_present'' then check_artifact ce item outputs w
      else if kind = ''json_schema'' then check_json_schema ce item outputs w
      else if kind = ''regex'' then check_regex ce item outputs scope w
      else if kind = ''expression'' then check_expression ce item scope w
      else if kind = ''human'' then check_human ce item w
      else if kind = ''external'' then check_external ce cfg item scope w
      else if kind = ''llm_judge'' then check_judge ce item outputs scope w
      else (None, w))"

definition evaluate_criterion ::
  "'w criteria_env \<Rightarrow> agraph_config \<Rightarrow> criterion \<Rightarrow> (string, json) dict \<Rightarrow> scope \<Rightarrow> 'w \<Rightarrow>
     criterion_result \<times> 'w" where
  "evaluate_criterion ce cfg c outputs scope w =
     (case check_criterion ce cfg c outputs scope w of
        (r, w') \<Rightarrow>
          (\<lparr>cs_id = cr_id c, cs_kind = cr_kind c, cs_severity = cr_severity c,
            cs_passed = (case r of None \<Rightarrow> False | Some (b, _) \<Rightarrow> b),
            cs_evidence = (case r of None \<Rightarrow> ExceptionText | Some (_, t) \<Rightarrow> Evidence t)\<rparr>, w'))"

text \<open>
  A disabled kind of criterion never passes and touches nothing, and no check reads a path
  outside the workspace.
\<close>

lemma disabled_command_fails:
  assumes "cr_kind c = ''command''" and "\<not> ag_allow_command cfg"
  shows "\<exists>r. evaluate_criterion ce cfg c outputs scope w = (r, w) \<and> \<not> cs_passed r"
  using assms by (simp add: evaluate_criterion_def check_criterion_def check_command_def)

lemma workspace_path_inside: "workspace_path ce v = Some p \<Longrightarrow> is_within p (ce_workspace ce)"
  by (auto simp: workspace_path_def Let_def split: if_splits)

end
