(* ===== verification/Agraph_Exec.thy ===== *)
theory Agraph_Exec
  imports Agraph_Criteria Budgets
begin

text \<open>
  Execution of a graph: the nodes of \<open>src/loro/agraph/execute.py\<close> with the bindings of
  \<open>src/loro/agraph/state.py\<close> and the accounting of \<open>src/loro/agraph/record.py\<close>. A step is a
  function on the state of the executor that returns a value or an exception beside the new
  state; the state keeps what it has become when an exception leaves the step, as in Python.

  The members of the executor object that change are the fields of \<open>exec_state\<close>. The record of
  the whole run is shared by all levels in the code (\<open>_active_record\<close>): what nested fragments
  write into it, its diagnostics and the iteration counts of its nodes, are fields of the state;
  the node records themselves are passed explicitly. Nodes scheduled together run in the order
  in which they were submitted. The event handler of the user interface is left out.
\<close>

subsection \<open>Records of a run\<close>

record attempt =
  at_number :: int
  at_succeeded :: bool
  at_started :: string
  at_finished :: string
  at_routed :: "routing_decision option"
  at_usage :: "(string, json) dict"
  at_results :: "criterion_result list"
  at_error :: "string option"

record node_details =
  dt_attempts :: "attempt list option"
  dt_iterations :: "int option"
  dt_more :: "(string, json) dict"

record node_record =
  nr_type :: string
  nr_status :: run_status
  nr_outputs :: "(string, json) dict"
  nr_attempts :: "attempt list"
  nr_iterations :: "int option"
  nr_more :: "(string, json) dict"

type_synonym node_records = "(string, node_record) dict"

record diagnostic =
  dg_code :: string
  dg_error :: bool
  dg_pointer :: "string option"
  dg_node :: "string option"

record run_record =
  rr_run_id :: string
  rr_graph_id :: string
  rr_digest :: string
  rr_status :: string
  rr_nodes :: node_records
  rr_usage :: "(string, rat) dict"
  rr_diagnostics :: "diagnostic list"
  rr_source :: string
  rr_params :: "(string, json) dict"
  rr_dry_run :: bool
  rr_compensated :: "string list"
  rr_outputs :: "(string, json) dict option"
  rr_finished :: bool

definition no_details :: node_details where
  "no_details = \<lparr>dt_attempts = None, dt_iterations = None, dt_more = []\<rparr>"

definition with_attempts :: "attempt list \<Rightarrow> node_details" where
  "with_attempts as = no_details\<lparr>dt_attempts := Some as\<rparr>"

definition with_entry :: "string \<Rightarrow> json \<Rightarrow> node_details \<Rightarrow> node_details" where
  "with_entry k v d = d\<lparr>dt_more := AList.update k v (dt_more d)\<rparr>"

text \<open>\<open>node_record.update(details)\<close>.\<close>

definition apply_details :: "node_details \<Rightarrow> node_record \<Rightarrow> node_record" where
  "apply_details d r =
     r\<lparr>nr_attempts := (case dt_attempts d of None \<Rightarrow> nr_attempts r | Some as \<Rightarrow> as),
       nr_iterations := (case dt_iterations d of None \<Rightarrow> nr_iterations r | Some k \<Rightarrow> Some k),
       nr_more := fold (\<lambda>(k, v) m. AList.update k v m) (dt_more d) (nr_more r)\<rparr>"

subsection \<open>Accounting\<close>

definition usage_keys :: "string list" where
  "usage_keys = [''input_tokens'', ''output_tokens'', ''total_tokens'', ''cost_usd'', ''tool_calls'',
                 ''wall_clock_seconds'', ''node_executions'']"

definition empty_usage :: "(string, rat) dict" where
  "empty_usage = map (\<lambda>k. (k, 0)) usage_keys"

definition add_usage :: "string \<times> json \<Rightarrow> (string, rat) dict \<Rightarrow> (string, rat) dict" where
  "add_usage kv totals =
     (case kv of (k, v) \<Rightarrow>
        if k = ''node_executions'' then totals
        else case (map_of totals k, py_number v) of
               (Some t, Some x) \<Rightarrow> AList.update k (t + x) totals
             | _ \<Rightarrow> totals)"

definition add_attempt :: "attempt \<Rightarrow> (string, rat) dict \<Rightarrow> (string, rat) dict" where
  "add_attempt a totals =
     fold add_usage (at_usage a)
       (AList.update ''node_executions'' (the (map_of totals ''node_executions'') + 1) totals)"

definition aggregate_usage :: "node_records \<Rightarrow> (string, rat) dict" where
  "aggregate_usage recs = fold (\<lambda>(_, r). fold add_attempt (nr_attempts r)) recs empty_usage"

definition usage_of :: "(string, rat) dict \<Rightarrow> string \<Rightarrow> rat" where
  "usage_of totals k = (case map_of totals k of None \<Rightarrow> 0 | Some x \<Rightarrow> x)"

subsection \<open>Types of values\<close>

definition matches_type :: "json \<Rightarrow> string \<Rightarrow> bool" where
  "matches_type v expected =
     (if expected = ''any'' then True
      else if expected \<in> {''string'', ''text'', ''markdown'', ''file'', ''directory'', ''artifact'', ''reference''}
      then tag_of v = TgStr
      else if expected = ''integer'' then tag_of v = TgInt
      else if expected = ''number'' then tag_of v \<in> {TgInt, TgFloat}
      else if expected = ''boolean'' then tag_of v = TgBool
      else if expected \<in> {''object'', ''json''} then tag_of v = TgDict
      else if expected \<in> {''array'', ''file_set''} then tag_of v = TgList
      else False)"

subsection \<open>The executor\<close>

datatype exec_error =
    NoFuel
  | ExpressionFailed | MissingInput string | SchemaFailed | UnknownNode string | NoDiagnostics
  | RuntimeFailed string | HumanFailed | ApprovalFailed | ProfileInvalid
  | ExternalSubgraph | EscapesWorkspace | LoadFailed | IntegrityFailed | WrongGraphId | UnknownFragment
  | UnknownParams "string list" | MissingParam string | ParamType string
  | RedactedParams "string list" | NeedsPlanApproval | GraphRejected
  | DryRunRecord | UncertainEffects "string list" | DigestChanged | ForceNotApproved
  | UnknownRun | RecordRefused

datatype exec_event =
    EvNodeStarted string
  | EvNodeCompleted string run_status "string list"
  | EvNodeBlocked string
  | EvGateDecided bool "string list"
  | EvCriteria string bool "string list"
  | EvProfileBound string string
  | EvPolicyDenied | EvValidated string | EvResumeForced string

record loaded_graph =
  ld_graph :: graph
  ld_digest :: string

record runtime_result =
  rs_summary :: string
  rs_usage :: "(string, json) dict"
  rs_outputs :: "(string, json) dict"

text \<open>The configuration a node runs under: model, step limit and the limits of the budget.\<close>

record node_config =
  cf_model :: model_settings
  cf_max_steps :: int
  cf_limits :: runtime_limits

record 'w exec_env =
  xe_criteria :: "'w criteria_env"
  xe_floats :: "rat \<Rightarrow> string"
  xe_repr :: "json \<Rightarrow> string"
  xe_agraph :: agraph_config
  xe_models :: model_settings
  xe_max_steps :: int
  xe_limits :: runtime_limits
  xe_permissions :: permissions_config
  xe_base_attr :: "string \<Rightarrow> bool"
  xe_roles :: "string list"
  xe_environ :: "(string, string) dict"
  xe_mcp_servers :: "string list"
  xe_skill_ok :: "string \<Rightarrow> bool"
  xe_gate :: "(string \<Rightarrow> string list \<Rightarrow> 'w \<Rightarrow> json option \<times> 'w) option"
  xe_run :: "node_config \<Rightarrow> string option \<Rightarrow> string \<Rightarrow> 'w \<Rightarrow> (string + runtime_result) \<times> 'w"
  xe_approve :: "string \<Rightarrow> string \<Rightarrow> (string, json) dict \<Rightarrow> bool \<Rightarrow> 'w \<Rightarrow> bool \<times> 'w"
  xe_load :: "string \<Rightarrow> 'w \<Rightarrow> loaded_graph option"
  xe_clock :: "'w \<Rightarrow> rat"
  xe_now :: "'w \<Rightarrow> string"
  xe_record_ok :: "run_record \<Rightarrow> bool"
  xe_error_text :: "exec_error \<Rightarrow> string"
  xe_contract :: "(string, output_spec) dict \<Rightarrow> string"
  xe_redaction_text :: string

record 'w exec_state =
  xs_world :: 'w
  xs_executions :: int
  xs_depth :: int
  xs_budget_failed :: bool
  xs_loops :: "(string, int) dict"
  xs_iterations :: "(string, int) dict"
  xs_diagnostics :: "diagnostic list"
  xs_usage :: "(string, rat) dict"
  xs_cost_limit :: "rat option"
  xs_token_limit :: "int option"
  xs_started :: rat
  xs_events :: "exec_event list"
  xs_saved :: "run_record list"

type_synonym ('a, 'w) exec = "'w exec_state \<Rightarrow> (exec_error + 'a) \<times> 'w exec_state"

definition xret :: "'a \<Rightarrow> ('a, 'w) exec" where
  "xret v = (\<lambda>st. (Inr v, st))"

definition xraise :: "exec_error \<Rightarrow> ('a, 'w) exec" where
  "xraise e = (\<lambda>st. (Inl e, st))"

definition xbind :: "('a, 'w) exec \<Rightarrow> ('a \<Rightarrow> ('b, 'w) exec) \<Rightarrow> ('b, 'w) exec" where
  "xbind m f = (\<lambda>st. case m st of (Inl e, st') \<Rightarrow> (Inl e, st') | (Inr v, st') \<Rightarrow> f v st')"

text \<open>\<open>try: m except Exception as e: h(e)\<close>.\<close>

definition xtry :: "('a, 'w) exec \<Rightarrow> (exec_error \<Rightarrow> ('a, 'w) exec) \<Rightarrow> ('a, 'w) exec" where
  "xtry m h = (\<lambda>st. case m st of (Inl e, st') \<Rightarrow> h e st' | (Inr v, st') \<Rightarrow> (Inr v, st'))"

definition xmodify :: "('w exec_state \<Rightarrow> 'w exec_state) \<Rightarrow> (unit, 'w) exec" where
  "xmodify f = (\<lambda>st. (Inr (), f st))"

definition xread :: "('w exec_state \<Rightarrow> 'a) \<Rightarrow> ('a, 'w) exec" where
  "xread f = (\<lambda>st. (Inr (f st), st))"

definition xworld :: "('w \<Rightarrow> 'a \<times> 'w) \<Rightarrow> ('a, 'w) exec" where
  "xworld f = (\<lambda>st. case f (xs_world st) of (v, w) \<Rightarrow> (Inr v, st\<lparr>xs_world := w\<rparr>))"

definition xoption :: "exec_error \<Rightarrow> 'a option \<Rightarrow> ('a, 'w) exec" where
  "xoption e v = (case v of None \<Rightarrow> xraise e | Some x \<Rightarrow> xret x)"

definition xlog :: "exec_event \<Rightarrow> (unit, 'w) exec" where
  "xlog e = xmodify (\<lambda>st. st\<lparr>xs_events := xs_events st @ [e]\<rparr>)"

fun xfold :: "('a \<Rightarrow> 'b \<Rightarrow> ('b, 'w) exec) \<Rightarrow> 'a list \<Rightarrow> 'b \<Rightarrow> ('b, 'w) exec" where
  "xfold f [] b = xret b"
| "xfold f (x # xs) b = xbind (f x b) (xfold f xs)"

definition xmap :: "('a \<Rightarrow> ('b, 'w) exec) \<Rightarrow> 'a list \<Rightarrow> ('b list, 'w) exec" where
  "xmap f xs = xfold (\<lambda>x ys. xbind (f x) (\<lambda>y. xret (ys @ [y]))) xs []"

definition xeval :: "'w exec_env \<Rightarrow> scope \<Rightarrow> string \<Rightarrow> (json, 'w) exec" where
  "xeval env scope t = xoption ExpressionFailed (eval_in (ce_agx (xe_criteria env)) scope t)"

text \<open>\<open>"when" in block and not bool(evaluate(...))\<close> is the negation of this.\<close>

definition xwhen :: "'w exec_env \<Rightarrow> scope \<Rightarrow> string option \<Rightarrow> (bool, 'w) exec" where
  "xwhen env scope w =
     (case w of None \<Rightarrow> xret True | Some t \<Rightarrow> xbind (xeval env scope t) (\<lambda>v. xret (truthy v)))"


subsection \<open>Pieces of a task\<close>

definition ask_human :: "'w exec_env \<Rightarrow> string \<Rightarrow> string list \<Rightarrow> (json option, 'w) exec" where
  "ask_human env prompt roles =
     (case xe_gate env of
        None \<Rightarrow> xret None
      | Some ask \<Rightarrow> xbind (xworld (ask prompt roles)) (\<lambda>a. xbind (xoption HumanFailed a) (\<lambda>v. xret (Some v))))"

fun checkpoints :: "'w exec_env \<Rightarrow> checkpoint list \<Rightarrow> string \<Rightarrow> scope \<Rightarrow> (bool, 'w) exec" where
  "checkpoints env [] stage scope = xret True"
| "checkpoints env (cp # cps) stage scope =
     (if cp_at cp \<noteq> stage then checkpoints env cps stage scope
      else xbind (xwhen env scope (cp_when cp)) (\<lambda>applies.
        if \<not> applies \<or> cp_mode cp = ''notify'' then checkpoints env cps stage scope
        else xbind (ask_human env (cp_prompt cp) (cp_roles cp)) (\<lambda>a.
          case a of
            None \<Rightarrow> xret False
          | Some v \<Rightarrow> if truthy v then checkpoints env cps stage scope else xret False)))"

definition resolve_inputs ::
  "'w exec_env \<Rightarrow> (string, input_spec) dict \<Rightarrow> scope \<Rightarrow> ((string, json) dict, 'w) exec" where
  "resolve_inputs env specs scope =
     xfold (\<lambda>(name, spec) values.
       xbind (case is_source spec of
                FromExpr t \<Rightarrow> xeval env scope t
              | FromTemplate t \<Rightarrow>
                  xoption ExpressionFailed
                    (case agx_interpolate (ce_agx (xe_criteria env)) (xe_floats env) scope t of
                       Finished s \<Rightarrow> Some (JStr s) | _ \<Rightarrow> None)
              | FromValue v \<Rightarrow> xret v
              | FromDefault v \<Rightarrow> xret v) (\<lambda>v.
         if v = JNull \<and> is_required spec then xraise (MissingInput name)
         else xret (AList.update name v values))) specs []"

definition discover_outputs ::
  "'w exec_env \<Rightarrow> (string, output_spec) dict \<Rightarrow> 'w \<Rightarrow> (string, json) dict \<Rightarrow> (string, json) dict" where
  "discover_outputs env specs w outputs =
     fold (\<lambda>(name, spec) outs.
       case os_path_hint spec of
         Some (c # cs) \<Rightarrow>
           (let p = ce_resolve (xe_criteria env) (c # cs) in
            if map_of outs name = None \<and> is_within p (ce_workspace (xe_criteria env))
               \<and> ce_size (xe_criteria env) p w \<noteq> None
            then AList.update name (JStr (c # cs)) outs else outs)
       | _ \<Rightarrow> outs) specs outputs"

definition validate_outputs ::
  "'w exec_env \<Rightarrow> (string, json) dict \<Rightarrow> (string, output_spec) dict \<Rightarrow> exec_error + string list" where
  "validate_outputs env outputs specs =
     map_sum id concat (res_map (\<lambda>(name, spec).
       case map_of outputs name of
         None \<Rightarrow> Inr (if os_required spec then [name] else [])
       | Some v \<Rightarrow>
           (if (case os_schema spec of Some sc \<Rightarrow> \<not> ce_schema_ok (xe_criteria env) v sc | None \<Rightarrow> False)
            then Inl SchemaFailed
            else Inr (if matches_type v (os_type spec) then [] else [name]))) specs)"

text \<open>\<open>bind_self\<close> of \<open>state.py\<close>.\<close>

definition bind_self ::
  "string \<Rightarrow> int \<Rightarrow> (string, json) dict \<Rightarrow> (string, json) dict \<Rightarrow> run_status \<Rightarrow> scope \<Rightarrow> scope" where
  "bind_self node_id attempt inputs outputs st scope =
     (let binding = JObj [(''id'', JStr node_id), (''attempt'', JInt attempt),
                          (''status'', JStr (run_status_text st)), (''inputs'', JObj inputs),
                          (''outputs'', JObj outputs)] in
      bind_node ''self'' binding (AList.update ''self'' binding scope))"

definition evaluate_criteria ::
  "'w exec_env \<Rightarrow> node_info \<Rightarrow> string \<Rightarrow> int \<Rightarrow> (string, json) dict \<Rightarrow> (string, json) dict \<Rightarrow> scope \<Rightarrow>
     (criterion_result list, 'w) exec" where
  "evaluate_criteria env ni node_id attempt inputs outputs scope =
     (let local = bind_self node_id attempt inputs outputs Running
                    (bind_node node_id (node_binding Running outputs) scope) in
      xbind (xmap (\<lambda>c. xworld (evaluate_criterion (xe_criteria env) (xe_agraph env) c outputs local))
               (case nd_success ni of None \<Rightarrow> [] | Some su \<Rightarrow> su_criteria su)) (\<lambda>results.
      xbind (xlog (EvCriteria node_id
               (list_all (\<lambda>r. cs_passed r \<or> cs_severity r = ''advisory'') results) (map cs_id results)))
        (\<lambda>_. xret results)))"

text \<open>\<open>mode\<close> and \<open>count\<close> of the success block, over the required criteria.\<close>

definition criteria_met :: "node_info \<Rightarrow> criterion_result list \<Rightarrow> bool" where
  "criteria_met ni results =
     (let required = filter (\<lambda>r. cs_severity r = ''required'') results;
          passed = int (length (filter cs_passed required));
          mode = (case nd_success ni of None \<Rightarrow> ''all'' | Some su \<Rightarrow> su_mode su);
          needed = (case nd_success ni of
                      None \<Rightarrow> int (length required)
                    | Some su \<Rightarrow> (case su_count su of None \<Rightarrow> int (length required) | Some c \<Rightarrow> c)) in
      if mode = ''all'' then passed = int (length required)
      else if mode = ''any'' then 0 < passed else needed \<le> passed)"

definition bounded :: "'a :: linorder option \<Rightarrow> 'a option \<Rightarrow> 'a option" where
  "bounded current requested =
     (case (current, requested) of
        (None, r) \<Rightarrow> r | (Some c, None) \<Rightarrow> Some c | (Some c, Some r) \<Rightarrow> Some (min c r))"

text \<open>\<open>_node_config\<close>, with the cost and token limits of the run.\<close>

definition make_node_config ::
  "'w exec_env \<Rightarrow> rat option \<Rightarrow> int option \<Rightarrow> model_settings \<Rightarrow> node_constraints \<Rightarrow> node_config" where
  "make_node_config env cost_limit token_limit m nc =
     (let lim = xe_limits env;
          parallel = max 1 (ag_max_parallel (xe_agraph env));
          cost = bounded (max_cost_usd lim) (nc_max_cost nc);
          inp = bounded (max_input_tokens lim) (nc_max_input_tokens nc) in
      \<lparr>cf_model = m,
       cf_max_steps = min (xe_max_steps env)
         (case nc_max_agent_steps nc of None \<Rightarrow> xe_max_steps env | Some k \<Rightarrow> k),
       cf_limits = lim
         \<lparr>max_tool_calls := min (max_tool_calls lim)
            (case nc_max_tool_calls nc of None \<Rightarrow> max_tool_calls lim | Some k \<Rightarrow> k),
          max_input_tokens :=
            (case token_limit of None \<Rightarrow> inp | Some t \<Rightarrow> bounded inp (Some (t div parallel))),
          max_output_tokens := bounded (max_output_tokens lim) (nc_max_output_tokens nc),
          max_cost_usd :=
            (case cost_limit of None \<Rightarrow> cost | Some c \<Rightarrow> bounded cost (Some (c / of_int parallel)))\<rparr>\<rparr>)"

definition node_prompt ::
  "'w exec_env \<Rightarrow> string \<Rightarrow> node_info \<Rightarrow> (string, json) dict \<Rightarrow> string \<Rightarrow> string" where
  "node_prompt env node_id ni inputs feedback =
     (let nl = [CHR 10]; dumps = ce_dumps (xe_criteria env) in
      ''Execute AGS node '' @ node_id @ '': '' @ nd_description ni @ nl @ nl
      @ ''Instructions: '' @ nd_instructions ni @ nl
      @ ''Inputs: '' @ dumps (JObj inputs) @ nl
      @ ''Output contract: '' @ xe_contract env (nd_outputs ni) @ nl
      @ ''Emit structured outputs with the graph.emit_output tool. Pass name and value arguments.'' @ nl
      @ feedback)"

definition retry_allowed :: "failure_policy \<Rightarrow> string \<Rightarrow> bool" where
  "retry_allowed fp cls \<longleftrightarrow> ''any'' \<in> set (fp_retry_on fp) \<or> cls \<in> set (fp_retry_on fp)"

definition record_diagnostic :: "string \<Rightarrow> string \<Rightarrow> (unit, 'w) exec" where
  "record_diagnostic c node_id =
     xmodify (\<lambda>st. st\<lparr>xs_diagnostics := xs_diagnostics st
       @ [\<lparr>dg_code = c, dg_error = True, dg_pointer = None,
           dg_node = (if node_id = [] then None else Some node_id)\<rparr>]\<rparr>)"

type_synonym node_outcome = "run_status \<times> (string, json) dict \<times> node_details"


subsection \<open>A task\<close>

text \<open>The requirements of a node that block it before it starts.\<close>

definition secrets_missing :: "'w exec_env \<Rightarrow> graph \<Rightarrow> requirements \<Rightarrow> bool" where
  "secrets_missing env g rq \<longleftrightarrow>
     list_ex (\<lambda>n. (case map_of (gi_secrets (gr_info g)) n of None \<Rightarrow> True | Some r \<Rightarrow> r)
                   \<and> map_of (xe_environ env) n = None) (rq_secrets rq)"

definition permission_granted :: "'w exec_env \<Rightarrow> string \<Rightarrow> bool" where
  "permission_granted env perm =
     (case permission_resource perm of (tool, action, target) \<Rightarrow>
        case require_allowed (xe_floats env) (xe_base_attr env) (xe_permissions env)
               \<lparr>req_tool = tool, req_action = action, req_target = Some target, req_resource = None\<rparr> False of
          Inl _ \<Rightarrow> False | Inr _ \<Rightarrow> True)"

definition task_blocked :: "'w exec_env \<Rightarrow> graph \<Rightarrow> requirements \<Rightarrow> bool" where
  "task_blocked env g rq \<longleftrightarrow>
     missing_tools (xe_repr env) (rq_tools rq) \<noteq> [] \<or> secrets_missing env g rq
     \<or> \<not> list_all (\<lambda>s. s \<in> set (xe_mcp_servers env)) (rq_mcp_servers rq)
     \<or> \<not> list_all (xe_skill_ok env) (rq_skills rq)"

definition side_effecting :: "requirements \<Rightarrow> bool" where
  "side_effecting rq \<longleftrightarrow>
     rq_workspace rq = ''read_write''
     \<or> list_ex (\<lambda>p. list_ex (contains p) ['':write:'', '':push:'', '':commit:'']) (rq_permissions rq)"

definition run_profile ::
  "'w exec_env \<Rightarrow> node_config \<Rightarrow> string \<Rightarrow> node_info \<Rightarrow> string \<Rightarrow> (runtime_result, 'w) exec" where
  "run_profile env cf node_id ni prompt =
     xbind (case nd_profile ni of
              None \<Rightarrow> xret ()
            | Some p \<Rightarrow> if p = [] then xraise ProfileInvalid else xlog (EvProfileBound node_id p)) (\<lambda>_.
     xbind (xworld (xe_run env cf (nd_profile ni) prompt)) (\<lambda>r.
       case r of Inl t \<Rightarrow> xraise (RuntimeFailed t) | Inr v \<Rightarrow> xret v))"

datatype attempt_end =
    Returns node_outcome
  | Stops "(string, json) dict" "attempt list"
  | Retries "(string, json) dict" "attempt list" string

text \<open>The handler of an exception inside an attempt.\<close>

definition attempt_failed ::
  "'w exec_env \<Rightarrow> failure_policy \<Rightarrow> int \<Rightarrow> string \<Rightarrow> (string, json) dict \<Rightarrow> attempt list \<Rightarrow> exec_error \<Rightarrow>
     (attempt_end, 'w) exec" where
  "attempt_failed env fp n started outputs as e =
     xbind (xread (xe_now env \<circ> xs_world)) (\<lambda>finished.
       let as' = as @ [\<lparr>at_number = n, at_succeeded = False, at_started = started, at_finished = finished,
                        at_routed = None, at_usage = [], at_results = [],
                        at_error = Some (''model_error: '' @ xe_error_text env e)\<rparr>] in
       xret (if retry_allowed fp ''model_error'' then Retries outputs as' (xe_error_text env e)
             else Stops outputs as'))"

text \<open>After the runtime has returned: outputs, criteria, the attempt record, and what follows.\<close>

definition failed_criteria_text :: "criterion_result list \<Rightarrow> string" where
  "failed_criteria_text results =
     ''Failed criteria:'' @ [CHR 10]
     @ py_join [CHR 10] (map (\<lambda>r. ''- '' @ cs_id r @ '': ''
          @ (case cs_evidence r of Evidence t \<Rightarrow> t | ExceptionText \<Rightarrow> []))
          (filter (\<lambda>r. \<not> cs_passed r) results))"

definition judge_attempt ::
  "'w exec_env \<Rightarrow> node_info \<Rightarrow> scope \<Rightarrow> int \<Rightarrow> string \<Rightarrow> routing_decision \<Rightarrow> runtime_result \<Rightarrow>
     (string, json) dict \<Rightarrow> attempt list \<Rightarrow> string list \<Rightarrow> criterion_result list \<Rightarrow> (attempt_end, 'w) exec" where
  "judge_attempt env ni scope n started d result outputs as missing results =
     xbind (xread (xe_now env \<circ> xs_world)) (\<lambda>finished.
       let success = (missing = [] \<and> criteria_met ni results);
           cls = (if missing \<noteq> [] then ''output_missing'' else ''criteria_failed'');
           as' = as @ [\<lparr>at_number = n, at_succeeded = success, at_started = started, at_finished = finished,
                        at_routed = Some d, at_usage = rs_usage result, at_results = results,
                        at_error = (if success then None else Some (cls @ '': node contract failed''))\<rparr>];
           done_scope = AList.update ''outputs'' (JObj outputs) scope;
           fp = nd_failure ni in
       xtry
         (xbind (if success then checkpoints env (nd_human ni) ''after_outputs'' done_scope else xret False)
            (\<lambda>accepted.
              if accepted then xret (Returns (Succeeded, outputs, with_attempts as'))
              else if \<not> retry_allowed fp cls then xret (Stops outputs as')
              else xbind (checkpoints env (nd_human ni) ''on_criteria_failure'' done_scope) (\<lambda>go_on.
                     xret (if go_on then Retries outputs as' (failed_criteria_text results)
                           else Returns (Awaiting_Human, outputs, with_attempts as')))))
         (attempt_failed env fp n started outputs as'))"

definition attempt_body ::
  "'w exec_env \<Rightarrow> node_info \<Rightarrow> string \<Rightarrow> scope \<Rightarrow> (string, json) dict \<Rightarrow> int \<Rightarrow> string \<Rightarrow>
     routing_decision \<Rightarrow> node_config \<Rightarrow> (string, json) dict \<Rightarrow> attempt list \<Rightarrow> string \<Rightarrow> (attempt_end, 'w) exec" where
  "attempt_body env ni node_id scope inputs n started d cf outputs as prompt =
     xbind (xtry (xbind (run_profile env cf node_id ni prompt) (\<lambda>r. xret (Inr r))) (\<lambda>e. xret (Inl e))) (\<lambda>r.
       case r of
         Inl e \<Rightarrow> attempt_failed env (nd_failure ni) n started outputs as e
       | Inr result \<Rightarrow>
           xbind (xread (\<lambda>st. discover_outputs env (nd_outputs ni) (xs_world st) (rs_outputs result))) (\<lambda>outs.
             case validate_outputs env outs (nd_outputs ni) of
               Inl e \<Rightarrow> attempt_failed env (nd_failure ni) n started outs as e
             | Inr missing \<Rightarrow>
                 xbind (evaluate_criteria env ni node_id n inputs outs scope) (\<lambda>results.
                   judge_attempt env ni scope n started d result outs as missing results)))"

definition one_attempt ::
  "'w exec_env \<Rightarrow> node_info \<Rightarrow> string \<Rightarrow> scope \<Rightarrow> (string, json) dict \<Rightarrow> int \<Rightarrow> (string, json) dict \<Rightarrow>
     attempt list \<Rightarrow> string \<Rightarrow> (attempt_end, 'w) exec" where
  "one_attempt env ni node_id scope inputs n outputs as feedback =
     xbind (if 1 < n then checkpoints env (nd_human ni) ''on_escalation'' scope else xret True) (\<lambda>go_on.
       if \<not> go_on then xret (Returns (Awaiting_Human, outputs, with_attempts as))
       else case route_model (xe_models env) (nd_intelligence ni) n of
              Inl _ \<Rightarrow> xbind (record_diagnostic ''RT011'' node_id) (\<lambda>_.
                        xbind (xlog (EvNodeBlocked node_id)) (\<lambda>_.
                          xret (Returns (Blocked, [], with_attempts as))))
            | Inr d \<Rightarrow>
                xbind (xread (\<lambda>st. (make_node_config env (xs_cost_limit st) (xs_token_limit st)
                                       (routed_model d (xe_models env)) (nd_constraints ni),
                                     xe_now env (xs_world st)))) (\<lambda>(cf, started).
                  attempt_body env ni node_id scope inputs n started d cf outputs as
                    (node_prompt env node_id ni inputs feedback)))"

text \<open>\<open>for attempt_number in range(1, maximum + 1)\<close>; the first argument counts the attempts left.\<close>

primrec attempt_loop ::
  "nat \<Rightarrow> 'w exec_env \<Rightarrow> node_info \<Rightarrow> string \<Rightarrow> scope \<Rightarrow> (string, json) dict \<Rightarrow> int \<Rightarrow> (string, json) dict \<Rightarrow>
     attempt list \<Rightarrow> string \<Rightarrow> (attempt_end, 'w) exec" where
  "attempt_loop 0 env ni node_id scope inputs n outputs as feedback = xret (Stops outputs as)"
| "attempt_loop (Suc k) env ni node_id scope inputs n outputs as feedback =
     xbind (one_attempt env ni node_id scope inputs n outputs as feedback) (\<lambda>r.
       case r of
         Retries outputs' as' feedback' \<Rightarrow>
           attempt_loop k env ni node_id scope inputs (n + 1) outputs' as' feedback'
       | r \<Rightarrow> xret r)"

definition after_attempts ::
  "'w exec_env \<Rightarrow> node_info \<Rightarrow> scope \<Rightarrow> attempt_end \<Rightarrow> (node_outcome, 'w) exec" where
  "after_attempts env ni scope r =
     (case r of
        Returns out \<Rightarrow> xret out
      | Stops outputs as \<Rightarrow>
          (if fp_on_exhausted (nd_failure ni) = ''skip'' then xret (Skipped, outputs, with_attempts as)
           else if fp_on_exhausted (nd_failure ni) = ''succeed_degraded''
           then xret (Succeeded, outputs, with_attempts as)
           else xbind (checkpoints env (nd_human ni) ''on_failure'' scope) (\<lambda>go_on.
                  xret (if go_on then Failed else Awaiting_Human, outputs, with_attempts as)))
      | Retries outputs as _ \<Rightarrow> xret (Failed, outputs, with_attempts as))"

text \<open>\<open>_run_task\<close>.\<close>

definition run_task ::
  "'w exec_env \<Rightarrow> graph \<Rightarrow> string \<Rightarrow> node_info \<Rightarrow> scope \<Rightarrow> (node_outcome, 'w) exec" where
  "run_task env g node_id ni scope =
     (let rq = nd_requirements ni in
      if task_blocked env g rq then xret (Blocked, [], no_details)
      else if \<not> list_all (permission_granted env) (rq_permissions rq) then
        xbind (record_diagnostic ''RT021'' node_id) (\<lambda>_.
        xbind (xlog (EvNodeBlocked node_id)) (\<lambda>_. xret (Blocked, [], no_details)))
      else
        (let node_scope = AList.update ''env''
               (JObj (List.map_filter (\<lambda>n. map_option (\<lambda>v. (n, JStr v)) (map_of (xe_environ env) n))
                        (rq_environment rq))) scope in
         xbind (resolve_inputs env (nd_inputs ni) node_scope) (\<lambda>inputs.
         xbind (checkpoints env (nd_human ni) ''before_start'' scope) (\<lambda>start.
           if \<not> start then xret (Awaiting_Human, [], no_details)
           else xbind (if side_effecting rq then checkpoints env (nd_human ni) ''before_side_effects'' scope
                       else xret True) (\<lambda>effects.
             if \<not> effects then xret (Awaiting_Human, [], no_details)
             else xbind (attempt_loop (nat (fp_max_attempts (nd_failure ni))) env ni node_id scope inputs 1
                           [] [] []) (after_attempts env ni scope))))))"


subsection \<open>Gates and decisions\<close>

definition consume_plan_approval ::
  "'w exec_env \<Rightarrow> string \<Rightarrow> string \<Rightarrow> (string, json) dict \<Rightarrow> bool \<Rightarrow> (unit, 'w) exec" where
  "consume_plan_approval env action target args non_interactive =
     xbind (xworld (xe_approve env action target args non_interactive)) (\<lambda>ok.
       if ok then xret () else xraise ApprovalFailed)"

definition human_event :: "string \<Rightarrow> string \<Rightarrow> string \<Rightarrow> json" where
  "human_event mode outcome now =
     JArr [JObj [(''at_stage'', JStr ''gate''), (''mode'', JStr mode), (''outcome'', JStr outcome), (''at'', JStr now)]]"

text \<open>
  The \<open>collect\<close> members of an input gate, in order; \<open>Inl\<close> is the outcome of an early return.
\<close>

fun collect_inputs ::
  "(string, collect_spec) dict \<Rightarrow> (string, json) dict \<Rightarrow> run_status + (string, json) dict" where
  "collect_inputs [] collected = Inr collected"
| "collect_inputs ((name, spec) # specs) collected =
     (let filled = (case (map_of collected name, co_default spec) of
                      (None, Some v) \<Rightarrow> AList.update name v collected | _ \<Rightarrow> collected) in
      if map_of filled name = None \<and> co_required spec then Inl Awaiting_Human
      else if (case map_of filled name of None \<Rightarrow> False | Some v \<Rightarrow> \<not> matches_type v (co_type spec))
      then Inl Failed
      else collect_inputs specs filled)"

definition run_gate :: "'w exec_env \<Rightarrow> node_info \<Rightarrow> gate_block \<Rightarrow> (node_outcome, 'w) exec" where
  "run_gate env ni gate =
     (if gt_roles gate \<noteq> [] \<and> list_all (\<lambda>r. r \<notin> set (xe_roles env)) (gt_roles gate)
      then xret (Blocked, [], no_details)
      else if gt_mode gate = ''notify'' then
        xbind (xread (xe_now env \<circ> xs_world)) (\<lambda>now.
          xret (Succeeded, [], with_entry ''human_events'' (human_event ''notify'' ''notified'' now) no_details))
      else xbind (ask_human env (gt_prompt gate) (gt_roles gate)) (\<lambda>a.
        case a of
          None \<Rightarrow> xret (Awaiting_Human, [], no_details)
        | Some response \<Rightarrow>
            (case (if gt_mode gate = ''input''
                   then collect_inputs (gt_collect gate) (case response of JObj d \<Rightarrow> d | _ \<Rightarrow> [])
                   else Inr (case response of JObj d \<Rightarrow> d | _ \<Rightarrow> [])) of
               Inl outcome \<Rightarrow> xret (outcome, [], no_details)
             | Inr collected \<Rightarrow>
                 (let approved = truthy response;
                      outcome = (if approved then ''approved'' else ''rejected'') in
                  xbind (if approved
                         then consume_plan_approval env ''agraph.gate'' (nd_title ni)
                                [(''prompt'', JStr (gt_prompt gate))] True
                         else xret ()) (\<lambda>_.
                  xbind (xlog (EvGateDecided approved (gt_roles gate))) (\<lambda>_.
                  xbind (xread (xe_now env \<circ> xs_world)) (\<lambda>now.
                    xret (if approved then Succeeded else Failed,
                          fold (\<lambda>(k, v) d. AList.update k v d) collected [(''decision'', JStr outcome)],
                          with_entry ''human_events'' (human_event (gt_mode gate) outcome now)
                            (with_entry ''decision'' (JStr outcome) no_details)))))))))"

fun first_branch :: "'w exec_env \<Rightarrow> scope \<Rightarrow> branch list \<Rightarrow> (string option, 'w) exec" where
  "first_branch env scope [] = xret None"
| "first_branch env scope (b # bs) =
     xbind (xeval env scope (br_when b)) (\<lambda>v.
       if truthy v then xret (Some (br_label b)) else first_branch env scope bs)"

definition decision_prompt :: "node_info \<Rightarrow> decision_block \<Rightarrow> string" where
  "decision_prompt ni db =
     (if db_question db = [] then nd_description ni else db_question db) @ [CHR 10]
     @ ''Choose exactly one branch label: '' @ py_join '', '' (map br_label (db_branches db))
     @ ''. Emit it as graph output named decision.''"

definition chosen_label :: "string list \<Rightarrow> runtime_result \<Rightarrow> string option" where
  "chosen_label labels r =
     (case map_of (rs_outputs r) ''decision'' of
        Some (JStr l) \<Rightarrow>
          (if l \<in> set labels then Some l else List.find (contains (rs_summary r)) labels)
      | _ \<Rightarrow> List.find (contains (rs_summary r)) labels)"

definition decide ::
  "decision_block \<Rightarrow> string option \<Rightarrow> (node_outcome, 'w) exec" where
  "decide db selected =
     (case (case selected of Some (c # cs) \<Rightarrow> Some (c # cs) | _ \<Rightarrow> db_default db) of
        None \<Rightarrow> xret (Failed, [], no_details)
      | Some l \<Rightarrow> xret (Succeeded, [(''decision'', JStr l)], with_entry ''decision'' (JStr l) no_details))"

definition run_decision ::
  "'w exec_env \<Rightarrow> node_info \<Rightarrow> decision_block \<Rightarrow> scope \<Rightarrow> (node_outcome, 'w) exec" where
  "run_decision env ni db scope =
     (if db_evaluator db = ''expression''
      then xbind (first_branch env scope (db_branches db)) (decide db)
      else case route_model (xe_models env) (nd_intelligence ni) 1 of
             Inl _ \<Rightarrow> xbind (record_diagnostic ''RT011'' []) (\<lambda>_.
                       xbind (xlog (EvNodeBlocked [])) (\<lambda>_. xret (Blocked, [], no_details)))
           | Inr d \<Rightarrow>
               xbind (xworld (xe_run env
                        \<lparr>cf_model = routed_model d (xe_models env), cf_max_steps = xe_max_steps env,
                         cf_limits = xe_limits env\<rparr> None (decision_prompt ni db))) (\<lambda>r.
                 case r of
                   Inl t \<Rightarrow> xraise (RuntimeFailed t)
                 | Inr result \<Rightarrow> decide db (chosen_label (map br_label (db_branches db)) result)))"

subsection \<open>The scheduler loop\<close>

definition fresh_records :: "graph \<Rightarrow> node_records" where
  "fresh_records g =
     map (\<lambda>(n, nd). (n, \<lparr>nr_type = nd_type (nd_info nd), nr_status = Pending, nr_outputs = [],
                         nr_attempts = [], nr_iterations = None, nr_more = []\<rparr>)) (gr_nodes g)"

definition record_states :: "node_records \<Rightarrow> states" where
  "record_states recs = map (\<lambda>(n, r). (n, nr_status r)) recs"

text \<open>The three places where \<open>_finish\<close> writes an outcome.\<close>

record level =
  lv_records :: node_records
  lv_states :: states
  lv_scope :: scope

definition finish :: "string \<Rightarrow> run_status \<Rightarrow> (string, json) dict \<Rightarrow> level \<Rightarrow> exec_error + level" where
  "finish n s outputs lv =
     (case map_of (lv_records lv) n of
        None \<Rightarrow> Inl (UnknownNode n)
      | Some r \<Rightarrow> Inr \<lparr>lv_records = AList.update n (r\<lparr>nr_status := s, nr_outputs := outputs\<rparr>) (lv_records lv),
                       lv_states = AList.update n s (lv_states lv),
                       lv_scope = bind_node n (node_binding s outputs) (lv_scope lv)\<rparr>)"

definition xfinish :: "string \<Rightarrow> run_status \<Rightarrow> (string, json) dict \<Rightarrow> level \<Rightarrow> (level, 'w) exec" where
  "xfinish n s outputs lv = (case finish n s outputs lv of Inl e \<Rightarrow> xraise e | Inr lv' \<Rightarrow> xret lv')"

definition parallel_limit :: "'w exec_env \<Rightarrow> graph \<Rightarrow> nat" where
  "parallel_limit env g = nat (max 1 (min (gi_max_parallel (gr_info g)) (ag_max_parallel (xe_agraph env))))"

text \<open>The nodes of one batch: node conditions, concurrency groups, the audit events.\<close>

fun pick_batch ::
  "'w exec_env \<Rightarrow> graph \<Rightarrow> string list \<Rightarrow> string set \<Rightarrow> string list \<Rightarrow> level \<Rightarrow> (string list \<times> level, 'w) exec" where
  "pick_batch env g [] groups batch lv = xret (batch, lv)"
| "pick_batch env g (n # ns) groups batch lv =
     xbind (xoption (UnknownNode n) (map_of (gr_nodes g) n)) (\<lambda>nd.
     xbind (xwhen env (lv_scope lv) (nd_when (nd_info nd))) (\<lambda>applies.
       if \<not> applies then
         xbind (xfinish n Skipped [] lv) (\<lambda>lv'. pick_batch env g ns groups batch lv')
       else (let group = nc_group (nd_constraints (nd_info nd)) in
             if group \<noteq> [] \<and> group \<in> groups then pick_batch env g ns groups batch lv
             else xbind (xlog (EvNodeStarted n)) (\<lambda>_.
                    pick_batch env g ns (insert group groups) (batch @ [n]) lv))))"

text \<open>Every submitted node runs, also when an earlier one raises; its result is read later.\<close>

fun run_batch ::
  "(graph \<Rightarrow> string \<Rightarrow> node \<Rightarrow> scope \<Rightarrow> (node_outcome \<times> scope, 'w) exec) \<Rightarrow> graph \<Rightarrow> scope \<Rightarrow>
     string list \<Rightarrow> 'w exec_state \<Rightarrow> (exec_error + node_outcome) list \<times> 'w exec_state" where
  "run_batch rn g scope [] st = ([], st)"
| "run_batch rn g scope (n # ns) st =
     (case xbind (xoption (UnknownNode n) (map_of (gr_nodes g) n)) (\<lambda>nd. rn g n nd scope) st of
        (r, st') \<Rightarrow>
          (case run_batch rn g scope ns st' of
             (rs, st'') \<Rightarrow> ((case r of Inl e \<Rightarrow> Inl e | Inr (out, _) \<Rightarrow> Inr out) # rs, st'')))"

definition xbatch ::
  "(graph \<Rightarrow> string \<Rightarrow> node \<Rightarrow> scope \<Rightarrow> (node_outcome \<times> scope, 'w) exec) \<Rightarrow> graph \<Rightarrow> scope \<Rightarrow>
     string list \<Rightarrow> (node_outcome list, 'w) exec" where
  "xbatch rn g scope ns =
     (\<lambda>st. case run_batch rn g scope ns st of (rs, st') \<Rightarrow> (res_map id rs, st'))"

text \<open>Whether the limits of the run are exceeded; a fragment record has no diagnostics to write to.\<close>

definition budget_exceeded ::
  "'w exec_env \<Rightarrow> bool \<Rightarrow> graph \<Rightarrow> node_records \<Rightarrow> (bool, 'w) exec" where
  "budget_exceeded env whole g recs =
     (let usage = aggregate_usage recs in
      xbind (xmodify (\<lambda>st. if whole then st\<lparr>xs_usage := usage\<rparr> else st)) (\<lambda>_.
      xbind (xread (\<lambda>st.
          (case xs_cost_limit st of None \<Rightarrow> False | Some l \<Rightarrow> l < usage_of usage ''cost_usd'')
          \<or> (case xs_token_limit st of None \<Rightarrow> False | Some l \<Rightarrow> of_int l < usage_of usage ''total_tokens'')
          \<or> (case gi_max_wall (gr_info g) of
               None \<Rightarrow> False | Some l \<Rightarrow> l < xe_clock env (xs_world st) - xs_started st))) (\<lambda>exceeded.
        if exceeded then
          xbind (xmodify (\<lambda>st. st\<lparr>xs_budget_failed := True\<rparr>)) (\<lambda>_.
            if whole then xbind (record_diagnostic ''RT031'' []) (\<lambda>_. xret True) else xraise NoDiagnostics)
        else xret False)))"

definition redacted_outputs ::
  "(string, output_spec) dict \<Rightarrow> (string, json) dict \<Rightarrow> (string, json) dict" where
  "redacted_outputs specs outputs =
     List.map_filter (\<lambda>(n, sp). map_option (\<lambda>v. (n, if os_redact sp then JStr ''[redacted]'' else v))
                                  (map_of outputs n)) specs"

definition merge_iterations :: "(string, int) dict \<Rightarrow> node_records \<Rightarrow> node_records" where
  "merge_iterations its recs =
     map (\<lambda>(n, r). (n, case map_of its n of None \<Rightarrow> r | Some k \<Rightarrow> r\<lparr>nr_iterations := Some k\<rparr>)) recs"

definition save_record :: "'w exec_env \<Rightarrow> run_record \<Rightarrow> (unit, 'w) exec" where
  "save_record env rec =
     (if xe_record_ok env rec then xmodify (\<lambda>st. st\<lparr>xs_saved := xs_saved st @ [rec]\<rparr>)
      else xraise RecordRefused)"

text \<open>The record of the whole run, when the level is the outermost one.\<close>

definition save_level :: "'w exec_env \<Rightarrow> run_record option \<Rightarrow> node_records \<Rightarrow> (unit, 'w) exec" where
  "save_level env whole recs =
     (case whole of
        None \<Rightarrow> xret ()
      | Some rec \<Rightarrow>
          xbind (xread (\<lambda>st. rec\<lparr>rr_nodes := merge_iterations (xs_iterations st) recs,
                                rr_diagnostics := xs_diagnostics st, rr_usage := xs_usage st\<rparr>))
            (save_record env))"

text \<open>
  \<open>node_record.update(details)\<close> replaces an iteration count that a loop of that name has written
  into the record of the run before.
\<close>

definition settle_iterations :: "bool \<Rightarrow> string \<Rightarrow> node_details \<Rightarrow> (unit, 'w) exec" where
  "settle_iterations whole n d =
     (if whole \<and> dt_iterations d \<noteq> None
      then xmodify (\<lambda>st. st\<lparr>xs_iterations := AList.delete n (xs_iterations st)\<rparr>) else xret ())"

text \<open>
  One outcome: the details, the three places of \<open>_finish\<close>, the declared outputs with the redacted
  ones replaced, and the audit event.
\<close>

definition commit_node :: "bool \<Rightarrow> graph \<Rightarrow> string \<Rightarrow> node_outcome \<Rightarrow> level \<Rightarrow> (level, 'w) exec" where
  "commit_node whole g n out lv =
     (case out of (outcome, outputs, details) \<Rightarrow>
        xbind (xoption (UnknownNode n) (map_of (lv_records lv) n)) (\<lambda>r.
        xbind (settle_iterations whole n details) (\<lambda>_.
        xbind (xfinish n outcome outputs
                 (lv\<lparr>lv_records := AList.update n (apply_details details r) (lv_records lv)\<rparr>)) (\<lambda>lv1.
        xbind (xoption (UnknownNode n) (map_of (gr_nodes g) n)) (\<lambda>nd.
          let r1 = the (map_of (lv_records lv1) n) in
          xbind (xlog (EvNodeCompleted n outcome (sort_key id (map fst outputs)))) (\<lambda>_.
            xret (lv1\<lparr>lv_records := AList.update n
                     (r1\<lparr>nr_outputs := redacted_outputs (nd_outputs (nd_info nd)) outputs\<rparr>) (lv_records lv1)\<rparr>)))))))"

definition block_pending :: "level \<Rightarrow> (level, 'w) exec" where
  "block_pending lv =
     xfold (\<lambda>n lv. xfinish n Blocked [] lv) (map fst (filter (\<lambda>(_, s). s = Pending) (lv_states lv))) lv"

text \<open>The outcomes of a batch, in order; \<open>Inl\<close> is the return that ends the scope.\<close>

fun commit_batch ::
  "'w exec_env \<Rightarrow> run_record option \<Rightarrow> graph \<Rightarrow> (string \<times> node_outcome) list \<Rightarrow> level \<Rightarrow>
     (level + level, 'w) exec" where
  "commit_batch env whole g [] lv = xret (Inr lv)"
| "commit_batch env whole g ((n, out) # rest) lv =
     xbind (commit_node (whole \<noteq> None) g n out lv) (\<lambda>lv1.
     xbind (save_level env whole (lv_records lv1)) (\<lambda>_.
       if fst out = Awaiting_Human then xret (Inl lv1)
       else xbind (budget_exceeded env (whole \<noteq> None) g (lv_records lv1)) (\<lambda>exceeded.
         if exceeded then xbind (block_pending lv1) (\<lambda>lv2. xret (Inl lv2))
         else commit_batch env whole g rest lv1)))"

text \<open>One round of \<open>_execute_scope\<close>; \<open>Inl\<close> is the end of the loop.\<close>

definition scope_round ::
  "'w exec_env \<Rightarrow> (graph \<Rightarrow> string \<Rightarrow> node \<Rightarrow> scope \<Rightarrow> (node_outcome \<times> scope, 'w) exec) \<Rightarrow>
     run_record option \<Rightarrow> graph \<Rightarrow> level \<Rightarrow> (level + level, 'w) exec" where
  "scope_round env rn whole g lv =
     (case ready_nodes (ce_agx (xe_criteria env)) g (lv_states lv) (lv_scope lv) of
        None \<Rightarrow> xraise ExpressionFailed
      | Some (candidates, states', scope') \<Rightarrow>
          (let lv1 = lv\<lparr>lv_states := states', lv_scope := scope'\<rparr> in
           if candidates = [] then xret (Inl lv1)
           else xbind (pick_batch env g (take (parallel_limit env g) candidates) {} [] lv1) (\<lambda>(batch, lv2).
                xbind (xbatch rn g (lv_scope lv2) batch) (\<lambda>outcomes.
                  commit_batch env whole g (zip batch outcomes) lv2))))"

primrec scope_loop ::
  "nat \<Rightarrow> 'w exec_env \<Rightarrow> (graph \<Rightarrow> string \<Rightarrow> node \<Rightarrow> scope \<Rightarrow> (node_outcome \<times> scope, 'w) exec) \<Rightarrow>
     run_record option \<Rightarrow> graph \<Rightarrow> level \<Rightarrow> (level, 'w) exec" where
  "scope_loop 0 env rn whole g lv = xraise NoFuel"
| "scope_loop (Suc k) env rn whole g lv =
     xbind (scope_round env rn whole g lv) (\<lambda>r.
       case r of Inl lv' \<Rightarrow> xret lv' | Inr lv' \<Rightarrow> scope_loop k env rn whole g lv')"

definition execute_scope ::
  "'w exec_env \<Rightarrow> (graph \<Rightarrow> string \<Rightarrow> node \<Rightarrow> scope \<Rightarrow> (node_outcome \<times> scope, 'w) exec) \<Rightarrow>
     run_record option \<Rightarrow> graph \<Rightarrow> node_records \<Rightarrow> scope \<Rightarrow> (level, 'w) exec" where
  "execute_scope env rn whole g recs scope =
     scope_loop (Suc (length (gr_nodes g))) env rn whole g
       \<lparr>lv_records = recs, lv_states = record_states recs, lv_scope = scope\<rparr>"


subsection \<open>Composite nodes\<close>

type_synonym 'w node_runner = "graph \<Rightarrow> string \<Rightarrow> node \<Rightarrow> scope \<Rightarrow> (node_outcome \<times> scope, 'w) exec"

definition referenced_graph :: "'w exec_env \<Rightarrow> graph_ref \<Rightarrow> (graph, 'w) exec" where
  "referenced_graph env r =
     (if contains (rf_uri r) ''://'' then xraise ExternalSubgraph
      else let p = ce_resolve (xe_criteria env) (rf_uri r) in
           if \<not> is_within p (ce_workspace (xe_criteria env)) then xraise EscapesWorkspace
           else xbind (xread (\<lambda>st. xe_load env p (xs_world st))) (\<lambda>l.
                xbind (xoption LoadFailed l) (\<lambda>ld.
                  if rf_integrity r \<noteq> [] \<and> rf_integrity r \<noteq> ld_digest ld then xraise IntegrityFailed
                  else if rf_expected_id r \<noteq> [] \<and> rf_expected_id r \<noteq> gi_id (gr_info (ld_graph ld))
                  then xraise WrongGraphId
                  else xret (ld_graph ld))))"

definition fragment_of :: "'w exec_env \<Rightarrow> block \<Rightarrow> graph \<Rightarrow> (graph, 'w) exec" where
  "fragment_of env b g =
     (case (bk_inline b, bk_body b, bl_use (bk_info b), bl_ref (bk_info b)) of
        (Some f, _) \<Rightarrow> xret f
      | (None, Some f, _) \<Rightarrow> xret f
      | (None, None, Some u, _) \<Rightarrow> xoption UnknownFragment (map_of (gr_subgraphs g) u)
      | (None, None, None, Some r) \<Rightarrow> referenced_graph env r
      | (None, None, None, None) \<Rightarrow> xraise UnknownFragment)"

text \<open>\<open>_run_fragment\<close>: only a failed node makes the fragment fail.\<close>

definition run_fragment ::
  "'w exec_env \<Rightarrow> 'w node_runner \<Rightarrow> graph \<Rightarrow> scope \<Rightarrow> (run_status \<times> scope, 'w) exec" where
  "run_fragment env rn f scope =
     xbind (execute_scope env rn None f (fresh_records f) (AList.update ''nodes'' (JObj []) scope)) (\<lambda>lv.
       xret (if list_ex (\<lambda>(_, r). nr_status r = Failed) (lv_records lv) then Failed else Succeeded, lv_scope lv))"

definition eval_all :: "'w exec_env \<Rightarrow> scope \<Rightarrow> (string, string) dict \<Rightarrow> ((string, json) dict, 'w) exec" where
  "eval_all env scope d = xmap (\<lambda>(k, t). xbind (xeval env scope t) (\<lambda>v. xret (k, v))) d"

definition sub_dict :: "scope \<Rightarrow> string \<Rightarrow> (string, json) dict" where
  "sub_dict scope k = (case map_of scope k of Some (JObj d) \<Rightarrow> d | _ \<Rightarrow> [])"

definition merge_dict :: "('k, 'v) dict \<Rightarrow> ('k, 'v) dict \<Rightarrow> ('k, 'v) dict" where
  "merge_dict new old = fold (\<lambda>(k, v) d. AList.update k v d) new old"

definition child_scope :: "block_info \<Rightarrow> (string, json) dict \<Rightarrow> scope \<Rightarrow> scope" where
  "child_scope bi params scope =
     (let base = (if bl_inherit_context bi then scope
                  else [(''graph'', or_null (map_of scope ''graph'')), (''params'', JObj []), (''context'', JObj []),
                        (''attachments'', JObj []), (''env'', JObj []), (''nodes'', JObj [])]);
          base' = AList.update ''params''
                    (JObj (if bl_inherit_context bi then merge_dict params (sub_dict base ''params'') else params)) base in
      AList.update ''context'' (JObj (merge_dict (bl_context bi) (sub_dict base' ''context''))) base')"

text \<open>\<open>self._subgraph_depth += 1 ... finally: self._subgraph_depth -= 1\<close>.\<close>

definition deeper :: "('a, 'w) exec \<Rightarrow> ('a, 'w) exec" where
  "deeper m = (\<lambda>st. case m (st\<lparr>xs_depth := xs_depth st + 1\<rparr>) of
                      (r, st') \<Rightarrow> (r, st'\<lparr>xs_depth := xs_depth st' - 1\<rparr>))"

definition run_subgraph ::
  "'w exec_env \<Rightarrow> 'w node_runner \<Rightarrow> string \<Rightarrow> block \<Rightarrow> graph \<Rightarrow> scope \<Rightarrow> (node_outcome, 'w) exec" where
  "run_subgraph env rn node_id b g scope =
     (let bi = bk_info b in
      xbind (xread xs_depth) (\<lambda>depth.
        if gi_max_depth (gr_info g) \<le> depth then xret (Failed, [], no_details)
        else xbind (fragment_of env b g) (\<lambda>f.
             xbind (eval_all env scope (bl_params bi)) (\<lambda>params.
             xbind (deeper (run_fragment env rn f (child_scope bi params scope))) (\<lambda>(status, inner).
             xbind (eval_all env inner
                      (if bl_outputs_from bi \<noteq> [] then bl_outputs_from bi else gi_outputs (gr_info f))) (\<lambda>outputs.
               xret (status, outputs,
                     with_entry ''child_run_id'' (JStr (''fragment:'' @ node_id)) no_details)))))))"

datatype map_end = Item_Failed nat | Items_Done "scope list" nat

fun map_items ::
  "'w exec_env \<Rightarrow> 'w node_runner \<Rightarrow> block_info \<Rightarrow> graph \<Rightarrow> scope \<Rightarrow> int \<Rightarrow> json list \<Rightarrow> scope list \<Rightarrow> nat \<Rightarrow>
     (map_end, 'w) exec" where
  "map_items env rn bi f scope i [] scopes good = xret (Items_Done scopes good)"
| "map_items env rn bi f scope i (item # items) scopes good =
     xbind (run_fragment env rn f
              (AList.update (bl_index_as bi) (JInt i) (AList.update (bl_as bi) item scope))) (\<lambda>(status, inner).
       let good' = (if status = Succeeded then Suc good else good) in
       if status \<noteq> Succeeded \<and> bl_on_item_failure bi = ''fail_fast'' then xret (Item_Failed (length scopes + 1))
       else map_items env rn bi f scope (i + 1) items (scopes @ [inner]) good')"

definition with_count :: "string \<Rightarrow> nat \<Rightarrow> node_details" where
  "with_count k n = with_entry k (JInt (int n)) no_details"

definition run_map ::
  "'w exec_env \<Rightarrow> 'w node_runner \<Rightarrow> block \<Rightarrow> graph \<Rightarrow> scope \<Rightarrow> (node_outcome, 'w) exec" where
  "run_map env rn b g scope =
     (let bi = bk_info b; limit = (case bl_max_items bi of Some k \<Rightarrow> nat k | None \<Rightarrow> 0) in
      xbind (fragment_of env b g) (\<lambda>f.
      xbind (xeval env scope (bl_over bi)) (\<lambda>v.
        case v of
          JArr items \<Rightarrow>
            (if limit < length items \<and> bl_on_over_limit bi = ''fail'' then xret (Failed, [], no_details)
             else xbind (map_items env rn bi f scope 0 (take limit items) [] 0) (\<lambda>r.
               case r of
                 Item_Failed k \<Rightarrow> xret (Failed, [], with_count ''items'' k)
               | Items_Done scopes good \<Rightarrow>
                   (if bl_on_item_failure bi = ''threshold'' \<and> int good < bl_min_successes bi
                    then xret (Failed, [], with_count ''items'' (length scopes))
                    else xbind (xmap (\<lambda>(k, t). xbind (xmap (\<lambda>sc. xeval env sc t) scopes) (\<lambda>vs. xret (k, JArr vs)))
                                 (bl_collect bi)) (\<lambda>outputs.
                           xret (Succeeded, outputs, with_count ''items'' (length scopes))))))
        | _ \<Rightarrow> xret (Failed, [], no_details))))"

definition record_iterations :: "string \<Rightarrow> int \<Rightarrow> (unit, 'w) exec" where
  "record_iterations n completed =
     xmodify (\<lambda>st. let k = max (case map_of (xs_loops st) n of None \<Rightarrow> 0 | Some j \<Rightarrow> j) completed in
       st\<lparr>xs_loops := AList.update n k (xs_loops st), xs_iterations := AList.update n k (xs_iterations st)\<rparr>)"

definition with_iterations :: "int \<Rightarrow> node_details" where
  "with_iterations k = no_details\<lparr>dt_iterations := Some k\<rparr>"

record loop_state =
  ls_scope :: scope
  ls_child :: scope
  ls_previous :: "(string, json) dict"
  ls_done :: int

datatype loop_end = Loop_Failed loop_state | Loop_Done bool loop_state

definition loop_binding :: "int \<Rightarrow> (string, json) dict \<Rightarrow> json" where
  "loop_binding i previous =
     JObj [(''index'', JInt i), (''iteration'', JInt (i + 1)), (''previous'', JObj previous)]"

definition carry_params :: "(string, string) dict \<Rightarrow> (string, json) dict \<Rightarrow> scope \<Rightarrow> scope" where
  "carry_params carry outputs scope =
     fold (\<lambda>(from_name, to_name) sc.
       case map_of outputs from_name of
         None \<Rightarrow> sc
       | Some v \<Rightarrow> AList.update ''params'' (JObj (AList.update to_name v (sub_dict sc ''params''))) sc) carry scope"

text \<open>\<open>for index in range(consumed, maximum)\<close>; the first argument counts the iterations left.\<close>

primrec loop_iterations ::
  "nat \<Rightarrow> 'w exec_env \<Rightarrow> 'w node_runner \<Rightarrow> string \<Rightarrow> block_info \<Rightarrow> graph \<Rightarrow> int \<Rightarrow> loop_state \<Rightarrow> (loop_end, 'w) exec" where
  "loop_iterations 0 env rn node_id bi f i ls = xret (Loop_Done (bl_mode bi = ''repeat'') ls)"
| "loop_iterations (Suc k) env rn node_id bi f i ls =
     (let scope1 = AList.update ''loop'' (loop_binding i (ls_previous ls)) (ls_scope ls) in
      xbind (if bl_mode bi = ''while''
             then xbind (xeval env scope1 (bl_condition bi)) (\<lambda>v. xret (truthy v)) else xret True) (\<lambda>go_on.
        if \<not> go_on then xret (Loop_Done True (ls\<lparr>ls_scope := scope1\<rparr>))
        else xbind (run_fragment env rn f
                      (AList.update ''loop'' (loop_binding i (ls_previous ls))
                         (AList.update ''iteration'' (JInt i) scope1))) (\<lambda>(status, inner).
             xbind (record_iterations node_id (i + 1)) (\<lambda>_.
             xbind (eval_all env inner (gi_outputs (gr_info f))) (\<lambda>outputs.
               let scope2 = merge_dict (filter (\<lambda>(key, _). key \<noteq> ''nodes'') inner) scope1;
                   ls' = \<lparr>ls_scope = carry_params (bl_carry bi) outputs scope2, ls_child = inner,
                          ls_previous = outputs, ls_done = ls_done ls + 1\<rparr> in
               if status \<noteq> Succeeded then xret (Loop_Failed ls')
               else xbind (if bl_mode bi = ''until''
                           then xbind (xeval env inner (bl_condition bi)) (\<lambda>v. xret (truthy v)) else xret False)
                      (\<lambda>reached.
                        if reached then xret (Loop_Done True ls')
                        else loop_iterations k env rn node_id bi f (i + 1) ls'))))))"

definition run_loop ::
  "'w exec_env \<Rightarrow> 'w node_runner \<Rightarrow> string \<Rightarrow> block \<Rightarrow> graph \<Rightarrow> scope \<Rightarrow> (node_outcome \<times> scope, 'w) exec" where
  "run_loop env rn node_id b g scope =
     (let bi = bk_info b; maximum = (case bl_max_iterations bi of Some k \<Rightarrow> k | None \<Rightarrow> 0) in
      xbind (fragment_of env b g) (\<lambda>f.
      xbind (xread (\<lambda>st. case map_of (xs_loops st) node_id of None \<Rightarrow> 0 | Some k \<Rightarrow> k)) (\<lambda>consumed.
      xbind (loop_iterations (nat (maximum - consumed)) env rn node_id bi f consumed
               \<lparr>ls_scope = scope, ls_child = scope, ls_previous = [], ls_done = 0\<rparr>) (\<lambda>r.
        case r of
          Loop_Failed ls \<Rightarrow> xret ((Failed, [], with_iterations (consumed + ls_done ls)), ls_scope ls)
        | Loop_Done reached ls \<Rightarrow>
            (if \<not> reached \<and> bl_on_max_iterations bi = ''fail''
             then xret ((Failed, [], with_iterations (consumed + ls_done ls)), ls_scope ls)
             else xbind (if ls_done ls = 0 then xret [] else eval_all env (ls_child ls) (bl_collect bi)) (\<lambda>outputs.
                    xret ((Succeeded, outputs, with_iterations (consumed + ls_done ls)), ls_scope ls)))))))"

definition run_composite ::
  "'w exec_env \<Rightarrow> 'w node_runner \<Rightarrow> string \<Rightarrow> node \<Rightarrow> graph \<Rightarrow> scope \<Rightarrow> (node_outcome \<times> scope, 'w) exec" where
  "run_composite env rn node_id nd g scope =
     xbind (xoption UnknownFragment (map_of (nd_blocks nd) (nd_type (nd_info nd)))) (\<lambda>b.
       if nd_type (nd_info nd) = ''subgraph''
       then xbind (run_subgraph env rn node_id b g scope) (\<lambda>out. xret (out, scope))
       else if nd_type (nd_info nd) = ''map''
       then xbind (run_map env rn b g scope) (\<lambda>out. xret (out, scope))
       else run_loop env rn node_id b g scope)"

subsection \<open>Nodes\<close>

definition relaxed_ids :: "node_details \<Rightarrow> string list" where
  "relaxed_ids d =
     (case dt_attempts d of
        Some (a # as) \<Rightarrow>
          map cs_id (filter (\<lambda>r. cs_severity r = ''required'' \<and> \<not> cs_passed r) (at_results (last (a # as))))
      | _ \<Rightarrow> [])"

fun run_fallbacks ::
  "'w exec_env \<Rightarrow> 'w node_runner \<Rightarrow> graph \<Rightarrow> scope \<Rightarrow> fallback_step list \<Rightarrow> node_outcome \<Rightarrow>
     (node_outcome \<times> scope, 'w) exec" where
  "run_fallbacks env rn g scope [] result = xret (result, scope)"
| "run_fallbacks env rn g scope (fb # fbs) result =
     xbind (xwhen env scope (fb_when fb)) (\<lambda>applies.
       if \<not> applies then run_fallbacks env rn g scope fbs result
       else (case (result, fb_strategy fb) of
          ((outcome, outputs, details), FbSkip) \<Rightarrow>
            xret ((Skipped, outputs, with_entry ''fallback_used'' (JStr ''skip'') details), scope)
        | ((outcome, outputs, details), FbDegrade names) \<Rightarrow>
            (if list_all (\<lambda>n. map_of outputs n \<noteq> None) names
             then xret ((Succeeded, map (\<lambda>n. (n, the (map_of outputs n))) names,
                         with_entry ''fallback_used'' (JStr ''degrade_outputs'') details), scope)
             else run_fallbacks env rn g scope fbs result)
        | ((outcome, outputs, details), FbRelax ids) \<Rightarrow>
            (if relaxed_ids details \<noteq> [] \<and> list_all (\<lambda>i. i \<in> set ids) (relaxed_ids details)
             then xret ((Succeeded, outputs, with_entry ''fallback_used'' (JStr ''relax_criteria'') details), scope)
             else run_fallbacks env rn g scope fbs result)
        | ((outcome, outputs, details), FbHuman prompt) \<Rightarrow>
            xbind (ask_human env prompt []) (\<lambda>a.
              case a of
                None \<Rightarrow> run_fallbacks env rn g scope fbs result
              | Some v \<Rightarrow>
                  (if truthy v
                   then xret ((Succeeded, outputs, with_entry ''fallback_used'' (JStr ''human_takeover'') details), scope)
                   else run_fallbacks env rn g scope fbs result))
        | ((outcome, outputs, details), FbAlternate n) \<Rightarrow>
            xbind (xoption (UnknownNode n) (map_of (gr_nodes g) n)) (\<lambda>nd.
            xbind (rn g n nd scope) (\<lambda>((outcome', outputs', details'), scope').
              xret ((outcome', outputs',
                     with_entry ''fallback_used'' (JStr (''alternate_node:'' @ n)) details'), scope')))))"

definition execution_limit :: "'w exec_env \<Rightarrow> graph \<Rightarrow> int" where
  "execution_limit env g =
     min (case gi_max_executions (gr_info g) of None \<Rightarrow> ag_max_executions (xe_agraph env) | Some k \<Rightarrow> k)
         (ag_max_executions (xe_agraph env))"

definition node_step :: "'w exec_env \<Rightarrow> 'w node_runner \<Rightarrow> 'w node_runner" where
  "node_step env rn g node_id nd scope =
     xbind (xmodify (\<lambda>st. st\<lparr>xs_executions := xs_executions st + 1\<rparr>)) (\<lambda>_.
     xbind (xread xs_executions) (\<lambda>number.
       let ni = nd_info nd in
       if execution_limit env g < number then xret ((Failed, [], no_details), scope)
       else if nd_type ni = ''gate'' then
         xbind (xoption (UnknownNode node_id) (nd_gate ni)) (\<lambda>gate.
         xbind (run_gate env ni gate) (\<lambda>out. xret (out, scope)))
       else if nd_type ni = ''decision'' then
         xbind (xoption (UnknownNode node_id) (nd_decision ni)) (\<lambda>db.
         xbind (run_decision env ni db scope) (\<lambda>out. xret (out, scope)))
       else if nd_type ni \<in> {''loop'', ''map'', ''subgraph''} then run_composite env rn node_id nd g scope
       else xbind (run_task env g node_id ni scope) (\<lambda>result.
              if fst result \<notin> {Failed, Blocked} then xret (result, scope)
              else run_fallbacks env rn g scope (fp_fallback (nd_failure ni)) result)))"

text \<open>\<open>_run_node\<close> with the depth of nested calls as fuel.\<close>

primrec run_node :: "'w exec_env \<Rightarrow> nat \<Rightarrow> 'w node_runner" where
  "run_node env 0 = (\<lambda>g node_id nd scope. xraise NoFuel)"
| "run_node env (Suc d) = node_step env (run_node env d)"

end
