(* ===== verification/Agraph_Steps.thy ===== *)
theory Agraph_Steps
  imports Agraph_Exec "HOL-Library.Sublist"
begin

text \<open>
  What every step of the executor keeps. The locale \<open>effect_order\<close> fixes a preorder on the states
  of the executor that each primitive effect respects, and the exceptions that may leave a step;
  its lemmas carry this through all operations of \<open>Agraph_Exec\<close> up to a node and a scope, once
  for every order. It is interpreted twice: on the number of node executions, which with the
  fuel of nested calls gives that every graph returns, and on the logs, which only grow.
\<close>

named_theorems step_rules "steps that respect the effect order"

definition step_gives ::
  "('w exec_state \<Rightarrow> 'w exec_state \<Rightarrow> bool) \<Rightarrow> (exec_error \<Rightarrow> bool) \<Rightarrow> 'w exec_state \<Rightarrow> ('a \<Rightarrow> bool) \<Rightarrow>
     ('a, 'w) exec \<Rightarrow> bool" where
  "step_gives R E s0 P m \<longleftrightarrow>
     (\<forall>st. R s0 st \<longrightarrow> R st (snd (m st)) \<and> (case fst (m st) of Inl e \<Rightarrow> E e | Inr v \<Rightarrow> P v))"

lemma ready_scan_pending:
  assumes "ready_scan env g ns states scope ready = Some (ready', states', scope')"
  shows "(\<forall>m. status_of states' m = Pending \<longrightarrow> status_of states m = Pending)
    \<and> (\<forall>n \<in> set ready'. n \<in> set ready \<or> (n \<in> set ns \<and> status_of states n = Pending))"
  using assms
proof (induction env g ns states scope ready rule: ready_scan.induct)
  case (2 env g n ns states scope ready)
  show ?case
  proof (cases "visit_node env g n states scope")
    case None
    then show ?thesis using 2(4) by simp
  next
    case (Some v)
    show ?thesis
    proof (cases v)
      case Passed
      then show ?thesis using 2(1) [OF Some Passed] 2(4) Some by auto
    next
      case Ready
      then show ?thesis
        using 2(2) [OF Some Ready] 2(4) Some visit_ready [OF Some [unfolded Ready]] by (auto simp: may_start_def)
    next
      case Skip
      obtain st sc where sk: "skip_node n states scope = (st, sc)" by fastforce
      then have "st = AList.update n Skipped states" by (simp add: skip_node_def)
      then show ?thesis using 2(3) [OF Some Skip sk [symmetric]] 2(4) Some Skip sk
        by (auto split: if_splits)
    qed
  qed
qed auto

lemma topo_loop_subset:
  "set result \<subseteq> set ids \<Longrightarrow> set ready \<subseteq> set ids \<Longrightarrow> set (topo_loop ids es inc ready result) \<subseteq> set ids"
proof (induction ids es inc ready result rule: topo_loop.induct)
  case (2 ids es inc n ready result)
  obtain inc' ready' where f: "fold (relax ids) (outgoing ids es n) (inc, ready) = (inc', ready')" by fastforce
  have sub: "set (snd (fold (relax ids) ts s)) \<subseteq> set (snd s) \<union> set ts" for ts s
    by (induction ts arbitrary: s) (fastforce simp: relax_def Let_def split: prod.splits if_splits)+
  have "set ready' \<subseteq> set ids"
    using sub [of "outgoing ids es n" "(inc, ready)"] f outgoing_subset [of ids es n] "2.prems" by auto
  then show ?case using 2(1) [OF f [symmetric]] "2.prems" f by simp
qed simp

lemma topological_order_nodes: "set (topological_order g) \<subseteq> set (node_ids g)"
  unfolding topological_order_def topological_sort_def Let_def by (rule topo_loop_subset) auto

lemma ready_nodes_pending:
  assumes "ready_nodes env g states scope = Some (ready, states', scope')"
  shows "\<forall>m. status_of states' m = Pending \<longrightarrow> status_of states m = Pending"
    and "\<forall>n \<in> set ready. n \<in> set (node_ids g) \<and> status_of states n = Pending"
  using ready_scan_pending [OF assms [unfolded ready_nodes_def]] topological_order_nodes [of g] by auto

text \<open>A node outcome is final, or the node waits for a human.\<close>

definition final_outcome :: "node_outcome \<Rightarrow> bool" where
  "final_outcome out \<longleftrightarrow> fst out \<in> {Succeeded, Failed, Skipped, Blocked, Awaiting_Human}"

definition runner_ok ::
  "('w exec_state \<Rightarrow> 'w exec_state \<Rightarrow> bool) \<Rightarrow> (exec_error \<Rightarrow> bool) \<Rightarrow> 'w exec_state \<Rightarrow> 'w node_runner \<Rightarrow> bool" where
  "runner_ok R E s0 rn \<longleftrightarrow>
     (\<forall>g n nd scope. step_gives R E s0 (\<lambda>r. final_outcome (fst r)) (rn g n nd scope))"

text \<open>A node, once its execution has been counted.\<close>

definition node_body :: "'w exec_env \<Rightarrow> 'w node_runner \<Rightarrow> 'w node_runner" where
  "node_body env rn g node_id nd scope =
     (let ni = nd_info nd in
      if nd_type ni = ''gate'' then
         xbind (xoption (UnknownNode node_id) (nd_gate ni)) (\<lambda>gate.
         xbind (run_gate env ni gate) (\<lambda>out. xret (out, scope)))
       else if nd_type ni = ''decision'' then
         xbind (xoption (UnknownNode node_id) (nd_decision ni)) (\<lambda>db.
         xbind (run_decision env ni db scope) (\<lambda>out. xret (out, scope)))
       else if nd_type ni \<in> {''loop'', ''map'', ''subgraph''} then run_composite env rn node_id nd g scope
       else xbind (run_task env g node_id ni scope) (\<lambda>result.
              if fst result \<notin> {Failed, Blocked} then xret (result, scope)
              else run_fallbacks env rn g scope (fp_fallback (nd_failure ni)) result))"

locale effect_order =
  fixes R :: "'w exec_state \<Rightarrow> 'w exec_state \<Rightarrow> bool" and E :: "exec_error \<Rightarrow> bool"
    and S :: "run_record \<Rightarrow> bool"
  assumes R_refl: "R st st"
    and R_trans: "R s t \<Longrightarrow> R t u \<Longrightarrow> R s u"
    and R_world: "R st (st\<lparr>xs_world := w\<rparr>)"
    and R_events: "R st (st\<lparr>xs_events := xs_events st @ [ev]\<rparr>)"
    and R_diagnostics: "R st (st\<lparr>xs_diagnostics := xs_diagnostics st @ [d]\<rparr>)"
    and R_usage: "R st (st\<lparr>xs_usage := totals\<rparr>)"
    and R_budget: "R st (st\<lparr>xs_budget_failed := True\<rparr>)"
    and R_saved: "S rec \<Longrightarrow> R st (st\<lparr>xs_saved := xs_saved st @ [rec]\<rparr>)"
    and R_depth: "R st (st\<lparr>xs_depth := k\<rparr>)"
    and R_loops: "R st (st\<lparr>xs_loops := l, xs_iterations := i\<rparr>)"
    and E_raised: "e \<noteq> NoFuel \<Longrightarrow> E e"
begin

abbreviation gives :: "'w exec_state \<Rightarrow> ('a \<Rightarrow> bool) \<Rightarrow> ('a, 'w) exec \<Rightarrow> bool" where
  "gives \<equiv> step_gives R E"

lemma xbind_raise: "xbind (xraise e) f = xraise e"
  by (simp add: xbind_def xraise_def)

lemma xbind_ret: "xbind (xret v) f = f v"
  by (simp add: xbind_def xret_def)

lemma gives_mono: "gives s0 P m \<Longrightarrow> (\<And>v. P v \<Longrightarrow> Q v) \<Longrightarrow> gives s0 Q m"
  by (auto simp: step_gives_def split: sum.splits)

lemma gives_any: "gives s0 P m \<Longrightarrow> gives s0 (\<lambda>_. True) m"
  by (erule gives_mono) simp

lemma gives_ret [step_rules]: "P v \<Longrightarrow> gives s0 P (xret v)"
  by (simp add: step_gives_def xret_def R_refl)

lemma gives_done: "gives s0 (\<lambda>_. True) (xret v)"
  by (simp add: gives_ret)

lemma gives_raise [step_rules]: "e \<noteq> NoFuel \<Longrightarrow> gives s0 P (xraise e)"
  by (simp add: step_gives_def xraise_def R_refl E_raised)

lemma gives_bind:
  assumes "gives s0 Q m" and "\<And>v. Q v \<Longrightarrow> gives s0 P (f v)"
  shows "gives s0 P (xbind m f)"
  unfolding step_gives_def
proof (intro allI impI)
  fix st assume st: "R s0 st"
  obtain r st' where m: "m st = (r, st')" by fastforce
  have R: "R st st'" using assms(1) st m unfolding step_gives_def by (metis snd_conv)
  show "R st (snd (xbind m f st)) \<and> (case fst (xbind m f st) of Inl e \<Rightarrow> E e | Inr v \<Rightarrow> P v)"
  proof (cases r)
    case (Inl e)
    then show ?thesis using assms(1) st m R unfolding step_gives_def xbind_def by fastforce
  next
    case (Inr v)
    then have "Q v" using assms(1) st m unfolding step_gives_def by fastforce
    then have "R st' (snd (f v st')) \<and> (case fst (f v st') of Inl e \<Rightarrow> E e | Inr v \<Rightarrow> P v)"
      using assms(2) R_trans [OF st R] unfolding step_gives_def by blast
    then show ?thesis using m Inr R_trans [OF R] by (simp add: xbind_def)
  qed
qed

lemma gives_then [step_rules]:
  "gives s0 (\<lambda>_. True) m \<Longrightarrow> (\<And>v. gives s0 P (f v)) \<Longrightarrow> gives s0 P (xbind m f)"
  by (rule gives_bind)

lemma gives_try:
  assumes "gives s0 P m" and "\<And>e. gives s0 P (h e)"
  shows "gives s0 P (xtry m h)"
  unfolding step_gives_def
proof (intro allI impI)
  fix st assume st: "R s0 st"
  obtain r st' where m: "m st = (r, st')" by fastforce
  have R: "R st st'" and r: "case r of Inl e \<Rightarrow> E e | Inr v \<Rightarrow> P v"
    using assms(1) st m unfolding step_gives_def by (metis fst_conv snd_conv)+
  show "R st (snd (xtry m h st)) \<and> (case fst (xtry m h st) of Inl e \<Rightarrow> E e | Inr v \<Rightarrow> P v)"
  proof (cases r)
    case (Inl e)
    have "R st' (snd (h e st')) \<and> (case fst (h e st') of Inl e \<Rightarrow> E e | Inr v \<Rightarrow> P v)"
      using assms(2) R_trans [OF st R] unfolding step_gives_def by blast
    then show ?thesis using m Inl R_trans [OF R] by (simp add: xtry_def)
  next
    case (Inr v)
    then show ?thesis using m R r by (simp add: xtry_def)
  qed
qed

lemma gives_modify: "(\<And>st. R st (f st)) \<Longrightarrow> P () \<Longrightarrow> gives s0 P (xmodify f)"
  by (simp add: step_gives_def xmodify_def)

lemma gives_read [step_rules]: "gives s0 (\<lambda>_. True) (xread f)"
  by (simp add: step_gives_def xread_def R_refl)

lemma gives_world [step_rules]: "gives s0 (\<lambda>_. True) (xworld f)"
  by (auto simp: step_gives_def xworld_def R_world split: prod.splits)

lemma gives_option [step_rules]: "e \<noteq> NoFuel \<Longrightarrow> gives s0 (\<lambda>_. True) (xoption e v)"
  by (cases v) (simp_all add: xoption_def step_rules)

lemma gives_log [step_rules]: "gives s0 (\<lambda>_. True) (xlog ev)"
  unfolding xlog_def by (rule gives_modify) (simp_all add: R_events)

lemma gives_eval [step_rules]: "gives s0 (\<lambda>_. True) (xeval env scope t)"
  by (simp add: xeval_def step_rules)

lemma gives_when [step_rules]: "gives s0 (\<lambda>_. True) (xwhen env scope w)"
  by (cases w) (auto simp: xwhen_def intro!: step_rules)

lemma gives_fold:
  assumes "\<And>x b. x \<in> set xs \<Longrightarrow> P b \<Longrightarrow> gives s0 P (f x b)" and "P b"
  shows "gives s0 P (xfold f xs b)"
  using assms
proof (induction xs arbitrary: b)
  case (Cons x xs)
  then show ?case by (auto intro!: gives_bind [where Q = P])
qed (simp add: step_rules)

lemma gives_map [step_rules]: "(\<And>x. gives s0 (\<lambda>_. True) (f x)) \<Longrightarrow> gives s0 (\<lambda>_. True) (xmap f xs)"
  unfolding xmap_def by (intro gives_fold step_rules) auto

lemma gives_diagnostic [step_rules]: "gives s0 (\<lambda>_. True) (record_diagnostic c n)"
  unfolding record_diagnostic_def by (rule gives_modify) (simp_all add: R_diagnostics)

lemma gives_human [step_rules]: "gives s0 (\<lambda>_. True) (ask_human env prompt roles)"
  by (cases "xe_gate env") (auto simp: ask_human_def intro!: step_rules)

lemma gives_checkpoints [step_rules]: "gives s0 (\<lambda>_. True) (checkpoints env cps stage scope)"
  by (induction cps) (auto intro!: step_rules split: option.splits)

lemma gives_inputs [step_rules]: "gives s0 (\<lambda>_. True) (resolve_inputs env specs scope)"
  unfolding resolve_inputs_def
  by (intro gives_fold) (auto intro!: step_rules split: input_source.splits)

lemma gives_criteria [step_rules]:
  "gives s0 (\<lambda>_. True) (evaluate_criteria env ni node_id n inputs outputs scope)"
  unfolding evaluate_criteria_def Let_def by (intro step_rules) auto

lemma gives_profile [step_rules]: "gives s0 (\<lambda>_. True) (run_profile env cf node_id ni prompt)"
  unfolding run_profile_def by (auto intro!: step_rules split: option.splits sum.splits)

lemma gives_reading: "(\<And>st. P (f st)) \<Longrightarrow> gives s0 P (xread f)"
  by (simp add: step_gives_def xread_def R_refl)

lemma gives_save: "S rec \<Longrightarrow> gives s0 (\<lambda>_. True) (save_record env rec)"
  by (auto simp: save_record_def intro!: gives_modify step_rules R_saved)

definition save_ok :: "run_record option \<Rightarrow> node_records \<Rightarrow> bool" where
  "save_ok whole recs \<longleftrightarrow>
     (\<forall>rec its ds totals. whole = Some rec \<longrightarrow>
        S (rec\<lparr>rr_nodes := merge_iterations its recs, rr_diagnostics := ds, rr_usage := totals\<rparr>))"

lemma gives_save_level: "save_ok whole recs \<Longrightarrow> gives s0 (\<lambda>_. True) (save_level env whole recs)"
  by (cases whole)
    (auto simp: save_level_def save_ok_def intro!: step_rules gives_save gives_bind [OF gives_reading [of S]])

lemma gives_budget [step_rules]: "gives s0 (\<lambda>_. True) (budget_exceeded env whole g recs)"
  unfolding budget_exceeded_def Let_def
  by (auto intro!: step_rules gives_modify simp: R_usage R_refl R_budget)

lemma gives_finish [step_rules]: "gives s0 (\<lambda>_. True) (xfinish n s outputs lv)"
  by (auto simp: xfinish_def finish_def intro!: step_rules split: option.splits)

lemma gives_approval [step_rules]: "gives s0 (\<lambda>_. True) (consume_plan_approval env a t args ni)"
  unfolding consume_plan_approval_def by (auto intro!: step_rules)

lemma gives_iterations [step_rules]: "gives s0 (\<lambda>_. True) (record_iterations n k)"
  unfolding record_iterations_def by (rule gives_modify) (simp_all add: Let_def R_loops)

lemma gives_settle [step_rules]: "gives s0 (\<lambda>_. True) (settle_iterations whole n d)"
proof -
  have "R st (st\<lparr>xs_iterations := i\<rparr>)" for st i
    using R_loops [where st = st and l = "xs_loops st" and i = i] by (cases st) simp
  then show ?thesis unfolding settle_iterations_def by (auto intro!: gives_modify step_rules)
qed

lemma gives_eval_all [step_rules]: "gives s0 (\<lambda>_. True) (eval_all env scope d)"
  unfolding eval_all_def by (auto intro!: step_rules)

lemma gives_deeper [step_rules]:
  assumes "gives s0 P m"
  shows "gives s0 P (deeper m)"
  unfolding step_gives_def
proof (intro allI impI)
  fix st assume st: "R s0 st"
  define st1 where "st1 = st\<lparr>xs_depth := xs_depth st + 1\<rparr>"
  obtain r st' where m': "m st1 = (r, st')" by fastforce
  have down: "R st st1" unfolding st1_def by (rule R_depth)
  have "R s0 st1" using R_trans [OF st down] .
  then have inner: "R st1 (snd (m st1)) \<and> (case fst (m st1) of Inl e \<Rightarrow> E e | Inr v \<Rightarrow> P v)"
    using assms unfolding step_gives_def by blast
  have "deeper m st = (r, st'\<lparr>xs_depth := xs_depth st' - 1\<rparr>)"
    using m' by (simp add: deeper_def st1_def)
  moreover have "R st (st'\<lparr>xs_depth := xs_depth st' - 1\<rparr>)"
    using inner m' R_trans [OF R_trans [OF down] R_depth] by simp
  ultimately show "R st (snd (deeper m st)) \<and> (case fst (deeper m st) of Inl e \<Rightarrow> E e | Inr v \<Rightarrow> P v)"
    using inner m' by simp
qed

definition end_ok :: "attempt_end \<Rightarrow> bool" where
  "end_ok r = (case r of Returns out \<Rightarrow> final_outcome out | _ \<Rightarrow> True)"

lemma gives_attempt_failed: "gives s0 end_ok (attempt_failed env fp n started outputs as e)"
  unfolding attempt_failed_def Let_def by (auto intro!: step_rules simp: end_ok_def)

lemma gives_judge: "gives s0 end_ok (judge_attempt env ni scope n started d result outputs as missing results)"
  unfolding judge_attempt_def Let_def
  by (auto intro!: step_rules gives_try gives_attempt_failed simp: end_ok_def final_outcome_def)

lemma gives_attempt_body:
  "gives s0 end_ok (attempt_body env ni node_id scope inputs n started d cf outputs as prompt)"
  unfolding attempt_body_def
  by (auto intro!: step_rules gives_try gives_attempt_failed gives_judge split: sum.splits)

lemma gives_attempt: "gives s0 end_ok (one_attempt env ni node_id scope inputs n outputs as feedback)"
  unfolding one_attempt_def
  by (auto intro!: step_rules gives_attempt_body simp: end_ok_def final_outcome_def split: sum.splits)

lemma gives_attempt_loop:
  "gives s0 end_ok (attempt_loop k env ni node_id scope inputs n outputs as feedback)"
proof (induction k arbitrary: n outputs as feedback)
  case 0
  show ?case by (simp add: step_rules end_ok_def)
next
  case (Suc k)
  have "gives s0 end_ok (case r of Retries o' a' f' \<Rightarrow> attempt_loop k env ni node_id scope inputs (n + 1) o' a' f'
      | r \<Rightarrow> xret r)" if "end_ok r" for r
    using that Suc by (cases r) (auto intro!: step_rules)
  then show ?case by (auto intro!: gives_bind [OF gives_attempt])
qed

lemma gives_after_attempts: "end_ok r \<Longrightarrow> gives s0 final_outcome (after_attempts env ni scope r)"
  by (cases r) (auto simp: after_attempts_def end_ok_def final_outcome_def intro!: step_rules)

lemma gives_task: "gives s0 final_outcome (run_task env g node_id ni scope)"
  unfolding run_task_def Let_def
  by (auto intro!: step_rules gives_bind [OF gives_attempt_loop gives_after_attempts] simp: final_outcome_def)

lemma collect_inputs_final: "collect_inputs specs d = Inl s \<Longrightarrow> s = Failed \<or> s = Awaiting_Human"
  by (induction specs d rule: collect_inputs.induct) (auto simp: Let_def split: if_splits)

lemma gives_gate: "gives s0 final_outcome (run_gate env ni gate)"
  unfolding run_gate_def Let_def
  by (auto intro!: step_rules dest!: collect_inputs_final simp: final_outcome_def
      split: option.splits sum.splits if_splits)

lemma gives_decide [step_rules]: "gives s0 final_outcome (decide db selected)"
  by (auto simp: decide_def final_outcome_def intro!: step_rules split: option.splits)

lemma gives_branch [step_rules]: "gives s0 (\<lambda>_. True) (first_branch env scope bs)"
  by (induction bs) (auto intro!: step_rules)

lemma gives_decision: "gives s0 final_outcome (run_decision env ni db scope)"
  unfolding run_decision_def
  by (auto intro!: step_rules simp: final_outcome_def split: sum.splits)

lemma gives_referenced [step_rules]: "gives s0 (\<lambda>_. True) (referenced_graph env r)"
  unfolding referenced_graph_def Let_def by (auto intro!: step_rules)

lemma gives_fragment_of [step_rules]: "gives s0 (\<lambda>_. True) (fragment_of env b g)"
  unfolding fragment_of_def by (auto intro!: step_rules split: option.splits)

subsection \<open>A scope\<close>

definition level_shrinks :: "level \<Rightarrow> level \<Rightarrow> bool" where
  "level_shrinks lv lv' \<longleftrightarrow>
     (\<forall>m. status_of (lv_states lv') m = Pending \<longrightarrow> status_of (lv_states lv) m = Pending)"

lemma level_shrinks_refl: "level_shrinks lv lv"
  by (simp add: level_shrinks_def)

lemma level_shrinks_trans: "level_shrinks a b \<Longrightarrow> level_shrinks b c \<Longrightarrow> level_shrinks a c"
  by (simp add: level_shrinks_def)

lemma finish_shrinks:
  "finish n s outputs lv = Inr lv' \<Longrightarrow> s \<noteq> Pending \<Longrightarrow>
     level_shrinks lv lv' \<and> status_of (lv_states lv') n = s"
  by (auto simp: finish_def level_shrinks_def split: option.splits if_splits)

lemma gives_finish_shrinks:
  "s \<noteq> Pending \<Longrightarrow>
     gives s0 (\<lambda>lv'. level_shrinks lv lv' \<and> status_of (lv_states lv') n = s) (xfinish n s outputs lv)"
  using finish_shrinks [of n s outputs lv]
  by (auto simp: xfinish_def intro!: step_rules split: sum.splits)
    (simp add: finish_def split: option.splits)

text \<open>
  What a level keeps of its records: it survives a node that ends without outputs and a node that
  is committed, and a record that is saved may be saved.
\<close>

definition level_rule :: "(node_records \<Rightarrow> bool) \<Rightarrow> graph \<Rightarrow> run_record option \<Rightarrow> bool" where
  "level_rule I g whole \<longleftrightarrow>
     (\<forall>recs n r. I recs \<longrightarrow> save_ok whole recs \<and>
        (map_of recs n = Some r \<longrightarrow>
          (\<forall>s \<in> {Skipped, Blocked}. I (AList.update n (r\<lparr>nr_status := s, nr_outputs := []\<rparr>) recs))
          \<and> (\<forall>nd d out. map_of (gr_nodes g) n = Some nd \<longrightarrow> final_outcome out \<longrightarrow>
               I (AList.update n ((apply_details d r)\<lparr>nr_status := fst out,
                    nr_outputs := redacted_outputs (nd_outputs (nd_info nd)) (fst (snd out))\<rparr>) recs))))"

lemma level_rule_skip:
  "level_rule I g whole \<Longrightarrow> I recs \<Longrightarrow> map_of recs n = Some r \<Longrightarrow> s \<in> {Skipped, Blocked} \<Longrightarrow>
     I (AList.update n (r\<lparr>nr_status := s, nr_outputs := []\<rparr>) recs)"
  unfolding level_rule_def by blast

lemma level_rule_commit:
  "level_rule I g whole \<Longrightarrow> I recs \<Longrightarrow> map_of recs n = Some r \<Longrightarrow> map_of (gr_nodes g) n = Some nd \<Longrightarrow>
     final_outcome (outcome, outputs, details) \<Longrightarrow>
     I (AList.update n ((apply_details d r)\<lparr>nr_status := outcome,
          nr_outputs := redacted_outputs (nd_outputs (nd_info nd)) outputs\<rparr>) recs)"
  unfolding level_rule_def by fastforce

lemma level_rule_save: "level_rule I g whole \<Longrightarrow> I recs \<Longrightarrow> save_ok whole recs"
  unfolding level_rule_def by blast

lemma level_rule_none: "level_rule (\<lambda>_. True) g None"
  by (simp add: level_rule_def save_ok_def)

lemma finish_Inr:
  "finish n s outputs lv = Inr lv' \<longleftrightarrow>
     (\<exists>r. map_of (lv_records lv) n = Some r
        \<and> lv' = \<lparr>lv_records = AList.update n (r\<lparr>nr_status := s, nr_outputs := outputs\<rparr>) (lv_records lv),
                  lv_states = AList.update n s (lv_states lv),
                  lv_scope = bind_node n (node_binding s outputs) (lv_scope lv)\<rparr>)"
  by (auto simp: finish_def split: option.splits)

lemma gives_finish_inv:
  assumes "level_rule I g whole" and "I (lv_records lv)" and "s \<in> {Skipped, Blocked}"
  shows "gives s0 (\<lambda>lv'. I (lv_records lv') \<and> level_shrinks lv lv' \<and> status_of (lv_states lv') n = s)
    (xfinish n s [] lv)"
proof (cases "finish n s [] lv")
  case (Inl e)
  then show ?thesis by (auto simp: xfinish_def finish_def intro!: step_rules split: option.splits)
next
  case (Inr lv')
  then obtain r where r: "map_of (lv_records lv) n = Some r"
      "lv_records lv' = AList.update n (r\<lparr>nr_status := s, nr_outputs := []\<rparr>) (lv_records lv)"
    by (auto simp: finish_Inr)
  then have "I (lv_records lv')" using level_rule_skip [OF assms(1,2) r(1) assms(3)] by simp
  then show ?thesis
    using finish_shrinks [OF Inr] assms(3) Inr by (auto simp: xfinish_def intro!: step_rules)
qed

lemma gives_finish_commit:
  "gives s0 (\<lambda>lv'. finish n s outputs lv = Inr lv') (xfinish n s outputs lv)"
  by (auto simp: xfinish_def finish_def intro!: step_rules split: option.splits)

definition picked :: "(node_records \<Rightarrow> bool) \<Rightarrow> string list \<Rightarrow> level \<Rightarrow> string list \<times> level \<Rightarrow> bool" where
  "picked I batch lv r \<longleftrightarrow>
     set batch \<subseteq> set (fst r) \<and> level_shrinks lv (snd r) \<and> I (lv_records (snd r))"

lemma gives_pick_batch:
  assumes "level_rule I g whole" and "I (lv_records lv)"
  shows "gives s0 (picked I batch lv) (pick_batch env g ns groups batch lv)"
  using assms(2)
proof (induction ns arbitrary: groups batch lv)
  case Nil
  then show ?case by (auto simp: picked_def level_shrinks_refl intro!: step_rules)
next
  case (Cons n ns)
  have skip: "gives s0 (picked I batch lv) (xbind (xfinish n Skipped [] lv) (pick_batch env g ns groups batch))"
  proof (rule gives_bind [OF gives_finish_inv [OF assms(1) Cons.prems, of Skipped]])
    fix lv' assume "I (lv_records lv') \<and> level_shrinks lv lv' \<and> status_of (lv_states lv') n = Skipped"
    then show "gives s0 (picked I batch lv) (pick_batch env g ns groups batch lv')"
      by (intro gives_mono [OF Cons.IH]) (auto simp: picked_def intro: level_shrinks_trans)
  qed simp
  have add: "gives s0 (picked I batch lv) (pick_batch env g ns groups' (batch @ [n]) lv)" for groups'
    by (rule gives_mono [OF Cons.IH [OF Cons.prems]]) (auto simp: picked_def)
  show ?case using skip add Cons.IH [OF Cons.prems] by (auto intro!: step_rules simp: Let_def)
qed

text \<open>The first candidate of a round is skipped or run.\<close>

lemma gives_pick_first:
  assumes "level_rule I g whole" and inv: "I (lv_records lv)"
  shows "gives s0 (\<lambda>r. picked I [] lv r \<and> (n \<in> set (fst r) \<or> status_of (lv_states (snd r)) n \<noteq> Pending))
     (pick_batch env g (n # ns) {} [] lv)"
proof -
  have skip: "gives s0 (\<lambda>r. picked I [] lv r \<and> (n \<in> set (fst r) \<or> status_of (lv_states (snd r)) n \<noteq> Pending))
      (xbind (xfinish n Skipped [] lv) (pick_batch env g ns {} []))"
  proof (rule gives_bind [OF gives_finish_inv [OF assms, of Skipped]])
    fix lv' assume lv': "I (lv_records lv') \<and> level_shrinks lv lv' \<and> status_of (lv_states lv') n = Skipped"
    show "gives s0 (\<lambda>r. picked I [] lv r \<and> (n \<in> set (fst r) \<or> status_of (lv_states (snd r)) n \<noteq> Pending))
        (pick_batch env g ns {} [] lv')"
      by (rule gives_mono [OF gives_pick_batch [OF assms(1)]])
        (use lv' in \<open>auto simp: picked_def level_shrinks_def\<close>)
  qed simp
  have add: "gives s0 (\<lambda>r. picked I [] lv r \<and> (n \<in> set (fst r) \<or> status_of (lv_states (snd r)) n \<noteq> Pending))
      (pick_batch env g ns {group} [n] lv)" for group
    by (rule gives_mono [OF gives_pick_batch [OF assms]]) (auto simp: picked_def)
  show ?thesis using skip add by (auto intro!: step_rules simp: Let_def)
qed

lemma run_batch_gives:
  assumes "runner_ok R E s0 rn" and "R s0 st"
  shows "R st (snd (run_batch rn g scope ns st))
    \<and> length (fst (run_batch rn g scope ns st)) = length ns
    \<and> list_all (\<lambda>r. case r of Inl e \<Rightarrow> E e | Inr out \<Rightarrow> final_outcome out) (fst (run_batch rn g scope ns st))"
  using assms(2)
proof (induction ns arbitrary: st)
  case Nil
  then show ?case by (simp add: R_refl)
next
  case (Cons n ns)
  define m where "m = xbind (xoption (UnknownNode n) (map_of (gr_nodes g) n)) (\<lambda>nd. rn g n nd scope)"
  have "gives s0 (\<lambda>r. final_outcome (fst r)) m"
    unfolding m_def using assms(1) by (auto intro!: step_rules simp: runner_ok_def)
  then have m: "R st (snd (m st))" "case fst (m st) of Inl e \<Rightarrow> E e | Inr v \<Rightarrow> final_outcome (fst v)"
    using Cons.prems unfolding step_gives_def by blast+
  obtain r st' where r: "m st = (r, st')" by fastforce
  have st': "R st st'" "R s0 st'" using m(1) r R_trans [OF Cons.prems] by simp_all
  obtain rs st'' where rs: "run_batch rn g scope ns st' = (rs, st'')" by fastforce
  have "run_batch rn g scope (n # ns) st = ((case r of Inl e \<Rightarrow> Inl e | Inr (out, _) \<Rightarrow> Inr out) # rs, st'')"
    using r rs by (simp add: m_def)
  then show ?case
    using Cons.IH [OF st'(2)] rs m(2) r R_trans [OF st'(1)] by (auto split: sum.splits prod.splits)
qed

lemma res_map_id_cases:
  "(case res_map id rs of Inl e \<Rightarrow> Inl e \<in> set rs | Inr vs \<Rightarrow> rs = map Inr vs)"
  by (induction rs) (auto simp: res_bind_def split: sum.splits)

lemma gives_batch:
  assumes "runner_ok R E s0 rn"
  shows "gives s0 (\<lambda>outs. length outs = length ns \<and> list_all final_outcome outs) (xbatch rn g scope ns)"
  unfolding step_gives_def
proof (intro allI impI)
  fix st assume st: "R s0 st"
  obtain rs st' where rs: "run_batch rn g scope ns st = (rs, st')" by fastforce
  have ok: "R st st'" "length rs = length ns"
      "list_all (\<lambda>r. case r of Inl e \<Rightarrow> E e | Inr out \<Rightarrow> final_outcome out) rs"
    using run_batch_gives [OF assms st, of g scope ns] rs by simp_all
  show "R st (snd (xbatch rn g scope ns st))
      \<and> (case fst (xbatch rn g scope ns st) of Inl e \<Rightarrow> E e
         | Inr outs \<Rightarrow> length outs = length ns \<and> list_all final_outcome outs)"
    using ok res_map_id_cases [of rs] rs
    by (auto simp: xbatch_def list_all_iff split: sum.splits)
qed

definition committed :: "(node_records \<Rightarrow> bool) \<Rightarrow> string list \<Rightarrow> level \<Rightarrow> level + level \<Rightarrow> bool" where
  "committed I ns lv r \<longleftrightarrow>
     (case r of Inl lv' \<Rightarrow> I (lv_records lv')
      | Inr lv' \<Rightarrow> I (lv_records lv') \<and> level_shrinks lv lv' \<and> (\<forall>n \<in> set ns. status_of (lv_states lv') n \<noteq> Pending))"

lemma gives_block:
  assumes "level_rule I g whole" and "I (lv_records lv)"
  shows "gives s0 (\<lambda>lv'. I (lv_records lv')) (block_pending lv)"
  unfolding block_pending_def
  by (rule gives_fold) (use assms in \<open>auto intro: gives_mono [OF gives_finish_inv]\<close>)

text \<open>What the commit of one outcome does to the level.\<close>

definition node_committed :: "graph \<Rightarrow> string \<Rightarrow> node_outcome \<Rightarrow> level \<Rightarrow> level \<Rightarrow> bool" where
  "node_committed g n out lv lv' \<longleftrightarrow>
     (\<exists>r nd. map_of (lv_records lv) n = Some r \<and> map_of (gr_nodes g) n = Some nd
        \<and> lv_records lv' = AList.update n ((apply_details (snd (snd out)) r)\<lparr>nr_status := fst out,
              nr_outputs := redacted_outputs (nd_outputs (nd_info nd)) (fst (snd out))\<rparr>) (lv_records lv)
        \<and> lv_states lv' = AList.update n (fst out) (lv_states lv))"

lemma gives_commit_node: "gives s0 (node_committed g n out lv) (commit_node whole g n out lv)"
proof -
  obtain outcome outputs details where out: "out = (outcome, outputs, details)" by (cases out) auto
  show ?thesis
  proof (cases "map_of (lv_records lv) n")
    case None
    then show ?thesis
      unfolding commit_node_def out by (auto simp: xoption_def step_gives_def xraise_def xbind_def R_refl E_raised)
  next
    case (Some r)
    let ?lv = "lv\<lparr>lv_records := AList.update n (apply_details details r) (lv_records lv)\<rparr>"
    have ok: "node_committed g n out lv
        (lv1\<lparr>lv_records := AList.update n
           ((the (map_of (lv_records lv1) n))\<lparr>nr_outputs := redacted_outputs (nd_outputs (nd_info nd)) outputs\<rparr>)
           (lv_records lv1)\<rparr>)"
      if "finish n outcome outputs ?lv = Inr lv1" and "map_of (gr_nodes g) n = Some nd" for lv1 nd
      using that Some by (auto simp: finish_Inr node_committed_def out dict_simps)
    show ?thesis
    proof (cases "map_of (gr_nodes g) n")
      case None
      then show ?thesis
        unfolding commit_node_def out prod.case Some None xoption_def option.case xbind_raise xbind_ret
        by (intro gives_then [OF gives_settle] gives_then [OF gives_finish]
            gives_raise) simp
    next
      case nd: (Some nd)
      show ?thesis
        unfolding commit_node_def out prod.case Some nd xoption_def option.case Let_def xbind_ret
        by (intro gives_then [OF gives_settle] gives_bind [OF gives_finish_commit] gives_then [OF gives_log]
            gives_ret ok [unfolded out] nd)
    qed
  qed
qed

lemma gives_commit:
  assumes rule: "level_rule I g whole" and "I (lv_records lv)" and "list_all (final_outcome \<circ> snd) outcomes"
  shows "gives s0 (committed I (map fst outcomes) lv) (commit_batch env whole g outcomes lv)"
  using assms(2,3)
proof (induction outcomes arbitrary: lv)
  case Nil
  then show ?case by (auto simp: committed_def level_shrinks_refl intro!: step_rules)
next
  case (Cons p outcomes)
  obtain n out where p: "p = (n, out)" by (cases p) auto
  have final: "final_outcome out" and ne: "fst out \<noteq> Pending"
    using Cons.prems p by (auto simp: final_outcome_def)
  let ?P = "committed I (n # map fst outcomes) lv"
  have tail: "gives s0 ?P
      (xbind (save_level env whole (lv_records lv2)) (\<lambda>_.
         if fst out = Awaiting_Human then xret (Inl lv2)
         else xbind (budget_exceeded env (whole \<noteq> None) g (lv_records lv2)) (\<lambda>exceeded.
           if exceeded then xbind (block_pending lv2) (\<lambda>lv3. xret (Inl lv3))
           else commit_batch env whole g outcomes lv2)))"
    if com: "node_committed g n out lv lv2" for lv2
  proof -
    obtain r nd where r: "map_of (lv_records lv) n = Some r" "map_of (gr_nodes g) n = Some nd"
        "lv_records lv2 = AList.update n ((apply_details (snd (snd out)) r)\<lparr>nr_status := fst out,
              nr_outputs := redacted_outputs (nd_outputs (nd_info nd)) (fst (snd out))\<rparr>) (lv_records lv)"
        and st: "lv_states lv2 = AList.update n (fst out) (lv_states lv)"
      using com by (auto simp: node_committed_def)
    have inv: "I (lv_records lv2)"
      using level_rule_commit [OF rule Cons.prems(1) r(1,2)] final unfolding r(3) by (cases out) auto
    have shr: "level_shrinks lv lv2" "status_of (lv_states lv2) n \<noteq> Pending"
      using ne by (auto simp: level_shrinks_def st)
    have rest: "gives s0 ?P (commit_batch env whole g outcomes lv2)"
    proof (rule gives_mono [OF Cons.IH [OF inv]])
      fix v assume "committed I (map fst outcomes) lv2 v"
      then show "?P v" using shr by (auto simp: committed_def level_shrinks_def split: sum.splits)
    qed (use Cons.prems in simp)
    have ended: "gives s0 ?P (xret (Inl lv3))" if "I (lv_records lv3)" for lv3
      using that by (auto simp: committed_def intro!: step_rules)
    show ?thesis
      using rest ended inv
      by (auto intro!: gives_then [OF gives_save_level [OF level_rule_save [OF rule inv]]]
          gives_then [OF gives_budget] gives_bind [OF gives_block [OF rule inv]])
  qed
  show ?case
    unfolding p commit_batch.simps list.map fst_conv by (rule gives_bind [OF gives_commit_node tail])
qed

subsection \<open>Nodes\<close>

definition level_pending :: "graph \<Rightarrow> level \<Rightarrow> nat" where
  "level_pending g lv = length (filter (\<lambda>n. status_of (lv_states lv) n = Pending) (node_ids g))"

definition round_ok :: "(node_records \<Rightarrow> bool) \<Rightarrow> graph \<Rightarrow> level \<Rightarrow> level + level \<Rightarrow> bool" where
  "round_ok I g lv r \<longleftrightarrow>
     (case r of Inl lv' \<Rightarrow> I (lv_records lv')
      | Inr lv' \<Rightarrow> I (lv_records lv') \<and> level_pending g lv' < level_pending g lv)"

lemma level_pending_less:
  assumes "level_shrinks lv lv'" and "n \<in> set (node_ids g)"
    and "status_of (lv_states lv) n = Pending" and "status_of (lv_states lv') n \<noteq> Pending"
  shows "level_pending g lv' < level_pending g lv"
proof -
  let ?old = "filter (\<lambda>n. status_of (lv_states lv) n = Pending) (node_ids g)"
  have "filter (\<lambda>n. status_of (lv_states lv') n = Pending) (node_ids g)
      = filter (\<lambda>n. status_of (lv_states lv') n = Pending) ?old"
    using assms(1) by (auto simp: level_shrinks_def intro!: filter_cong)
  moreover have "n \<in> set ?old" using assms(2,3) by simp
  then have "length (filter (\<lambda>n. status_of (lv_states lv') n = Pending) ?old) < length ?old"
    using assms(4) by (rule length_filter_less)
  ultimately show ?thesis unfolding level_pending_def by presburger
qed

lemma gives_round:
  assumes "runner_ok R E s0 rn" and rule: "level_rule I g whole" and inv: "I (lv_records lv)"
  shows "gives s0 (round_ok I g lv) (scope_round env rn whole g lv)"
proof (cases "ready_nodes (ce_agx (xe_criteria env)) g (lv_states lv) (lv_scope lv)")
  case None
  then show ?thesis by (simp add: scope_round_def step_rules)
next
  case (Some x)
  obtain candidates states' scope' where x: "x = (candidates, states', scope')" by (cases x) auto
  define lv1 where "lv1 = lv\<lparr>lv_states := states', lv_scope := scope'\<rparr>"
  have pend: "\<forall>m. status_of states' m = Pending \<longrightarrow> status_of (lv_states lv) m = Pending"
      "\<forall>n \<in> set candidates. n \<in> set (node_ids g) \<and> status_of (lv_states lv) n = Pending"
    using ready_nodes_pending Some unfolding x by blast+
  then have lv1: "level_shrinks lv lv1" by (simp add: level_shrinks_def lv1_def)
  show ?thesis
  proof (cases candidates)
    case Nil
    then show ?thesis using inv by (simp add: scope_round_def Some x round_ok_def step_rules)
  next
    case (Cons n ns)
    obtain k where k: "parallel_limit env g = Suc k"
      by (cases "parallel_limit env g") (auto simp: parallel_limit_def)
    have n: "n \<in> set (node_ids g)" "status_of (lv_states lv) n = Pending" using pend(2) Cons by auto
    have step: "gives s0 (round_ok I g lv)
        (xbind (xbatch rn g (lv_scope lv2) batch) (\<lambda>outcomes. commit_batch env whole g (zip batch outcomes) lv2))"
      if picked: "picked I [] lv1 (batch, lv2)" and first: "n \<in> set batch \<or> status_of (lv_states lv2) n \<noteq> Pending"
      for batch lv2
    proof (rule gives_bind [OF gives_batch [OF assms(1)]])
      fix outcomes assume outs: "length outcomes = length batch \<and> list_all final_outcome outcomes"
      have fsts: "map fst (zip batch outcomes) = batch" using outs by simp
      have "list_all (final_outcome \<circ> snd) (zip batch outcomes)"
        using outs by (auto simp: list_all_iff dest: set_zip_rightD)
      from gives_commit [OF rule _ this, of lv2 s0 env] picked
      have "gives s0 (committed I batch lv2) (commit_batch env whole g (zip batch outcomes) lv2)"
        by (simp add: picked_def fsts)
      then show "gives s0 (round_ok I g lv) (commit_batch env whole g (zip batch outcomes) lv2)"
      proof (rule gives_mono)
        fix r assume r: "committed I batch lv2 r"
        show "round_ok I g lv r"
        proof (cases r)
          case (Inr lv')
          have "level_shrinks lv lv'"
            using r Inr picked lv1 by (auto simp: committed_def picked_def level_shrinks_def)
          moreover have "status_of (lv_states lv') n \<noteq> Pending"
            using r Inr first by (auto simp: committed_def level_shrinks_def)
          ultimately show ?thesis
            using level_pending_less n Inr r by (simp add: round_ok_def committed_def)
        qed (use r in \<open>simp add: round_ok_def committed_def\<close>)
      qed
    qed
    have pick: "gives s0 (\<lambda>r. picked I [] lv1 r \<and> (n \<in> set (fst r) \<or> status_of (lv_states (snd r)) n \<noteq> Pending))
        (pick_batch env g (take (parallel_limit env g) candidates) {} [] lv1)"
      unfolding Cons k take_Suc_Cons by (rule gives_pick_first [OF rule]) (simp add: lv1_def inv)
    show ?thesis
      unfolding scope_round_def Some x Let_def lv1_def [symmetric] option.case prod.case
    proof (subst if_not_P)
      show "gives s0 (round_ok I g lv)
          (xbind (pick_batch env g (take (parallel_limit env g) candidates) {} [] lv1) (\<lambda>(batch, lv2).
             xbind (xbatch rn g (lv_scope lv2) batch) (\<lambda>outcomes.
               commit_batch env whole g (zip batch outcomes) lv2)))"
        by (rule gives_bind [OF pick]) (auto intro!: step)
    qed (simp add: Cons)
  qed
qed

lemma gives_scope_loop:
  assumes "runner_ok R E s0 rn" and rule: "level_rule I g whole" and "I (lv_records lv)" and "level_pending g lv < k"
  shows "gives s0 (\<lambda>lv'. I (lv_records lv')) (scope_loop k env rn whole g lv)"
  using assms(3,4)
proof (induction k arbitrary: lv)
  case (Suc k)
  have "gives s0 (\<lambda>lv'. I (lv_records lv')) (case r of Inl lv' \<Rightarrow> xret lv' | Inr lv' \<Rightarrow> scope_loop k env rn whole g lv')"
    if "round_ok I g lv r" for r
    using that Suc by (cases r) (auto simp: round_ok_def intro!: step_rules)
  then show ?case by (auto intro!: gives_bind [OF gives_round [OF assms(1) rule Suc.prems(1)]])
qed simp

lemma level_pending_bound: "level_pending g lv \<le> length (gr_nodes g)"
  using length_filter_le [of "\<lambda>n. status_of (lv_states lv) n = Pending" "node_ids g"]
  by (simp add: level_pending_def)

lemma gives_scope:
  assumes "runner_ok R E s0 rn" and "level_rule I g whole" and "I recs"
  shows "gives s0 (\<lambda>lv. I (lv_records lv)) (execute_scope env rn whole g recs scope)"
  unfolding execute_scope_def using assms level_pending_bound
  by (intro gives_scope_loop) (simp_all add: le_imp_less_Suc)

lemma gives_fragment:
  "runner_ok R E s0 rn \<Longrightarrow> gives s0 (\<lambda>r. fst r \<in> {Failed, Succeeded}) (run_fragment env rn f scope)"
  unfolding run_fragment_def by (rule gives_bind [OF gives_scope [OF _ level_rule_none TrueI]]) (simp_all add: gives_ret)

lemma gives_subgraph:
  "runner_ok R E s0 rn \<Longrightarrow> gives s0 final_outcome (run_subgraph env rn node_id b g scope)"
  unfolding run_subgraph_def Let_def
  by (auto intro!: step_rules gives_bind [OF gives_deeper [OF gives_fragment]] simp: final_outcome_def)

lemma gives_map_items:
  "runner_ok R E s0 rn \<Longrightarrow> gives s0 (\<lambda>_. True) (map_items env rn bi f scope i items scopes good)"
  by (induction items arbitrary: i scopes good)
    (auto intro!: step_rules gives_bind [OF gives_fragment] simp: Let_def)

lemma gives_run_map: "runner_ok R E s0 rn \<Longrightarrow> gives s0 final_outcome (run_map env rn b g scope)"
  unfolding run_map_def Let_def
  by (auto intro!: step_rules gives_bind [OF gives_map_items] simp: final_outcome_def
      split: json.splits map_end.splits)

lemma gives_loop_iterations:
  "runner_ok R E s0 rn \<Longrightarrow> gives s0 (\<lambda>_. True) (loop_iterations k env rn node_id bi f i ls)"
  by (induction k arbitrary: i ls)
    (auto intro!: step_rules gives_bind [OF gives_fragment] simp: Let_def)

lemma gives_loop:
  "runner_ok R E s0 rn \<Longrightarrow> gives s0 (\<lambda>r. final_outcome (fst r)) (run_loop env rn node_id b g scope)"
  unfolding run_loop_def Let_def
  by (auto intro!: step_rules gives_bind [OF gives_loop_iterations] simp: final_outcome_def
      split: loop_end.splits)

lemma gives_composite:
  "runner_ok R E s0 rn \<Longrightarrow> gives s0 (\<lambda>r. final_outcome (fst r)) (run_composite env rn node_id nd g scope)"
  unfolding run_composite_def
  by (auto intro!: step_rules gives_loop gives_bind [OF gives_run_map] gives_bind [OF gives_subgraph])

lemma gives_fallbacks:
  assumes "runner_ok R E s0 rn" and "final_outcome result"
  shows "gives s0 (\<lambda>r. final_outcome (fst r)) (run_fallbacks env rn g scope fbs result)"
proof (induction fbs)
  case (Cons fb fbs)
  have alternate: "gives s0 (\<lambda>r. final_outcome (fst r)) (rn g n nd scope)" for n nd
    using assms(1) by (simp add: runner_ok_def)
  show ?case
    using Cons by (cases result; cases "fb_strategy fb")
      (auto intro!: step_rules gives_bind [OF alternate] simp: final_outcome_def split: option.splits)
qed (simp add: step_rules assms(2))

lemma gives_node_body:
  "runner_ok R E s0 rn \<Longrightarrow> gives s0 (\<lambda>r. final_outcome (fst r)) (node_body env rn g node_id nd scope)"
  unfolding node_body_def Let_def
  by (auto intro!: step_rules gives_composite gives_fallbacks gives_bind [OF gives_gate]
      gives_bind [OF gives_decision] gives_bind [OF gives_task])

subsection \<open>Nodes that have ended stay as they are\<close>

definition level_keeps :: "string set \<Rightarrow> node_records \<Rightarrow> level \<Rightarrow> bool" where
  "level_keeps F recs lv \<longleftrightarrow>
     (\<forall>n \<in> F. map_of (lv_records lv) n = map_of recs n \<and> status_of (lv_states lv) n \<noteq> Pending)
     \<and> (\<forall>n. (n, Pending) \<in> set (lv_states lv) \<longrightarrow> n \<notin> F)"

lemma in_set_update: "(m, s) \<in> set (AList.update n v al) \<Longrightarrow> (m, s) \<in> set al \<or> (m = n \<and> s = v)"
  by (induction al) (auto split: if_splits)

lemma keeps_finish:
  "level_keeps F recs lv \<Longrightarrow> n \<notin> F \<Longrightarrow> finish n s outputs lv = Inr lv' \<Longrightarrow> level_keeps F recs lv'"
  by (auto simp: finish_def level_keeps_def dict_simps dest!: in_set_update split: option.splits if_splits)

lemma gives_finish_keeps:
  assumes "level_keeps F recs lv" and "n \<notin> F"
  shows "gives s0 (level_keeps F recs) (xfinish n s outputs lv)"
  using keeps_finish [OF assms]
  by (auto simp: xfinish_def finish_def intro!: step_rules split: option.splits)

lemma gives_pick_keeps:
  assumes "level_keeps F recs lv" and "set ns \<inter> F = {}" and "set batch \<inter> F = {}"
  shows "gives s0 (\<lambda>r. level_keeps F recs (snd r) \<and> set (fst r) \<inter> F = {}) (pick_batch env g ns groups batch lv)"
  using assms
proof (induction ns arbitrary: groups batch lv)
  case (Cons n ns)
  have skip: "gives s0 (\<lambda>r. level_keeps F recs (snd r) \<and> set (fst r) \<inter> F = {})
      (xbind (xfinish n Skipped [] lv) (pick_batch env g ns groups batch))"
    by (rule gives_bind [OF gives_finish_keeps]) (use Cons in auto)
  have add: "gives s0 (\<lambda>r. level_keeps F recs (snd r) \<and> set (fst r) \<inter> F = {})
      (pick_batch env g ns groups' (batch @ [n]) lv)" for groups'
    using Cons by auto
  show ?case using skip add Cons by (auto intro!: step_rules simp: Let_def)
qed (auto intro!: step_rules)

lemma gives_block_keeps:
  assumes "level_keeps F recs lv"
  shows "gives s0 (level_keeps F recs) (block_pending lv)"
  unfolding block_pending_def
  by (rule gives_fold) (use assms in \<open>auto intro!: gives_finish_keeps simp: level_keeps_def\<close>)

definition round_keeps :: "string set \<Rightarrow> node_records \<Rightarrow> level + level \<Rightarrow> bool" where
  "round_keeps F recs r \<longleftrightarrow> (case r of Inl lv \<Rightarrow> level_keeps F recs lv | Inr lv \<Rightarrow> level_keeps F recs lv)"

lemma gives_commit_keeps:
  assumes all: "\<forall>rec. S rec" and "level_keeps F recs lv" and "set (map fst outcomes) \<inter> F = {}"
  shows "gives s0 (round_keeps F recs) (commit_batch env whole g outcomes lv)"
  using assms(2,3)
proof (induction outcomes arbitrary: lv)
  case Nil
  then show ?case by (auto simp: round_keeps_def intro!: step_rules)
next
  case (Cons p outcomes)
  obtain n out where p: "p = (n, out)" by (cases p) auto
  have n: "n \<notin> F" and rest: "set (map fst outcomes) \<inter> F = {}" using Cons.prems p by auto
  have ended: "gives s0 (round_keeps F recs) (xret (Inl lv'))" if "level_keeps F recs lv'" for lv'
    using that by (auto simp: round_keeps_def intro!: step_rules)
  have saved: "gives s0 (\<lambda>_. True) (save_level env whole recs')" for recs'
    using all by (intro gives_save_level) (simp add: save_ok_def)
  have tail: "gives s0 (round_keeps F recs)
      (xbind (save_level env whole (lv_records lv2)) (\<lambda>_.
         if fst out = Awaiting_Human then xret (Inl lv2)
         else xbind (budget_exceeded env (whole \<noteq> None) g (lv_records lv2)) (\<lambda>exceeded.
           if exceeded then xbind (block_pending lv2) (\<lambda>lv3. xret (Inl lv3))
           else commit_batch env whole g outcomes lv2)))"
    if "node_committed g n out lv lv2" for lv2
  proof -
    have keep: "level_keeps F recs lv2"
      using that Cons.prems(1) n
      by (auto simp: node_committed_def level_keeps_def dict_simps dest!: in_set_update split: if_splits)
    show ?thesis
      using ended [OF keep] Cons.IH [OF keep rest] ended
      by (auto intro!: gives_then [OF saved] gives_then [OF gives_budget]
          gives_bind [OF gives_block_keeps [OF keep]])
  qed
  show ?case
    unfolding p commit_batch.simps by (rule gives_bind [OF gives_commit_node tail])
qed

lemma ready_scan_states:
  assumes "ready_scan env g ns states scope ready = Some (ready', states', scope')"
    and "(m, Pending) \<in> set states'"
  shows "(m, Pending) \<in> set states"
  using assms
proof (induction env g ns states scope ready rule: ready_scan.induct)
  case (2 env g n ns states scope ready)
  then show ?case
    by (auto simp: skip_node_def dest!: in_set_update split: option.splits visit.splits)
qed simp

lemma keeps_ready:
  assumes "level_keeps F recs lv"
    and "ready_nodes env g (lv_states lv) (lv_scope lv) = Some (candidates, states', scope')"
  shows "level_keeps F recs (lv\<lparr>lv_states := states', lv_scope := scope'\<rparr>) \<and> set candidates \<inter> F = {}"
  using assms(1) ready_nodes_pending [OF assms(2)] ready_scan_states [OF assms(2) [unfolded ready_nodes_def]]
  by (auto simp: level_keeps_def)

lemma gives_round_keeps:
  assumes "runner_ok R E s0 rn" and all: "\<forall>rec. S rec" and keeps: "level_keeps F recs lv"
  shows "gives s0 (round_keeps F recs) (scope_round env rn whole g lv)"
proof (cases "ready_nodes (ce_agx (xe_criteria env)) g (lv_states lv) (lv_scope lv)")
  case None
  then show ?thesis by (simp add: scope_round_def step_rules)
next
  case (Some x)
  obtain candidates states' scope' where x: "x = (candidates, states', scope')" by (cases x) auto
  note ready = keeps_ready [OF keeps Some [unfolded x]]
  have "set (take (parallel_limit env g) candidates) \<inter> F = {}"
    using ready set_take_subset [of "parallel_limit env g" candidates] by blast
  then have pick: "gives s0 (\<lambda>r. level_keeps F recs (snd r) \<and> set (fst r) \<inter> F = {})
      (pick_batch env g (take (parallel_limit env g) candidates) {} [] (lv\<lparr>lv_states := states', lv_scope := scope'\<rparr>))"
    using ready by (intro gives_pick_keeps) auto
  have commit: "gives s0 (round_keeps F recs)
      (xbind (xbatch rn g sc batch) (\<lambda>outcomes. commit_batch env whole g (zip batch outcomes) lv2))"
    if "level_keeps F recs lv2" and "set batch \<inter> F = {}" for batch lv2 sc
    by (rule gives_bind [OF gives_batch [OF assms(1)]]) (use that all in \<open>auto intro!: gives_commit_keeps\<close>)
  show ?thesis
    unfolding scope_round_def Some x Let_def option.case prod.case
  proof (cases "candidates = []")
    case True
    then show "gives s0 (round_keeps F recs)
        (if candidates = [] then xret (Inl (lv\<lparr>lv_states := states', lv_scope := scope'\<rparr>))
         else xbind (pick_batch env g (take (parallel_limit env g) candidates) {} []
                (lv\<lparr>lv_states := states', lv_scope := scope'\<rparr>)) (\<lambda>(batch, lv2).
                xbind (xbatch rn g (lv_scope lv2) batch) (\<lambda>outcomes.
                  commit_batch env whole g (zip batch outcomes) lv2)))"
      using ready by (simp add: round_keeps_def gives_ret)
  next
    case False
    show "gives s0 (round_keeps F recs)
        (if candidates = [] then xret (Inl (lv\<lparr>lv_states := states', lv_scope := scope'\<rparr>))
         else xbind (pick_batch env g (take (parallel_limit env g) candidates) {} []
                (lv\<lparr>lv_states := states', lv_scope := scope'\<rparr>)) (\<lambda>(batch, lv2).
                xbind (xbatch rn g (lv_scope lv2) batch) (\<lambda>outcomes.
                  commit_batch env whole g (zip batch outcomes) lv2)))"
      unfolding if_not_P [OF False]
      by (rule gives_bind [OF pick]) (use commit in \<open>simp add: split_beta\<close>)
  qed
qed

lemma gives_scope_loop_keeps:
  assumes "runner_ok R E s0 rn" and all: "\<forall>rec. S rec" and "level_keeps F recs lv" and "level_pending g lv < k"
  shows "gives s0 (level_keeps F recs) (scope_loop k env rn whole g lv)"
  using assms(3,4)
proof (induction k arbitrary: lv)
  case (Suc k)
  have rule: "level_rule (\<lambda>_. True) g whole" using all by (simp add: level_rule_def save_ok_def)
  have both: "gives s0 (\<lambda>r. round_ok (\<lambda>_. True) g lv r \<and> round_keeps F recs r) (scope_round env rn whole g lv)"
    using gives_round [OF assms(1) rule TrueI, of lv env] gives_round_keeps [OF assms(1) all Suc.prems(1), of env whole g]
    by (auto simp: step_gives_def split: sum.splits)
  have "gives s0 (level_keeps F recs) (case r of Inl lv' \<Rightarrow> xret lv' | Inr lv' \<Rightarrow> scope_loop k env rn whole g lv')"
    if "round_ok (\<lambda>_. True) g lv r \<and> round_keeps F recs r" for r
    using that Suc by (cases r) (auto simp: round_ok_def round_keeps_def intro!: step_rules)
  then show ?case by (auto intro!: gives_bind [OF both])
qed simp

lemma gives_scope_keeps:
  assumes "runner_ok R E s0 rn" and "\<forall>rec. S rec"
    and ended: "\<And>n r. (n, r) \<in> set recs \<Longrightarrow> n \<in> F \<Longrightarrow> nr_status r \<noteq> Pending" and known: "F \<subseteq> fst ` set recs"
  shows "gives s0 (level_keeps F recs) (execute_scope env rn whole g recs scope)"
proof -
  have "level_keeps F recs \<lparr>lv_records = recs, lv_states = record_states recs, lv_scope = scope\<rparr>"
    unfolding level_keeps_def level.simps
  proof (intro conjI ballI allI impI)
    fix n assume n: "n \<in> F"
    then obtain r where r: "(n, r) \<in> set recs" using known by auto
    then have "(n, nr_status r) \<in> set (record_states recs)" by (force simp: record_states_def)
    then obtain s where s: "map_of (record_states recs) n = Some s"
      using weak_map_of_SomeI by fastforce
    then have "(n, s) \<in> set (record_states recs)" by (rule map_of_SomeD)
    then have "s \<noteq> Pending" using ended n by (auto simp: record_states_def)
    then show "status_of (record_states recs) n \<noteq> Pending" using s by (simp add: status_of_def)
  next
    fix n assume "(n, Pending) \<in> set (record_states recs)"
    then show "n \<notin> F" using ended by (fastforce simp: record_states_def)
  qed simp
  then show ?thesis
    unfolding execute_scope_def using level_pending_bound
    by (intro gives_scope_loop_keeps [OF assms(1,2)]) (simp_all add: le_imp_less_Suc)
qed

end

lemma node_step_body:
  "node_step env rn g node_id nd scope st =
     (let st1 = st\<lparr>xs_executions := xs_executions st + 1\<rparr> in
      if execution_limit env g < xs_executions st1 then (Inr ((Failed, [], no_details), scope), st1)
      else node_body env rn g node_id nd scope st1)"
  by (simp add: node_step_def node_body_def xbind_def xmodify_def xread_def xret_def Let_def)

subsection \<open>The two orders\<close>

text \<open>
  Every node that starts adds one to the counter of executions, and none starts above the limit
  of the configuration: the nesting of calls is bounded by the executions that are left.
\<close>

definition counts_up :: "'w exec_state \<Rightarrow> 'w exec_state \<Rightarrow> bool" where
  "counts_up st st' \<longleftrightarrow> xs_executions st \<le> xs_executions st'"

definition log_grows :: "'w exec_state \<Rightarrow> 'w exec_state \<Rightarrow> bool" where
  "log_grows st st' \<longleftrightarrow>
     prefix (xs_events st) (xs_events st') \<and> prefix (xs_saved st) (xs_saved st')
     \<and> prefix (xs_diagnostics st) (xs_diagnostics st')"

definition saves_only :: "(run_record \<Rightarrow> bool) \<Rightarrow> 'w exec_state \<Rightarrow> 'w exec_state \<Rightarrow> bool" where
  "saves_only S st st' \<longleftrightarrow> (\<forall>rec \<in> set (xs_saved st'). rec \<in> set (xs_saved st) \<or> S rec)"

text \<open>An order that the counter of executions does not matter to, with any exception.\<close>

locale free_order = effect_order +
  assumes R_executions: "R st (st\<lparr>xs_executions := k\<rparr>)" and E_any: "E e"
begin

lemma run_node_ok: "runner_ok R E s0 (run_node env d)"
proof (induction d)
  case 0
  show ?case by (simp add: runner_ok_def step_gives_def xraise_def R_refl E_any)
next
  case (Suc d)
  show ?case
    unfolding runner_ok_def step_gives_def
  proof (intro allI impI)
    fix g n nd scope st
    assume st: "R s0 st"
    let ?st = "st\<lparr>xs_executions := xs_executions st + 1\<rparr>"
    have up: "R st ?st" by (rule R_executions)
    have "R ?st (snd (node_body env (run_node env d) g n nd scope ?st))
        \<and> (case fst (node_body env (run_node env d) g n nd scope ?st) of
             Inl e \<Rightarrow> E e | Inr r \<Rightarrow> final_outcome (fst r))"
      using gives_node_body [OF Suc, of env g n nd scope] R_trans [OF st up]
      unfolding step_gives_def by blast
    then show "R st (snd (run_node env (Suc d) g n nd scope st))
        \<and> (case fst (run_node env (Suc d) g n nd scope st) of Inl e \<Rightarrow> E e | Inr r \<Rightarrow> final_outcome (fst r))"
      using up R_trans [OF up] by (auto simp: node_step_body Let_def final_outcome_def)
  qed
qed

end

interpretation counts: effect_order counts_up "\<lambda>e. e \<noteq> NoFuel" "\<lambda>_. True"
  by unfold_locales (auto simp: counts_up_def)

interpretation logs: free_order log_grows "\<lambda>_. True" "\<lambda>_. True"
  by unfold_locales (auto simp: log_grows_def intro: prefix_order.trans)

interpretation saves: free_order "saves_only S" "\<lambda>_. True" S for S
  by unfold_locales (auto simp: saves_only_def)

lemma run_node_returns:
  assumes "nat (ag_max_executions (xe_agraph env) - xs_executions s0) < d"
  shows "runner_ok counts_up (\<lambda>e. e \<noteq> NoFuel) s0 (run_node env d)"
  using assms
proof (induction d arbitrary: s0)
  case (Suc d)
  show ?case
    unfolding runner_ok_def step_gives_def
  proof (intro allI impI)
    fix g n nd scope and st :: "'a exec_state"
    assume st: "counts_up s0 st"
    let ?st = "st\<lparr>xs_executions := xs_executions st + 1\<rparr>"
    have up: "counts_up st ?st" by (simp add: counts_up_def)
    show "counts_up st (snd (run_node env (Suc d) g n nd scope st))
        \<and> (case fst (run_node env (Suc d) g n nd scope st) of
             Inl e \<Rightarrow> e \<noteq> NoFuel | Inr r \<Rightarrow> final_outcome (fst r))"
    proof (cases "execution_limit env g < xs_executions ?st")
      case True
      then show ?thesis using up by (simp add: node_step_body Let_def final_outcome_def)
    next
      case False
      then have "xs_executions st + 1 \<le> ag_max_executions (xe_agraph env)"
        by (simp add: execution_limit_def)
      then have "nat (ag_max_executions (xe_agraph env) - xs_executions ?st) < d"
        using Suc.prems st by (auto simp: counts_up_def)
      note rn = Suc.IH [OF this]
      have "counts_up ?st (snd (node_body env (run_node env d) g n nd scope ?st))
          \<and> (case fst (node_body env (run_node env d) g n nd scope ?st) of
               Inl e \<Rightarrow> e \<noteq> NoFuel | Inr r \<Rightarrow> final_outcome (fst r))"
        using counts.gives_node_body [OF rn, of env g n nd scope] counts.R_refl
        unfolding step_gives_def by blast
      then show ?thesis
        using False counts.R_trans [OF up] by (simp add: node_step_body Let_def)
    qed
  qed
qed simp

end
