(* ===== verification/Agraph_Run.thy ===== *)
theory Agraph_Run
  imports Agraph_Steps Approval_Stores
begin

text \<open>
  A whole run of a graph: \<open>run\<close>, \<open>resume\<close>, \<open>_execute_document\<close>, \<open>_compensate\<close> and the binding of
  parameters of \<open>src/loro/agraph/execute.py\<close>, the run store of \<open>src/loro/agraph/store.py\<close> and the
  report of \<open>src/loro/agraph/recovery.py\<close>. The loader of documents, the validator of the ags package
  and the schema of run records are parameters. A stored run is its size and the record it holds
  when it decodes to one; the conversion of the node records to a list and back is left out, as
  both are the same association list here.
\<close>

subsection \<open>Redaction markers\<close>

definition redaction_markers :: "'w exec_env \<Rightarrow> string list" where
  "redaction_markers env =
     remdups ([''[redacted]'', ''[REDACTED]'']
       @ (if xe_redaction_text env = [] then [] else [xe_redaction_text env]))"

fun contains_marker :: "string list \<Rightarrow> json \<Rightarrow> bool" where
  "contains_marker ms (JStr s) = list_ex (contains s) ms"
| "contains_marker ms (JObj d) = list_ex (\<lambda>(k, v). list_ex (contains k) ms \<or> contains_marker ms v) d"
| "contains_marker ms (JArr vs) = list_ex (contains_marker ms) vs"
| "contains_marker ms _ = False"

definition redacted_param_names :: "string list \<Rightarrow> (string, json) dict \<Rightarrow> string list" where
  "redacted_param_names ms params = sort_key id (map fst (filter (\<lambda>(_, v). contains_marker ms v) params))"

definition check_markers :: "'w exec_env \<Rightarrow> (string, json) dict \<Rightarrow> (unit, 'w) exec" where
  "check_markers env params =
     (let names = redacted_param_names (redaction_markers env) params in
      if names = [] then xret () else xraise (RedactedParams names))"

subsection \<open>Parameters\<close>

text \<open>One declared parameter: its default, its presence, its type and its schema, in this order.\<close>

definition bind_param ::
  "'w exec_env \<Rightarrow> string \<times> param_spec \<Rightarrow> (string, json) dict \<Rightarrow> exec_error + (string, json) dict" where
  "bind_param env p values =
     (case p of (name, spec) \<Rightarrow>
        let filled = (case (map_of values name, ps_default spec) of
                        (None, Some v) \<Rightarrow> AList.update name v values | _ \<Rightarrow> values) in
        (case map_of filled name of
           None \<Rightarrow> if ps_required spec then Inl (MissingParam name) else Inr filled
         | Some v \<Rightarrow>
             if \<not> matches_type v (ps_type spec) then Inl (ParamType name)
             else if (case ps_schema spec of
                        Some sc \<Rightarrow> truthy sc \<and> \<not> ce_schema_ok (xe_criteria env) v sc | None \<Rightarrow> False)
             then Inl SchemaFailed
             else Inr filled))"

fun bind_specs ::
  "'w exec_env \<Rightarrow> (string, param_spec) dict \<Rightarrow> (string, json) dict \<Rightarrow> exec_error + (string, json) dict" where
  "bind_specs env [] values = Inr values"
| "bind_specs env (p # ps) values = res_bind (bind_param env p values) (bind_specs env ps)"

definition bind_params ::
  "'w exec_env \<Rightarrow> graph \<Rightarrow> (string, json) dict \<Rightarrow> exec_error + (string, json) dict" where
  "bind_params env g supplied =
     (let specs = gi_params (gr_info g);
          unknown = filter (\<lambda>n. map_of specs n = None) (map fst supplied) in
      if unknown \<noteq> [] then Inl (UnknownParams (sort_key id unknown))
      else bind_specs env specs supplied)"

definition xsum :: "exec_error + 'a \<Rightarrow> ('a, 'w) exec" where
  "xsum r = (case r of Inl e \<Rightarrow> xraise e | Inr v \<Rightarrow> xret v)"

subsection \<open>Outputs of a graph\<close>

text \<open>\<open>nodes.NAME.outputs.NAME\<close>, where a name is one or more of the characters of \<open>[A-Za-z0-9_-]\<close>.\<close>

definition name_char :: "char \<Rightarrow> bool" where
  "name_char c \<longleftrightarrow> (CHR ''a'' \<le> c \<and> c \<le> CHR ''z'') \<or> (CHR ''A'' \<le> c \<and> c \<le> CHR ''Z'')
     \<or> (CHR ''0'' \<le> c \<and> c \<le> CHR ''9'') \<or> c = CHR ''_'' \<or> c = CHR ''-''"

definition output_reference :: "string \<Rightarrow> (string \<times> string) option" where
  "output_reference e =
     (case split_on (CHR ''.'') e of
        [a, n, b, out] \<Rightarrow>
          (if a = ''nodes'' \<and> b = ''outputs'' \<and> n \<noteq> [] \<and> out \<noteq> []
              \<and> list_all name_char n \<and> list_all name_char out then Some (n, out) else None)
      | _ \<Rightarrow> None)"

definition redacted_reference :: "graph \<Rightarrow> string \<Rightarrow> bool" where
  "redacted_reference g e =
     (case output_reference e of
        None \<Rightarrow> False
      | Some (n, out) \<Rightarrow>
          (case map_of (gr_nodes g) n of
             None \<Rightarrow> False
           | Some nd \<Rightarrow> (case map_of (nd_outputs (nd_info nd)) out of None \<Rightarrow> False | Some sp \<Rightarrow> os_redact sp)))"

definition graph_output_value :: "'w exec_env \<Rightarrow> graph \<Rightarrow> scope \<Rightarrow> string \<Rightarrow> (json, 'w) exec" where
  "graph_output_value env g scope e =
     (if redacted_reference g e then xret (JStr ''[redacted]'') else xeval env scope e)"

definition graph_outputs :: "'w exec_env \<Rightarrow> graph \<Rightarrow> scope \<Rightarrow> ((string, json) dict, 'w) exec" where
  "graph_outputs env g scope =
     xmap (\<lambda>(name, e). xbind (graph_output_value env g scope e) (\<lambda>v. xret (name, v))) (gi_outputs (gr_info g))"

subsection \<open>Compensation\<close>

text \<open>
  The nodes in reverse topological order; each test reads the records as the compensations before
  it have left them.
\<close>

fun compensate_nodes ::
  "'w node_runner \<Rightarrow> graph \<Rightarrow> string list \<Rightarrow> node_records \<Rightarrow> scope \<Rightarrow> string list \<Rightarrow>
     (node_records \<times> scope \<times> string list, 'w) exec" where
  "compensate_nodes rn g [] recs scope nodes_done = xret (recs, scope, nodes_done)"
| "compensate_nodes rn g (n # ns) recs scope nodes_done =
     xbind (xoption (UnknownNode n) (map_of recs n)) (\<lambda>r.
     xbind (xoption (UnknownNode n) (map_of (gr_nodes g) n)) (\<lambda>nd.
       case fp_compensation (nd_failure (nd_info nd)) of
         Some (c # cs) \<Rightarrow>
           (if nr_status r \<noteq> Succeeded then compensate_nodes rn g ns recs scope nodes_done
            else xbind (xoption (UnknownNode (c # cs)) (map_of (gr_nodes g) (c # cs))) (\<lambda>target.
                 xbind (rn g (c # cs) target scope) (\<lambda>((outcome, outputs, details), scope').
                 xbind (xoption (UnknownNode (c # cs)) (map_of recs (c # cs))) (\<lambda>tr.
                 xbind (settle_iterations True (c # cs) details) (\<lambda>_.
                   compensate_nodes rn g ns
                     (AList.update (c # cs)
                        ((apply_details details tr)\<lparr>nr_status := outcome, nr_outputs := outputs\<rparr>) recs)
                     (bind_node (c # cs) (node_binding outcome outputs) scope') (nodes_done @ [n]))))))
       | _ \<Rightarrow> compensate_nodes rn g ns recs scope nodes_done))"

definition compensate ::
  "'w node_runner \<Rightarrow> graph \<Rightarrow> node_records \<Rightarrow> scope \<Rightarrow> (node_records \<times> scope \<times> string list, 'w) exec" where
  "compensate rn g recs scope = compensate_nodes rn g (rev (topological_order g)) recs scope []"

subsection \<open>A whole run\<close>

record 'w run_env =
  rv_exec :: "'w exec_env"
  rv_report_ok :: "graph \<Rightarrow> bool"
  rv_record_valid :: "run_record \<Rightarrow> bool"

text \<open>The state of the executor when a document starts; the number of executions is kept.\<close>

definition cost_limit :: "'w exec_env \<Rightarrow> graph \<Rightarrow> rat option" where
  "cost_limit env g = bounded (gi_max_cost (gr_info g)) (ag_max_cost (xe_agraph env))"

definition start_document :: "'w exec_env \<Rightarrow> graph \<Rightarrow> run_record \<Rightarrow> 'w exec_state \<Rightarrow> 'w exec_state" where
  "start_document env g rec st =
     st\<lparr>xs_cost_limit := cost_limit env g, xs_token_limit := gi_max_tokens (gr_info g),
                     xs_started := xe_clock env (xs_world st), xs_budget_failed := False,
                     xs_diagnostics := rr_diagnostics rec, xs_usage := rr_usage rec,
                     xs_loops := List.map_filter (\<lambda>(n, r). map_option (\<lambda>k. (n, k)) (nr_iterations r)) (rr_nodes rec),
                     xs_iterations := []\<rparr>"

definition document_scope :: "graph \<Rightarrow> run_record \<Rightarrow> (string, json) dict \<Rightarrow> scope" where
  "document_scope g rec params =
     fold (\<lambda>(n, r). bind_node n (node_binding (nr_status r) (nr_outputs r))) (rr_nodes rec)
       [(''graph'', JObj [(''id'', JStr (gi_id (gr_info g)))]), (''params'', JObj params),
        (''context'', JObj (gi_context (gr_info g))), (''attachments'', JObj []), (''env'', JObj []),
        (''nodes'', JObj [])]"

text \<open>The end of \<open>_execute_document\<close>: the verdict over the states, compensation or outputs.\<close>

definition conclude ::
  "'w exec_env \<Rightarrow> 'w node_runner \<Rightarrow> graph \<Rightarrow> run_record \<Rightarrow> level \<Rightarrow> bool \<Rightarrow> (run_record, 'w) exec" where
  "conclude env rn g rec lv budget_failed =
     (let states = map (nr_status \<circ> snd) (lv_records lv) in
      if Awaiting_Human \<in> set states
      then xret (rec\<lparr>rr_nodes := lv_records lv, rr_status := ''awaiting_human'', rr_finished := False\<rparr>)
      else if budget_failed \<or> list_ex (\<lambda>s. s \<in> {Failed, Blocked}) states
      then xbind (compensate rn g (lv_records lv) (lv_scope lv)) (\<lambda>(recs, scope, nodes_done).
             xret (rec\<lparr>rr_nodes := recs, rr_status := ''failed'', rr_finished := True,
                       rr_compensated := (if nodes_done = [] then rr_compensated rec else nodes_done)\<rparr>))
      else xbind (graph_outputs env g (lv_scope lv)) (\<lambda>outs.
             xret (rec\<lparr>rr_nodes := lv_records lv, rr_status := ''succeeded'', rr_finished := True,
                       rr_outputs := Some outs\<rparr>)))"

definition finish_record :: "run_record \<Rightarrow> 'w exec_state \<Rightarrow> run_record" where
  "finish_record rec st =
     (let recs = merge_iterations (xs_iterations st) (rr_nodes rec) in
      rec\<lparr>rr_nodes := recs, rr_usage := aggregate_usage recs, rr_diagnostics := xs_diagnostics st\<rparr>)"

definition execute_nodes ::
  "'w run_env \<Rightarrow> 'w node_runner \<Rightarrow> graph \<Rightarrow> run_record \<Rightarrow> (string, json) dict \<Rightarrow> (run_record, 'w) exec" where
  "execute_nodes renv rn g rec params =
     (let env = rv_exec renv in
      xbind (execute_scope env rn (Some rec) g (rr_nodes rec) (document_scope g rec params)) (\<lambda>lv.
      xbind (xread xs_budget_failed) (\<lambda>budget_failed.
      xbind (conclude env rn g rec lv budget_failed) (\<lambda>rec1.
      xbind (xread (finish_record rec1)) (\<lambda>rec2.
        if \<not> rv_record_valid renv rec2 then xraise SchemaFailed
        else xbind (save_record env rec2) (\<lambda>_. xret rec2))))))"

text \<open>
  \<open>_execute_document\<close>. A chain of nested calls starts a node at each level, so the executions that
  are left bound its depth.
\<close>

definition node_fuel :: "'w exec_env \<Rightarrow> 'w exec_state \<Rightarrow> nat" where
  "node_fuel env st = Suc (nat (ag_max_executions (xe_agraph env) - xs_executions st))"

definition execute_document ::
  "'w run_env \<Rightarrow> graph \<Rightarrow> run_record \<Rightarrow> (string, json) dict \<Rightarrow> (run_record, 'w) exec" where
  "execute_document renv g rec params =
     xbind (check_markers (rv_exec renv) params) (\<lambda>_.
     xbind (xmodify (start_document (rv_exec renv) g rec)) (\<lambda>_.
     xbind (xread (node_fuel (rv_exec renv))) (\<lambda>d.
       execute_nodes renv (run_node (rv_exec renv) d) g rec params)))"

text \<open>The checks of \<open>run\<close> and \<open>resume\<close> on the document.\<close>

definition check_document :: "'w run_env \<Rightarrow> graph \<Rightarrow> (unit, 'w) exec" where
  "check_document renv g =
     (if rv_report_ok renv g \<and> policy_ok (xe_agraph (rv_exec renv)) g then xret ()
      else xbind (xlog EvPolicyDenied) (\<lambda>_. xraise GraphRejected))"

definition policy_warnings :: "agraph_config \<Rightarrow> graph \<Rightarrow> diagnostic list" where
  "policy_warnings cfg g =
     map (\<lambda>f. \<lparr>dg_code = pf_code f, dg_error = False, dg_pointer = Some (pf_pointer f), dg_node = None\<rparr>)
       (filter (\<lambda>f. \<not> pf_error f) (evaluate_policy cfg g))"

definition recorded_params :: "graph \<Rightarrow> (string, json) dict \<Rightarrow> (string, json) dict" where
  "recorded_params g bound =
     List.map_filter (\<lambda>(n, sp). map_option (\<lambda>v. (n, if ps_redact sp then JStr ''[redacted]'' else v))
                                  (map_of bound n)) (gi_params (gr_info g))"

definition new_run_record ::
  "'w run_env \<Rightarrow> string \<Rightarrow> loaded_graph \<Rightarrow> (string, json) dict \<Rightarrow> bool \<Rightarrow> string \<Rightarrow> run_record" where
  "new_run_record renv source doc bound dry run_id =
     (let g = ld_graph doc in
      \<lparr>rr_run_id = run_id, rr_graph_id = gi_id (gr_info g), rr_digest = ld_digest doc, rr_status = ''running'',
       rr_nodes = fresh_records g, rr_usage = empty_usage,
       rr_diagnostics = policy_warnings (xe_agraph (rv_exec renv)) g, rr_source = source,
       rr_params = recorded_params g bound, rr_dry_run = dry, rr_compensated = [], rr_outputs = None,
       rr_finished = False\<rparr>)"

definition approve_plan :: "'w exec_env \<Rightarrow> string \<Rightarrow> string \<Rightarrow> (string, json) dict \<Rightarrow> (unit, 'w) exec" where
  "approve_plan env action target args = consume_plan_approval env action target args (xe_gate env \<noteq> None)"

definition graph_run ::
  "'w run_env \<Rightarrow> string \<Rightarrow> loaded_graph \<Rightarrow> (string, json) dict \<Rightarrow> bool \<Rightarrow> string \<Rightarrow> bool \<Rightarrow> (run_record, 'w) exec" where
  "graph_run renv source doc params dry run_id plan_approved =
     (let env = rv_exec renv; g = ld_graph doc in
      xbind (check_document renv g) (\<lambda>_.
      xbind (xlog (EvValidated (gi_id (gr_info g)))) (\<lambda>_.
        if \<not> dry \<and> \<not> plan_approved then xraise NeedsPlanApproval
        else
          xbind (if dry then xret ()
                 else approve_plan env ''agraph.run'' (gi_id (gr_info g)) [(''graph_digest'', JStr (ld_digest doc))]) (\<lambda>_.
          xbind (xsum (bind_params env g params)) (\<lambda>bound.
          xbind (check_markers env bound) (\<lambda>_.
            let rec = new_run_record renv source doc bound dry run_id in
            if dry then
              (if \<not> rv_record_valid renv rec then xraise SchemaFailed
               else xbind (save_record env rec) (\<lambda>_. xret rec))
            else xbind (save_record env rec) (\<lambda>_. execute_document renv g rec bound)))))))"

subsection \<open>The store of runs\<close>

text \<open>\<open>SAFE_ID\<close>, the size limit, and what a file holds when it decodes to an object.\<close>

definition id_char :: "char \<Rightarrow> bool" where
  "id_char c \<longleftrightarrow> (name_char c \<or> c = CHR ''.'')"

definition id_start :: "char \<Rightarrow> bool" where
  "id_start c \<longleftrightarrow> (name_char c \<and> c \<noteq> CHR ''_'' \<and> c \<noteq> CHR ''-'')"

fun safe_id :: "string \<Rightarrow> bool" where
  "safe_id [] = False"
| "safe_id (c # cs) = (id_start c \<and> list_all id_char cs \<and> length cs \<le> 127)"

text \<open>
  \<open>save\<close> accepts a record whose protected text fits; \<open>protect\<close> prints the record as JSON and passes
  it through the protection engine on the surface "session".
\<close>

definition store_accepts :: "(run_record \<Rightarrow> string option) \<Rightarrow> nat \<Rightarrow> run_record \<Rightarrow> bool" where
  "store_accepts protect max_bytes rec \<longleftrightarrow>
     safe_id (rr_run_id rec)
     \<and> (case protect rec of None \<Rightarrow> False | Some t \<Rightarrow> utf8_len t \<le> max_bytes)"

type_synonym run_store = "(string, nat \<times> run_record option) dict"

definition store_get :: "nat \<Rightarrow> run_store \<Rightarrow> string \<Rightarrow> exec_error + run_record" where
  "store_get max_bytes store run_id =
     (if \<not> safe_id run_id then Inl RecordRefused
      else case map_of store run_id of
             None \<Rightarrow> Inl UnknownRun
           | Some (n, content) \<Rightarrow>
               (if max_bytes < n then Inl RecordRefused
                else case content of None \<Rightarrow> Inl RecordRefused | Some rec \<Rightarrow> Inr rec))"

subsection \<open>Resuming a run\<close>

definition resume_params :: "run_record \<Rightarrow> (string, json) dict \<Rightarrow> (string, json) dict" where
  "resume_params rec supplied = fold (\<lambda>(k, v) d. AList.update k v d) supplied (rr_params rec)"

definition nodes_with_status :: "run_status \<Rightarrow> run_record \<Rightarrow> string list" where
  "nodes_with_status s rec = map fst (filter (\<lambda>(_, r). nr_status r = s) (rr_nodes rec))"

definition reopen_waiting :: "node_records \<Rightarrow> node_records" where
  "reopen_waiting recs =
     map (\<lambda>(n, r). (n, if nr_status r = Awaiting_Human then r\<lparr>nr_status := Pending\<rparr> else r)) recs"

definition resume_force ::
  "'w exec_env \<Rightarrow> bool \<Rightarrow> string \<Rightarrow> loaded_graph \<Rightarrow> (unit, 'w) exec" where
  "resume_force env force_approved old doc =
     (if \<not> force_approved then xraise ForceNotApproved
      else xbind (approve_plan env ''agraph.resume_force'' (gi_id (gr_info (ld_graph doc)))
                    [(''old_digest'', JStr old), (''new_digest'', JStr (ld_digest doc))]) (\<lambda>_.
           xlog (EvResumeForced (gi_id (gr_info (ld_graph doc))))))"

definition new_warnings :: "diagnostic list \<Rightarrow> diagnostic list \<Rightarrow> diagnostic list" where
  "new_warnings old ws =
     filter (\<lambda>w. (dg_code w, dg_pointer w) \<notin> (\<lambda>d. (dg_code d, dg_pointer d)) ` set old) ws"

definition resumed_record :: "'w run_env \<Rightarrow> bool \<Rightarrow> loaded_graph \<Rightarrow> run_record \<Rightarrow> run_record" where
  "resumed_record renv force doc rec =
     rec\<lparr>rr_nodes := reopen_waiting (rr_nodes rec),
         rr_digest := (if force then ld_digest doc else rr_digest rec),
         rr_diagnostics := rr_diagnostics rec
           @ new_warnings (rr_diagnostics rec) (policy_warnings (xe_agraph (rv_exec renv)) (ld_graph doc)),
         rr_status := ''running''\<rparr>"

definition graph_resume ::
  "'w run_env \<Rightarrow> nat \<Rightarrow> run_store \<Rightarrow> string \<Rightarrow> bool \<Rightarrow> bool \<Rightarrow> (string, json) dict \<Rightarrow> (run_record, 'w) exec" where
  "graph_resume renv max_bytes store run_id force force_approved supplied =
     (let env = rv_exec renv in
      xbind (xsum (store_get max_bytes store run_id)) (\<lambda>rec.
        if rr_dry_run rec then xraise DryRunRecord
        else
          xbind (check_markers env (resume_params rec supplied)) (\<lambda>_.
            let uncertain = nodes_with_status Running rec in
            if uncertain \<noteq> [] \<and> \<not> force then xraise (UncertainEffects uncertain)
            else
              xbind (xread (\<lambda>st. xe_load env (rr_source rec) (xs_world st))) (\<lambda>loaded.
              xbind (xoption LoadFailed loaded) (\<lambda>doc.
              xbind (check_document renv (ld_graph doc)) (\<lambda>_.
                if rr_digest rec \<noteq> ld_digest doc \<and> \<not> force then xraise DigestChanged
                else
                  xbind (if force then resume_force env force_approved (rr_digest rec) doc else xret ()) (\<lambda>_.
                  xbind (check_markers env (resume_params rec supplied)) (\<lambda>_.
                  xbind (xsum (bind_params env (ld_graph doc) (resume_params rec supplied))) (\<lambda>bound.
                    execute_document renv (ld_graph doc) (resumed_record renv force doc rec) bound)))))))))"

text \<open>\<open>recovery_summary\<close>; the document of the record, when it can be loaded, is an argument.\<close>

record recovery =
  rc_run_id :: string
  rc_status :: string
  rc_completed :: "string list"
  rc_gates :: "string list"
  rc_uncertain :: "string list"
  rc_recorded_digest :: string
  rc_current_digest :: "string option"
  rc_changed :: "bool option"

definition recovery_summary :: "(string \<Rightarrow> loaded_graph option) \<Rightarrow> run_record \<Rightarrow> recovery" where
  "recovery_summary load rec =
     (let current = (if rr_source rec = [] then None else map_option ld_digest (load (rr_source rec))) in
      \<lparr>rc_run_id = rr_run_id rec, rc_status = rr_status rec,
       rc_completed = nodes_with_status Succeeded rec,
       rc_gates = nodes_with_status Awaiting_Human rec,
       rc_uncertain = nodes_with_status Running rec,
       rc_recorded_digest = rr_digest rec, rc_current_digest = current,
       rc_changed = (case current of None \<Rightarrow> None
                     | Some d \<Rightarrow> if d = [] then None else Some (d \<noteq> rr_digest rec))\<rparr>)"

subsection \<open>The approval of a plan\<close>

text \<open>
  \<open>_consume_approval\<close>: a request, a grant and its use in one go. The identifiers and the clock are
  arguments.
\<close>

definition plan_policy :: "string \<Rightarrow> permission_result" where
  "plan_policy version =
     \<lparr>result_decision = Decided Ask,
      result_reason = ''Agentic Graph approvals bind reviewed arguments and identity.'',
      result_policy_version = version, result_policy_source = ''agraph'',
      result_matched_rule = None, result_resource = None\<rparr>"

definition plan_request ::
  "identity_context \<Rightarrow> string \<Rightarrow> string \<Rightarrow> int \<Rightarrow> string \<Rightarrow> string \<Rightarrow> (string, json) dict \<Rightarrow>
     approval_error + approval_request \<times> approval_event list" where
  "plan_request ident version request_id now action target args =
     make_request ident action target args (plan_policy version) (\<lambda>_. ''ask'')
       ''Authorize a reviewed graph plan or human checkpoint.'' request_id now"

definition graph_approval ::
  "(rat \<Rightarrow> string) \<Rightarrow> (string \<Rightarrow> string) \<Rightarrow> ('s, 'h) store_ops \<Rightarrow> approvals_config \<Rightarrow> identity_context \<Rightarrow>
     string \<Rightarrow> string \<Rightarrow> string \<Rightarrow> int \<Rightarrow> int \<Rightarrow> string \<Rightarrow> string \<Rightarrow> (string, json) dict \<Rightarrow> bool \<Rightarrow> 's \<Rightarrow>
     (approval_error + approval) \<times> 's" where
  "graph_approval fl digest ops cfg ident version request_id approval_id now later action target args
     non_interactive s =
     (case plan_request ident version request_id now action target args of
        Inl e \<Rightarrow> (Inl e, s)
      | Inr (r, _) \<Rightarrow>
          (case grant fl digest ops cfg ident r Once (if non_interactive then NonInteractive else Interactive)
                  approval_id now s of
             Inl e \<Rightarrow> (Inl e, s)
           | Inr (rec, s', _) \<Rightarrow>
               (case consume fl digest ops ident r (ap_id rec) later s' of (res, s'', _) \<Rightarrow> (res, s''))))"

subsection \<open>Every run returns\<close>

context effect_order begin

lemma gives_compensate_nodes:
  "runner_ok R E s0 rn \<Longrightarrow> gives s0 (\<lambda>_. True) (compensate_nodes rn g ns recs scope nodes_done)"
proof (induction ns arbitrary: recs scope nodes_done)
  case (Cons n ns)
  have node: "gives s0 (\<lambda>r. final_outcome (fst r)) (rn g n' nd scope')" for n' nd scope'
    using Cons.prems by (simp add: runner_ok_def)
  show ?case
    using Cons by (auto intro!: step_rules gives_bind [OF node] split: option.splits list.splits)
qed (simp add: step_rules)

lemma gives_conclude:
  assumes "runner_ok R E s0 rn"
  shows "gives s0 (\<lambda>_. True) (conclude env rn g rec lv budget_failed)"
  unfolding conclude_def Let_def compensate_def graph_outputs_def
  by (auto intro!: step_rules gives_compensate_nodes [OF assms] simp: graph_output_value_def)

lemma gives_approve [step_rules]: "gives s0 (\<lambda>_. True) (approve_plan env action target args)"
  unfolding approve_plan_def by (intro step_rules)

lemma gives_check_document [step_rules]: "gives s0 (\<lambda>_. True) (check_document renv g)"
  unfolding check_document_def by (auto intro!: step_rules)

lemma gives_markers [step_rules]: "gives s0 (\<lambda>_. True) (check_markers env params)"
  unfolding check_markers_def Let_def by (auto intro!: step_rules)

lemma gives_resume_force [step_rules]: "gives s0 (\<lambda>_. True) (resume_force env ok old doc)"
  unfolding resume_force_def by (auto intro!: step_rules)

lemma gives_sum: "r \<noteq> Inl NoFuel \<Longrightarrow> gives s0 (\<lambda>_. True) (xsum r)"
  by (cases r) (auto simp: xsum_def intro!: step_rules)

lemma gives_execute_nodes:
  assumes "runner_ok R E s0 rn" and "\<forall>rec. S rec"
  shows "gives s0 (\<lambda>_. True) (execute_nodes renv rn g rec params)"
proof -
  have rule: "level_rule (\<lambda>_. True) g (Some rec)" using assms(2) by (simp add: level_rule_def save_ok_def)
  show ?thesis
    unfolding execute_nodes_def Let_def using assms(2)
    by (auto intro!: gives_bind [OF gives_scope [OF assms(1) rule TrueI]] gives_then [OF gives_read]
        gives_then [OF gives_conclude [OF assms(1)]] gives_then [OF gives_save] gives_ret gives_raise)
qed

end

lemma xbind_read: "xbind (xread f) k st = k (f st) st"
  by (simp add: xbind_def xread_def)

lemma xbind_modify: "xbind (xmodify f) k st = k () (f st)"
  by (simp add: xbind_def xmodify_def)

lemma start_executions: "xs_executions (start_document env g rec st) = xs_executions st"
  by (simp add: start_document_def)

lemma document_starts:
  assumes "check_markers (rv_exec renv) params st = (Inr (), st)"
  shows "execute_document renv g rec params st =
    (let st1 = start_document (rv_exec renv) g rec st in
     execute_nodes renv (run_node (rv_exec renv) (node_fuel (rv_exec renv) st1)) g rec params st1)"
  using assms
  by (simp add: execute_document_def xbind_modify xbind_read Let_def xbind_def [of "check_markers _ _"])

lemma check_markers_cases:
  "check_markers env params st =
     (let names = redacted_param_names (redaction_markers env) params in
      (if names = [] then Inr () else Inl (RedactedParams names), st))"
  by (simp add: check_markers_def Let_def xret_def xraise_def)

lemma bind_specs_error: "bind_specs env ps vs \<noteq> Inl NoFuel"
  by (induction env ps vs rule: bind_specs.induct)
    (auto simp: bind_param_def res_bind_def Let_def split: prod.splits option.splits sum.splits if_splits)

lemma bind_params_error: "bind_params env g supplied \<noteq> Inl NoFuel"
  by (simp add: bind_params_def Let_def bind_specs_error)

lemma store_get_error: "store_get max_bytes store run_id \<noteq> Inl NoFuel"
  by (auto simp: store_get_def split: option.splits prod.splits)

lemma gives_document: "counts.gives s0 (\<lambda>_. True) (execute_document renv g rec params)"
  unfolding step_gives_def
proof (intro allI impI)
  fix st :: "'a exec_state"
  let ?env = "rv_exec renv"
  show "counts_up st (snd (execute_document renv g rec params st))
      \<and> (case fst (execute_document renv g rec params st) of Inl e \<Rightarrow> e \<noteq> NoFuel | Inr v \<Rightarrow> True)"
  proof (cases "redacted_param_names (redaction_markers ?env) params = []")
    case False
    then show ?thesis
      by (simp add: execute_document_def xbind_def [of "check_markers _ _"] check_markers_cases counts_up_def)
  next
    case True
    define st1 where "st1 = start_document ?env g rec st"
    have "runner_ok counts_up (\<lambda>e. e \<noteq> NoFuel) st1 (run_node ?env (node_fuel ?env st1))"
      by (rule run_node_returns) (simp add: node_fuel_def)
    then have "counts.gives st1 (\<lambda>_. True)
        (execute_nodes renv (run_node ?env (node_fuel ?env st1)) g rec params)"
      by (rule counts.gives_execute_nodes) simp
    then have "counts_up st1 (snd (execute_document renv g rec params st))
        \<and> (case fst (execute_document renv g rec params st) of Inl e \<Rightarrow> e \<noteq> NoFuel | Inr v \<Rightarrow> True)"
      unfolding step_gives_def using True counts.R_refl [of st1]
      by (simp add: document_starts check_markers_cases Let_def st1_def)
    then show ?thesis by (simp add: counts_up_def st1_def start_executions)
  qed
qed

lemma gives_run: "counts.gives s0 (\<lambda>_. True) (graph_run renv source doc params dry run_id plan_approved)"
  unfolding graph_run_def Let_def
  by (auto intro!: step_rules gives_document counts.gives_sum counts.gives_save bind_params_error)

lemma gives_resume:
  "counts.gives s0 (\<lambda>_. True) (graph_resume renv max_bytes store run_id force force_approved supplied)"
  unfolding graph_resume_def Let_def
  by (auto intro!: step_rules gives_document counts.gives_sum bind_params_error store_get_error)

text \<open>
  C20. Every graph returns. Whatever the document, the model, the humans and the store do, a run and
  a resume end with a record or an error of the program and never exhaust the nesting of calls the
  model provides: each node of any depth consumes one of the node executions that the
  configuration allows, each round of the scheduler ends a pending node, and every loop is bounded.
\<close>

theorem graph_returns:
  "fst (graph_run renv source doc params dry run_id plan_approved st) \<noteq> Inl NoFuel
   \<and> fst (graph_resume renv max_bytes store run_id force force_approved supplied st) \<noteq> Inl NoFuel"
  using gives_run [of st renv source doc params dry run_id plan_approved]
    gives_resume [of st renv max_bytes store run_id force force_approved supplied]
    counts.R_refl [of st]
  unfolding step_gives_def by fastforce

end
