(* ===== verification/Agraph_Governance.thy ===== *)
theory Agraph_Governance
  imports Agraph_Run
begin

text \<open>
  What a run and a resume of a graph promise, over the executor of \<open>Agraph_Exec\<close> and the whole runs
  of \<open>Agraph_Run\<close>: which checks every started node has passed, what a resume keeps, what a record
  shows of redacted outputs, and the evaluations of small graphs behind the deviations found.
\<close>

subsection \<open>A small executor\<close>

definition example_criteria :: "unit criteria_env" where
  "example_criteria =
     \<lparr>ce_agx = plain_env, ce_str = (\<lambda>_. []), ce_dumps = (\<lambda>_. []), ce_loads = (\<lambda>_. None),
      ce_shlex = (\<lambda>_. None), ce_search = (\<lambda>_ _ _. None), ce_schema_ok = (\<lambda>_ _. True),
      ce_workspace = ''/w'', ce_resolve = (\<lambda>p. ''/w/'' @ p), ce_glob = (\<lambda>_ _. []), ce_size = (\<lambda>_ _. None),
      ce_read = (\<lambda>_ _. None), ce_sandbox = (\<lambda>_ _ _ w. (None, w)), ce_human = None, ce_checkers = [],
      ce_judge = (\<lambda>_ w. (None, w))\<rparr>"

definition example_models :: model_settings where
  "example_models =
     \<lparr>ms_provider = ''p'', ms_model = ''m'', ms_small_model = ''s'', ms_api_key_env = None,
      ms_credential_ref = None, ms_base_url = None, ms_tiers = []\<rparr>"

definition example_limits :: runtime_limits where
  "example_limits =
     \<lparr>max_tool_calls = 10, max_model_input_bytes = 1000, max_model_output_bytes = 1000,
      max_input_tokens = None, max_output_tokens = None, max_cost_usd = None\<rparr>"

text \<open>Every task emits the same outputs, costs the same, and every approval is granted.\<close>

definition example_exec :: "(string, json) dict \<Rightarrow> (string, json) dict \<Rightarrow> unit exec_env" where
  "example_exec usage outs =
     \<lparr>xe_criteria = example_criteria, xe_floats = (\<lambda>_. []), xe_repr = (\<lambda>_. []), xe_agraph = example_policy,
      xe_models = example_models, xe_max_steps = 10, xe_limits = example_limits,
      xe_permissions = default_permissions, xe_base_attr = (\<lambda>_. False), xe_roles = [], xe_environ = [],
      xe_mcp_servers = [], xe_skill_ok = (\<lambda>_. True), xe_gate = None,
      xe_run = (\<lambda>_ _ _ w. (Inr \<lparr>rs_summary = [], rs_usage = usage, rs_outputs = outs\<rparr>, w)),
      xe_approve = (\<lambda>_ _ _ _ w. (True, w)), xe_load = (\<lambda>_ _. None), xe_clock = (\<lambda>_. 0), xe_now = (\<lambda>_. []),
      xe_record_ok = (\<lambda>rec. safe_id (rr_run_id rec)), xe_error_text = (\<lambda>_. []), xe_contract = (\<lambda>_. []),
      xe_redaction_text = ''[REDACTED]''\<rparr>"

definition example_run :: "(string, json) dict \<Rightarrow> (string, json) dict \<Rightarrow> unit run_env" where
  "example_run usage outs =
     \<lparr>rv_exec = example_exec usage outs, rv_report_ok = (\<lambda>_. True), rv_record_valid = (\<lambda>_. True)\<rparr>"

definition fresh_state :: "unit exec_state" where
  "fresh_state =
     \<lparr>xs_world = (), xs_executions = 0, xs_depth = 0, xs_budget_failed = False, xs_loops = [],
      xs_iterations = [], xs_diagnostics = [], xs_usage = [], xs_cost_limit = None, xs_token_limit = None,
      xs_started = 0, xs_events = [], xs_saved = []\<rparr>"

definition notify_node :: node_info where
  "notify_node = plain_node\<lparr>nd_type := ''gate'',
     nd_gate := Some \<lparr>gt_mode = ''notify'', gt_prompt = [], gt_roles = [], gt_collect = []\<rparr>\<rparr>"

definition notify_graph :: loaded_graph where
  "notify_graph =
     \<lparr>ld_graph = Graph (plain_graph\<lparr>gi_entrypoints := [''g'']\<rparr>) [(''g'', Node notify_node [])] [],
      ld_digest = ''d''\<rparr>"

lemma notify_run:
  "xs_events (snd (graph_run (example_run [] []) ''f'' notify_graph [] False ''r1'' True fresh_state))
   = [EvValidated ''g'', EvNodeStarted ''g'', EvNodeCompleted ''g'' Succeeded []]"
  by code_simp

subsection \<open>What every started node has passed\<close>

text \<open>The events a step adds.\<close>

definition new_events :: "'w exec_state \<Rightarrow> 'w exec_state \<Rightarrow> exec_event list" where
  "new_events st st' = drop (length (xs_events st)) (xs_events st')"

lemma new_events_simps [simp]:
  "new_events st st = []"
  "new_events st (st'\<lparr>xs_world := w\<rparr>) = new_events st st'"
  "new_events st (st'\<lparr>xs_saved := recs\<rparr>) = new_events st st'"
  "xs_events st' = xs_events st @ evs \<Longrightarrow> new_events st st' = evs"
  by (simp_all add: new_events_def)

definition plan_approved_in ::
  "'w exec_env \<Rightarrow> string \<Rightarrow> string \<Rightarrow> (string, json) dict \<Rightarrow> 'w \<Rightarrow> bool" where
  "plan_approved_in env action target args w \<longleftrightarrow> fst (xe_approve env action target args (xe_gate env \<noteq> None) w)"

lemma check_document_step:
  "check_document renv g st =
     (if rv_report_ok renv g \<and> policy_ok (xe_agraph (rv_exec renv)) g then (Inr (), st)
      else (Inl GraphRejected, st\<lparr>xs_events := xs_events st @ [EvPolicyDenied]\<rparr>))"
  by (simp add: check_document_def xret_def xraise_def xbind_def xlog_def xmodify_def)

lemma approve_plan_step:
  "\<exists>w. approve_plan env action target args st =
     (if plan_approved_in env action target args (xs_world st) then Inr () else Inl ApprovalFailed, st\<lparr>xs_world := w\<rparr>)"
  by (auto simp: approve_plan_def consume_plan_approval_def plan_approved_in_def xbind_def xworld_def xret_def
      xraise_def split: prod.splits)

lemma xsum_step: "xsum r st = (r, st)"
  by (cases r) (simp_all add: xsum_def xret_def xraise_def)

lemma save_record_step:
  "save_record env rec st =
     (if xe_record_ok env rec then (Inr (), st\<lparr>xs_saved := xs_saved st @ [rec]\<rparr>) else (Inl RecordRefused, st))"
  by (simp add: save_record_def xmodify_def xraise_def)

text \<open>
  C1. A run is governed. When a run starts any node, of any depth, then it was not a dry run, the
  reviewer had approved the plan, validation and managed policy had accepted the document, an
  approval bound to the graph and its digest was granted and used, every declared parameter has
  its type and none of the values is a redaction marker, and the record of the run was on disk
  before the first node started.
\<close>

theorem run_is_governed:
  assumes run: "graph_run renv source doc params dry run_id plan_approved st = (r, st')"
    and started: "EvNodeStarted n \<in> set (new_events st st')"
  shows "\<not> dry \<and> plan_approved \<and> rv_report_ok renv (ld_graph doc)
    \<and> policy_ok (xe_agraph (rv_exec renv)) (ld_graph doc)
    \<and> plan_approved_in (rv_exec renv) ''agraph.run'' (gi_id (gr_info (ld_graph doc)))
         [(''graph_digest'', JStr (ld_digest doc))] (xs_world st)
    \<and> (\<exists>bound. bind_params (rv_exec renv) (ld_graph doc) params = Inr bound
         \<and> redacted_param_names (redaction_markers (rv_exec renv)) bound = []
         \<and> xe_record_ok (rv_exec renv) (new_run_record renv source doc bound False run_id))"
proof -
  let ?env = "rv_exec renv" and ?g = "ld_graph doc"
  let ?st1 = "st\<lparr>xs_events := xs_events st @ [EvValidated (gi_id (gr_info ?g))]\<rparr>"
  let ?args = "[(''graph_digest'', JStr (ld_digest doc))]"
  obtain w where w: "approve_plan ?env ''agraph.run'' (gi_id (gr_info ?g)) ?args ?st1 =
      (if plan_approved_in ?env ''agraph.run'' (gi_id (gr_info ?g)) ?args (xs_world st) then Inr ()
       else Inl ApprovalFailed, ?st1\<lparr>xs_world := w\<rparr>)"
    using approve_plan_step [of ?env "''agraph.run''" "gi_id (gr_info ?g)" ?args ?st1] by auto
  note steps = graph_run_def Let_def xbind_def check_document_step xlog_def xmodify_def xret_def xraise_def
    xsum_step check_markers_cases save_record_step w
  have doc: "rv_report_ok renv ?g \<and> policy_ok (xe_agraph ?env) ?g"
    using run started by (rule_tac ccontr) (auto simp: steps)
  show ?thesis
  proof (cases dry)
    case True
    then show ?thesis
      using run started doc by (auto simp: steps split: sum.splits if_splits)
  next
    case False
    then show ?thesis
      using run started doc
      by (cases "bind_params ?env ?g params") (auto simp: steps split: if_splits)
  qed
qed

theorem run_is_governed_witness:
  "plan_approved_in (example_exec [] []) ''agraph.run'' ''g'' [(''graph_digest'', JStr ''d'')] ()"
proof -
  let ?run = "graph_run (example_run [] []) ''f'' notify_graph [] False ''r1'' True fresh_state"
  have "EvNodeStarted ''g'' \<in> set (new_events fresh_state (snd ?run))"
    unfolding new_events_def notify_run by (simp add: fresh_state_def)
  from run_is_governed [OF surjective_pairing this] show ?thesis
    by (simp add: example_run_def notify_graph_def plain_graph_def fresh_state_def)
qed

text \<open>
  C10. A resume is governed. When a resume starts any node, then the stored record is readable and
  not a plan, its parameters with the ones supplied again hold no redaction marker, the document
  named by the record still passes validation and policy, and either no node of the record was
  running and the digest is the recorded one, or the resume was forced, the force was approved by
  the reviewer, and an approval bound to both digests was granted and used.
\<close>

theorem resume_is_governed:
  assumes run: "graph_resume renv max_bytes store run_id force force_approved supplied st = (r, st')"
    and started: "EvNodeStarted n \<in> set (new_events st st')"
  shows "\<exists>rec doc. store_get max_bytes store run_id = Inr rec \<and> \<not> rr_dry_run rec
    \<and> redacted_param_names (redaction_markers (rv_exec renv)) (resume_params rec supplied) = []
    \<and> xe_load (rv_exec renv) (rr_source rec) (xs_world st) = Some doc
    \<and> rv_report_ok renv (ld_graph doc) \<and> policy_ok (xe_agraph (rv_exec renv)) (ld_graph doc)
    \<and> (if force
       then force_approved
         \<and> plan_approved_in (rv_exec renv) ''agraph.resume_force'' (gi_id (gr_info (ld_graph doc)))
             [(''old_digest'', JStr (rr_digest rec)), (''new_digest'', JStr (ld_digest doc))] (xs_world st)
       else nodes_with_status Running rec = [] \<and> rr_digest rec = ld_digest doc)"
proof -
  let ?env = "rv_exec renv"
  note steps = graph_resume_def Let_def xbind_def check_document_step xlog_def xmodify_def xret_def xraise_def
    xsum_step check_markers_cases xread_def xoption_def
  obtain rec where rec: "store_get max_bytes store run_id = Inr rec"
    using run started by (cases "store_get max_bytes store run_id") (auto simp: steps)
  have plain: "\<not> rr_dry_run rec"
    using run started rec by (rule_tac ccontr) (auto simp: steps)
  have params: "redacted_param_names (redaction_markers ?env) (resume_params rec supplied) = []"
    using run started rec plain by (rule_tac ccontr) (auto simp: steps)
  obtain doc where doc: "xe_load ?env (rr_source rec) (xs_world st) = Some doc"
    using run started rec plain params
    by (cases "xe_load ?env (rr_source rec) (xs_world st)") (auto simp: steps split: if_splits)
  have ok: "rv_report_ok renv (ld_graph doc) \<and> policy_ok (xe_agraph ?env) (ld_graph doc)"
    using run started rec plain params doc by (rule_tac ccontr) (auto simp: steps split: if_splits)
  let ?args = "[(''old_digest'', JStr (rr_digest rec)), (''new_digest'', JStr (ld_digest doc))]"
  obtain w where w: "approve_plan ?env ''agraph.resume_force'' (gi_id (gr_info (ld_graph doc))) ?args st =
      (if plan_approved_in ?env ''agraph.resume_force'' (gi_id (gr_info (ld_graph doc))) ?args (xs_world st)
       then Inr () else Inl ApprovalFailed, st\<lparr>xs_world := w\<rparr>)"
    using approve_plan_step [of ?env "''agraph.resume_force''" "gi_id (gr_info (ld_graph doc))" ?args st] by auto
  have "if force then force_approved
          \<and> plan_approved_in ?env ''agraph.resume_force'' (gi_id (gr_info (ld_graph doc))) ?args (xs_world st)
        else nodes_with_status Running rec = [] \<and> rr_digest rec = ld_digest doc"
    using run started rec plain params doc ok w
    by (auto simp: steps resume_force_def split: if_splits)
  then show ?thesis using rec plain params doc ok by blast
qed

definition paused_record :: run_record where
  "paused_record =
     (new_run_record (example_run [] []) ''f'' notify_graph [] False ''r1'')
       \<lparr>rr_status := ''awaiting_human'',
        rr_nodes := [(''g'', \<lparr>nr_type = ''gate'', nr_status = Awaiting_Human, nr_outputs = [],
                              nr_attempts = [], nr_iterations = None, nr_more = []\<rparr>)]\<rparr>"

definition reloading :: "loaded_graph \<Rightarrow> unit run_env \<Rightarrow> unit run_env" where
  "reloading doc renv = renv\<lparr>rv_exec := (rv_exec renv)\<lparr>xe_load := \<lambda>_ _. Some doc\<rparr>\<rparr>"

lemma paused_resume:
  "xs_events (snd (graph_resume (reloading notify_graph (example_run [] [])) 10 [(''r1'', (5, Some paused_record))]
     ''r1'' False False [] fresh_state))
   = [EvNodeStarted ''g'', EvNodeCompleted ''g'' Succeeded []]"
  by code_simp

theorem resume_is_governed_witness:
  "\<exists>rec (doc :: loaded_graph). store_get 10 [(''r1'', (5, Some paused_record))] ''r1'' = Inr rec \<and> \<not> rr_dry_run rec
    \<and> nodes_with_status Running rec = [] \<and> rr_digest rec = ld_digest doc"
proof -
  let ?run = "graph_resume (reloading notify_graph (example_run [] [])) 10 [(''r1'', (5, Some paused_record))]
     ''r1'' False False [] fresh_state"
  have "EvNodeStarted ''g'' \<in> set (new_events fresh_state (snd ?run))"
    unfolding new_events_def paused_resume by (simp add: fresh_state_def)
  from resume_is_governed [OF surjective_pairing this] show ?thesis unfolding if_False by blast
qed

subsection \<open>What the saved records hold\<close>

definition same_but_iterations :: "node_record \<Rightarrow> node_record \<Rightarrow> bool" where
  "same_but_iterations r r' \<longleftrightarrow> r'\<lparr>nr_iterations := nr_iterations r\<rparr> = r"

lemma merge_iterations_in:
  "(n, r') \<in> set (merge_iterations its recs) \<Longrightarrow> \<exists>r. (n, r) \<in> set recs \<and> same_but_iterations r r'"
  by (auto simp: merge_iterations_def same_but_iterations_def split: option.splits)

lemma map_of_merge:
  "map_of (merge_iterations its recs) n =
     map_option (\<lambda>r. case map_of its n of None \<Rightarrow> r | Some k \<Rightarrow> r\<lparr>nr_iterations := Some k\<rparr>) (map_of recs n)"
  by (induction recs) (auto simp: merge_iterations_def split: option.splits)

text \<open>A record that shows redacted outputs only as such.\<close>

definition record_hidden :: "graph \<Rightarrow> string \<Rightarrow> node_record \<Rightarrow> bool" where
  "record_hidden g n r \<longleftrightarrow>
     (\<forall>nd name sp. map_of (gr_nodes g) n = Some nd \<longrightarrow> map_of (nd_outputs (nd_info nd)) name = Some sp \<longrightarrow>
        os_redact sp \<longrightarrow> map_of (nr_outputs r) name \<in> {None, Some (JStr ''[redacted]'')})"

definition outputs_hidden :: "graph \<Rightarrow> node_records \<Rightarrow> bool" where
  "outputs_hidden g recs \<longleftrightarrow> (\<forall>(n, r) \<in> set recs. record_hidden g n r)"

lemma map_of_redacted:
  "map_of (redacted_outputs specs outs) name =
     (case (map_of specs name, map_of outs name) of
        (Some sp, Some v) \<Rightarrow> Some (if os_redact sp then JStr ''[redacted]'' else v) | _ \<Rightarrow> None)"
proof (induction specs)
  case (Cons p specs)
  obtain n sp where p: "p = (n, sp)" by (cases p) auto
  have step: "redacted_outputs (p # specs) outs =
      (case map_of outs n of None \<Rightarrow> redacted_outputs specs outs
       | Some v \<Rightarrow> (n, if os_redact sp then JStr ''[redacted]'' else v) # redacted_outputs specs outs)"
    by (auto simp: p redacted_outputs_def List.map_filter_simps split: option.splits)
  show ?case using Cons unfolding step by (cases "map_of outs n") (auto simp: p split: option.splits)
qed (simp add: redacted_outputs_def List.map_filter_simps)

lemma hidden_merge: "outputs_hidden g recs \<Longrightarrow> outputs_hidden g (merge_iterations its recs)"
proof -
  have keep: "record_hidden g n (r\<lparr>nr_iterations := k\<rparr>) = record_hidden g n r" for n r k
    by (simp add: record_hidden_def)
  assume "outputs_hidden g recs"
  then show ?thesis
    by (auto simp: outputs_hidden_def merge_iterations_def keep split: option.splits)
qed

lemma hidden_fresh: "outputs_hidden g (fresh_records g)"
  by (auto simp: outputs_hidden_def record_hidden_def fresh_records_def)

lemma hidden_update:
  "outputs_hidden g recs \<Longrightarrow> record_hidden g n r \<Longrightarrow> outputs_hidden g (AList.update n r recs)"
  unfolding outputs_hidden_def by (auto dest!: counts.in_set_update)

lemma hidden_skip: "record_hidden g n (r\<lparr>nr_status := s, nr_outputs := []\<rparr>)"
  by (simp add: record_hidden_def)

lemma hidden_commit:
  "map_of (gr_nodes g) n = Some nd \<Longrightarrow>
     record_hidden g n (r\<lparr>nr_status := s, nr_outputs := redacted_outputs (nd_outputs (nd_info nd)) outs\<rparr>)"
  by (auto simp: record_hidden_def map_of_redacted split: option.splits)

context effect_order begin

lemma gives_compensate_none:
  assumes "runner_ok R E s0 rn"
  shows "gives s0 (\<lambda>(recs', _, d'). d' = [] \<longrightarrow> d = [] \<and> recs' = recs) (compensate_nodes rn g ns recs scope d)"
proof (induction ns arbitrary: recs scope d)
  case (Cons n ns)
  have node: "gives s0 (\<lambda>r. final_outcome (fst r)) (rn g n' nd scope')" for n' nd scope'
    using assms by (simp add: runner_ok_def)
  have later: "gives s0 (\<lambda>(recs', _, d'). d' = [] \<longrightarrow> d = [] \<and> recs' = recs)
      (compensate_nodes rn g ns recs'' scope'' (d @ [n]))" for recs'' scope''
    by (rule gives_mono [OF Cons.IH]) auto
  show ?case
    using Cons.IH later by (auto intro!: step_rules gives_bind [OF node] split: option.splits list.splits)
qed (simp add: step_rules)

lemma gives_conclude_inv:
  assumes "runner_ok R E s0 rn" and "I (lv_records lv)"
  shows "gives s0 (\<lambda>rec'. rr_compensated rec' = [] \<longrightarrow> I (rr_nodes rec')) (conclude env rn g rec lv budget_failed)"
proof -
  have comp: "gives s0 (\<lambda>rec'. rr_compensated rec' = [] \<longrightarrow> I (rr_nodes rec'))
      (xbind (compensate rn g (lv_records lv) (lv_scope lv)) (\<lambda>(recs, scope, nodes_done).
             xret (rec\<lparr>rr_nodes := recs, rr_status := ''failed'', rr_finished := True,
                       rr_compensated := (if nodes_done = [] then rr_compensated rec else nodes_done)\<rparr>)))"
    unfolding compensate_def
    by (rule gives_bind [OF gives_compensate_none [OF assms(1)]]) (use assms(2) in \<open>auto intro!: step_rules\<close>)
  show ?thesis
    unfolding conclude_def Let_def graph_outputs_def
    using comp assms(2) by (auto intro!: step_rules simp: graph_output_value_def)
qed

lemma gives_execute_inv:
  assumes "runner_ok R E s0 rn" and "level_rule I g (Some rec)" and "I (rr_nodes rec)"
    and "\<And>rec' (st :: 'w exec_state). (rr_compensated rec' = [] \<longrightarrow> I (rr_nodes rec')) \<Longrightarrow> S (finish_record rec' st)"
  shows "gives s0 (\<lambda>_. True) (execute_nodes renv rn g rec params)"
  unfolding execute_nodes_def Let_def
proof (rule gives_bind [OF gives_scope [OF assms(1-3)]], rule gives_then [OF gives_read],
    erule gives_bind [OF gives_conclude_inv [OF assms(1)]])
  fix rec1 :: run_record
  assume "rr_compensated rec1 = [] \<longrightarrow> I (rr_nodes rec1)"
  note saved = assms(4) [OF this]
  show "gives s0 (\<lambda>_. True) (xbind (xread (finish_record rec1)) (\<lambda>rec2.
      if \<not> rv_record_valid renv rec2 then xraise SchemaFailed
      else xbind (save_record (rv_exec renv) rec2) (\<lambda>_. xret rec2)))"
    by (rule gives_bind [OF gives_reading [of S]])
      (auto intro!: saved gives_then [OF gives_save] gives_ret gives_raise)
qed

end

lemma hidden_rule:
  "saves.level_rule (\<lambda>rec. rr_compensated rec = [] \<longrightarrow> outputs_hidden g (rr_nodes rec)) (outputs_hidden g) g whole"
  unfolding saves.level_rule_def saves.save_ok_def
  by (auto simp: hidden_merge intro!: hidden_update hidden_skip hidden_commit)

lemma saves_document:
  assumes "saves.level_rule S I g (Some rec)" and "I (rr_nodes rec)"
    and "\<And>rec' (st :: 'w exec_state). (rr_compensated rec' = [] \<longrightarrow> I (rr_nodes rec')) \<Longrightarrow> S (finish_record rec' st)"
  shows "step_gives (saves_only S) (\<lambda>_. True) s0 (\<lambda>_. True)
    (execute_document (renv :: 'w run_env) g rec params)"
  unfolding step_gives_def
proof (intro allI impI)
  fix st :: "'w exec_state"
  let ?env = "rv_exec renv"
  show "saves_only S st (snd (execute_document renv g rec params st))
      \<and> (case fst (execute_document renv g rec params st) of Inl e \<Rightarrow> True | Inr v \<Rightarrow> True)"
  proof (cases "redacted_param_names (redaction_markers ?env) params = []")
    case False
    then show ?thesis
      by (simp add: execute_document_def xbind_def [of "check_markers _ _"] check_markers_cases saves_only_def)
  next
    case True
    define st1 where "st1 = start_document ?env g rec st"
    have "step_gives (saves_only S) (\<lambda>_. True) st1 (\<lambda>_. True)
        (execute_nodes renv (run_node ?env (node_fuel ?env st1)) g rec params)"
      by (rule saves.gives_execute_inv [OF saves.run_node_ok assms])
    then have "saves_only S st1 (snd (execute_document renv g rec params st))"
      unfolding step_gives_def using True saves.R_refl [of S st1]
      by (simp add: document_starts check_markers_cases Let_def st1_def)
    then show ?thesis by (simp add: saves_only_def st1_def start_document_def split: sum.splits)
  qed
qed

lemma saves_of_step:
  "step_gives (saves_only S) E s0 P m \<Longrightarrow> saves_only S s0 (snd (m s0))"
  unfolding step_gives_def using saves.R_refl [of S s0] by blast

lemma run_saves:
  fixes renv :: "'w run_env"
  assumes rule: "\<And>rec. saves.level_rule (\<lambda>rec. rr_compensated rec = [] \<longrightarrow> I (rr_nodes rec)) I (ld_graph doc) (Some rec)"
    and fresh: "I (fresh_records (ld_graph doc))" and merge: "\<And>its recs. I recs \<Longrightarrow> I (merge_iterations its recs)"
  shows "saves_only (\<lambda>rec. rr_compensated rec = [] \<longrightarrow> I (rr_nodes rec)) st
    (snd (graph_run renv source doc params dry run_id plan_approved st))" (is "saves_only ?S _ _")
proof -
  let ?rec = "\<lambda>bound. new_run_record renv source doc bound dry run_id"
  have new: "I (rr_nodes (?rec bound))" for bound by (simp add: new_run_record_def Let_def fresh)
  have finished: "?S (finish_record rec' st)" if "rr_compensated rec' = [] \<longrightarrow> I (rr_nodes rec')"
    for rec' and st :: "'w exec_state"
    using that by (simp add: finish_record_def Let_def merge)
  have document: "step_gives (saves_only ?S) (\<lambda>_. True) s0 (\<lambda>_. True)
      (execute_document renv (ld_graph doc) (?rec bound) bound)" for s0 bound
    by (rule saves_document [OF rule new finished])
  have start: "step_gives (saves_only ?S) (\<lambda>_. True) st (\<lambda>_. True) (xbind (save_record (rv_exec renv) (?rec bound)) k)"
    if "step_gives (saves_only ?S) (\<lambda>_. True) st (\<lambda>_. True) (k ())" for k :: "unit \<Rightarrow> (run_record, 'w) exec" and bound
  proof (rule saves.gives_then)
    show "step_gives (saves_only ?S) (\<lambda>_. True) st (\<lambda>_. True) (save_record (rv_exec renv) (?rec bound))"
      by (rule saves.gives_save) (simp add: new)
  qed (simp add: that)
  have tail: "step_gives (saves_only ?S) (\<lambda>_. True) st (\<lambda>_. True)
      (if dry then if \<not> rv_record_valid renv (?rec bound) then xraise SchemaFailed
                   else xbind (save_record (rv_exec renv) (?rec bound)) (\<lambda>_. xret (?rec bound))
       else xbind (save_record (rv_exec renv) (?rec bound)) (\<lambda>_. execute_document renv (ld_graph doc) (?rec bound) bound))"
    for bound
  proof (cases dry)
    case True
    show ?thesis unfolding if_P [OF True]
      by (cases "rv_record_valid renv (?rec bound)") (simp_all add: start saves.gives_done saves.gives_raise)
  next
    case False
    show ?thesis unfolding if_not_P [OF False] by (rule start [OF document])
  qed
  have "step_gives (saves_only ?S) (\<lambda>_. True) st (\<lambda>_. True)
      (graph_run renv source doc params dry run_id plan_approved)"
    unfolding graph_run_def Let_def
  proof (rule saves.gives_then [OF saves.gives_check_document], rule saves.gives_then [OF saves.gives_log], goal_cases)
    case 1
    show ?case
    proof (cases "\<not> dry \<and> \<not> plan_approved")
      case True
      then show ?thesis unfolding if_P [OF True] by (rule_tac saves.gives_raise) simp
    next
      case False
      have first: "step_gives (saves_only ?S) (\<lambda>_. True) st (\<lambda>_. True)
          (if dry then xret () else approve_plan env action target args)" for env action target args
        by (cases dry) (simp_all add: saves.gives_done saves.gives_approve)
      show ?thesis
        unfolding if_not_P [OF False]
        by (rule saves.gives_then [OF first], rule saves.gives_then [OF saves.gives_sum [OF bind_params_error]],
            rule saves.gives_then [OF saves.gives_markers], rule tail)
    qed
  qed
  from saves_of_step [OF this] show ?thesis .
qed


definition secret_graph :: loaded_graph where
  "secret_graph =
     \<lparr>ld_graph = Graph plain_graph
        [(''a'', Node (plain_node\<lparr>nd_outputs := [(''token'', \<lparr>os_type = ''string'', os_required = True,
           os_redact = True, os_schema = None, os_path_hint = None\<rparr>)]\<rparr>) [])] [],
      ld_digest = ''d''\<rparr>"

definition secret_run :: "(exec_error + run_record) \<times> unit exec_state" where
  "secret_run =
     graph_run (example_run [] [(''token'', JStr ''k3y'')]) ''f'' secret_graph [] False ''r1'' True fresh_state"

lemma secret_run_saved:
  "map (\<lambda>rec. map (nr_outputs \<circ> snd) (rr_nodes rec)) (xs_saved (snd secret_run))
     = [[[]], [[(''token'', JStr ''[redacted]'')]], [[(''token'', JStr ''[redacted]'')]]]"
  "map rr_compensated (xs_saved (snd secret_run)) = [[], [], []]"
  "map (map fst \<circ> rr_nodes) (xs_saved (snd secret_run)) = [[''a''], [''a''], [''a'']]"
  by code_simp+


subsection \<open>What a resume keeps\<close>

context effect_order begin

lemma gives_conclude_nodes:
  assumes "runner_ok R E s0 rn"
  shows "gives s0 (\<lambda>rec'. rr_status rec' \<noteq> ''failed'' \<longrightarrow> rr_nodes rec' = lv_records lv)
    (conclude env rn g rec lv budget_failed)"
  unfolding conclude_def Let_def graph_outputs_def compensate_def
  by (auto intro!: step_rules gives_compensate_nodes [OF assms] simp: graph_output_value_def)

lemma gives_execute_keeps:
  assumes "runner_ok R E s0 rn" and all: "\<forall>rec. S rec"
    and "\<And>n r. (n, r) \<in> set (rr_nodes rec) \<Longrightarrow> n \<in> F \<Longrightarrow> nr_status r \<noteq> Pending"
    and "F \<subseteq> fst ` set (rr_nodes rec)"
  shows "gives s0 (\<lambda>rec'. rr_status rec' \<noteq> ''failed'' \<longrightarrow>
      (\<forall>n \<in> F. \<exists>its. map_of (rr_nodes rec') n = map_of (merge_iterations its (rr_nodes rec)) n))
    (execute_nodes renv rn g rec params)" (is "gives s0 ?P _")
proof -
  have scope: "gives s0 (level_keeps F (rr_nodes rec))
      (execute_scope (rv_exec renv) rn (Some rec) g (rr_nodes rec) (document_scope g rec params))"
    by (rule gives_scope_keeps [OF assms(1,2)]) (use assms(3,4) in auto)
  show ?thesis
  unfolding execute_nodes_def Let_def
proof (rule gives_bind [OF scope], rule gives_then [OF gives_read],
    rule gives_bind [OF gives_conclude_nodes [OF assms(1)]])
  fix lv and rec1 :: run_record
  assume keep: "level_keeps F (rr_nodes rec) lv"
    and nodes: "rr_status rec1 \<noteq> ''failed'' \<longrightarrow> rr_nodes rec1 = lv_records lv"
  have "?P (finish_record rec1 st)" for st :: "'w exec_state"
    using keep nodes unfolding level_keeps_def
    by (auto simp: finish_record_def Let_def map_of_merge intro!: exI [of _ "xs_iterations st"])
  then show "gives s0 ?P (xbind (xread (finish_record rec1)) (\<lambda>rec2.
      if \<not> rv_record_valid renv rec2 then xraise SchemaFailed
      else xbind (save_record (rv_exec renv) rec2) (\<lambda>_. xret rec2)))"
    using all by (intro gives_bind [OF gives_reading [of ?P]]) (auto intro!: gives_then [OF gives_save] gives_ret gives_raise)
qed
qed

end

lemma resume_executes:
  assumes "graph_resume renv max_bytes store run_id force force_approved supplied st = (Inr rec', st')"
    and rec: "store_get max_bytes store run_id = Inr rec"
  shows "\<exists>doc bound st0. execute_document renv (ld_graph doc) (resumed_record renv force doc rec) bound st0 = (Inr rec', st')"
proof -
  note steps = graph_resume_def Let_def xbind_def check_document_step xret_def xraise_def
    xsum_step check_markers_cases xread_def xoption_def
  have run: "graph_resume renv max_bytes store run_id force force_approved supplied st = (Inr rec', st')"
    by (rule assms(1))
  have plain: "\<not> rr_dry_run rec"
    using run rec by (rule_tac ccontr) (auto simp: steps)
  have params: "redacted_param_names (redaction_markers (rv_exec renv)) (resume_params rec supplied) = []"
    using run rec plain by (rule_tac ccontr) (auto simp: steps)
  obtain doc where doc: "xe_load (rv_exec renv) (rr_source rec) (xs_world st) = Some doc"
    using run rec plain params
    by (cases "xe_load (rv_exec renv) (rr_source rec) (xs_world st)") (auto simp: steps split: if_splits)
  show ?thesis
    using run rec plain params doc
    by (cases "resume_force (rv_exec renv) force_approved (rr_digest rec) doc st";
        cases "bind_params (rv_exec renv) (ld_graph doc) (resume_params rec supplied)")
      (auto simp: steps split: if_splits sum.splits)
qed

lemma document_keeps:
  assumes run: "execute_document renv g rec params st = (Inr rec', st')"
    and "(n, r) \<in> set (rr_nodes rec)" and dist: "distinct (map fst (rr_nodes rec))"
    and "nr_status r \<noteq> Pending" and "rr_status rec' \<noteq> ''failed''"
  shows "\<exists>r'. map_of (rr_nodes rec') n = Some r' \<and> same_but_iterations r r'"
proof -
  let ?env = "rv_exec renv"
  have "redacted_param_names (redaction_markers ?env) params = []"
    using run by (rule_tac ccontr) (simp add: execute_document_def xbind_def [of "check_markers _ _"] check_markers_cases)
  then obtain st1 where run1: "execute_nodes renv (run_node ?env (node_fuel ?env st1)) g rec params st1 = (Inr rec', st')"
    using run by (auto simp: document_starts check_markers_cases Let_def)
  let ?P = "\<lambda>rec'. rr_status rec' \<noteq> ''failed'' \<longrightarrow>
      (\<forall>n \<in> {n}. \<exists>its. map_of (rr_nodes rec') n = map_of (merge_iterations its (rr_nodes rec)) n)"
  have "step_gives log_grows (\<lambda>_. True) st1 ?P (execute_nodes renv (run_node ?env (node_fuel ?env st1)) g rec params)"
  proof (rule logs.gives_execute_keeps [OF logs.run_node_ok])
    fix m r' assume "(m, r') \<in> set (rr_nodes rec)" "m \<in> {n}"
    then have "r' = r" using assms(2) dist by (metis eq_key_imp_eq_value singletonD)
    then show "nr_status r' \<noteq> Pending" using assms(4) by simp
  qed (use assms(2) in force)+
  then have "?P rec'"
    unfolding step_gives_def using run1 logs.R_refl [of st1] by (auto dest!: spec [of _ st1])
  then obtain its where its: "map_of (rr_nodes rec') n = map_of (merge_iterations its (rr_nodes rec)) n"
    using assms(5) by auto
  have "map_of (rr_nodes rec) n = Some r" using assms(2) dist by simp
  then show ?thesis
    unfolding its map_of_merge by (auto simp: same_but_iterations_def split: option.splits)
qed


definition half_done :: run_record where
  "half_done = paused_record\<lparr>rr_nodes :=
     (''a'', \<lparr>nr_type = ''task'', nr_status = Succeeded, nr_outputs = [(''x'', JInt 1)],
              nr_attempts = [], nr_iterations = None, nr_more = []\<rparr>) # rr_nodes paused_record\<rparr>"

definition two_step_graph :: loaded_graph where
  "two_step_graph =
     \<lparr>ld_graph = Graph plain_graph
        [(''a'', Node plain_node []), (''g'', Node (notify_node\<lparr>nd_depends_on := [''a'']\<rparr>) [])] [],
      ld_digest = ''d''\<rparr>"

definition half_done_resume :: "(exec_error + run_record) \<times> unit exec_state" where
  "half_done_resume =
     graph_resume (reloading two_step_graph (example_run [] [])) 10 [(''r1'', (5, Some half_done))]
       ''r1'' False False [] fresh_state"

lemma half_done_resumed:
  "map_sum id (\<lambda>rec. (rr_status rec, map (\<lambda>(n, r). (n, nr_status r, nr_outputs r)) (rr_nodes rec))) (fst half_done_resume)
   = Inr (''succeeded'', [(''a'', Succeeded, [(''x'', JInt 1)]), (''g'', Succeeded, [])])"
  by code_simp


end
