(* ===== verification/Agraph_Findings.thy ===== *)
theory Agraph_Findings
  imports Agraph_Governance
begin

text \<open>
  Evaluations of small graphs that show where the executor does not do what its documentation and
  its comments say. Each lemma runs the model of \<open>src/loro/agraph/execute.py\<close> on one graph.
\<close>

definition run_small :: "unit run_env \<Rightarrow> graph \<Rightarrow> (exec_error + run_record) \<times> unit exec_state" where
  "run_small renv g = graph_run renv ''f'' \<lparr>ld_graph = g, ld_digest = ''d''\<rparr> [] False ''r1'' True fresh_state"

definition outcome_of :: "(exec_error + run_record) \<times> unit exec_state \<Rightarrow>
    exec_error + string \<times> (string \<times> run_status \<times> (string, json) dict) list" where
  "outcome_of r = map_sum id (\<lambda>rec. (rr_status rec, map (\<lambda>(n, nr). (n, nr_status nr, nr_outputs nr)) (rr_nodes rec))) (fst r)"

definition parallel_graph :: "(string \<times> node_info) list \<Rightarrow> graph" where
  "parallel_graph nodes =
     Graph (plain_graph\<lparr>gi_entrypoints := map fst nodes, gi_max_parallel := 2\<rparr>)
       (map (\<lambda>(n, ni). (n, Node ni [])) nodes) []"

definition plain_block :: block_info where
  "plain_block =
     \<lparr>bl_use = None, bl_ref = None, bl_mode = ''repeat'', bl_condition = [], bl_over = ''items'', bl_as = ''item'',
      bl_index_as = ''index'', bl_max_items = Some 5, bl_max_iterations = Some 2, bl_on_over_limit = ''fail'',
      bl_on_item_failure = ''fail_fast'', bl_min_successes = 1, bl_on_max_iterations = ''fail'', bl_collect = [],
      bl_carry = [], bl_params = [], bl_context = [], bl_inherit_context = False, bl_outputs_from = []\<rparr>"

definition around :: "string \<Rightarrow> block_info \<Rightarrow> graph \<Rightarrow> node" where
  "around kind bi f = Node (plain_node\<lparr>nd_type := kind\<rparr>) [(kind, Block bi None (Some f))]"

definition single :: "node \<Rightarrow> graph" where
  "single nd = Graph plain_graph [(''a'', nd)] []"

definition costly :: "unit run_env" where
  "costly = example_run [(''cost_usd'', JInt 5)] []"

subsection \<open>Outcomes that are lost\<close>

text \<open>
  A gate that waits ends the round before the outcome of the task that ran beside it is written:
  the task is pending in the record, with no attempt and no usage, and a resume runs it again.
\<close>

lemma waiting_gate_discards_finished_task:
  "outcome_of (run_small costly (parallel_graph [(''a'', approve_gate), (''b'', plain_node)]))
     = Inr (''awaiting_human'', [(''a'', Awaiting_Human, []), (''b'', Pending, [])])"
  "EvNodeStarted ''b'' \<in> set (xs_events (snd (run_small costly (parallel_graph [(''a'', approve_gate), (''b'', plain_node)]))))"
  "map_sum id (\<lambda>rec. usage_of (rr_usage rec) ''cost_usd'')
     (fst (run_small costly (parallel_graph [(''a'', approve_gate), (''b'', plain_node)]))) = Inr 0"
  by code_simp+

text \<open>A fragment that exceeds the cost limit has no diagnostics to write to: a KeyError ends the run.\<close>

lemma fragment_budget_crashes:
  "fst (run_small costly (Graph (plain_graph\<lparr>gi_max_cost := Some 1\<rparr>)
      [(''a'', around ''subgraph'' plain_block (single (Node plain_node [])))] [])) = Inl NoDiagnostics"
  by code_simp

text \<open>What the nodes of a fragment consume is not part of the usage of the run.\<close>

lemma nested_usage_not_counted:
  "map_sum id (\<lambda>rec. usage_of (rr_usage rec) ''cost_usd'')
     (fst (run_small costly (single (around ''subgraph'' plain_block (single (Node plain_node [])))))) = Inr 0"
  by code_simp

subsection \<open>Verdicts\<close>

text \<open>A fragment whose only node was blocked counts as succeeded.\<close>

lemma blocked_fragment_succeeds:
  "outcome_of (run_small (example_run [] []) (single (around ''subgraph'' plain_block
       (single (Node (plain_node\<lparr>nd_requirements := no_requirements\<lparr>rq_mcp_servers := [''m'']\<rparr>\<rparr>) [])))))
     = Inr (''succeeded'', [(''a'', Succeeded, [])])"
  by code_simp

text \<open>A node skipped by the scheduler stays pending in the record of a run that succeeded.\<close>

lemma skipped_node_stays_pending:
  "outcome_of (run_small (example_run [] []) (Graph
       (plain_graph\<lparr>gi_edges := [\<lparr>ed_from = ''a'', ed_to = ''b'', ed_kind = ''on_failure'', ed_when = None\<rparr>]\<rparr>)
       [(''a'', Node plain_node []), (''b'', Node plain_node [])] []))
     = Inr (''succeeded'', [(''a'', Succeeded, []), (''b'', Pending, [])])"
  by code_simp

text \<open>
  Outputs that the reviewer refused are committed as succeeded when the node degrades on exhaustion.
\<close>

lemma refused_outputs_succeed:
  "outcome_of (run_small (example_run [] []) (single (Node (plain_node
       \<lparr>nd_human := [\<lparr>cp_at = ''after_outputs'', cp_mode = ''approve'', cp_prompt = ''ok?'', cp_roles = [], cp_when = None\<rparr>],
        nd_failure := no_failure_policy\<lparr>fp_retry_on := [], fp_on_exhausted := ''succeed_degraded''\<rparr>\<rparr>) [])))
     = Inr (''succeeded'', [(''a'', Succeeded, [])])"
  by code_simp

text \<open>
  The iterations of a loop are kept by node name for the whole run: the inner of two loops runs twice
  in the first iteration of the outer one and not at all in the second.
\<close>

definition nested_loops :: graph where
  "nested_loops = single (around ''loop'' plain_block
     (Graph (plain_graph\<lparr>gi_entrypoints := [''l'']\<rparr>) [(''l'', around ''loop'' plain_block (single (Node plain_node [])))] []))"

lemma nested_loop_runs_in_first_iteration_only:
  "(case run_small (example_run [] []) nested_loops of
      (r, st) \<Rightarrow> (map_sum id rr_status r, xs_executions st)) = (Inr ''succeeded'', 1 + (1 + 2) + 1)"
  by code_simp

subsection \<open>Redacted outputs\<close>

definition secret_node :: node_info where
  "secret_node = plain_node\<lparr>nd_outputs := [(''token'', \<lparr>os_type = ''string'', os_required = True,
     os_redact = True, os_schema = None, os_path_hint = None\<rparr>)]\<rparr>"

definition leaking :: "unit run_env" where
  "leaking = example_run [] [(''token'', JStr ''k'')]"

text \<open>A graph output that wraps the redacted output in an expression is recorded in clear text.\<close>

lemma wrapped_redacted_output_recorded:
  "map_sum id rr_outputs (fst (run_small leaking
       (Graph (plain_graph\<lparr>gi_outputs := [(''o'', ''(nodes.a.outputs.token)'')]\<rparr>) [(''a'', Node secret_node [])] [])))
     = Inr (Some [(''o'', JStr ''k'')])"
  by code_simp

text \<open>A node that compensates another has its outputs recorded as they are.\<close>

definition compensated_graph :: graph where
  "compensated_graph = Graph plain_graph
     [(''a'', Node (plain_node\<lparr>nd_failure := no_failure_policy\<lparr>fp_compensation := Some ''c''\<rparr>\<rparr>) []),
      (''b'', Node (plain_node\<lparr>nd_depends_on := [''a''], nd_outputs := [(''x'', \<lparr>os_type = ''string'',
         os_required = True, os_redact = False, os_schema = None, os_path_hint = None\<rparr>)]\<rparr>) []),
      (''c'', Node secret_node [])] []"

lemma compensation_records_redacted_output:
  "outcome_of (run_small leaking compensated_graph)
     = Inr (''failed'', [(''a'', Succeeded, []), (''b'', Failed, []), (''c'', Succeeded, [(''token'', JStr ''k'')])])"
  by code_simp

text \<open>After a resume the marker takes the place of the output of a node that had ended.\<close>

lemma resume_feeds_marker_to_nodes:
  "eval_in plain_env
     (document_scope (single (Node secret_node []))
        (paused_record\<lparr>rr_nodes := [(''a'', \<lparr>nr_type = ''task'', nr_status = Succeeded,
           nr_outputs = redacted_outputs (nd_outputs secret_node) [(''token'', JStr ''k'')],
           nr_attempts = [], nr_iterations = None, nr_more = []\<rparr>)]\<rparr>) []) ''nodes.a.outputs.token''
   = Some (JStr ''[redacted]'')"
  by code_simp

subsection \<open>Uncertain effects\<close>

text \<open>
  The guard of \<open>resume\<close> against uncertain effects reads node records that are running, but no record a
  run saves has one: a node that was cut off is pending on disk, and a resume runs it again.
\<close>

definition none_running :: "node_records \<Rightarrow> bool" where
  "none_running recs \<longleftrightarrow> (\<forall>(n, r) \<in> set recs. nr_status r \<noteq> Running)"

lemma none_running_rule: "saves.level_rule (\<lambda>rec. rr_compensated rec = [] \<longrightarrow> none_running (rr_nodes rec)) none_running g whole"
proof -
  have merge: "none_running recs \<Longrightarrow> none_running (merge_iterations its recs)" for its recs
    by (fastforce simp: none_running_def merge_iterations_def split: option.splits)
  have update: "none_running recs \<Longrightarrow> nr_status r \<noteq> Running \<Longrightarrow> none_running (AList.update n r recs)" for recs n r
    unfolding none_running_def by (auto dest!: counts.in_set_update)
  show ?thesis
    unfolding saves.level_rule_def saves.save_ok_def
    by (auto simp: merge final_outcome_def intro!: update)
qed

lemma saved_nodes_never_running:
  assumes "rec \<in> set (xs_saved (snd (graph_run renv source doc params dry run_id plan_approved st)))"
    and "rec \<notin> set (xs_saved st)" and "rr_compensated rec = []"
  shows "nodes_with_status Running rec = []"
proof -
  have "saves_only (\<lambda>rec. rr_compensated rec = [] \<longrightarrow> none_running (rr_nodes rec)) st
      (snd (graph_run renv source doc params dry run_id plan_approved st))"
  proof (rule run_saves [OF none_running_rule])
    show "none_running (fresh_records (ld_graph doc))"
      by (auto simp: none_running_def fresh_records_def)
    show "none_running recs \<Longrightarrow> none_running (merge_iterations its recs)" for its recs
      by (fastforce simp: none_running_def merge_iterations_def split: option.splits)
  qed
  then show ?thesis
    using assms by (auto simp: saves_only_def none_running_def nodes_with_status_def filter_empty_conv)
qed

text \<open>A forced resume over a running node leaves it running and reports success.\<close>

lemma forced_resume_succeeds_over_running_node:
  "(let rec = paused_record\<lparr>rr_nodes := map (\<lambda>(n, r). (n, r\<lparr>nr_status := Running\<rparr>)) (rr_nodes paused_record)\<rparr> in
    outcome_of (graph_resume (reloading notify_graph (example_run [] [])) 10 [(''r1'', (5, Some rec))]
      ''r1'' True True [] fresh_state))
   = Inr (''succeeded'', [(''g'', Running, [])])"
  by code_simp

subsection \<open>Referenced fragments\<close>

text \<open>The file of a referenced fragment is run without a check against the managed policy.\<close>

lemma referenced_fragment_escapes_policy:
  "(let forbidden = single (Node (with_permissions [''fs:write:x'']) []);
        nd = Node (plain_node\<lparr>nd_type := ''subgraph''\<rparr>) [(''subgraph'', Block (plain_block\<lparr>bl_ref :=
               Some \<lparr>rf_uri = ''f'', rf_integrity = ''h'', rf_expected_id = []\<rparr>\<rparr>) None None)];
        cfg = example_policy\<lparr>ag_allow_refs := True\<rparr>;
        renv = (example_run [] [])\<lparr>rv_exec := (example_exec [] [])\<lparr>xe_agraph := cfg,
                  xe_permissions := default_permissions\<lparr>perm_default := Allow, perm_edit := Allow\<rparr>,
                  xe_load := \<lambda>_ _. Some \<lparr>ld_graph = forbidden, ld_digest = ''h''\<rparr>\<rparr>\<rparr> in
    (policy_ok cfg forbidden, EvNodeStarted ''a'' \<in> set (xs_events (snd (run_small renv (single nd)))),
     outcome_of (run_small renv (single nd))))
   = (False, True, Inr (''succeeded'', [(''a'', Succeeded, [])]))"
  by code_simp

end
