(* ===== verification/Web_Rbac.thy ===== *)
theory Web_Rbac
  imports Identity
begin

text \<open>
  \<open>src/loro/webui/rbac.py\<close> with \<open>RBACConfig\<close> (\<open>src/loro/config.py\<close>): the role and permission of
  every request to the web user interface. A route pattern of the source, a regular expression
  between slashes, is a list of segment patterns; an optional last segment is two such lists.
  The lemmas show what a route needs, what a set of roles grants, and that holding a permission
  always goes back to a role that grants it.
\<close>

subsection \<open>Roles and permissions\<close>

record rbac_config =
  rb_enabled :: bool
  rb_mappings :: "(string, string) dict"
  rb_accept_role_names :: bool
  rb_admins :: "string list"
  rb_default_role :: "string option"

definition role_names :: "string list" where
  "role_names = [''viewer'', ''operator'', ''approver'', ''admin'']"

definition permission_names :: "string list" where
  "permission_names = [''read'', ''operate'', ''approve'', ''admin'']"

definition role_permissions :: "(string, string list) dict" where
  "role_permissions =
     [(''viewer'', [''read'']), (''operator'', [''read'', ''operate'']),
      (''approver'', [''read'', ''approve'']),
      (''admin'', [''read'', ''operate'', ''approve'', ''admin''])]"

subsection \<open>Routes\<close>

datatype segment = Exactly "string list" | AnySegment

fun segment_matches :: "segment \<Rightarrow> string \<Rightarrow> bool" where
  "segment_matches (Exactly names) s = (s \<in> set names)"
| "segment_matches AnySegment s = (s \<noteq> [])"

definition route_matches :: "segment list \<Rightarrow> string \<Rightarrow> bool" where
  "route_matches route path =
     (case split_on (CHR ''/'') path of
        first # segments \<Rightarrow> first = [] \<and> list_all2 segment_matches route segments
      | [] \<Rightarrow> False)"

abbreviation one :: "string \<Rightarrow> segment" where
  "one name \<equiv> Exactly [name]"

definition mutation_rules :: "(segment list list \<times> string) list" where
  "mutation_rules =
     [([[one ''api'', one ''approvals'', one ''decisions'']], ''approve''),
      ([[one ''api'', one ''runs'', AnySegment, one ''approvals'', AnySegment]], ''approve''),
      ([[one ''api'', one ''graphs'', one ''runs'', AnySegment, one ''gates'', AnySegment]], ''approve''),
      ([[one ''api'', one ''conversations''], [one ''api'', one ''conversations'', AnySegment]], ''operate''),
      ([[one ''api'', one ''conversations'', AnySegment, Exactly [''messages'', ''attachments'']]], ''operate''),
      ([[one ''api'', one ''runs'', AnySegment, one ''cancel'']], ''operate''),
      ([[one ''api'', one ''graphs'', Exactly [''runs'', ''blank'', ''card'', ''document'', ''generate'']],
        [one ''api'', one ''graphs'', one ''generate'', one ''start'']], ''operate''),
      ([[one ''api'', one ''webmcp'', Exactly [''open'', ''call'', ''close'']]], ''operate''),
      ([[one ''api'', one ''governance'', Exactly [''explain'', ''verify'']]], ''read''),
      ([[one ''api'', one ''profiles'', one ''validate'']], ''read'')]"

definition rule_covers :: "segment list list \<times> string \<Rightarrow> string \<Rightarrow> bool" where
  "rule_covers rule path = list_ex (\<lambda>route. route_matches route path) (fst rule)"

definition safe_methods :: "string list" where
  "safe_methods = [''GET'', ''HEAD'', ''OPTIONS'']"

definition required_permission :: "string \<Rightarrow> string \<Rightarrow> string" where
  "required_permission verb path =
     (if map upper_char verb \<in> set safe_methods
      then if starts_with path ''/api/access/admin'' then ''admin'' else ''read''
      else case List.find (\<lambda>rule. rule_covers rule path) mutation_rules of
             Some rule \<Rightarrow> snd rule
           | None \<Rightarrow> ''admin'')"

subsection \<open>The roles of an identity\<close>

definition mapped_role :: "rbac_config \<Rightarrow> string \<Rightarrow> string option" where
  "mapped_role cfg name =
     (case map_of (rb_mappings cfg) name of
        Some (c # cs) \<Rightarrow> Some (c # cs)
      | _ \<Rightarrow> if rb_accept_role_names cfg \<and> name \<in> set role_names then Some name else None)"

definition claimed_roles :: "identity_context \<Rightarrow> rbac_config \<Rightarrow> string list" where
  "claimed_roles identity cfg =
     List.map_filter (mapped_role cfg) (id_roles identity @ id_groups identity)
     @ (if id_subject identity \<in> set (rb_admins cfg) then [''admin''] else [])"

definition roles_for :: "identity_context \<Rightarrow> rbac_config \<Rightarrow> string list" where
  "roles_for identity cfg =
     (let claimed = claimed_roles identity cfg;
          found = (if claimed = [] then (case rb_default_role cfg of
                                           Some (c # cs) \<Rightarrow> [c # cs]
                                         | _ \<Rightarrow> [])
                   else claimed) in
      filter (\<lambda>role. role \<in> set found) role_names)"

definition role_grants :: "string \<Rightarrow> string list" where
  "role_grants role = (case map_of role_permissions role of Some names \<Rightarrow> names | None \<Rightarrow> [])"

definition permissions_for :: "string list \<Rightarrow> string list" where
  "permissions_for roles =
     filter (\<lambda>name. name \<in> set (concat (map role_grants roles))) permission_names"

definition may_call :: "identity_context \<Rightarrow> rbac_config \<Rightarrow> string \<Rightarrow> string \<Rightarrow> bool" where
  "may_call identity cfg verb path =
     (required_permission verb path \<in> set (permissions_for (roles_for identity cfg)))"

subsection \<open>What roles grant\<close>

lemma role_grants_cases:
  "role_grants role =
     (if role = ''viewer'' then [''read''] else if role = ''operator'' then [''read'', ''operate'']
      else if role = ''approver'' then [''read'', ''approve'']
      else if role = ''admin'' then [''read'', ''operate'', ''approve'', ''admin''] else [])"
  by (simp add: role_grants_def role_permissions_def)

lemma role_grants_known: "p \<in> set (role_grants role) \<Longrightarrow> p \<in> set permission_names"
  by (auto simp: role_grants_cases permission_names_def split: if_splits)

lemma permissions_for_iff:
  "p \<in> set (permissions_for roles) \<longleftrightarrow> (\<exists>role \<in> set roles. p \<in> set (role_grants role))"
  by (auto simp: permissions_for_def dest: role_grants_known)

lemma mutation_rules_known: "list_all (\<lambda>rule. snd rule \<in> set permission_names) mutation_rules"
  by (simp add: mutation_rules_def permission_names_def)

lemma required_permission_known: "required_permission verb path \<in> set permission_names"
proof (cases "List.find (\<lambda>rule. rule_covers rule path) mutation_rules")
  case None
  then show ?thesis by (simp add: required_permission_def permission_names_def)
next
  case (Some rule)
  then have "rule \<in> set mutation_rules" by (auto simp: find_Some_iff)
  then have "snd rule \<in> set permission_names"
    using mutation_rules_known by (simp add: list_all_iff)
  then show ?thesis using Some by (simp add: required_permission_def permission_names_def)
qed

lemma role_grants_approve: "''approve'' \<in> set (role_grants role) \<longleftrightarrow> role = ''approver'' \<or> role = ''admin''"
  by (simp add: role_grants_cases)

lemma role_grants_admin: "''admin'' \<in> set (role_grants role) \<longleftrightarrow> role = ''admin''"
  by (simp add: role_grants_cases)

lemma grants_approve:
  "''approve'' \<in> set (permissions_for roles) \<longleftrightarrow> ''approver'' \<in> set roles \<or> ''admin'' \<in> set roles"
  unfolding permissions_for_iff role_grants_approve by blast

lemma grants_admin: "''admin'' \<in> set (permissions_for roles) \<longleftrightarrow> ''admin'' \<in> set roles"
  unfolding permissions_for_iff role_grants_admin by blast

lemma roles_for_sound:
  assumes "role \<in> set (roles_for identity cfg)"
  shows "role \<in> set role_names \<and>
    (role \<in> set (claimed_roles identity cfg)
     \<or> claimed_roles identity cfg = [] \<and> rb_default_role cfg = Some role)"
  using assms by (auto simp: roles_for_def Let_def split: if_splits option.splits list.splits)

lemma claimed_admin:
  assumes "''admin'' \<in> set (claimed_roles identity cfg)"
  shows "id_subject identity \<in> set (rb_admins cfg)
    \<or> (\<exists>name \<in> set (id_roles identity @ id_groups identity).
         map_of (rb_mappings cfg) name = Some ''admin'' \<or> rb_accept_role_names cfg \<and> name = ''admin'')"
  using assms
  by (fastforce simp: claimed_roles_def List.map_filter_def mapped_role_def
      split: if_splits option.splits list.splits)

end
