(* ===== verification/Web_Access.thy ===== *)
theory Web_Access
  imports Web_Rbac Hash_Chain
begin

text \<open>
  \<open>src/loro/webui/auth.py\<close> and the access control of \<open>src/loro/webui/server.py\<close>: the session
  store, bearer tokens, the sign-in flow, the security middleware that stands before every
  handler, and the routes that create, show and end sessions or change the access rules. Token
  verification, the token endpoint, the authorization address and the random identifiers are
  parameters; a request reads the clock once. The invariant is that every session carries an
  identity of a verified token; it gives that a request reaches a handler only with the
  permission its route needs.
\<close>

subsection \<open>Sessions and pending sign-ins\<close>

record web_session =
  ws_csrf :: string
  ws_identity :: "identity_context option"
  ws_expires :: "int option"
  ws_created :: int

record pending_login =
  pl_nonce :: string
  pl_verifier :: string
  pl_next :: string
  pl_created :: int

record web_auth =
  wa_mode :: string
  wa_config :: "oidc_config option"
  wa_provider :: bool
  wa_sessions :: "(string, web_session) dict"
  wa_pending :: "(string, pending_login) dict"

record web_env =
  we_verify :: "int \<Rightarrow> string \<Rightarrow> string option \<Rightarrow> string option \<Rightarrow> oidc_error + (string, json) dict"
  we_exchange :: "string \<Rightarrow> string \<Rightarrow> oidc_error + string"
  we_auth_url :: "string \<Rightarrow> string \<Rightarrow> string \<Rightarrow> oidc_error + string"
  we_repr :: "json \<Rightarrow> string"
  we_session_seconds :: int

datatype web_auth_error =
    UnknownAuthMode string
  | SignInSettingsMissing
  | SignInNotConfigured
  | BearerMissing
  | LoginExpired
  | ProviderRefused oidc_error

definition login_ttl_seconds :: int where "login_ttl_seconds = 600"

definition max_pending_logins :: nat where "max_pending_logins = 256"

definition max_sessions :: nat where "max_sessions = 1024"

definition new_web_auth :: "string \<Rightarrow> oidc_config option \<Rightarrow> web_auth_error + web_auth" where
  "new_web_auth mode oidc =
     (if mode \<notin> {''token'', ''oidc''} then Inl (UnknownAuthMode mode)
      else let auth = \<lparr>wa_mode = mode, wa_config = oidc, wa_provider = mode = ''oidc'',
                       wa_sessions = [], wa_pending = []\<rparr> in
           if mode = ''oidc'' then
             (case oidc of
                None \<Rightarrow> Inl SignInSettingsMissing
              | Some oc \<Rightarrow> if \<not> oc_enabled oc \<or> \<not> is_set (oc_client_id oc) then Inl SignInSettingsMissing
                          else Inr auth)
           else Inr auth)"

definition oidc_parts :: "web_auth \<Rightarrow> web_auth_error + oidc_config" where
  "oidc_parts auth =
     (case wa_config auth of
        Some oc \<Rightarrow> if wa_provider auth then Inr oc else Inl SignInNotConfigured
      | None \<Rightarrow> Inl SignInNotConfigured)"

text \<open>Dropping the oldest entries of a dictionary until one more fits below the capacity.\<close>

fun make_room :: "nat \<Rightarrow> ('k, 'v) dict \<Rightarrow> ('k, 'v) dict" where
  "make_room cap [] = []"
| "make_room cap (entry # d) = (if cap \<le> Suc (length d) then make_room cap d else entry # d)"

definition new_session ::
  "int \<Rightarrow> string \<Rightarrow> string \<Rightarrow> identity_context option \<Rightarrow> int option \<Rightarrow> web_auth \<Rightarrow> web_session \<times> web_auth" where
  "new_session now sid csrf identity expires auth =
     (let session = \<lparr>ws_csrf = csrf, ws_identity = identity, ws_expires = expires, ws_created = now\<rparr> in
      (session, auth\<lparr>wa_sessions :=
         AList.update sid session (make_room max_sessions (wa_sessions auth))\<rparr>))"

definition expired :: "int \<Rightarrow> web_session \<Rightarrow> bool" where
  "expired now session = (case ws_expires session of Some t \<Rightarrow> t \<le> now | None \<Rightarrow> False)"

definition web_session_of :: "int \<Rightarrow> string option \<Rightarrow> web_auth \<Rightarrow> web_session option \<times> web_auth" where
  "web_session_of now sid auth =
     (if \<not> is_set sid then (None, auth)
      else case map_of (wa_sessions auth) (or_empty sid) of
             None \<Rightarrow> (None, auth)
           | Some session \<Rightarrow>
               if expired now session
               then (None, auth\<lparr>wa_sessions := AList.delete (or_empty sid) (wa_sessions auth)\<rparr>)
               else (Some session, auth))"

definition end_session :: "string option \<Rightarrow> web_auth \<Rightarrow> web_auth" where
  "end_session sid auth =
     (if is_set sid then auth\<lparr>wa_sessions := AList.delete (or_empty sid) (wa_sessions auth)\<rparr> else auth)"

subsection \<open>Bearer tokens and the sign-in flow\<close>

definition lower_char :: "char \<Rightarrow> char" where
  "lower_char c = (if 65 \<le> code c \<and> code c \<le> 90 then char_of (code c + 32) else c)"

definition identity_from_bearer ::
  "web_env \<Rightarrow> int \<Rightarrow> string \<Rightarrow> web_auth \<Rightarrow> string \<Rightarrow> web_auth_error + identity_context" where
  "identity_from_bearer env now api_session auth authorization =
     res_bind (oidc_parts auth) (\<lambda>oc.
       let scheme = takeWhile (\<lambda>c. c \<noteq> CHR '' '') authorization;
           token = py_strip (tl (dropWhile (\<lambda>c. c \<noteq> CHR '' '') authorization)) in
       if map lower_char scheme \<noteq> ''bearer'' \<or> token = [] then Inl BearerMissing
       else case we_verify env now token None None of
              Inl e \<Rightarrow> Inl (ProviderRefused e)
            | Inr claims \<Rightarrow> Inr (identity_from_claims (we_repr env) api_session oc claims))"

definition safe_next :: "string \<Rightarrow> string" where
  "safe_next path =
     (if \<not> starts_with path ''/'' \<or> starts_with path ''//'' \<or> CHR 0x5C \<in> set path
         \<or> list_ex (\<lambda>c. code c < 0x21 \<or> code c = 0x7F) path
      then ''/'' else path)"

definition begin_login ::
  "web_env \<Rightarrow> int \<Rightarrow> string \<Rightarrow> string \<Rightarrow> string \<Rightarrow> string \<Rightarrow> string \<Rightarrow> web_auth \<Rightarrow> (web_auth_error + string) \<times> web_auth" where
  "begin_login env now state nonce verifier challenge next_path auth =
     (case oidc_parts auth of
        Inl e \<Rightarrow> (Inl e, auth)
      | Inr oc \<Rightarrow>
          (let live = filter (\<lambda>(k, v). \<not> login_ttl_seconds < now - pl_created v) (wa_pending auth);
               entry = \<lparr>pl_nonce = nonce, pl_verifier = verifier, pl_next = safe_next next_path,
                        pl_created = now\<rparr>;
               pending = AList.update state entry (make_room max_pending_logins live) in
           (case we_auth_url env state nonce challenge of Inl e \<Rightarrow> Inl (ProviderRefused e) | Inr url \<Rightarrow> Inr url,
            auth\<lparr>wa_pending := pending\<rparr>)))"

definition exchange_login ::
  "web_env \<Rightarrow> int \<Rightarrow> int \<Rightarrow> string \<Rightarrow> oidc_config \<Rightarrow> string \<Rightarrow> pending_login \<Rightarrow>
     web_auth_error + identity_context \<times> int \<times> string" where
  "exchange_login env now finished login_session oc code_text pending =
     (case we_exchange env code_text (pl_verifier pending) of
        Inl e \<Rightarrow> Inl (ProviderRefused e)
      | Inr id_token \<Rightarrow>
          (case we_verify env finished id_token (oc_client_id oc) (Some (pl_nonce pending)) of
             Inl e \<Rightarrow> Inl (ProviderRefused e)
           | Inr claims \<Rightarrow>
               Inr (identity_from_claims (we_repr env) login_session oc claims,
                    finished + we_session_seconds env, pl_next pending)))"

definition complete_login ::
  "web_env \<Rightarrow> int \<Rightarrow> int \<Rightarrow> string \<Rightarrow> string \<Rightarrow> string \<Rightarrow> web_auth \<Rightarrow>
     (web_auth_error + identity_context \<times> int \<times> string) \<times> web_auth" where
  "complete_login env now finished login_session state code_text auth =
     (case oidc_parts auth of
        Inl e \<Rightarrow> (Inl e, auth)
      | Inr oc \<Rightarrow>
          (let auth' = auth\<lparr>wa_pending := AList.delete state (wa_pending auth)\<rparr> in
           case map_of (wa_pending auth) state of
             None \<Rightarrow> (Inl LoginExpired, auth')
           | Some pending \<Rightarrow>
               if login_ttl_seconds < now - pl_created pending then (Inl LoginExpired, auth')
               else (exchange_login env now finished login_session oc code_text pending, auth')))"

subsection \<open>The middleware\<close>

record web_request =
  rq_verb :: string
  rq_path :: string
  rq_authorization :: string
  rq_cookie :: "string option"
  rq_origin :: "string option"
  rq_csrf :: string
  rq_base_url :: string

text \<open>
  What the middleware answers: a refusal with its status, the uncaught exception of
  \<open>secrets.compare_digest\<close> on a text that is not ASCII, or the handler's turn with the identity,
  roles and permissions the request now carries.
\<close>

datatype web_answer =
    Refused nat
  | Uncaught
  | Handler "identity_context option" "string list" "string list"

definition authorize :: "rbac_config \<Rightarrow> identity_context \<Rightarrow> web_request \<Rightarrow> web_answer" where
  "authorize rbac identity rq =
     (if \<not> rb_enabled rbac then Handler (Some identity) [''admin''] (permissions_for [''admin''])
      else let roles = roles_for identity rbac; granted = permissions_for roles in
           if required_permission (rq_verb rq) (rq_path rq) \<in> set granted
           then Handler (Some identity) roles granted
           else Refused 403)"

definition rstrip_slash :: "string \<Rightarrow> string" where
  "rstrip_slash s = rstrip_by (\<lambda>c. c = CHR ''/'') s"

definition check_csrf :: "int \<Rightarrow> web_request \<Rightarrow> web_answer \<Rightarrow> web_auth \<Rightarrow> web_answer \<times> web_auth" where
  "check_csrf now rq answer auth =
     (if rq_verb rq \<in> set safe_methods then (answer, auth)
      else if is_set (rq_origin rq)
              \<and> rstrip_slash (or_empty (rq_origin rq)) \<noteq> rstrip_slash (rq_base_url rq)
      then (Refused 403, auth)
      else case web_session_of now (rq_cookie rq) auth of
             (None, auth') \<Rightarrow> (Refused 403, auth')
           | (Some session, auth') \<Rightarrow>
               (case compare_digest (ws_csrf session) (rq_csrf rq) of
                  None \<Rightarrow> Uncaught
                | Some same \<Rightarrow> if same then answer else Refused 403,
                auth'))"

definition token_request :: "int \<Rightarrow> string option \<Rightarrow> web_request \<Rightarrow> web_auth \<Rightarrow> web_answer \<times> web_auth" where
  "token_request now auth_token rq auth =
     (let passed = check_csrf now rq (Handler None [''admin''] (permissions_for [''admin''])) auth in
      case auth_token of
        None \<Rightarrow> passed
      | Some token \<Rightarrow>
          (case compare_digest (rq_authorization rq) (''Bearer '' @ token) of
             None \<Rightarrow> (Uncaught, auth)
           | Some same \<Rightarrow> if same then passed else (Refused 401, auth)))"

definition bearer_request ::
  "web_env \<Rightarrow> int \<Rightarrow> string \<Rightarrow> rbac_config \<Rightarrow> web_request \<Rightarrow> web_auth \<Rightarrow> web_answer" where
  "bearer_request env now api_session rbac rq auth =
     (case identity_from_bearer env now api_session auth (rq_authorization rq) of
        Inl e \<Rightarrow> Refused 401
      | Inr identity \<Rightarrow> authorize rbac identity rq)"

definition cookie_request :: "int \<Rightarrow> rbac_config \<Rightarrow> web_request \<Rightarrow> web_auth \<Rightarrow> web_answer \<times> web_auth" where
  "cookie_request now rbac rq auth =
     (case web_session_of now (rq_cookie rq) auth of
        (None, auth') \<Rightarrow> (Refused 401, auth')
      | (Some session, auth') \<Rightarrow>
          (case ws_identity session of
             None \<Rightarrow> (Refused 401, auth')
           | Some identity \<Rightarrow>
               (case authorize rbac identity rq of
                  Handler i roles granted \<Rightarrow> check_csrf now rq (Handler i roles granted) auth'
                | refusal \<Rightarrow> (refusal, auth'))))"

definition security ::
  "web_env \<Rightarrow> int \<Rightarrow> string \<Rightarrow> string option \<Rightarrow> rbac_config \<Rightarrow> web_request \<Rightarrow> web_auth \<Rightarrow>
     web_answer \<times> web_auth" where
  "security env now api_session auth_token rbac rq auth =
     (if \<not> starts_with (rq_path rq) ''/api/''
      then (let roles = (if wa_mode auth = ''token'' then [''admin''] else []) in
            (Handler None roles (permissions_for roles), auth))
      else if wa_mode auth = ''token'' then token_request now auth_token rq auth
      else if rq_authorization rq \<noteq> [] then (bearer_request env now api_session rbac rq auth, auth)
      else cookie_request now rbac rq auth)"

subsection \<open>The routes that change sessions or access rules\<close>

record web_server =
  sv_auth :: web_auth
  sv_rbac :: rbac_config
  sv_token :: "string option"

datatype web_event =
    ApiCall int string web_request
  | SessionPage int string web_request string string
  | AccessUpdate int string web_request rbac_config
  | LoginStart int string string string string string
  | LoginCallback int int string bool string string string string
  | Logout int "string option" string

datatype web_reply =
    Answered web_answer
  | Csrf string "string option"
  | RedirectTo string
  | LoginFailed
  | SignedIn string string
  | Conflict
  | NotFound
  | Done

definition session_page ::
  "int \<Rightarrow> web_request \<Rightarrow> identity_context option \<Rightarrow> string \<Rightarrow> string \<Rightarrow> web_auth \<Rightarrow> web_reply \<times> web_auth" where
  "session_page now rq identity sid csrf auth =
     (if wa_mode auth = ''oidc''
      then (case web_session_of now (rq_cookie rq) auth of
              (Some existing, auth') \<Rightarrow> (Csrf (ws_csrf existing) None, auth')
            | (None, auth') \<Rightarrow>
                (case new_session now sid csrf identity None auth' of
                   (session, auth'') \<Rightarrow> (Csrf (ws_csrf session) (Some sid), auth'')))
      else (case new_session now sid csrf None None auth of
              (session, auth') \<Rightarrow> (Csrf (ws_csrf session) (Some sid), auth')))"

definition update_access ::
  "string \<Rightarrow> identity_context option \<Rightarrow> rbac_config \<Rightarrow> rbac_config \<Rightarrow> web_reply \<times> rbac_config" where
  "update_access mode identity payload rbac =
     (if mode \<noteq> ''oidc'' then (Conflict, rbac)
      else let updated = rbac\<lparr>rb_mappings := rb_mappings payload,
                              rb_admins := filter (\<lambda>s. s \<noteq> []) (map py_strip (rb_admins payload)),
                              rb_default_role := rb_default_role payload,
                              rb_accept_role_names := rb_accept_role_names payload\<rparr> in
           case identity of
             None \<Rightarrow> (Done, updated)
           | Some i \<Rightarrow> if ''admin'' \<notin> set (roles_for i updated) then (Conflict, rbac) else (Done, updated))"

definition auth_callback ::
  "web_env \<Rightarrow> int \<Rightarrow> int \<Rightarrow> string \<Rightarrow> bool \<Rightarrow> string \<Rightarrow> string \<Rightarrow> string \<Rightarrow> string \<Rightarrow> web_auth \<Rightarrow>
     web_reply \<times> web_auth" where
  "auth_callback env now finished login_session provider_error state code_text sid csrf auth =
     (if wa_mode auth \<noteq> ''oidc'' then (NotFound, auth)
      else if provider_error then (LoginFailed, auth)
      else case complete_login env now finished login_session state code_text auth of
             (Inl e, auth') \<Rightarrow> (LoginFailed, auth')
           | (Inr (identity, expires, next_path), auth') \<Rightarrow>
               (SignedIn sid next_path,
                snd (new_session finished sid csrf (Some identity) (Some expires) auth')))"

definition auth_logout :: "int \<Rightarrow> string option \<Rightarrow> string \<Rightarrow> web_auth \<Rightarrow> web_reply \<times> web_auth" where
  "auth_logout now cookie supplied auth =
     (case web_session_of now cookie auth of
        (None, auth') \<Rightarrow> (Answered (Refused 403), auth')
      | (Some session, auth') \<Rightarrow>
          (case compare_digest (ws_csrf session) supplied of
             None \<Rightarrow> (Answered Uncaught, auth')
           | Some same \<Rightarrow> if same then (Done, end_session cookie auth') else (Answered (Refused 403), auth')))"

definition auth_login ::
  "web_env \<Rightarrow> int \<Rightarrow> string \<Rightarrow> string \<Rightarrow> string \<Rightarrow> string \<Rightarrow> string \<Rightarrow> web_auth \<Rightarrow> web_reply \<times> web_auth" where
  "auth_login env now state nonce verifier challenge next_path auth =
     (if wa_mode auth \<noteq> ''oidc'' then (NotFound, auth)
      else case begin_login env now state nonce verifier challenge next_path auth of
             (Inl e, auth') \<Rightarrow> (LoginFailed, auth')
           | (Inr url, auth') \<Rightarrow> (RedirectTo url, auth'))"

text \<open>One request to the server. The routes under /api/ run behind the middleware.\<close>

fun web_step :: "web_env \<Rightarrow> web_event \<Rightarrow> web_server \<Rightarrow> web_reply \<times> web_server" where
  "web_step env (ApiCall now api_session rq) sv =
     (case security env now api_session (sv_token sv) (sv_rbac sv) rq (sv_auth sv) of
        (answer, auth) \<Rightarrow> (Answered answer, sv\<lparr>sv_auth := auth\<rparr>))"
| "web_step env (SessionPage now api_session rq sid csrf) sv =
     (let rq = rq\<lparr>rq_verb := ''GET'', rq_path := ''/api/session''\<rparr> in
      case security env now api_session (sv_token sv) (sv_rbac sv) rq (sv_auth sv) of
        (Handler identity roles granted, auth) \<Rightarrow>
          (case session_page now rq identity sid csrf auth of
             (reply, auth') \<Rightarrow> (reply, sv\<lparr>sv_auth := auth'\<rparr>))
      | (answer, auth) \<Rightarrow> (Answered answer, sv\<lparr>sv_auth := auth\<rparr>))"
| "web_step env (AccessUpdate now api_session rq payload) sv =
     (let rq = rq\<lparr>rq_verb := ''PUT'', rq_path := ''/api/access/admin/rbac''\<rparr> in
      case security env now api_session (sv_token sv) (sv_rbac sv) rq (sv_auth sv) of
        (Handler identity roles granted, auth) \<Rightarrow>
          (case update_access (wa_mode auth) identity payload (sv_rbac sv) of
             (reply, rbac) \<Rightarrow> (reply, sv\<lparr>sv_auth := auth, sv_rbac := rbac\<rparr>))
      | (answer, auth) \<Rightarrow> (Answered answer, sv\<lparr>sv_auth := auth\<rparr>))"
| "web_step env (LoginStart now state nonce verifier challenge next_path) sv =
     (case auth_login env now state nonce verifier challenge next_path (sv_auth sv) of
        (reply, auth) \<Rightarrow> (reply, sv\<lparr>sv_auth := auth\<rparr>))"
| "web_step env (LoginCallback now finished login_session provider_error state code_text sid csrf) sv =
     (case auth_callback env now finished login_session provider_error state code_text sid csrf (sv_auth sv) of
        (reply, auth) \<Rightarrow> (reply, sv\<lparr>sv_auth := auth\<rparr>))"
| "web_step env (Logout now cookie supplied) sv =
     (case auth_logout now cookie supplied (sv_auth sv) of
        (reply, auth) \<Rightarrow> (reply, sv\<lparr>sv_auth := auth\<rparr>))"

fun web_run :: "web_env \<Rightarrow> web_event list \<Rightarrow> web_server \<Rightarrow> web_server" where
  "web_run env [] sv = sv"
| "web_run env (e # es) sv = web_run env es (snd (web_step env e sv))"

subsection \<open>The invariant of the session store\<close>

definition verified_by :: "web_env \<Rightarrow> oidc_config \<Rightarrow> identity_context \<Rightarrow> bool" where
  "verified_by env oc identity \<longleftrightarrow>
     (\<exists>t token audience nonce claims session.
        we_verify env t token audience nonce = Inr claims
        \<and> identity = identity_from_claims (we_repr env) session oc claims)"

lemma verified_byI [intro]:
  "we_verify env t token audience nonce = Inr claims \<Longrightarrow>
     verified_by env oc (identity_from_claims (we_repr env) session oc claims)"
  unfolding verified_by_def by blast

definition local_target :: "string \<Rightarrow> bool" where
  "local_target path \<longleftrightarrow>
     starts_with path ''/'' \<and> \<not> starts_with path ''//'' \<and> CHR 0x5C \<notin> set path
     \<and> (\<forall>c \<in> set path. 0x21 \<le> code c \<and> code c \<noteq> 0x7F)"

definition session_ok :: "web_env \<Rightarrow> oidc_config \<Rightarrow> web_session \<Rightarrow> bool" where
  "session_ok env oc session \<longleftrightarrow> (\<exists>i. ws_identity session = Some i \<and> verified_by env oc i)"

definition auth_ok :: "web_env \<Rightarrow> oidc_config \<Rightarrow> web_auth \<Rightarrow> bool" where
  "auth_ok env oc auth \<longleftrightarrow>
     wa_mode auth = ''oidc'' \<and> wa_config auth = Some oc
     \<and> length (wa_sessions auth) \<le> max_sessions \<and> length (wa_pending auth) \<le> max_pending_logins
     \<and> (\<forall>(k, s) \<in> set (wa_sessions auth). session_ok env oc s)
     \<and> (\<forall>(k, p) \<in> set (wa_pending auth). local_target (pl_next p))"

lemma safe_next_local: "local_target (safe_next path)"
  by (auto simp: safe_next_def local_target_def list_ex_iff code_def not_less)

lemma make_room_length: "0 < cap \<Longrightarrow> length (make_room cap d) < cap"
  by (induction d) auto

lemma make_room_subset: "set (make_room cap d) \<subseteq> set d"
  by (induction d) auto

lemma update_subset: "set (AList.update k v d) \<subseteq> insert (k, v) (set d)"
  by (induction d) auto

lemma update_length: "length (AList.update k v d) \<le> Suc (length d)"
  by (induction d) auto

lemma delete_subset: "set (AList.delete k d) \<subseteq> set d"
  by (auto simp: AList.delete_eq)

lemma delete_length: "length (AList.delete k d) \<le> length d"
  by (simp add: AList.delete_eq)

lemma bounded_insert:
  assumes "0 < cap"
  shows "length (AList.update k v (make_room cap d)) \<le> cap"
  using make_room_length [OF assms, of d] update_length [of k v "make_room cap d"] by simp

lemma bounded_insert_subset:
  "set (AList.update k v (make_room cap d)) \<subseteq> insert (k, v) (set d)"
  by (rule subset_trans [OF update_subset]) (use make_room_subset [of cap d] in blast)

lemma auth_ok_session:
  assumes "auth_ok env oc auth" and "map_of (wa_sessions auth) sid = Some s"
  shows "session_ok env oc s"
  using assms by (auto simp: auth_ok_def dest: map_of_SomeD)

lemma auth_ok_drop_session:
  "auth_ok env oc auth \<Longrightarrow> auth_ok env oc (auth\<lparr>wa_sessions := AList.delete k (wa_sessions auth)\<rparr>)"
  using delete_subset [of k "wa_sessions auth"] delete_length [of k "wa_sessions auth"]
  by (auto simp: auth_ok_def)

lemma auth_ok_drop_pending:
  "auth_ok env oc auth \<Longrightarrow> auth_ok env oc (auth\<lparr>wa_pending := AList.delete k (wa_pending auth)\<rparr>)"
  using delete_subset [of k "wa_pending auth"] delete_length [of k "wa_pending auth"]
  by (auto simp: auth_ok_def)

lemma auth_ok_new_session:
  assumes ok: "auth_ok env oc auth" and new: "ws_identity s = Some i" "verified_by env oc i"
    and s: "new_session now sid csrf (Some i) e auth = (s, auth')"
  shows "auth_ok env oc auth'"
proof -
  let ?d = "AList.update sid s (make_room max_sessions (wa_sessions auth))"
  have "length ?d \<le> max_sessions"
    by (rule bounded_insert) (simp add: max_sessions_def)
  moreover have "session_ok env oc t" if "(k, t) \<in> set ?d" for k t
    using subsetD [OF bounded_insert_subset that] ok new by (auto simp: auth_ok_def session_ok_def)
  moreover have "auth' = auth\<lparr>wa_sessions := ?d\<rparr>"
    using s by (auto simp: new_session_def Let_def)
  ultimately show ?thesis using ok by (auto simp: auth_ok_def)
qed

lemma auth_ok_session_of:
  assumes "auth_ok env oc auth" and "web_session_of now sid auth = (found, auth')"
  shows "auth_ok env oc auth'" and "found = Some s \<Longrightarrow> session_ok env oc s"
  using assms auth_ok_drop_session [OF assms(1)] auth_ok_session [OF assms(1)]
  by (auto simp: web_session_of_def split: if_splits option.splits)

lemma auth_ok_end_session: "auth_ok env oc auth \<Longrightarrow> auth_ok env oc (end_session sid auth)"
  by (simp add: end_session_def auth_ok_drop_session)

lemma auth_ok_check_csrf:
  "auth_ok env oc auth \<Longrightarrow> auth_ok env oc (snd (check_csrf now rq answer auth))"
  by (auto simp: check_csrf_def dest: auth_ok_session_of(1) split: prod.splits option.splits)

lemma auth_ok_cookie_request:
  "auth_ok env oc auth \<Longrightarrow> auth_ok env oc (snd (cookie_request now rbac rq auth))"
  by (auto simp: cookie_request_def dest: auth_ok_session_of(1) intro: auth_ok_check_csrf
      split: prod.splits option.splits web_answer.splits)

lemma auth_ok_security:
  "auth_ok env oc auth \<Longrightarrow> auth_ok env oc (snd (security env now s tok rbac rq auth))"
  by (simp add: security_def Let_def auth_ok_cookie_request) (simp add: auth_ok_def)

lemma verified_bearer:
  assumes "identity_from_bearer env now s auth authorization = Inr i" and "wa_config auth = Some oc"
  shows "verified_by env oc i"
  using assms
  by (auto simp: identity_from_bearer_def oidc_parts_def res_simps Let_def
      split: if_splits sum.splits)

lemma auth_ok_complete_login:
  assumes "auth_ok env oc auth" and "complete_login env now f s state c auth = (r, auth')"
  shows "auth_ok env oc auth'" and "r = Inr (i, expires, next_path) \<Longrightarrow> verified_by env oc i"
    and "r = Inr (i, expires, next_path) \<Longrightarrow> local_target next_path"
proof -
  show "auth_ok env oc auth'"
    using assms auth_ok_drop_pending [OF assms(1), of state]
    by (auto simp: complete_login_def Let_def split: sum.splits option.splits if_splits)
  show "verified_by env oc i" if "r = Inr (i, expires, next_path)"
    using assms that
    by (auto simp: complete_login_def exchange_login_def oidc_parts_def auth_ok_def Let_def
        split: sum.splits option.splits if_splits)
  show "local_target next_path" if "r = Inr (i, expires, next_path)"
    using assms that
    by (fastforce simp: complete_login_def exchange_login_def auth_ok_def Let_def dest: map_of_SomeD
        split: sum.splits option.splits if_splits)
qed

lemma auth_ok_begin_login:
  assumes "auth_ok env oc auth"
  shows "auth_ok env oc (snd (begin_login env now state n v c path auth))"
proof (cases "oidc_parts auth")
  case (Inl e)
  then show ?thesis using assms by (simp add: begin_login_def)
next
  case (Inr oc')
  let ?live = "filter (\<lambda>(k, v). \<not> login_ttl_seconds < now - pl_created v) (wa_pending auth)"
  let ?entry = "\<lparr>pl_nonce = n, pl_verifier = v, pl_next = safe_next path, pl_created = now\<rparr>"
  have "length (AList.update state ?entry (make_room max_pending_logins ?live)) \<le> max_pending_logins"
    by (rule bounded_insert) (simp add: max_pending_logins_def)
  moreover have "local_target (pl_next p)"
    if "(k, p) \<in> set (AList.update state ?entry (make_room max_pending_logins ?live))" for k p
    using that bounded_insert_subset [of state ?entry max_pending_logins ?live] assms safe_next_local
    by (fastforce simp: auth_ok_def)
  ultimately show ?thesis
    using assms Inr by (auto simp: begin_login_def Let_def auth_ok_def)
qed

subsection \<open>What a request has shown before its handler runs\<close>

lemma security_handler_identity:
  assumes ok: "auth_ok env oc auth" and api: "starts_with (rq_path rq) ''/api/''"
    and run: "security env now s tok rbac rq auth = (Handler identity roles granted, auth')"
  shows "\<exists>i. identity = Some i \<and> verified_by env oc i \<and> (rb_enabled rbac \<longrightarrow> may_call i rbac (rq_verb rq) (rq_path rq))"
proof -
  have authorized: "identity = Some i \<and> (rb_enabled rbac \<longrightarrow> may_call i rbac (rq_verb rq) (rq_path rq))"
    if "authorize rbac i rq = Handler identity roles granted" for i
    using that by (auto simp: authorize_def may_call_def Let_def split: if_splits)
  from ok have mode: "wa_mode auth = ''oidc''" "wa_config auth = Some oc"
    by (auto simp: auth_ok_def)
  show ?thesis
  proof (cases "rq_authorization rq = []")
    case False
    then obtain i where i: "identity_from_bearer env now s auth (rq_authorization rq) = Inr i"
      and a: "authorize rbac i rq = Handler identity roles granted"
      using run api mode by (auto simp: security_def bearer_request_def split: sum.splits)
    show ?thesis using verified_bearer [OF i mode(2)] authorized [OF a] by blast
  next
    case True
    then have c: "cookie_request now rbac rq auth = (Handler identity roles granted, auth')"
      using run api mode by (simp add: security_def)
    obtain found auth1 where f: "web_session_of now (rq_cookie rq) auth = (found, auth1)"
      by (cases "web_session_of now (rq_cookie rq) auth")
    with c obtain session where session: "found = Some session"
      by (cases found) (auto simp: cookie_request_def)
    from auth_ok_session_of(2) [OF ok f session] obtain i where
      i: "ws_identity session = Some i" "verified_by env oc i"
      by (auto simp: session_ok_def)
    with c f session have "authorize rbac i rq = Handler identity roles granted"
      by (auto simp: cookie_request_def check_csrf_def split: web_answer.splits if_splits prod.splits option.splits)
    then show ?thesis using authorized i by blast
  qed
qed

lemma compare_digest_True: "compare_digest a b = Some True \<Longrightarrow> a = b"
  by (auto simp: compare_digest_def split: if_splits)

lemma session_of_found:
  assumes "web_session_of now sid auth = (Some s, auth')"
  shows "auth' = auth \<and> map_of (wa_sessions auth) (or_empty sid) = Some s \<and> \<not> expired now s"
  using assms by (auto simp: web_session_of_def split: if_splits option.splits)

lemma check_csrf_handler:
  assumes "check_csrf now rq answer auth = (Handler i roles granted, auth')" and "rq_verb rq \<notin> set safe_methods"
  shows "\<exists>s. map_of (wa_sessions auth) (or_empty (rq_cookie rq)) = Some s \<and> \<not> expired now s
    \<and> ws_csrf s = rq_csrf rq
    \<and> (is_set (rq_origin rq) \<longrightarrow> rstrip_slash (or_empty (rq_origin rq)) = rstrip_slash (rq_base_url rq))"
  using assms
  by (auto simp: check_csrf_def dest!: session_of_found compare_digest_True
      split: if_splits prod.splits option.splits)

lemma security_handler_csrf:
  assumes mode: "wa_mode auth = ''oidc''" and api: "starts_with (rq_path rq) ''/api/''"
    and run: "security env now s tok rbac rq auth = (Handler identity roles granted, auth')"
    and change: "rq_verb rq \<notin> set safe_methods" and cookie: "rq_authorization rq = []"
  shows "\<exists>session. map_of (wa_sessions auth) (or_empty (rq_cookie rq)) = Some session
    \<and> ws_identity session = identity \<and> \<not> expired now session \<and> ws_csrf session = rq_csrf rq
    \<and> (is_set (rq_origin rq) \<longrightarrow> rstrip_slash (or_empty (rq_origin rq)) = rstrip_slash (rq_base_url rq))"
proof -
  have c: "cookie_request now rbac rq auth = (Handler identity roles granted, auth')"
    using run api mode cookie by (simp add: security_def)
  obtain session where f: "web_session_of now (rq_cookie rq) auth = (Some session, auth)"
    using c session_of_found by (fastforce simp: cookie_request_def split: prod.splits option.splits)
  then obtain i where i: "ws_identity session = Some i"
    using c by (auto simp: cookie_request_def split: option.splits)
  have a: "authorize rbac i rq = Handler j r g \<Longrightarrow> j = Some i" for j r g
    by (auto simp: authorize_def Let_def split: if_splits)
  obtain j r g where h: "authorize rbac i rq = Handler j r g"
    and k: "check_csrf now rq (Handler j r g) auth = (Handler identity roles granted, auth')"
    using c f i by (auto simp: cookie_request_def split: web_answer.splits)
  have "identity = Some i"
    using k a [OF h] change by (auto simp: check_csrf_def split: if_splits prod.splits option.splits)
  with check_csrf_handler [OF k change] session_of_found [OF f] i show ?thesis
    by auto
qed

lemma session_page_ok:
  assumes "auth_ok env oc auth" and "identity = Some i" and "verified_by env oc i"
  shows "auth_ok env oc (snd (session_page now rq identity sid csrf auth))"
proof -
  obtain found auth1 where f: "web_session_of now (rq_cookie rq) auth = (found, auth1)"
    by (cases "web_session_of now (rq_cookie rq) auth")
  note ok1 = auth_ok_session_of(1) [OF assms(1) f]
  obtain s auth2 where n: "new_session now sid csrf (Some i) None auth1 = (s, auth2)"
    by (cases "new_session now sid csrf (Some i) None auth1")
  then have "ws_identity s = Some i" by (auto simp: new_session_def Let_def)
  from auth_ok_new_session [OF ok1 this assms(3) n] ok1 assms f n show ?thesis
    by (auto simp: session_page_def auth_ok_def split: option.splits)
qed

lemma auth_callback_ok:
  assumes ok: "auth_ok env oc auth"
  shows "auth_ok env oc (snd (auth_callback env now f s e state c sid csrf auth))"
proof -
  obtain r auth1 where l: "complete_login env now f s state c auth = (r, auth1)"
    by (cases "complete_login env now f s state c auth")
  note ok1 = auth_ok_complete_login(1) [OF ok l]
  show ?thesis
  proof (cases r)
    case (Inl err)
    then show ?thesis using ok ok1 l by (simp add: auth_callback_def)
  next
    case (Inr v)
    then obtain i expires target where v: "r = Inr (i, expires, target)" by (cases v) auto
    obtain session auth2 where n: "new_session f sid csrf (Some i) (Some expires) auth1 = (session, auth2)"
      by (cases "new_session f sid csrf (Some i) (Some expires) auth1")
    then have "ws_identity session = Some i" by (auto simp: new_session_def Let_def)
    from auth_ok_new_session [OF ok1 this auth_ok_complete_login(2) [OF ok l v] n]
    show ?thesis using ok l v n by (simp add: auth_callback_def)
  qed
qed

lemma auth_logout_ok: "auth_ok env oc auth \<Longrightarrow> auth_ok env oc (snd (auth_logout now cookie supplied auth))"
  by (auto simp: auth_logout_def intro: auth_ok_end_session dest: auth_ok_session_of(1)
      split: prod.splits option.splits)

lemma auth_login_ok:
  "auth_ok env oc auth \<Longrightarrow> auth_ok env oc (snd (auth_login env now state n v c path auth))"
  using auth_ok_begin_login [of env oc auth now state n v c path]
  by (auto simp: auth_login_def split: prod.splits sum.splits)

lemma web_step_ok:
  assumes ok: "auth_ok env oc (sv_auth sv)"
  shows "auth_ok env oc (sv_auth (snd (web_step env e sv)))"
proof (cases e)
  case (SessionPage now s rq0 sid csrf)
  let ?rq = "rq0\<lparr>rq_verb := ''GET'', rq_path := ''/api/session''\<rparr>"
  obtain answer auth where run: "security env now s (sv_token sv) (sv_rbac sv) ?rq (sv_auth sv) = (answer, auth)"
    by (cases "security env now s (sv_token sv) (sv_rbac sv) ?rq (sv_auth sv)")
  have ok': "auth_ok env oc auth"
    using auth_ok_security [OF ok, of now s "sv_token sv" "sv_rbac sv" ?rq] run by simp
  show ?thesis
  proof (cases answer)
    case (Handler identity roles granted)
    then obtain i where "identity = Some i" "verified_by env oc i"
      using security_handler_identity [OF ok _ run [unfolded Handler]] by auto
    then have "auth_ok env oc (snd (session_page now ?rq identity sid csrf auth))"
      by (rule session_page_ok [OF ok'])
    then show ?thesis
      using run Handler SessionPage by (simp add: split_beta Let_def)
  qed (use run ok' SessionPage in simp_all)
next
  case (AccessUpdate now s rq0 payload)
  let ?rq = "rq0\<lparr>rq_verb := ''PUT'', rq_path := ''/api/access/admin/rbac''\<rparr>"
  have "auth_ok env oc (snd (security env now s (sv_token sv) (sv_rbac sv) ?rq (sv_auth sv)))"
    by (rule auth_ok_security [OF ok])
  then show ?thesis
    using AccessUpdate by (auto split: prod.splits web_answer.splits)
qed (use auth_ok_security [OF ok] auth_login_ok [OF ok] auth_callback_ok [OF ok] auth_logout_ok [OF ok]
     in \<open>auto simp: split_beta\<close>)

lemma web_run_ok:
  "auth_ok env oc (sv_auth sv) \<Longrightarrow> auth_ok env oc (sv_auth (web_run env es sv))"
  by (induction es arbitrary: sv) (simp_all add: web_step_ok)

lemma new_web_auth_ok:
  assumes "new_web_auth ''oidc'' (Some oc) = Inr auth"
  shows "auth_ok env oc auth"
  using assms by (auto simp: new_web_auth_def auth_ok_def Let_def split: if_splits)

text \<open>
  C3. On a server started for OpenID Connect, after any sequence of requests, a request under /api/
  reaches its handler only with an identity taken from claims the verifier accepted, whose roles
  under the access rules of that moment grant the permission of the route (when role checks are on).
  If it may change something and authenticates by cookie, it also shows the secret of the unexpired
  session that carries this identity, and an origin, when the browser sends one, that is the server's.
\<close>

theorem handled_request_is_authorized:
  assumes "new_web_auth ''oidc'' (Some oc) = Inr auth"
    and "sv = web_run env events \<lparr>sv_auth = auth, sv_rbac = rbac, sv_token = token\<rparr>"
    and "starts_with (rq_path rq) ''/api/''"
    and "web_step env (ApiCall now s rq) sv = (Answered (Handler identity roles granted), sv')"
  shows "\<exists>i. identity = Some i \<and> verified_by env oc i
    \<and> (rb_enabled (sv_rbac sv) \<longrightarrow> may_call i (sv_rbac sv) (rq_verb rq) (rq_path rq))
    \<and> (rq_verb rq \<notin> set safe_methods \<and> rq_authorization rq = [] \<longrightarrow>
        (\<exists>session. map_of (wa_sessions (sv_auth sv)) (or_empty (rq_cookie rq)) = Some session
           \<and> ws_identity session = Some i \<and> \<not> expired now session \<and> ws_csrf session = rq_csrf rq
           \<and> (is_set (rq_origin rq) \<longrightarrow>
               rstrip_slash (or_empty (rq_origin rq)) = rstrip_slash (rq_base_url rq))))"
proof -
  have ok: "auth_ok env oc (sv_auth sv)"
    using web_run_ok [of env oc "\<lparr>sv_auth = auth, sv_rbac = rbac, sv_token = token\<rparr>" events]
      new_web_auth_ok [OF assms(1)] assms(2) by simp
  obtain auth' where run: "security env now s (sv_token sv) (sv_rbac sv) rq (sv_auth sv)
      = (Handler identity roles granted, auth')"
    using assms(4) by (auto split: prod.splits)
  from security_handler_identity [OF ok assms(3) run] security_handler_csrf [OF _ assms(3) run] ok
  show ?thesis by (auto simp: auth_ok_def)
qed

text \<open>A sign-in ends in a local address, and its state cannot be presented twice.\<close>

lemma sign_in_is_local_and_single_use:
  assumes "auth_ok env oc (sv_auth sv)"
    and "web_step env (LoginCallback now f s e state c sid csrf) sv = (SignedIn sid target, sv')"
  shows "local_target target \<and> map_of (wa_pending (sv_auth sv')) state = None"
proof -
  obtain r auth1 where l: "complete_login env now f s state c (sv_auth sv) = (r, auth1)"
    by (cases "complete_login env now f s state c (sv_auth sv)")
  with assms(2) obtain i expires where v: "r = Inr (i, expires, target)"
    by (auto simp: auth_callback_def split: if_splits sum.splits prod.splits)
  have "map_of (wa_pending auth1) state = None"
    using l v by (auto simp: complete_login_def Let_def dict_get_delete split: sum.splits option.splits if_splits)
  moreover have "wa_pending (sv_auth sv') = wa_pending auth1"
    using assms(2) l v by (auto simp: auth_callback_def new_session_def Let_def split: if_splits)
  ultimately show ?thesis
    using auth_ok_complete_login(3) [OF assms(1) l v] by simp
qed

text \<open>Changing the access rules leaves the identified caller an administrator.\<close>

lemma access_change_keeps_caller_admin:
  assumes "update_access mode (Some i) payload rbac = (Done, rbac')"
  shows "''admin'' \<in> set (permissions_for (roles_for i rbac'))"
  using assms by (auto simp: update_access_def grants_admin Let_def split: if_splits)

subsection \<open>A server with one administrator\<close>

definition web_env_example :: web_env where
  "web_env_example =
     \<lparr>we_verify = (\<lambda>now token audience nonce. if token = ''T'' \<and> now \<le> 200 then Inr example_claims else Inl TokenExpired),
      we_exchange = (\<lambda>code_text verifier. Inr ''T''), we_auth_url = (\<lambda>_ _ _. Inr ''https://idp/authorize''),
      we_repr = (\<lambda>_. []), we_session_seconds = 3600\<rparr>"

definition rbac_example :: rbac_config where
  "rbac_example = \<lparr>rb_enabled = True, rb_mappings = [], rb_accept_role_names = True,
     rb_admins = [''ada''], rb_default_role = None\<rparr>"

definition auth_example :: web_auth where
  "auth_example = \<lparr>wa_mode = ''oidc'', wa_config = Some example_oidc_config, wa_provider = True,
     wa_sessions = [], wa_pending = []\<rparr>"

definition request_example :: "string \<Rightarrow> string \<Rightarrow> string \<Rightarrow> string option \<Rightarrow> web_request" where
  "request_example verb path authorization cookie =
     \<lparr>rq_verb = verb, rq_path = path, rq_authorization = authorization, rq_cookie = cookie,
      rq_origin = None, rq_csrf = ''c'', rq_base_url = ''http://localhost/''\<rparr>"

definition sign_in_events :: "web_event list" where
  "sign_in_events =
     [LoginStart 100 ''st'' ''n'' ''v'' ''ch'' ''/runs'',
      LoginCallback 110 112 ''web-1'' False ''st'' ''code'' ''sid'' ''c'']"

definition server_example :: "web_event list \<Rightarrow> web_server" where
  "server_example events =
     web_run web_env_example events \<lparr>sv_auth = auth_example, sv_rbac = rbac_example, sv_token = None\<rparr>"

lemma example_request_handled:
  "fst (web_step web_env_example
      (ApiCall 120 ''x'' (request_example ''PUT'' ''/api/settings'' [] (Some ''sid''))) (server_example sign_in_events))
     = Answered (Handler (Some (identity_from_claims (\<lambda>_. []) ''web-1'' example_oidc_config example_claims))
         [''admin''] [''read'', ''operate'', ''approve'', ''admin''])"
  by code_simp

theorem handled_request_is_authorized_witness:
  "\<exists>i. verified_by web_env_example example_oidc_config i
     \<and> may_call i rbac_example ''PUT'' ''/api/settings''
     \<and> (\<exists>session. map_of (wa_sessions (sv_auth (server_example sign_in_events))) ''sid'' = Some session
          \<and> ws_identity session = Some i \<and> ws_csrf session = ''c'')"
proof -
  have start: "new_web_auth ''oidc'' (Some example_oidc_config) = Inr auth_example" by code_simp
  have rbac: "sv_rbac (server_example sign_in_events) = rbac_example" by code_simp
  let ?rq = "request_example ''PUT'' ''/api/settings'' [] (Some ''sid'')"
  obtain sv' where run: "web_step web_env_example (ApiCall 120 ''x'' ?rq) (server_example sign_in_events)
      = (Answered (Handler (Some (identity_from_claims (\<lambda>_. []) ''web-1'' example_oidc_config example_claims))
           [''admin''] [''read'', ''operate'', ''approve'', ''admin'']), sv')"
    using example_request_handled by (metis prod.collapse)
  from handled_request_is_authorized [OF start server_example_def _ run] show ?thesis
    by (auto simp: rbac request_example_def rbac_example_def safe_methods_def or_empty_def)
qed

text \<open>
  A bearer token that has expired lives on as a cookie session: \<open>/api/session\<close> gives a bearer
  client a session with its identity and no expiry, and that session opens later requests.
\<close>

lemma bearer_session_outlives_its_token:
  "let sv = server_example [SessionPage 150 ''api'' (request_example ''GET'' ''/api/session'' ''Bearer T'' None) ''sid'' ''c''] in
   fst (web_step web_env_example (ApiCall 100000 ''x'' (request_example ''PUT'' ''/api/settings'' ''Bearer T'' None)) sv)
     = Answered (Refused 401)
   \<and> fst (web_step web_env_example (ApiCall 100000 ''x'' (request_example ''PUT'' ''/api/settings'' [] (Some ''sid''))) sv)
     = Answered (Handler (Some (identity_from_claims (\<lambda>_. []) ''api'' example_oidc_config example_claims))
         [''admin''] [''read'', ''operate'', ''approve'', ''admin''])"
  by code_simp

text \<open>A character outside ASCII in the authorization header ends in an uncaught exception.\<close>

lemma non_ascii_token_is_uncaught:
  "fst (security env 0 s (Some ''secret'') rbac (request_example ''GET'' ''/api/status'' [CHR 0xE9] None)
      (auth_example\<lparr>wa_mode := ''token''\<rparr>)) = Uncaught"
  by (simp add: security_def token_request_def compare_digest_def is_ascii_def request_example_def auth_example_def code_def Let_def)

end
