(* ===== verification/Mcp_Tasks.thy ===== *)
theory Mcp_Tasks
  imports Json_Value Loro_Prelude
begin

text \<open>
  \<open>src/loro/mcp/tasks.py\<close>: the durable handles of the tasks that MCP servers run for the agent.
  A store maps the path of a record to its handle; a record that does not validate is None, since
  reading it raises. The hash of the path, the text of a payload and the clock are parameters. The
  invariant is that a terminal status never changes and that no input key is answered twice,
  whatever a server sends. The wrappers over the MCP SDK are left out.
\<close>

subsection \<open>Handles\<close>

datatype task_status = Task_Working | Task_Input_Required | Task_Completed | Task_Failed | Task_Cancelled

definition task_status_text :: "task_status \<Rightarrow> string" where
  "task_status_text s =
     (case s of Task_Working \<Rightarrow> ''working'' | Task_Input_Required \<Rightarrow> ''input_required''
      | Task_Completed \<Rightarrow> ''completed'' | Task_Failed \<Rightarrow> ''failed'' | Task_Cancelled \<Rightarrow> ''cancelled'')"

definition all_statuses :: "task_status list" where
  "all_statuses = [Task_Working, Task_Input_Required, Task_Completed, Task_Failed, Task_Cancelled]"

definition task_status_of :: "json \<Rightarrow> task_status option" where
  "task_status_of v = List.find (\<lambda>s. v = JStr (task_status_text s)) all_statuses"

definition terminal_statuses :: "task_status list" where
  "terminal_statuses = [Task_Completed, Task_Failed, Task_Cancelled]"

record task_handle =
  th_server :: string
  th_task :: string
  th_status :: task_status
  th_operation :: string
  th_name :: "string option"
  th_remote :: "(string, json) dict"
  th_answered :: "string list"
  th_cancelled_at :: "string option"
  th_first_seen :: string
  th_last_seen :: string

definition task_terminal :: "task_handle \<Rightarrow> bool" where
  "task_terminal h = (th_status h \<in> set terminal_statuses)"

datatype task_error =
    RecordTooLarge
  | TerminalStatusChanged
  | RecordInvalid
  | TaskUnknown string string
  | TaskIdMissing
  | StatusInvalid json
  | InputRequestsMissing
  | ResultMissing
  | ErrorMissing
  | NoResponse
  | AlreadyAnswered "string list"
  | NotOutstanding "string list"

type_synonym task_store = "(string, task_handle option) dict"

definition optional_text :: "string option \<Rightarrow> json" where
  "optional_text v = (case v of Some s \<Rightarrow> JStr s | None \<Rightarrow> JNull)"

definition handle_payload :: "task_handle \<Rightarrow> json" where
  "handle_payload h =
     JObj [(''server_id'', JStr (th_server h)), (''task_id'', JStr (th_task h)),
           (''status'', JStr (task_status_text (th_status h))), (''operation'', JStr (th_operation h)),
           (''name'', optional_text (th_name h)), (''remote'', JObj (th_remote h)),
           (''answered_input_keys'', JArr (map JStr (th_answered h))),
           (''cancellation_requested_at'', optional_text (th_cancelled_at h)),
           (''first_seen_at'', JStr (th_first_seen h)), (''last_seen_at'', JStr (th_last_seen h))]"

record task_env =
  te_hash :: "string \<Rightarrow> string"
  te_dumps :: "json \<Rightarrow> string"
  te_max_bytes :: nat

definition task_path :: "task_env \<Rightarrow> string \<Rightarrow> string \<Rightarrow> string" where
  "task_path env server task = te_hash env (server @ CHR 0x00 # task) @ ''.json''"

subsection \<open>Reading and saving\<close>

definition find_record :: "string \<Rightarrow> task_store \<Rightarrow> task_error + task_handle option" where
  "find_record path store =
     (case map_of store path of
        None \<Rightarrow> Inr None
      | Some None \<Rightarrow> Inl RecordInvalid
      | Some (Some h) \<Rightarrow> Inr (Some h))"

definition task_get :: "task_env \<Rightarrow> task_store \<Rightarrow> string \<Rightarrow> string \<Rightarrow> task_error + task_handle" where
  "task_get env store server task =
     res_bind (find_record (task_path env server task) store) (\<lambda>found.
       case found of None \<Rightarrow> Inl (TaskUnknown server task) | Some h \<Rightarrow> Inr h)"

definition task_list :: "task_store \<Rightarrow> string option \<Rightarrow> task_error + task_handle list" where
  "task_list store server =
     res_bind
       (res_map (\<lambda>path. case map_of store path of Some (Some h) \<Rightarrow> Inr h | _ \<Rightarrow> Inl RecordInvalid)
          (rev (sort (map fst store))))
       (\<lambda>handles. Inr (case server of None \<Rightarrow> handles | Some s \<Rightarrow> filter (\<lambda>h. th_server h = s) handles))"

definition merge_handle :: "task_handle \<Rightarrow> task_handle \<Rightarrow> task_handle" where
  "merge_handle existing h =
     h\<lparr>th_first_seen := th_first_seen existing,
       th_answered := rev (remdups (rev (th_answered existing @ th_answered h))),
       th_cancelled_at := (case th_cancelled_at h of
                             Some (c # cs) \<Rightarrow> Some (c # cs)
                           | _ \<Rightarrow> th_cancelled_at existing)\<rparr>"

definition task_save ::
  "task_env \<Rightarrow> string \<Rightarrow> task_handle \<Rightarrow> task_store \<Rightarrow> (task_error + task_handle) \<times> task_store" where
  "task_save env now h store =
     (if te_max_bytes env < length (te_dumps env (handle_payload h)) then (Inl RecordTooLarge, store)
      else
        let path = task_path env (th_server h) (th_task h) in
        case find_record path store of
          Inl e \<Rightarrow> (Inl e, store)
        | Inr found \<Rightarrow>
            (case found of
               Some existing \<Rightarrow>
                 (if task_terminal existing \<and> th_status h \<noteq> th_status existing
                  then (Inl TerminalStatusChanged, store)
                  else let merged = (merge_handle existing h)\<lparr>th_last_seen := now\<rparr> in
                       (Inr merged, AList.update path (Some merged) store))
             | None \<Rightarrow>
                 (let h' = h\<lparr>th_last_seen := now\<rparr> in (Inr h', AList.update path (Some h') store))))"

subsection \<open>What a server reports and a user answers\<close>

definition outstanding_input_requests :: "(string, json) dict \<Rightarrow> (string, json) dict" where
  "outstanding_input_requests remote =
     (case as_obj (or_null (map_of remote ''inputRequests'')) of
        Some d \<Rightarrow> d
      | None \<Rightarrow> (case as_obj (or_null (map_of remote ''input_requests'')) of Some d \<Rightarrow> d | None \<Rightarrow> []))"

definition canonical_remote :: "(string, json) dict \<Rightarrow> (string, json) dict" where
  "canonical_remote remote =
     (let outstanding = outstanding_input_requests remote in
      if outstanding = [] then remote
      else AList.update ''inputRequests'' (JObj outstanding) (AList.delete ''input_requests'' remote))"

definition is_obj :: "json \<Rightarrow> bool" where
  "is_obj v = (as_obj v \<noteq> None)"

definition validate_detailed_task :: "task_status \<Rightarrow> (string, json) dict \<Rightarrow> task_error + unit" where
  "validate_detailed_task status payload =
     (if status = Task_Input_Required
         \<and> \<not> is_obj (py_or (or_null (map_of payload ''inputRequests''))
                                 (or_null (map_of payload ''input_requests'')))
      then Inl InputRequestsMissing
      else if status = Task_Completed \<and> \<not> is_obj (or_null (map_of payload ''result'')) then Inl ResultMissing
      else if status = Task_Failed \<and> \<not> is_obj (or_null (map_of payload ''error'')) then Inl ErrorMissing
      else Inr ())"

definition record_remote ::
  "task_env \<Rightarrow> string \<Rightarrow> string \<Rightarrow> string \<Rightarrow> (string, json) dict \<Rightarrow> string option \<Rightarrow> task_store \<Rightarrow>
     (task_error + task_handle) \<times> task_store" where
  "record_remote env now server operation remote name store =
     (case py_or (or_null (map_of remote ''taskId'')) (or_null (map_of remote ''task_id'')) of
        JStr (c # cs) \<Rightarrow>
          (case task_status_of (or_null (map_of remote ''status'')) of
             None \<Rightarrow> (Inl (StatusInvalid (or_null (map_of remote ''status''))), store)
           | Some status \<Rightarrow>
               (case validate_detailed_task status remote of
                  Inl e \<Rightarrow> (Inl e, store)
                | Inr _ \<Rightarrow>
                    task_save env now
                      \<lparr>th_server = server, th_task = c # cs, th_status = status, th_operation = operation,
                       th_name = name, th_remote = canonical_remote remote, th_answered = [],
                       th_cancelled_at = None, th_first_seen = now, th_last_seen = now\<rparr> store))
      | _ \<Rightarrow> (Inl TaskIdMissing, store))"

definition validate_response_keys :: "task_handle \<Rightarrow> string list \<Rightarrow> task_error + unit" where
  "validate_response_keys h keys =
     (let duplicate = sort (filter (\<lambda>k. k \<in> set (th_answered h)) (remdups keys));
          outstanding = map fst (outstanding_input_requests (th_remote h));
          unknown = sort (filter (\<lambda>k. k \<notin> set outstanding) keys) in
      if keys = [] then Inl NoResponse
      else if duplicate \<noteq> [] then Inl (AlreadyAnswered duplicate)
      else if unknown \<noteq> [] then Inl (NotOutstanding unknown)
      else Inr ())"

definition mark_answered ::
  "task_env \<Rightarrow> string \<Rightarrow> string \<Rightarrow> string \<Rightarrow> string list \<Rightarrow> task_store \<Rightarrow>
     (task_error + task_handle) \<times> task_store" where
  "mark_answered env now server task keys store =
     (case task_get env store server task of
        Inl e \<Rightarrow> (Inl e, store)
      | Inr h \<Rightarrow>
          (case validate_response_keys h keys of
             Inl e \<Rightarrow> (Inl e, store)
           | Inr _ \<Rightarrow> task_save env now (h\<lparr>th_answered := th_answered h @ keys\<rparr>) store))"

definition mark_cancellation_requested ::
  "task_env \<Rightarrow> string \<Rightarrow> string \<Rightarrow> string \<Rightarrow> task_store \<Rightarrow> (task_error + task_handle) \<times> task_store" where
  "mark_cancellation_requested env now server task store =
     (case task_get env store server task of
        Inl e \<Rightarrow> (Inl e, store)
      | Inr h \<Rightarrow> task_save env now (h\<lparr>th_cancelled_at := Some now\<rparr>) store)"

datatype task_op =
    RecordRemote string string string "(string, json) dict" "string option"
  | MarkAnswered string string string "string list"
  | MarkCancellation string string string

fun task_step :: "task_env \<Rightarrow> task_op \<Rightarrow> task_store \<Rightarrow> (task_error + task_handle) \<times> task_store" where
  "task_step env (RecordRemote now server operation remote name) store =
     record_remote env now server operation remote name store"
| "task_step env (MarkAnswered now server task keys) store = mark_answered env now server task keys store"
| "task_step env (MarkCancellation now server task) store =
     mark_cancellation_requested env now server task store"

fun task_run :: "task_env \<Rightarrow> task_op list \<Rightarrow> task_store \<Rightarrow> task_store" where
  "task_run env [] store = store"
| "task_run env (op # ops) store = task_run env ops (snd (task_step env op store))"

subsection \<open>The order on handles that every operation respects\<close>

text \<open>
  A later handle of a record keeps its first sighting, its answered keys and a request for
  cancellation; a terminal status stays.
\<close>

definition handle_extends :: "task_handle \<Rightarrow> task_handle \<Rightarrow> bool" where
  "handle_extends h h' \<longleftrightarrow>
     (task_terminal h \<longrightarrow> th_status h' = th_status h)
     \<and> set (th_answered h) \<subseteq> set (th_answered h')
     \<and> (th_cancelled_at h \<noteq> None \<longrightarrow> th_cancelled_at h' \<noteq> None)
     \<and> th_first_seen h' = th_first_seen h"

definition store_extends :: "task_store \<Rightarrow> task_store \<Rightarrow> bool" where
  "store_extends store store' \<longleftrightarrow>
     (\<forall>path h. map_of store path = Some (Some h) \<longrightarrow>
        (\<exists>h'. map_of store' path = Some (Some h') \<and> handle_extends h h'))"

lemma handle_extends_refl [simp]: "handle_extends h h"
  by (simp add: handle_extends_def)

lemma handle_extends_trans: "handle_extends a b \<Longrightarrow> handle_extends b c \<Longrightarrow> handle_extends a c"
  by (auto simp: handle_extends_def task_terminal_def)

lemma store_extends_refl [simp]: "store_extends s s"
  by (simp add: store_extends_def)

lemma store_extends_trans: "store_extends a b \<Longrightarrow> store_extends b c \<Longrightarrow> store_extends a c"
  unfolding store_extends_def using handle_extends_trans by meson

lemma merge_extends:
  "\<not> (task_terminal existing \<and> th_status h \<noteq> th_status existing) \<Longrightarrow>
     handle_extends existing ((merge_handle existing h)\<lparr>th_last_seen := now\<rparr>)"
  by (auto simp: handle_extends_def merge_handle_def split: option.splits list.splits)

lemma update_extends:
  assumes "\<And>existing. map_of store path = Some (Some existing) \<Longrightarrow> handle_extends existing h"
  shows "store_extends store (AList.update path (Some h) store)"
  using assms by (auto simp: store_extends_def dict_get_update)

lemma save_extends: "store_extends store (snd (task_save env now h store))"
proof -
  let ?path = "task_path env (th_server h) (th_task h)"
  show ?thesis
  proof (cases "map_of store ?path")
    case None
    then show ?thesis
      by (auto simp: task_save_def find_record_def Let_def intro: update_extends)
  next
    case (Some found)
    show ?thesis
    proof (cases found)
      case None
      then show ?thesis using Some by (simp add: task_save_def find_record_def Let_def)
    next
      case (Some existing)
      with \<open>map_of store ?path = Some found\<close> merge_extends [of existing h now] show ?thesis
        by (auto simp: task_save_def find_record_def Let_def intro!: update_extends)
    qed
  qed
qed

lemma step_extends: "store_extends store (snd (task_step env op store))"
  by (cases op)
    (auto simp: record_remote_def mark_answered_def mark_cancellation_requested_def save_extends
      split: json.splits list.splits option.splits sum.splits)

lemma run_extends: "store_extends store (task_run env ops store)"
proof (induction ops arbitrary: store)
  case Nil
  then show ?case by simp
next
  case (Cons op ops)
  show ?case using store_extends_trans [OF step_extends Cons.IH] by simp
qed

lemma save_result:
  assumes "task_save env now h store = (Inr saved, store')"
  shows "map_of store' (task_path env (th_server h) (th_task h)) = Some (Some saved)"
    and "set (th_answered h) \<subseteq> set (th_answered saved)"
  using assms
  by (auto simp: task_save_def Let_def dict_get_update merge_handle_def split: if_splits sum.splits option.splits)

text \<open>
  C34. In any sequence of reports of a server, answers and cancellation requests, the handle stored at
  a path stays: a terminal status never changes, answered input keys and a request for cancellation
  are never lost, and the first sighting is kept.
\<close>

theorem task_handles_only_grow:
  assumes "map_of store path = Some (Some h)"
  shows "\<exists>h'. map_of (task_run env ops store) path = Some (Some h') \<and> handle_extends h h'"
  using run_extends assms unfolding store_extends_def by blast

lemma sort_eq_Nil_iff [simp]: "sort xs = [] \<longleftrightarrow> xs = []"
  by (metis set_empty set_sort)

text \<open>
  An input key of a task is answered at most once: an accepted answer answers keys that the
  server asked for and that no handle of the record had as answered, and after it any further answer
  with one of them is refused, whatever happens in between.
\<close>

theorem input_key_answered_once:
  assumes first: "mark_answered env now server task keys store = (Inr h, store')"
    and wellplaced: "\<And>h0. task_get env store server task = Inr h0 \<Longrightarrow> th_server h0 = server \<and> th_task h0 = task"
    and again: "mark_answered env now' server task keys' (task_run env ops store') = (r, store'')"
    and overlap: "set keys \<inter> set keys' \<noteq> {}"
  shows "(\<exists>e. r = Inl e) \<and> store'' = task_run env ops store'
    \<and> (\<exists>h0. task_get env store server task = Inr h0 \<and> set keys \<inter> set (th_answered h0) = {}
         \<and> set keys \<subseteq> fst ` set (outstanding_input_requests (th_remote h0)))"
proof -
  obtain h0 where get: "task_get env store server task = Inr h0"
    and valid: "validate_response_keys h0 keys = Inr ()"
    and save: "task_save env now (h0\<lparr>th_answered := th_answered h0 @ keys\<rparr>) store = (Inr h, store')"
    using first by (auto simp: mark_answered_def split: sum.splits)
  have place: "th_server h0 = server" "th_task h0 = task" using wellplaced [OF get] by auto
  let ?path = "task_path env server task"
  have stored: "map_of store' ?path = Some (Some h)" and grown: "set keys \<subseteq> set (th_answered h)"
    using save_result [OF save] place by auto
  obtain h' where h': "map_of (task_run env ops store') ?path = Some (Some h')" "handle_extends h h'"
    using run_extends [of store' env ops] stored unfolding store_extends_def by blast
  then have refused: "validate_response_keys h' keys' \<noteq> Inr ()"
    using grown overlap
    by (auto simp: validate_response_keys_def handle_extends_def Let_def filter_empty_conv)
  have get': "task_get env (task_run env ops store') server task = Inr h'"
    using h' by (simp add: task_get_def find_record_def)
  have "(\<exists>e. r = Inl e) \<and> store'' = task_run env ops store'"
    using again refused get' by (auto simp: mark_answered_def split: sum.splits)
  moreover have "set keys \<inter> set (th_answered h0) = {}"
    "set keys \<subseteq> fst ` set (outstanding_input_requests (th_remote h0))"
    using valid
    by (auto simp: validate_response_keys_def Let_def filter_empty_conv split: if_splits)
  ultimately show ?thesis using get by auto
qed

subsection \<open>A task that asks for input\<close>

definition task_env_example :: task_env where
  "task_env_example = \<lparr>te_hash = (\<lambda>s. s), te_dumps = canonical_json (\<lambda>_. ''0.0''), te_max_bytes = 10000\<rparr>"

definition task_report :: "string \<Rightarrow> (string, json) dict" where
  "task_report status =
     [(''taskId'', JStr ''t''), (''status'', JStr status), (''result'', JObj []),
      (''inputRequests'', JObj [(''k'', JNull)])]"

definition task_store_example :: task_store where
  "task_store_example =
     task_run task_env_example [RecordRemote ''1'' ''srv'' ''call'' (task_report ''input_required'') None] []"

lemma task_store_example_handle:
  "\<exists>h. map_of task_store_example (task_path task_env_example ''srv'' ''t'') = Some (Some h)
     \<and> th_server h = ''srv'' \<and> th_task h = ''t''"
proof -
  have "(case map_of task_store_example (task_path task_env_example ''srv'' ''t'') of
           Some (Some h) \<Rightarrow> th_server h = ''srv'' \<and> th_task h = ''t'' | _ \<Rightarrow> False)"
    by code_simp
  then show ?thesis by (auto split: option.splits)
qed

theorem task_handles_only_grow_witness:
  "\<exists>h h'. map_of task_store_example (task_path task_env_example ''srv'' ''t'') = Some (Some h)
     \<and> map_of (task_run task_env_example [RecordRemote ''2'' ''srv'' ''call'' (task_report ''completed'') None,
            RecordRemote ''3'' ''srv'' ''call'' (task_report ''working'') None] task_store_example)
          (task_path task_env_example ''srv'' ''t'') = Some (Some h')
     \<and> handle_extends h h'"
  using task_store_example_handle task_handles_only_grow by blast

lemma example_answer:
  "\<exists>h store'. mark_answered task_env_example ''4'' ''srv'' ''t'' [''k''] task_store_example = (Inr h, store')"
proof -
  have "case fst (mark_answered task_env_example ''4'' ''srv'' ''t'' [''k''] task_store_example) of
          Inr h \<Rightarrow> True | Inl e \<Rightarrow> False"
    by code_simp
  then show ?thesis
    by (cases "mark_answered task_env_example ''4'' ''srv'' ''t'' [''k''] task_store_example")
      (auto split: sum.splits)
qed

theorem input_key_answered_once_witness:
  "\<exists>h0 e store'. task_get task_env_example task_store_example ''srv'' ''t'' = Inr h0
     \<and> fst (mark_answered task_env_example ''5'' ''srv'' ''t'' [''k''] (task_run task_env_example [] store')) = Inl e"
proof -
  obtain h store' where first:
    "mark_answered task_env_example ''4'' ''srv'' ''t'' [''k''] task_store_example = (Inr h, store')"
    using example_answer by blast
  obtain r store'' where again:
    "mark_answered task_env_example ''5'' ''srv'' ''t'' [''k''] (task_run task_env_example [] store') = (r, store'')"
    by (cases "mark_answered task_env_example ''5'' ''srv'' ''t'' [''k''] (task_run task_env_example [] store')")
  obtain hx where hx: "map_of task_store_example (task_path task_env_example ''srv'' ''t'') = Some (Some hx)"
    "th_server hx = ''srv''" "th_task hx = ''t''"
    using task_store_example_handle by blast
  then have get: "task_get task_env_example task_store_example ''srv'' ''t'' = Inr hx"
    by (simp add: task_get_def find_record_def)
  have "(\<exists>e. r = Inl e)"
    using input_key_answered_once [OF first _ again] get hx(2,3) by simp
  with again get show ?thesis by (metis fst_conv)
qed

text \<open>
  A report with an empty \<open>inputRequests\<close> beside a filled \<open>input_requests\<close> passes the check of a
  detailed task, yet nothing is outstanding, so that every answer is refused.
\<close>

lemma empty_spelling_hides_requests:
  assumes "keys \<noteq> []"
  shows "let remote = [(''inputRequests'', JObj []), (''input_requests'', JObj [(''k'', JNull)])] in
     validate_detailed_task Task_Input_Required remote = Inr ()
     \<and> (th_remote h = canonical_remote remote \<longrightarrow> validate_response_keys h keys \<noteq> Inr ())"
proof -
  show ?thesis
    using assms
    by (simp add: validate_detailed_task_def canonical_remote_def outstanding_input_requests_def
        validate_response_keys_def py_or_def or_null_def is_obj_def Let_def)
qed

end
