(* ===== verification/Gateway_Adapters.thy ===== *)
theory Gateway_Adapters
  imports Json_Value Loro_Prelude
begin

text \<open>
  \<open>src/loro/gateway/adapters.py\<close>: how a webhook of a chat platform becomes a channel message. Every
  branch checks the signature before it parses the body. HMAC, base64, Ed25519 and the JSON reader are
  parameters, and so is the clock. An exception that is no adapter error (a method call on a value of
  the wrong type) is the error AdapterCrash. The lemmas show that a parsed message was signed, and that
  the explicit stack of the Discord options visits what a recursive descent would.
\<close>

subsection \<open>Data\<close>

record gateway_identity =
  gi_subject :: string
  gi_tenant :: string

record gateway_endpoint =
  gp_platform :: string
  gp_enabled :: bool
  gp_route :: string
  gp_credentials :: "(string, string) dict"
  gp_identities :: "(string, gateway_identity) dict"
  gp_allowed_workspaces :: "string list"
  gp_allowed_channels :: "string list"
  gp_ephemeral :: bool
  gp_signed_timestamp :: bool
  gp_oidc_audience :: "string option"

record channel_message =
  cm_platform :: string
  cm_endpoint :: string
  cm_id :: string
  cm_user :: string
  cm_channel :: string
  cm_text :: string
  cm_workspace :: string
  cm_response :: "(string, string) dict"

record inbound_result =
  in_status :: nat
  in_response :: "(string, json) dict"
  in_message :: "channel_message option"

datatype adapter_error =
    SecretMissing string
  | BadTimestamp
  | StaleRequest
  | BadSignature
  | BadSecretEncoding
  | BodyNotJson
  | BodyNotObject
  | TimestampRequired
  | UnsupportedPlatform string
  | UnsupportedEvent
  | AdapterCrash

text \<open>
  \<open>ga_hmac key body\<close> is the hexadecimal HMAC-SHA256, \<open>ga_teams_hmac\<close> the base64 one under a key that
  is base64 itself (None when it does not decode), \<open>ga_ed25519\<close> the verification under hexadecimal
  key and signature (False when a part is malformed).
\<close>

record adapter_env =
  ga_hmac :: "string \<Rightarrow> string \<Rightarrow> string"
  ga_teams_hmac :: "string \<Rightarrow> string \<Rightarrow> string option"
  ga_ed25519 :: "string \<Rightarrow> string \<Rightarrow> string \<Rightarrow> bool"
  ga_loads :: "string \<Rightarrow> json option"
  ga_repr :: "json \<Rightarrow> string"
  ga_now :: int
  ga_max_age :: int

subsection \<open>Headers, digests and timestamps\<close>

definition normalized_headers :: "(string, string) dict \<Rightarrow> (string, string) dict" where
  "normalized_headers headers = fold (\<lambda>(k, v). AList.update (casefold k) v) headers []"

definition header :: "(string, string) dict \<Rightarrow> string \<Rightarrow> string \<Rightarrow> string" where
  "header headers name d = (case map_of headers name of Some v \<Rightarrow> v | None \<Rightarrow> d)"

definition utf8_encode :: "string \<Rightarrow> string" where
  "utf8_encode s =
     concat (map (\<lambda>c. if code c < 128 then [c]
                      else [char_of (192 + code c div 64), char_of (128 + code c mod 64)]) s)"

text \<open>The supplied text comes from a header, so that its Latin-1 encoding is the text itself.\<close>

definition digest_equal :: "string \<Rightarrow> string \<Rightarrow> bool" where
  "digest_equal expected supplied = (utf8_encode expected = supplied)"

definition fresh_timestamp :: "adapter_env \<Rightarrow> string \<Rightarrow> adapter_error + unit" where
  "fresh_timestamp env value =
     (case int_of_str value of
        None \<Rightarrow> Inl BadTimestamp
      | Some timestamp \<Rightarrow> require (\<bar>ga_now env - timestamp\<bar> \<le> ga_max_age env) StaleRequest)"

definition verify_slack ::
  "adapter_env \<Rightarrow> (string, string) dict \<Rightarrow> string \<Rightarrow> string \<Rightarrow> adapter_error + unit" where
  "verify_slack env headers body signing_secret =
     (let timestamp = header headers ''x-slack-request-timestamp'' [];
          signature = header headers ''x-slack-signature'' [];
          expected = ''v0='' @ ga_hmac env signing_secret (''v0:'' @ timestamp @ '':'' @ body) in
      res_bind (fresh_timestamp env timestamp) (\<lambda>_.
        require (signature \<noteq> [] \<and> digest_equal expected signature) BadSignature))"

definition verify_discord ::
  "adapter_env \<Rightarrow> (string, string) dict \<Rightarrow> string \<Rightarrow> string \<Rightarrow> adapter_error + unit" where
  "verify_discord env headers body public_key =
     (let timestamp = header headers ''x-signature-timestamp'' [] in
      res_bind (fresh_timestamp env timestamp) (\<lambda>_.
        require (ga_ed25519 env public_key (header headers ''x-signature-ed25519'' []) (timestamp @ body))
          BadSignature))"

definition verify_bridge ::
  "adapter_env \<Rightarrow> string \<Rightarrow> (string, string) dict \<Rightarrow> string \<Rightarrow> string \<Rightarrow> adapter_error + unit" where
  "verify_bridge env platform headers body signing_secret =
     (let authorization = remove_prefix (header headers ''authorization'' []) ''HMAC '' in
      if platform \<noteq> ''teams''
      then let supplied = remove_prefix (header headers ''x-loro-signature'' authorization) ''sha256='' in
           require (supplied \<noteq> [] \<and> digest_equal (ga_hmac env signing_secret body) supplied) BadSignature
      else case ga_teams_hmac env signing_secret body of
             None \<Rightarrow> Inl BadSecretEncoding
           | Some expected \<Rightarrow>
               require (authorization \<noteq> [] \<and> digest_equal expected authorization) BadSignature)"

definition parse_payload :: "adapter_env \<Rightarrow> string \<Rightarrow> adapter_error + (string, json) dict" where
  "parse_payload env body =
     (case ga_loads env body of
        None \<Rightarrow> Inl BodyNotJson
      | Some v \<Rightarrow> (case as_obj v of Some d \<Rightarrow> Inr d | None \<Rightarrow> Inl BodyNotObject))"

definition verify_bridge_freshness :: "adapter_env \<Rightarrow> (string, json) dict \<Rightarrow> adapter_error + unit" where
  "verify_bridge_freshness env payload =
     (case or_null (map_of payload ''timestamp'') of
        JNull \<Rightarrow> Inl TimestampRequired
      | raw \<Rightarrow> fresh_timestamp env (py_str (ga_repr env) raw))"

subsection \<open>The options of a Discord command\<close>

definition max_option_depth :: nat where "max_option_depth = 8"

definition max_option_values :: nat where "max_option_values = 64"

definition list_items :: "json \<Rightarrow> json list" where
  "list_items v = (case v of JArr xs \<Rightarrow> xs | _ \<Rightarrow> [])"

text \<open>The list under \<open>options\<close>, when there is one.\<close>

definition nested_options :: "json \<Rightarrow> json list option" where
  "nested_options v =
     (case as_obj v of
        None \<Rightarrow> None
      | Some d \<Rightarrow> (case or_null (map_of d ''options'') of JArr xs \<Rightarrow> Some xs | _ \<Rightarrow> None))"

definition option_value :: "adapter_env \<Rightarrow> json \<Rightarrow> string list" where
  "option_value env v =
     (case as_obj v of
        Some d \<Rightarrow> (case map_of d ''value'' of Some x \<Rightarrow> [py_str (ga_repr env) x] | None \<Rightarrow> [])
      | None \<Rightarrow> [])"

fun json_weight :: "json \<Rightarrow> nat" where
  "json_weight (JArr xs) = Suc (sum_list (map json_weight xs))"
| "json_weight (JObj d) = Suc (sum_list (map (\<lambda>e. json_weight (snd e)) d))"
| "json_weight _ = 1"

lemma member_weight: "v \<in> set xs \<Longrightarrow> json_weight v \<le> sum_list (map json_weight xs)"
  by (induction xs) auto

lemma dict_weight: "map_of d k = Some v \<Longrightarrow> json_weight v \<le> sum_list (map (\<lambda>e. json_weight (snd e)) d)"
  by (induction d) (auto split: if_splits)

lemma json_weight_pos: "0 < json_weight v"
  by (cases v) auto

lemma nested_weight:
  assumes "nested_options v = Some xs"
  shows "sum_list (map json_weight xs) < json_weight v"
proof -
  obtain d where v: "v = JObj d" and xs: "or_null (map_of d ''options'') = JArr xs"
    using assms by (auto simp: nested_options_def split: option.splits json.splits)
  from xs have "map_of d ''options'' = Some (JArr xs)"
    by (auto simp: or_null_def split: option.splits)
  from dict_weight [OF this] v show ?thesis by simp
qed

definition stack_weight :: "(json list \<times> nat) list \<Rightarrow> nat" where
  "stack_weight stack = sum_list (map (\<lambda>(items, depth). Suc (sum_list (map (\<lambda>v. 2 * json_weight v) items))) stack)"

text \<open>The loop: the stack holds the rest of every open list with its depth.\<close>

lemma sum_twice: "sum_list (map (\<lambda>v. 2 * json_weight v) xs) = 2 * sum_list (map json_weight xs)"
  by (induction xs) auto

function discord_loop :: "adapter_env \<Rightarrow> string list \<Rightarrow> (json list \<times> nat) list \<Rightarrow> string list" where
  "discord_loop env texts [] = texts"
| "discord_loop env texts (([], depth) # stack) = discord_loop env texts stack"
| "discord_loop env texts ((opt # items, depth) # stack) =
     (let texts' = (if length texts < max_option_values then texts @ option_value env opt else texts) in
      case nested_options opt of
        Some nested \<Rightarrow>
          if Suc depth < max_option_depth
          then discord_loop env texts' ((nested, Suc depth) # (items, depth) # stack)
          else discord_loop env texts' ((items, depth) # stack)
      | None \<Rightarrow> discord_loop env texts' ((items, depth) # stack))"
  by pat_completeness auto

termination
  by (relation "measure (\<lambda>(env, texts, stack). stack_weight stack)")
    (auto simp: stack_weight_def sum_twice json_weight_pos dest!: nested_weight)

definition discord_text :: "adapter_env \<Rightarrow> (string, json) dict \<Rightarrow> string" where
  "discord_text env data =
     (let name = py_str (ga_repr env) (py_or (or_null (map_of data ''name'')) (JStr ''loro''));
          texts = discord_loop env [] [(list_items (or_null (map_of data ''options'')), 0)];
          text = py_join '' '' texts in
      if text = [] then name else text)"

text \<open>The reference: pre-order descent to the depth limit, cut to the number of values.\<close>

function option_texts :: "adapter_env \<Rightarrow> nat \<Rightarrow> json list \<Rightarrow> string list" where
  "option_texts env depth [] = []"
| "option_texts env depth (v # vs) =
     option_value env v
     @ (case nested_options v of
          Some nested \<Rightarrow> if Suc depth < max_option_depth then option_texts env (Suc depth) nested else []
        | None \<Rightarrow> [])
     @ option_texts env depth vs"
  by pat_completeness auto
termination
  by (relation "measure (\<lambda>(env, depth, vs). sum_list (map json_weight vs))")
    (auto simp: json_weight_pos dest!: nested_weight)

definition stack_texts :: "adapter_env \<Rightarrow> (json list \<times> nat) list \<Rightarrow> string list" where
  "stack_texts env stack = concat (map (\<lambda>(items, depth). option_texts env depth items) stack)"

lemma option_value_length: "length (option_value env v) \<le> 1"
  by (auto simp: option_value_def split: option.splits)

lemma take_step:
  assumes "length texts \<le> n" and "length new \<le> 1"
  shows "(if length texts < n then texts @ new else texts) @ take (n - length (if length texts < n then texts @ new else texts)) rest
    = texts @ take (n - length texts) (new @ rest)"
  using assms by (cases new) (auto simp: take_Cons')

lemma discord_loop_texts:
  assumes "length texts \<le> max_option_values"
  shows "discord_loop env texts stack = texts @ take (max_option_values - length texts) (stack_texts env stack)"
  using assms
proof (induction env texts stack rule: discord_loop.induct)
  case (1 env texts)
  then show ?case by (simp add: stack_texts_def)
next
  case (2 env texts depth stack)
  then show ?case by (simp add: stack_texts_def)
next
  case (3 env texts opt items depth stack)
  let ?texts = "if length texts < max_option_values then texts @ option_value env opt else texts"
  have bound: "length ?texts \<le> max_option_values"
    using "3.prems" option_value_length [of env opt] by simp
  have push: "discord_loop env texts ((opt # items, depth) # stack)
      = texts @ take (max_option_values - length texts) (stack_texts env ((opt # items, depth) # stack))"
    if "discord_loop env texts ((opt # items, depth) # stack) = discord_loop env ?texts rest"
      and "discord_loop env ?texts rest = ?texts @ take (max_option_values - length ?texts) (stack_texts env rest)"
      and "stack_texts env ((opt # items, depth) # stack) = option_value env opt @ stack_texts env rest" for rest
    unfolding that(3) unfolding that(1) that(2)
    by (rule take_step [OF "3.prems" option_value_length])
  show ?case
  proof (cases "nested_options opt")
    case None
    then show ?thesis
      using "3.IH"(1) [OF refl None bound]
      by (intro push [of "(items, depth) # stack"]) (simp_all add: stack_texts_def Let_def)
  next
    case (Some nested)
    show ?thesis
    proof (cases "Suc depth < max_option_depth")
      case True
      then show ?thesis
        using "3.IH"(2) [OF refl Some True bound] Some
        by (intro push [of "(nested, Suc depth) # (items, depth) # stack"]) (simp_all add: stack_texts_def Let_def)
    next
      case False
      then show ?thesis
        using "3.IH"(3) [OF refl Some False bound] Some
        by (intro push [of "(items, depth) # stack"]) (simp_all add: stack_texts_def Let_def)
    qed
  qed
qed

subsection \<open>Parsing a webhook\<close>

definition get_or :: "(string, json) dict \<Rightarrow> string \<Rightarrow> json" where
  "get_or d k = or_null (map_of d k)"

text \<open>\<open>str(d.get(k, ""))\<close>, and \<open>value or {}\<close> used as a dictionary.\<close>

definition text_of :: "adapter_env \<Rightarrow> (string, json) dict \<Rightarrow> string \<Rightarrow> string" where
  "text_of env d k = (case map_of d k of Some v \<Rightarrow> py_str (ga_repr env) v | None \<Rightarrow> [])"

definition dict_or_empty :: "json \<Rightarrow> adapter_error + (string, json) dict" where
  "dict_or_empty v = (case as_obj (py_or v (JObj [])) of Some d \<Rightarrow> Inr d | None \<Rightarrow> Inl AdapterCrash)"

definition num_is :: "json \<Rightarrow> int \<Rightarrow> bool" where
  "num_is v n = (as_int v = Some n \<or> v = JFloat (of_int n))"

definition plain_result :: "(string, json) dict \<Rightarrow> inbound_result" where
  "plain_result response = \<lparr>in_status = 200, in_response = response, in_message = None\<rparr>"

definition slack_message :: "adapter_env \<Rightarrow> string \<Rightarrow> (string, json) dict \<Rightarrow> adapter_error + inbound_result" where
  "slack_message env endpoint_id payload =
     (if get_or payload ''type'' = JStr ''url_verification''
      then Inr (plain_result [(''challenge'', case map_of payload ''challenge'' of Some v \<Rightarrow> v | None \<Rightarrow> JStr [])])
      else res_bind (dict_or_empty (get_or payload ''event'')) (\<lambda>event.
        if get_or event ''type'' \<noteq> JStr ''message'' then Inl UnsupportedEvent
        else if truthy (get_or event ''bot_id'') \<or> get_or event ''subtype'' = JStr ''bot_message''
        then Inr (plain_result [])
        else Inr \<lparr>in_status = 200, in_response = [],
          in_message = Some
            \<lparr>cm_platform = ''slack'', cm_endpoint = endpoint_id,
             cm_id = py_str (ga_repr env)
               (py_or (get_or event ''client_msg_id'')
                  (py_or (get_or event ''ts'')
                     (case map_of payload ''event_id'' of Some v \<Rightarrow> v | None \<Rightarrow> JStr []))),
             cm_user = text_of env event ''user'', cm_channel = text_of env event ''channel'',
             cm_text = text_of env event ''text'', cm_workspace = text_of env payload ''team_id'',
             cm_response = [(''channel'', text_of env event ''channel'')]\<rparr>\<rparr>))"

definition discord_message ::
  "adapter_env \<Rightarrow> string \<Rightarrow> bool \<Rightarrow> (string, json) dict \<Rightarrow> adapter_error + inbound_result" where
  "discord_message env endpoint_id ephemeral payload =
     (if num_is (get_or payload ''type'') 1 then Inr (plain_result [(''type'', JInt 1)])
      else if \<not> num_is (get_or payload ''type'') 2 then Inl UnsupportedEvent
      else res_bind (dict_or_empty (get_or payload ''member'')) (\<lambda>member.
           res_bind (dict_or_empty (py_or (get_or member ''user'') (get_or payload ''user''))) (\<lambda>user.
           res_bind (dict_or_empty (get_or payload ''data'')) (\<lambda>data.
             Inr \<lparr>in_status = 200,
               in_response = [(''type'', JInt 5), (''data'', JObj [(''flags'', JInt (if ephemeral then 64 else 0))])],
               in_message = Some
                 \<lparr>cm_platform = ''discord'', cm_endpoint = endpoint_id, cm_id = text_of env payload ''id'',
                  cm_user = text_of env user ''id'',
                  cm_channel = py_str (ga_repr env)
                    (py_or (get_or payload ''channel_id'') (py_or (get_or payload ''guild_id'') (JStr ''dm''))),
                  cm_text = discord_text env data,
                  cm_workspace = py_str (ga_repr env) (py_or (get_or payload ''guild_id'') (JStr ''dm'')),
                  cm_response = [(''application_id'', text_of env payload ''application_id''),
                                 (''token'', text_of env payload ''token'')]\<rparr>\<rparr>))))"

definition telegram_message :: "adapter_env \<Rightarrow> string \<Rightarrow> (string, json) dict \<Rightarrow> adapter_error + inbound_result" where
  "telegram_message env endpoint_id payload =
     (if map_of payload ''message'' = None \<and> map_of payload ''edited_message'' = None then Inl UnsupportedEvent
      else res_bind (dict_or_empty (py_or (get_or payload ''message'') (get_or payload ''edited_message''))) (\<lambda>message.
           res_bind (dict_or_empty (get_or message ''from'')) (\<lambda>sender.
           res_bind (dict_or_empty (get_or message ''chat'')) (\<lambda>chat.
             Inr \<lparr>in_status = 200, in_response = [],
               in_message = Some
                 \<lparr>cm_platform = ''telegram'', cm_endpoint = endpoint_id, cm_id = text_of env payload ''update_id'',
                  cm_user = text_of env sender ''id'', cm_channel = text_of env chat ''id'',
                  cm_text = py_str (ga_repr env)
                    (py_or (get_or message ''text'') (py_or (get_or message ''caption'') (JStr []))),
                  cm_workspace = text_of env chat ''id'',
                  cm_response = [(''chat_id'', text_of env chat ''id'')]\<rparr>\<rparr>))))"

definition bridge_event :: "json \<Rightarrow> adapter_error + unit" where
  "bridge_event v =
     (case v of
        JNull \<Rightarrow> Inr ()
      | JStr s \<Rightarrow> require (s = ''message'' \<or> s = ''signed_bridge_message'') UnsupportedEvent
      | JArr xs \<Rightarrow> Inl AdapterCrash
      | JObj d \<Rightarrow> Inl AdapterCrash
      | _ \<Rightarrow> Inl UnsupportedEvent)"

definition bridge_message ::
  "adapter_env \<Rightarrow> string \<Rightarrow> gateway_endpoint \<Rightarrow> (string, json) dict \<Rightarrow> adapter_error + inbound_result" where
  "bridge_message env endpoint_id cfg payload =
     (let platform = gp_platform cfg; str = py_str (ga_repr env) in
      res_bind (bridge_event (get_or payload ''type'')) (\<lambda>_.
      res_bind (if gp_signed_timestamp cfg then verify_bridge_freshness env payload else Inr ()) (\<lambda>_.
      res_bind (dict_or_empty (get_or payload ''from'')) (\<lambda>sender.
      res_bind (dict_or_empty (get_or payload ''conversation'')) (\<lambda>conversation.
        Inr \<lparr>in_status = 200,
          in_response = (if platform = ''teams''
             then [(''type'', JStr ''message''), (''text'', JStr ''Loro accepted this task for processing.'')]
             else [(''accepted'', JBool True)]),
          in_message = Some
            \<lparr>cm_platform = platform, cm_endpoint = endpoint_id,
             cm_id = str (py_or (get_or payload ''id'') (py_or (get_or payload ''message_id'') (JStr []))),
             cm_user = str (py_or (get_or sender ''id'') (py_or (get_or payload ''user_id'') (JStr []))),
             cm_channel = str (py_or (get_or conversation ''id'') (py_or (get_or payload ''channel_id'') (JStr []))),
             cm_text = str (py_or (get_or payload ''text'') (JStr [])),
             cm_workspace = str (py_or (get_or payload ''tenant_id'') (py_or (get_or payload ''workspace_id'') (JStr []))),
             cm_response = []\<rparr>\<rparr>)))))"

definition verify_telegram :: "(string, string) dict \<Rightarrow> string \<Rightarrow> adapter_error + unit" where
  "verify_telegram headers expected =
     (let supplied = header headers ''x-telegram-bot-api-secret-token'' [] in
      require (supplied \<noteq> [] \<and> digest_equal expected supplied) BadSignature)"

definition parse_inbound ::
  "adapter_env \<Rightarrow> string \<Rightarrow> gateway_endpoint \<Rightarrow> (string, string) dict \<Rightarrow> string \<Rightarrow>
     (string \<Rightarrow> adapter_error + string) \<Rightarrow> adapter_error + inbound_result" where
  "parse_inbound env endpoint_id cfg raw_headers body secret =
     (let headers = normalized_headers raw_headers; platform = gp_platform cfg in
      if platform = ''slack'' then
        res_bind (secret ''signing-secret'') (\<lambda>key. res_bind (verify_slack env headers body key) (\<lambda>_.
          res_bind (parse_payload env body) (slack_message env endpoint_id)))
      else if platform = ''discord'' then
        res_bind (secret ''public-key'') (\<lambda>key. res_bind (verify_discord env headers body key) (\<lambda>_.
          res_bind (parse_payload env body) (discord_message env endpoint_id (gp_ephemeral cfg))))
      else if platform = ''telegram'' then
        res_bind (secret ''webhook-secret'') (\<lambda>expected. res_bind (verify_telegram headers expected) (\<lambda>_.
          res_bind (parse_payload env body) (telegram_message env endpoint_id)))
      else if platform = ''teams'' \<or> platform = ''signal'' \<or> platform = ''generic'' then
        res_bind (secret ''signing-secret'') (\<lambda>key. res_bind (verify_bridge env platform headers body key) (\<lambda>_.
          res_bind (parse_payload env body) (bridge_message env endpoint_id cfg)))
      else Inl (UnsupportedPlatform platform))"

subsection \<open>What a parsed webhook has shown\<close>

definition recent :: "adapter_env \<Rightarrow> string \<Rightarrow> bool" where
  "recent env value \<longleftrightarrow> (\<exists>t. int_of_str value = Some t \<and> \<bar>ga_now env - t\<bar> \<le> ga_max_age env)"

text \<open>The request carries the signature of its platform over its body under the secret of the endpoint.\<close>

definition signed_request ::
  "adapter_env \<Rightarrow> gateway_endpoint \<Rightarrow> (string, string) dict \<Rightarrow> string \<Rightarrow> (string \<Rightarrow> adapter_error + string) \<Rightarrow> bool" where
  "signed_request env cfg headers body secret \<longleftrightarrow>
     (let platform = gp_platform cfg in
      if platform = ''slack'' then
        \<exists>key. secret ''signing-secret'' = Inr key \<and> recent env (header headers ''x-slack-request-timestamp'' [])
          \<and> header headers ''x-slack-signature'' [] = utf8_encode (''v0='' @ ga_hmac env key
               (''v0:'' @ header headers ''x-slack-request-timestamp'' [] @ '':'' @ body))
      else if platform = ''discord'' then
        \<exists>key. secret ''public-key'' = Inr key \<and> recent env (header headers ''x-signature-timestamp'' [])
          \<and> ga_ed25519 env key (header headers ''x-signature-ed25519'' [])
               (header headers ''x-signature-timestamp'' [] @ body)
      else if platform = ''telegram'' then
        \<exists>key. secret ''webhook-secret'' = Inr key \<and> key \<noteq> []
          \<and> header headers ''x-telegram-bot-api-secret-token'' [] = utf8_encode key
      else \<exists>key expected. secret ''signing-secret'' = Inr key
          \<and> (if platform = ''teams'' then ga_teams_hmac env key body = Some expected
             else expected = ga_hmac env key body)
          \<and> (\<exists>supplied. supplied \<noteq> [] \<and> supplied = utf8_encode expected
               \<and> (supplied = remove_prefix (header headers ''authorization'' []) ''HMAC ''
                  \<or> platform \<noteq> ''teams'' \<and>
                    supplied = remove_prefix (header headers ''x-loro-signature''
                      (remove_prefix (header headers ''authorization'' []) ''HMAC '')) ''sha256=''))
          \<and> (\<exists>payload. parse_payload env body = Inr payload
               \<and> (gp_signed_timestamp cfg \<longrightarrow>
                    recent env (py_str (ga_repr env) (get_or payload ''timestamp'')))))"

lemma fresh_timestamp_recent: "fresh_timestamp env value = Inr u \<longleftrightarrow> recent env value"
  by (auto simp: fresh_timestamp_def recent_def res_simps split: option.splits)

lemma utf8_encode_Nil [simp]: "utf8_encode [] = []"
  by (simp add: utf8_encode_def)

lemma freshness_recent:
  "verify_bridge_freshness env payload = Inr u \<Longrightarrow> recent env (py_str (ga_repr env) (get_or payload ''timestamp''))"
  by (auto simp: verify_bridge_freshness_def fresh_timestamp_recent get_or_def split: json.splits)

lemma bridge_message_recent:
  "bridge_message env e cfg payload = Inr r \<Longrightarrow> gp_signed_timestamp cfg \<Longrightarrow>
     recent env (py_str (ga_repr env) (get_or payload ''timestamp''))"
  by (auto simp: bridge_message_def Let_def res_simps dest: freshness_recent)

lemma parsed_request_is_signed:
  assumes "parse_inbound env e cfg headers body secret = Inr r"
  shows "signed_request env cfg (normalized_headers headers) body secret"
proof -
  consider "gp_platform cfg = ''slack''" | "gp_platform cfg = ''discord''" | "gp_platform cfg = ''telegram''"
    | "gp_platform cfg = ''teams''" | "gp_platform cfg \<in> {''signal'', ''generic''}"
    using assms by (auto simp: parse_inbound_def Let_def split: if_splits)
  then show ?thesis
  proof cases
    case 1
    then show ?thesis using assms
      by (auto simp: parse_inbound_def signed_request_def verify_slack_def digest_equal_def
          fresh_timestamp_recent res_simps Let_def)
  next
    case 2
    then show ?thesis using assms
      by (auto simp: parse_inbound_def signed_request_def verify_discord_def
          fresh_timestamp_recent res_simps Let_def)
  next
    case 3
    then show ?thesis using assms
      by (auto simp: parse_inbound_def signed_request_def verify_telegram_def digest_equal_def
          res_simps Let_def)
  next
    case 4
    then obtain key payload where k: "secret ''signing-secret'' = Inr key"
      "verify_bridge env ''teams'' (normalized_headers headers) body key = Inr ()"
      "parse_payload env body = Inr payload" "bridge_message env e cfg payload = Inr r"
      using assms by (auto simp: parse_inbound_def res_simps Let_def)
    then show ?thesis using 4 bridge_message_recent [OF k(4)]
      by (fastforce simp: signed_request_def verify_bridge_def digest_equal_def res_simps Let_def
          split: option.splits)
  next
    case 5
    then obtain key payload where k: "secret ''signing-secret'' = Inr key"
      "verify_bridge env (gp_platform cfg) (normalized_headers headers) body key = Inr ()"
      "parse_payload env body = Inr payload" "bridge_message env e cfg payload = Inr r"
      using assms by (auto simp: parse_inbound_def res_simps Let_def)
    then show ?thesis using 5 bridge_message_recent [OF k(4)]
      by (auto simp: signed_request_def verify_bridge_def digest_equal_def res_simps Let_def)
  qed
qed

text \<open>
  The text of a Discord command, gathered with an explicit stack, consists of the first 64 values
  that a recursive pre-order descent to depth eight finds, or is the name of the command.
\<close>

theorem discord_text_is_bounded_preorder:
  "discord_text env data =
     (let texts = take max_option_values (option_texts env 0 (list_items (or_null (map_of data ''options''))));
          name = py_or (or_null (map_of data ''name'')) (JStr ''loro'') in
      if py_join '' '' texts = [] then py_str (ga_repr env) name else py_join '' '' texts)"
  by (simp add: discord_text_def discord_loop_texts stack_texts_def py_or_def Let_def)

end
