(* ===== verification/Tool_Calls.thy ===== *)
theory Tool_Calls
  imports Approval_Stores Data_Protection
begin

text \<open>
  \<open>src/loro/tool_runtime.py\<close> with \<open>src/loro/tools/files.py\<close> and the hooks of
  \<open>src/loro/plugins.py\<close>: tool directives, the names of MCP tools, ToolRegistry.execute with its hooks,
  allowlist, dispatch and output protection, the authorization of a call, and the file tools. The
  other handlers, which reach processes, networks and stores, are the parameter \<open>tn_other\<close>; the human
  who answers an approval request is \<open>tn_provider\<close>. The lemmas show that a call of the model is
  authorized by the policy or a human and never by its own arguments.
\<close>

subsection \<open>Calls and directives\<close>

datatype call_origin = From_User | From_Model

record runtime_call =
  rc_name :: string
  rc_args :: "(string, json) dict"
  rc_origin :: call_origin

record tool_execution =
  tx_call :: runtime_call
  tx_ok :: bool
  tx_output :: string
  tx_metadata :: "(string, json) dict"

datatype directive_error = DirectiveNotJson | ArgumentsNotObject | DirectiveNotObject | DirectiveName | DirectiveArgs

definition parse_json_tool_call ::
  "(string \<Rightarrow> json option) \<Rightarrow> call_origin \<Rightarrow> string \<Rightarrow> directive_error + runtime_call" where
  "parse_json_tool_call loads origin raw =
     (case loads raw of
        None \<Rightarrow> Inl DirectiveNotJson
      | Some (JObj data) \<Rightarrow>
          (case or_null (map_of data ''name'') of
             JStr (c # cs) \<Rightarrow>
               (case map_of data ''args'' of
                  None \<Rightarrow> Inr \<lparr>rc_name = c # cs, rc_args = [], rc_origin = origin\<rparr>
                | Some (JObj args) \<Rightarrow> Inr \<lparr>rc_name = c # cs, rc_args = args, rc_origin = origin\<rparr>
                | Some _ \<Rightarrow> Inl DirectiveArgs)
           | _ \<Rightarrow> Inl DirectiveName)
      | Some _ \<Rightarrow> Inl DirectiveNotObject)"

definition parse_named_call ::
  "(string \<Rightarrow> json option) \<Rightarrow> call_origin \<Rightarrow> string \<Rightarrow> directive_error + runtime_call" where
  "parse_named_call loads origin directive =
     (let name = takeWhile (\<lambda>c. c \<noteq> CHR '' '') directive;
          raw_args = tl (dropWhile (\<lambda>c. c \<noteq> CHR '' '') directive) in
      if name = [] \<or> py_strip raw_args = []
      then Inr \<lparr>rc_name = (if name = [] then ''unknown'' else name), rc_args = [], rc_origin = origin\<rparr>
      else case loads raw_args of
             None \<Rightarrow> Inl DirectiveNotJson
           | Some (JObj args) \<Rightarrow> Inr \<lparr>rc_name = name, rc_args = args, rc_origin = origin\<rparr>
           | Some _ \<Rightarrow> Inl ArgumentsNotObject)"

fun parse_lines ::
  "(string \<Rightarrow> json option) \<Rightarrow> call_origin \<Rightarrow> string list \<Rightarrow> directive_error + runtime_call list" where
  "parse_lines loads origin [] = Inr []"
| "parse_lines loads origin (line # rest) =
     (let stripped = py_strip line in
      if \<not> starts_with stripped ''@tool '' then parse_lines loads origin rest
      else let directive = py_strip (remove_prefix stripped ''@tool '') in
           res_bind (if starts_with directive [CHR 0x7B] then parse_json_tool_call loads origin directive
                     else parse_named_call loads origin directive) (\<lambda>call.
           res_bind (parse_lines loads origin rest) (\<lambda>calls. Inr (call # calls))))"

definition parse_tool_calls ::
  "(string \<Rightarrow> json option) \<Rightarrow> call_origin \<Rightarrow> string \<Rightarrow> directive_error + runtime_call list" where
  "parse_tool_calls loads origin prompt = parse_lines loads origin (py_splitlines prompt)"

lemma parse_lines_origin:
  "parse_lines loads origin lines = Inr calls \<Longrightarrow> call \<in> set calls \<Longrightarrow> rc_origin call = origin"
  by (induction lines arbitrary: calls)
    (fastforce simp: res_simps Let_def parse_json_tool_call_def parse_named_call_def
      split: if_splits option.splits json.splits list.splits)+

subsection \<open>The environment and the state of a registry\<close>

datatype tool_error =
    ToolPermission permission_error
  | ToolApproval approval_error
  | ApprovalRefused
  | ProviderFailed
  | ModelApprovalUntrusted
  | NeedsTrustedUser
  | ToolResource resource_error
  | ArgumentMissing string
  | ArgumentInvalid string
  | FileMissing string
  | SensitiveContent
  | ToolProtection protection_error
  | HandlerFailed string

record 's tool_state =
  ts_approvals :: 's
  ts_files :: "(string, string) dict"
  ts_events :: "approval_event list"
  ts_tick :: nat

record ('s, 'h) tool_env =
  tn_fl :: "rat \<Rightarrow> string"
  tn_digest :: "string \<Rightarrow> string"
  tn_base_attr :: "string \<Rightarrow> bool"
  tn_decision_text :: "policy_value \<Rightarrow> string"
  tn_permissions :: permissions_config
  tn_ops :: "('s, 'h) store_ops"
  tn_approvals :: approvals_config
  tn_interactive :: bool
  tn_identity :: identity_context
  tn_provider :: "(approval_request \<Rightarrow> approval_scope option option) option"
  tn_id :: "nat \<Rightarrow> string"
  tn_clock :: "nat \<Rightarrow> int"
  tn_safety :: safety_config
  tn_scanners :: "(string \<Rightarrow> finding list) list"
  tn_allowed :: "string list option"
  tn_mcp_servers :: "string list"
  tn_expanduser :: "string \<Rightarrow> string"
  tn_resolve :: "string \<Rightarrow> string"
  tn_cwd :: string
  tn_repr :: "json \<Rightarrow> string"
  tn_message :: "tool_error \<Rightarrow> string"
  tn_other :: "runtime_call \<Rightarrow> 's tool_state \<Rightarrow> (tool_error + tool_execution) \<times> 's tool_state"

definition emit :: "approval_event list \<Rightarrow> 's tool_state \<Rightarrow> 's tool_state" where
  "emit evs st = st\<lparr>ts_events := ts_events st @ evs\<rparr>"

subsection \<open>Authorization\<close>

definition approved_flag :: "runtime_call \<Rightarrow> bool" where
  "approved_flag call = truthy (or_null (map_of (rc_args call) ''approved''))"

definition refuse :: "approval_request \<Rightarrow> tool_error \<Rightarrow> 's tool_state \<Rightarrow> (tool_error + unit) \<times> 's tool_state" where
  "refuse r e st = (Inl e, emit [EvDenied r] st)"

definition grant_and_use ::
  "('s, 'h) tool_env \<Rightarrow> approval_request \<Rightarrow> approval_scope \<Rightarrow> approval_method \<Rightarrow> 's tool_state \<Rightarrow>
     (tool_error + unit) \<times> 's tool_state" where
  "grant_and_use env r scope how st =
     (let now = tn_clock env (ts_tick st); approval_id = tn_id env (ts_tick st) in
      case grant (tn_fl env) (tn_digest env) (tn_ops env) (tn_approvals env) (tn_identity env) r scope how
             approval_id now (ts_approvals st) of
        Inl e \<Rightarrow> refuse r (ToolApproval e) st
      | Inr (rec, s', evs) \<Rightarrow>
          (case consume (tn_fl env) (tn_digest env) (tn_ops env) (tn_identity env) r (ap_id rec) now s' of
             (Inl e, s'', evs') \<Rightarrow> refuse r (ToolApproval e) (emit (evs @ evs') (st\<lparr>ts_approvals := s''\<rparr>))
           | (Inr used, s'', evs') \<Rightarrow> (Inr (), emit (evs @ evs') (st\<lparr>ts_approvals := s''\<rparr>))))"

definition ask_for_approval ::
  "('s, 'h) tool_env \<Rightarrow> runtime_call \<Rightarrow> approval_request \<Rightarrow> 's tool_state \<Rightarrow> (tool_error + unit) \<times> 's tool_state" where
  "ask_for_approval env call r st =
     (if rc_origin call = From_User \<and> approved_flag call then grant_and_use env r Once NonInteractive st
      else case (if tn_interactive env then tn_provider env else None) of
             Some ask \<Rightarrow>
               (case ask r of
                  None \<Rightarrow> refuse r ProviderFailed st
                | Some (Some scope) \<Rightarrow> grant_and_use env r scope Interactive st
                | Some None \<Rightarrow> refuse r ApprovalRefused st)
           | None \<Rightarrow>
               if rc_origin call = From_Model \<and> approved_flag call then refuse r ModelApprovalUntrusted st
               else refuse r NeedsTrustedUser st)"

definition request_approval ::
  "('s, 'h) tool_env \<Rightarrow> runtime_call \<Rightarrow> approval_request \<Rightarrow> 's tool_state \<Rightarrow> (tool_error + unit) \<times> 's tool_state" where
  "request_approval env call r st =
     (case consume_matching_session (tn_fl env) (tn_digest env) (tn_ops env) (tn_identity env) r
             (\<lambda>i. tn_clock env (ts_tick st)) (ts_approvals st) of
        (Inl e, s', evs) \<Rightarrow> (Inl (ToolApproval e), emit evs (st\<lparr>ts_approvals := s'\<rparr>))
      | (Inr (Some used), s', evs) \<Rightarrow> (Inr (), emit evs (st\<lparr>ts_approvals := s'\<rparr>))
      | (Inr None, s', evs) \<Rightarrow> ask_for_approval env call r (emit evs (st\<lparr>ts_approvals := s'\<rparr>)))"

definition call_decision :: "('s, 'h) tool_env \<Rightarrow> permission_request \<Rightarrow> permission_result" where
  "call_decision env preq = evaluate (tn_fl env) (tn_base_attr env) (tn_permissions env) preq"

definition call_request ::
  "('s, 'h) tool_env \<Rightarrow> runtime_call \<Rightarrow> permission_request \<Rightarrow> string \<Rightarrow> string \<Rightarrow> nat \<Rightarrow>
     approval_error + approval_request \<times> approval_event list" where
  "call_request env call preq target risk tick =
     make_request (tn_identity env) (req_tool preq @ ''.'' @ req_action preq) target (rc_args call)
       (call_decision env preq) (tn_decision_text env) risk (tn_id env tick) (tn_clock env tick)"

definition authorize_call ::
  "('s, 'h) tool_env \<Rightarrow> runtime_call \<Rightarrow> permission_request \<Rightarrow> string \<Rightarrow> string \<Rightarrow> 's tool_state \<Rightarrow>
     (tool_error + unit) \<times> 's tool_state" where
  "authorize_call env call preq target risk st =
     (let decided = result_decision (call_decision env preq) in
      if decided = Decided Deny then (Inl (ToolPermission (DeniedByPolicy (req_tool preq) (req_action preq))), st)
      else if decided = Decided Allow then (Inr (), st)
      else let st' = st\<lparr>ts_tick := Suc (ts_tick st)\<rparr> in
           case call_request env call preq target risk (ts_tick st) of
             Inl e \<Rightarrow> (Inl (ToolApproval e), st')
           | Inr (r, evs) \<Rightarrow> request_approval env call r (emit evs st'))"

subsection \<open>The file tools\<close>

text \<open>
  Files hold decoded text. Reading in text mode turns every line end into a line feed; writing leaves
  the text as it is.
\<close>

fun universal_newlines :: "string \<Rightarrow> string" where
  "universal_newlines [] = []"
| "universal_newlines [c] = (if code c = 13 then [CHR 0x0A] else [c])"
| "universal_newlines (c # d # cs) =
     (if code c = 13 then CHR 0x0A # (if code d = 10 then universal_newlines cs else universal_newlines (d # cs))
      else c # universal_newlines (d # cs))"

definition file_text :: "'s tool_state \<Rightarrow> string \<Rightarrow> tool_error + string" where
  "file_text st path =
     (case map_of (ts_files st) path of Some t \<Rightarrow> Inr (universal_newlines t) | None \<Rightarrow> Inl (FileMissing path))"

definition put_file :: "string \<Rightarrow> string \<Rightarrow> 's tool_state \<Rightarrow> 's tool_state" where
  "put_file path t st = st\<lparr>ts_files := AList.update path t (ts_files st)\<rparr>"

text \<open>\<open>text[:limit]\<close>, where a negative limit drops characters at the end.\<close>

definition slice_to :: "int \<Rightarrow> string \<Rightarrow> string" where
  "slice_to limit t = (if 0 \<le> limit then take (nat limit) t else take (length t - nat (- limit)) t)"

text \<open>\<open>text.count(old)\<close> and \<open>text.replace(old, new, count)\<close>, from left to right without overlaps.\<close>

function count_text :: "string \<Rightarrow> string \<Rightarrow> nat" where
  "count_text old t =
     (if old = [] then Suc (length t)
      else if length t < length old then 0
      else if starts_with t old then Suc (count_text old (drop (length old) t))
      else count_text old (tl t))"
  by pat_completeness auto
termination
  by (relation "measure (\<lambda>(old, t). length t)") (auto simp: not_less intro!: diff_less)

declare count_text.simps [simp del]

function replace_text :: "string \<Rightarrow> string \<Rightarrow> int \<Rightarrow> string \<Rightarrow> string" where
  "replace_text old new count t =
     (if count = 0 then t
      else if old = [] then new @ (case t of [] \<Rightarrow> [] | c # cs \<Rightarrow> c # replace_text old new (count - 1) cs)
      else if length t < length old then t
      else if starts_with t old then new @ replace_text old new (count - 1) (drop (length old) t)
      else hd t # replace_text old new count (tl t))"
  by pat_completeness auto
termination
  by (relation "measure (\<lambda>(old, new, count, t). length t)") (auto simp: not_less intro!: diff_less)

declare replace_text.simps [simp del]

definition arg :: "runtime_call \<Rightarrow> string \<Rightarrow> tool_error + json" where
  "arg call k = (case map_of (rc_args call) k of Some v \<Rightarrow> Inr v | None \<Rightarrow> Inl (ArgumentMissing k))"

definition arg_text :: "('s, 'h) tool_env \<Rightarrow> runtime_call \<Rightarrow> string \<Rightarrow> tool_error + string" where
  "arg_text env call k = res_bind (arg call k) (\<lambda>v. Inr (py_str (tn_repr env) v))"

definition arg_flag :: "runtime_call \<Rightarrow> string \<Rightarrow> bool" where
  "arg_flag call k = truthy (or_null (map_of (rc_args call) k))"

definition arg_int :: "runtime_call \<Rightarrow> string \<Rightarrow> int \<Rightarrow> tool_error + int" where
  "arg_int call k d =
     (case map_of (rc_args call) k of
        None \<Rightarrow> Inr d
      | Some v \<Rightarrow> (case py_int v of Some i \<Rightarrow> Inr i | None \<Rightarrow> Inl (ArgumentInvalid k)))"

definition file_resource :: "('s, 'h) tool_env \<Rightarrow> string \<Rightarrow> string \<Rightarrow> tool_error + resource" where
  "file_resource env path operation =
     (case filesystem_resource (tn_expanduser env) (tn_resolve env) path operation
             (perm_workspace_roots (tn_permissions env)) (tn_cwd env) of
        Inl e \<Rightarrow> Inl (ToolResource e)
      | Inr r \<Rightarrow> Inr r)"

definition file_request :: "string \<Rightarrow> resource \<Rightarrow> permission_request" where
  "file_request action r =
     \<lparr>req_tool = ''edit'', req_action = action, req_target = Some (res_field ''path'' r), req_resource = Some r\<rparr>"

definition assert_safe_write :: "('s, 'h) tool_env \<Rightarrow> string \<Rightarrow> bool \<Rightarrow> tool_error + unit" where
  "assert_safe_write env content allow_sensitive =
     (case evaluate_content (tn_safety env) (tn_scanners env) content ''artifact'' None allow_sensitive of
        Inl e \<Rightarrow> Inl (ToolProtection e)
      | Inr d \<Rightarrow> require (pd_action d \<noteq> ActBlock) SensitiveContent)"

definition tool_output :: "runtime_call \<Rightarrow> string \<Rightarrow> tool_execution" where
  "tool_output call output = \<lparr>tx_call = call, tx_ok = True, tx_output = output, tx_metadata = []\<rparr>"

definition read_file ::
  "('s, 'h) tool_env \<Rightarrow> runtime_call \<Rightarrow> 's tool_state \<Rightarrow> (tool_error + tool_execution) \<times> 's tool_state" where
  "read_file env call st =
     (res_bind (arg_text env call ''path'') (\<lambda>path.
      res_bind (file_resource env path ''read'') (\<lambda>r.
      res_bind (arg_int call ''limit'' 20000) (\<lambda>limit.
        case require_allowed (tn_fl env) (tn_base_attr env) (tn_permissions env) (file_request ''read file'' r) True of
          Inl e \<Rightarrow> Inl (ToolPermission e)
        | Inr _ \<Rightarrow> res_bind (file_text st (res_field ''path'' r)) (\<lambda>t.
            Inr (tool_output call (slice_to limit t)))))), st)"

definition write_file ::
  "('s, 'h) tool_env \<Rightarrow> runtime_call \<Rightarrow> 's tool_state \<Rightarrow> (tool_error + tool_execution) \<times> 's tool_state" where
  "write_file env call st =
     (case res_bind (arg_text env call ''path'') (\<lambda>path.
           res_bind (file_resource env path ''write'') (\<lambda>r.
           res_bind (arg_text env call ''content'') (\<lambda>content. Inr (r, content)))) of
        Inl e \<Rightarrow> (Inl e, st)
      | Inr (r, content) \<Rightarrow>
          (let path = res_field ''path'' r; append = arg_flag call ''append'' in
           case authorize_call env call (file_request ''write file'' r) (resource_target (tn_fl env) r)
                  ''Write or append content to a filesystem path.'' st of
             (Inl e, st') \<Rightarrow> (Inl e, st')
           | (Inr _, st') \<Rightarrow>
               (case assert_safe_write env content (arg_flag call ''allow_sensitive'') of
                  Inl e \<Rightarrow> (Inl e, st')
                | Inr _ \<Rightarrow>
                    (let old = (if append then (case map_of (ts_files st') path of Some t \<Rightarrow> t | None \<Rightarrow> []) else []) in
                     (Inr (tool_output call ((if append then ''appended: '' else ''wrote: '') @ path)),
                      put_file path (old @ content) st')))))"

definition replace_file ::
  "('s, 'h) tool_env \<Rightarrow> runtime_call \<Rightarrow> 's tool_state \<Rightarrow> (tool_error + tool_execution) \<times> 's tool_state" where
  "replace_file env call st =
     (case res_bind (arg_text env call ''path'') (\<lambda>path.
           res_bind (file_resource env path ''replace'') (\<lambda>r.
           res_bind (arg_text env call ''old'') (\<lambda>old.
           res_bind (arg_text env call ''new'') (\<lambda>new.
           res_bind (arg_int call ''count'' (- 1)) (\<lambda>count. Inr (r, old, new, count)))))) of
        Inl e \<Rightarrow> (Inl e, st)
      | Inr (r, old, new, count) \<Rightarrow>
          (let path = res_field ''path'' r in
           case authorize_call env call (file_request ''replace file'' r) (resource_target (tn_fl env) r)
                  ''Replace existing content in a filesystem path.'' st of
             (Inl e, st') \<Rightarrow> (Inl e, st')
           | (Inr _, st') \<Rightarrow>
               (case assert_safe_write env new (arg_flag call ''allow_sensitive'') of
                  Inl e \<Rightarrow> (Inl e, st')
                | Inr _ \<Rightarrow>
                    (case file_text st' path of
                       Inl e \<Rightarrow> (Inl e, st')
                     | Inr t \<Rightarrow>
                         (let occurrences = int (count_text old t);
                              done = (if count < 0 then occurrences else min occurrences count) in
                          if occurrences = 0 then (Inr (tool_output call ''replacements: 0''), st')
                          else (Inr (tool_output call (''replacements: '' @ int_str done)),
                                put_file path (replace_text old new count t) st'))))))"

subsection \<open>Dispatch\<close>

fun mcp_segments :: "string list \<Rightarrow> (string \<times> string) option" where
  "mcp_segments (scheme # server # tool # rest) =
     (if scheme = ''mcp'' then Some (server, py_join ''.'' (tool # rest)) else None)"
| "mcp_segments _ = None"

definition normalize_mcp_tool_call :: "string list \<Rightarrow> runtime_call \<Rightarrow> tool_error + runtime_call" where
  "normalize_mcp_tool_call servers call =
     (case mcp_segments (split_on (CHR ''.'') (rc_name call)) of
        None \<Rightarrow> Inr call
      | Some (server, tool) \<Rightarrow>
          if server \<notin> set servers then Inr call
          else case (case map_of (rc_args call) ''arguments'' of Some v \<Rightarrow> as_obj v | None \<Rightarrow> Some (rc_args call)) of
                 None \<Rightarrow> Inl (ArgumentInvalid ''arguments'')
               | Some arguments \<Rightarrow>
                   Inr \<lparr>rc_name = ''mcp.call'',
                     rc_args = [(''server_id'', JStr server), (''tool_name'', JStr tool),
                        (''arguments'', JObj (filter (\<lambda>(k, v). k \<noteq> ''approved'') arguments))]
                        @ (if approved_flag call then [(''approved'', JBool True)] else []),
                     rc_origin = rc_origin call\<rparr>)"

definition known_tools :: "string list" where
  "known_tools =
     [''file.search'', ''patch.apply'', ''tests.run'', ''web.fetch'', ''shell.run'', ''memory.search'',
      ''memory.shared_search'', ''polaris.readonly'', ''artifact.create'', ''graph.emit_output'', ''agent.run'',
      ''profile.create'']"

definition known_prefixes :: "string list" where
  "known_prefixes = [''plugin.'', ''git.'', ''mcp.'', ''skill.'', ''session.'']"

definition failed_execution :: "runtime_call \<Rightarrow> string \<Rightarrow> tool_execution" where
  "failed_execution call output = \<lparr>tx_call = call, tx_ok = False, tx_output = output, tx_metadata = []\<rparr>"

definition run_handler ::
  "('s, 'h) tool_env \<Rightarrow> runtime_call \<Rightarrow> 's tool_state \<Rightarrow> (tool_error + tool_execution) \<times> 's tool_state" where
  "run_handler env call st =
     (if rc_name call = ''file.read'' then read_file env call st
      else if rc_name call = ''file.write'' then write_file env call st
      else if rc_name call = ''file.replace'' then replace_file env call st
      else if rc_name call \<in> set known_tools \<or> list_ex (starts_with (rc_name call)) known_prefixes
      then tn_other env call st
      else (Inr (failed_execution call (''Unknown tool: '' @ rc_name call)), st))"

definition execute_guarded :: "('s, 'h) tool_env \<Rightarrow> runtime_call \<Rightarrow> 's tool_state \<Rightarrow> tool_execution \<times> 's tool_state" where
  "execute_guarded env call st =
     (case (if starts_with (rc_name call) ''mcp.'' then normalize_mcp_tool_call (tn_mcp_servers env) call else Inr call) of
        Inl e \<Rightarrow> (failed_execution call (tn_message env e), st)
      | Inr call' \<Rightarrow>
          if (case tn_allowed env of Some names \<Rightarrow> rc_name call' \<notin> set names | None \<Rightarrow> False)
          then (failed_execution call' (''Tool is not available to the active agent profile: '' @ rc_name call'), st)
          else case run_handler env call' st of
                 (Inl e, st') \<Rightarrow> (failed_execution call' (tn_message env e), st')
               | (Inr x, st') \<Rightarrow> (x, st'))"

definition protected_execution ::
  "('s, 'h) tool_env \<Rightarrow> runtime_call \<Rightarrow> tool_execution \<Rightarrow> protection_error + tool_execution" where
  "protected_execution env call x =
     res_bind (evaluate_content (tn_safety env) (tn_scanners env) (tx_output x) ''tool_output'' None False) (\<lambda>d.
       let metadata = AList.update ''data_protection'' (JObj (decision_metadata d)) (tx_metadata x) in
       Inr (if pd_action d = ActBlock
            then (failed_execution call ''Data protection blocked tool output.'')\<lparr>tx_metadata := metadata\<rparr>
            else if pd_action d = ActRedact then x\<lparr>tx_output := pd_content d, tx_metadata := metadata\<rparr>
            else x))"

subsection \<open>Hooks\<close>

text \<open>
  A hook gives a decision, nothing, or raises (Inl the name of the exception). What a failing hook means is configured. The hooks
  of the plugins come before the command hooks whose patterns match the name of the tool.
\<close>

datatype hook_decision = HookAllows | HookBlocks string

record tool_hooks =
  hk_plugins :: "(string \<times> (runtime_call \<Rightarrow> string + hook_decision option)) list"
  hk_commands :: "(string \<times> string list \<times> (runtime_call \<Rightarrow> string + hook_decision option)) list"
  hk_failure_allows :: bool

definition guard_hook ::
  "bool \<Rightarrow> string \<Rightarrow> string + hook_decision option \<Rightarrow> string option" where
  "guard_hook failure_allows name outcome =
     (case outcome of
        Inl error \<Rightarrow>
          if failure_allows then None
          else Some (''hook '' @ name @ '' failed ('' @ error @ ''); blocked because plugins.hook_failure = deny'')
      | Inr (Some (HookBlocks reason)) \<Rightarrow> Some reason
      | Inr _ \<Rightarrow> None)"

definition before_hooks :: "tool_hooks \<Rightarrow> runtime_call \<Rightarrow> string option" where
  "before_hooks hooks call =
     (case List.map_filter (\<lambda>(name, hook). guard_hook (hk_failure_allows hooks) name (hook call)) (hk_plugins hooks)
           @ List.map_filter (\<lambda>(name, patterns, hook).
               if list_ex (fnmatchcase (rc_name call)) patterns
               then guard_hook (hk_failure_allows hooks) name (hook call) else None) (hk_commands hooks) of
        reason # _ \<Rightarrow> Some reason
      | [] \<Rightarrow> None)"

definition execute_call ::
  "('s, 'h) tool_env \<Rightarrow> tool_hooks \<Rightarrow> runtime_call \<Rightarrow> 's tool_state \<Rightarrow>
     (protection_error + tool_execution) \<times> 's tool_state" where
  "execute_call env hooks call st =
     (case before_hooks hooks call of
        Some reason \<Rightarrow>
          (Inr ((failed_execution call (''Blocked by hook: '' @ reason))
             \<lparr>tx_metadata := [(''hook_blocked'', JBool True)]\<rparr>), st)
      | None \<Rightarrow>
          (case execute_guarded env call st of (x, st') \<Rightarrow> (protected_execution env call x, st')))"

subsection \<open>A model cannot authorize itself\<close>

text \<open>
  Consent from outside the model: a session approval of the user that matches the request, or the
  answer of the human (or host program) behind the approval provider.
\<close>

definition outside_consent ::
  "('s, 'h) tool_env \<Rightarrow> approval_request \<Rightarrow> 's tool_state \<Rightarrow> bool" where
  "outside_consent env r st \<longleftrightarrow>
     (\<exists>used s' evs. consume_matching_session (tn_fl env) (tn_digest env) (tn_ops env) (tn_identity env) r
         (\<lambda>i. tn_clock env (ts_tick st)) (ts_approvals st) = (Inr (Some used), s', evs))
     \<or> (\<exists>ask scope. tn_interactive env \<and> tn_provider env = Some ask \<and> ask r = Some (Some scope))"

definition call_consented ::
  "('s, 'h) tool_env \<Rightarrow> runtime_call \<Rightarrow> permission_request \<Rightarrow> string \<Rightarrow> string \<Rightarrow> 's tool_state \<Rightarrow> bool" where
  "call_consented env call preq target risk st \<longleftrightarrow>
     result_decision (call_decision env preq) \<noteq> Decided Deny
     \<and> (result_decision (call_decision env preq) = Decided Allow
        \<or> (\<exists>r evs. call_request env call preq target risk (ts_tick st) = Inr (r, evs)
             \<and> outside_consent env r (emit evs (st\<lparr>ts_tick := Suc (ts_tick st)\<rparr>))))"

lemma emit_frame [simp]:
  "ts_approvals (emit evs st) = ts_approvals st" "ts_files (emit evs st) = ts_files st"
  "ts_tick (emit evs st) = ts_tick st"
  by (simp_all add: emit_def)

lemma refuse_Inr [simp]: "refuse r e st \<noteq> (Inr u, st')"
  by (simp add: refuse_def)

lemma refuse_files: "ts_files (snd (refuse r e st)) = ts_files st"
  by (simp add: refuse_def)

lemma grant_and_use_files: "ts_files (snd (grant_and_use env r scope how st)) = ts_files st"
  by (simp add: grant_and_use_def Let_def refuse_files split: sum.splits prod.splits)

lemma ask_for_approval_files: "ts_files (snd (ask_for_approval env call r st)) = ts_files st"
  by (simp add: ask_for_approval_def refuse_files grant_and_use_files split: option.splits)

lemma request_approval_files: "ts_files (snd (request_approval env call r st)) = ts_files st"
  by (simp add: request_approval_def ask_for_approval_files split: sum.splits prod.splits option.splits)

lemma authorize_files:
  assumes "authorize_call env call preq target risk st = (res, st')"
  shows "ts_files st' = ts_files st"
proof -
  have "ts_files (snd (authorize_call env call preq target risk st)) = ts_files st"
    by (simp add: authorize_call_def Let_def request_approval_files split: sum.splits prod.splits)
  with assms show ?thesis by simp
qed

lemma ask_model_consent:
  assumes "ask_for_approval env call r st = (Inr u, st')" and "rc_origin call = From_Model"
  shows "\<exists>ask scope. tn_interactive env \<and> tn_provider env = Some ask \<and> ask r = Some (Some scope)"
  using assms by (auto simp: ask_for_approval_def split: if_splits option.splits)

lemma request_model_consent:
  assumes "request_approval env call r st = (Inr u, st')" and "rc_origin call = From_Model"
  shows "outside_consent env r st"
proof (cases "consume_matching_session (tn_fl env) (tn_digest env) (tn_ops env) (tn_identity env) r
             (\<lambda>i. tn_clock env (ts_tick st)) (ts_approvals st)")
  case (fields res s' evs)
  then show ?thesis
  proof (cases res)
    case (Inl e)
    then show ?thesis using assms fields by (simp add: request_approval_def)
  next
    case (Inr found)
    show ?thesis
    proof (cases found)
      case None
      then have "ask_for_approval env call r (emit evs (st\<lparr>ts_approvals := s'\<rparr>)) = (Inr u, st')"
        using assms fields Inr by (simp add: request_approval_def)
      from ask_model_consent [OF this assms(2)] show ?thesis by (auto simp: outside_consent_def)
    next
      case (Some used)
      then show ?thesis using fields Inr by (auto simp: outside_consent_def)
    qed
  qed
qed

lemma authorize_model_consent:
  assumes "authorize_call env call preq target risk st = (Inr u, st')" and "rc_origin call = From_Model"
  shows "call_consented env call preq target risk st"
proof -
  let ?d = "result_decision (call_decision env preq)"
  have deny: "?d \<noteq> Decided Deny" using assms(1) by (auto simp: authorize_call_def Let_def)
  show ?thesis
  proof (cases "?d = Decided Allow")
    case True
    then show ?thesis using deny by (simp add: call_consented_def)
  next
    case False
    with assms(1) deny obtain r evs where
      r: "call_request env call preq target risk (ts_tick st) = Inr (r, evs)"
      and run: "request_approval env call r (emit evs (st\<lparr>ts_tick := Suc (ts_tick st)\<rparr>)) = (Inr u, st')"
      by (auto simp: authorize_call_def Let_def split: sum.splits)
    from request_model_consent [OF run assms(2)] r deny show ?thesis
      by (auto simp: call_consented_def)
  qed
qed

text \<open>The arguments of a model call that speak of approvals do not change its authorization.\<close>

definition succeeds :: "'e + 'a \<Rightarrow> bool" where
  "succeeds res = (case res of Inl e \<Rightarrow> False | Inr u \<Rightarrow> True)"

definition same_outcome :: "('e + 'a) \<times> 's \<Rightarrow> ('e + 'a) \<times> 's \<Rightarrow> bool" where
  "same_outcome p q = (succeeds (fst p) = succeeds (fst q) \<and> snd p = snd q)"

lemma same_outcome_refl [simp]: "same_outcome p p"
  by (simp add: same_outcome_def)

lemma ask_same_outcome:
  assumes "rc_origin call = From_Model" and "rc_origin call' = From_Model"
  shows "same_outcome (ask_for_approval env call r st) (ask_for_approval env call' r st)"
  using assms by (simp add: ask_for_approval_def refuse_def same_outcome_def succeeds_def split: option.splits)

lemma request_same_outcome:
  assumes "rc_origin call = From_Model" and "rc_origin call' = From_Model"
  shows "same_outcome (request_approval env call r st) (request_approval env call' r st)"
  by (simp add: request_approval_def ask_same_outcome [OF assms] split: prod.splits sum.splits option.splits)

text \<open>
  C8. A call of the model is not helped by what it says about its own approval: two calls of the model
  that differ only in the arguments \<open>approved\<close> and \<open>approval_id\<close> are both authorized or both refused,
  and leave the same approvals and approval events.
\<close>

theorem approval_arguments_of_model_do_not_count:
  assumes "rc_origin call = From_Model" and "rc_origin call' = From_Model"
    and "approval_arguments (rc_args call) = approval_arguments (rc_args call')"
  shows "succeeds (fst (authorize_call env call preq target risk st))
       = succeeds (fst (authorize_call env call' preq target risk st))
    \<and> snd (authorize_call env call preq target risk st) = snd (authorize_call env call' preq target risk st)"
proof -
  have same: "call_request env call preq target risk tick = call_request env call' preq target risk tick" for tick
    using assms(3) by (simp add: call_request_def make_request_def)
  have "same_outcome (authorize_call env call preq target risk st) (authorize_call env call' preq target risk st)"
  proof (cases "call_request env call' preq target risk (ts_tick st)")
    case (Inl e)
    then show ?thesis by (simp add: authorize_call_def same Let_def)
  next
    case (Inr v)
    then show ?thesis
      by (cases v) (simp add: authorize_call_def same Let_def request_same_outcome [OF assms(1,2)])
  qed
  then show ?thesis by (simp add: same_outcome_def)
qed

subsection \<open>What a file call may change\<close>

definition change_permitted ::
  "('s, 'h) tool_env \<Rightarrow> runtime_call \<Rightarrow> string \<Rightarrow> 's tool_state \<Rightarrow> bool" where
  "change_permitted env call path st \<longleftrightarrow>
     (\<exists>r action risk requested operation.
        filesystem_resource (tn_expanduser env) (tn_resolve env) requested operation
          (perm_workspace_roots (tn_permissions env)) (tn_cwd env) = Inr r
      \<and> path = res_field ''path'' r
      \<and> (rc_origin call = From_Model \<longrightarrow>
           call_consented env call (file_request action r) (resource_target (tn_fl env) r) risk st)
      \<and> result_decision (call_decision env (file_request action r)) \<noteq> Decided Deny)"

lemma authorized_not_denied:
  "authorize_call env call preq target risk st = (Inr u, st') \<Longrightarrow>
     result_decision (call_decision env preq) \<noteq> Decided Deny"
  by (auto simp: authorize_call_def Let_def)

lemma file_resource_Inr:
  "file_resource env path operation = Inr r \<longleftrightarrow>
     filesystem_resource (tn_expanduser env) (tn_resolve env) path operation
       (perm_workspace_roots (tn_permissions env)) (tn_cwd env) = Inr r"
  by (simp add: file_resource_def split: sum.splits)

lemma permitted_changeI:
  assumes "file_resource env requested operation = Inr r"
    and "authorize_call env call (file_request action r) (resource_target (tn_fl env) r) risk st = (Inr u, st')"
  shows "change_permitted env call (res_field ''path'' r) st"
  using assms authorize_model_consent [OF assms(2)] authorized_not_denied [OF assms(2)]
  unfolding change_permitted_def file_resource_Inr by blast

definition one_file_changed ::
  "('s, 'h) tool_env \<Rightarrow> runtime_call \<Rightarrow> 's tool_state \<Rightarrow> 's tool_state \<Rightarrow> bool" where
  "one_file_changed env call st st' \<longleftrightarrow>
     ts_files st' = ts_files st
     \<or> (\<exists>path content. ts_files st' = AList.update path content (ts_files st) \<and> change_permitted env call path st)"

lemma write_file_changes: "one_file_changed env call st (snd (write_file env call st))"
proof (cases "res_bind (arg_text env call ''path'') (\<lambda>path.
           res_bind (file_resource env path ''write'') (\<lambda>r.
           res_bind (arg_text env call ''content'') (\<lambda>content. Inr (r, content))))")
  case (Inl e)
  then show ?thesis by (simp add: write_file_def one_file_changed_def)
next
  case (Inr v)
  obtain r content where v: "v = (r, content)" by (cases v)
  from Inr v obtain path where r: "file_resource env path ''write'' = Inr r"
    by (auto simp: res_simps)
  obtain res st1 where a: "authorize_call env call (file_request ''write file'' r) (resource_target (tn_fl env) r)
      ''Write or append content to a filesystem path.'' st = (res, st1)"
    by (cases "authorize_call env call (file_request ''write file'' r) (resource_target (tn_fl env) r)
      ''Write or append content to a filesystem path.'' st")
  note files = authorize_files [OF a]
  show ?thesis
  proof (cases res)
    case (Inl e)
    then show ?thesis using Inr v a files by (simp add: write_file_def one_file_changed_def Let_def)
  next
    case ok: (Inr u)
    from permitted_changeI [OF r a [unfolded ok]] Inr v a ok files show ?thesis
      by (auto simp: write_file_def one_file_changed_def put_file_def Let_def split: sum.splits)
  qed
qed

lemma replace_file_changes: "one_file_changed env call st (snd (replace_file env call st))"
proof (cases "res_bind (arg_text env call ''path'') (\<lambda>path.
           res_bind (file_resource env path ''replace'') (\<lambda>r.
           res_bind (arg_text env call ''old'') (\<lambda>old.
           res_bind (arg_text env call ''new'') (\<lambda>new.
           res_bind (arg_int call ''count'' (- 1)) (\<lambda>count. Inr (r, old, new, count))))))")
  case (Inl e)
  then show ?thesis by (simp add: replace_file_def one_file_changed_def)
next
  case (Inr v)
  obtain r old new count where v: "v = (r, old, new, count)" by (cases v)
  from Inr v obtain path where r: "file_resource env path ''replace'' = Inr r"
    by (auto simp: res_simps)
  obtain res st1 where a: "authorize_call env call (file_request ''replace file'' r) (resource_target (tn_fl env) r)
      ''Replace existing content in a filesystem path.'' st = (res, st1)"
    by (cases "authorize_call env call (file_request ''replace file'' r) (resource_target (tn_fl env) r)
      ''Replace existing content in a filesystem path.'' st")
  note files = authorize_files [OF a]
  show ?thesis
  proof (cases res)
    case (Inl e)
    then show ?thesis using Inr v a files by (simp add: replace_file_def one_file_changed_def Let_def)
  next
    case ok: (Inr u)
    from permitted_changeI [OF r a [unfolded ok]] Inr v a ok files show ?thesis
      by (auto simp: replace_file_def one_file_changed_def put_file_def Let_def split: sum.splits)
  qed
qed

definition file_tools :: "string list" where
  "file_tools = [''file.read'', ''file.write'', ''file.replace'']"

lemma file_handler_changes:
  assumes "rc_name call \<in> set file_tools"
  shows "one_file_changed env call st (snd (run_handler env call st))"
proof -
  consider "rc_name call = ''file.read''" | "rc_name call = ''file.write''" | "rc_name call = ''file.replace''"
    using assms by (auto simp: file_tools_def)
  then show ?thesis
  proof cases
    case 1
    then show ?thesis by (simp add: run_handler_def read_file_def one_file_changed_def)
  next
    case 2
    then show ?thesis using write_file_changes by (simp add: run_handler_def)
  next
    case 3
    then show ?thesis using replace_file_changes by (simp add: run_handler_def)
  qed
qed


subsection \<open>A write that a human answers\<close>

definition tool_env_example :: "(inmem, nat) tool_env" where
  "tool_env_example =
     \<lparr>tn_fl = (\<lambda>_. ''0.0''), tn_digest = zero_digest, tn_base_attr = (\<lambda>_. False), tn_decision_text = (\<lambda>_. ''ask''),
      tn_permissions = default_permissions\<lparr>perm_workspace_roots := [''/work'']\<rparr>,
      tn_ops = inmem_ops, tn_approvals = example_approvals_config, tn_interactive = True,
      tn_identity = example_identity, tn_provider = Some (\<lambda>r. Some (Some Once)), tn_id = nat_str,
      tn_clock = (\<lambda>i. int i), tn_safety = example_safety, tn_scanners = [example_scan],
      tn_allowed = None, tn_mcp_servers = [], tn_expanduser = (\<lambda>p. p), tn_resolve = plain_resolve,
      tn_cwd = ''/work'', tn_repr = (\<lambda>_. []), tn_message = (\<lambda>_. ''refused''),
      tn_other = (\<lambda>call st. (Inl (HandlerFailed ''unavailable''), st))\<rparr>"

definition no_hooks :: tool_hooks where
  "no_hooks = \<lparr>hk_plugins = [], hk_commands = [], hk_failure_allows = False\<rparr>"

definition tool_start_example :: "inmem tool_state" where
  "tool_start_example = \<lparr>ts_approvals = inmem_empty, ts_files = [(''/work/a.txt'', ''old'')], ts_events = [], ts_tick = 0\<rparr>"

definition model_write :: "string \<Rightarrow> (string, json) dict \<Rightarrow> runtime_call" where
  "model_write path extra =
     \<lparr>rc_name = ''file.write'', rc_args = [(''path'', JStr path), (''content'', JStr ''new'')] @ extra,
      rc_origin = From_Model\<rparr>"

lemma example_write_changes:
  "ts_files (snd (execute_call tool_env_example no_hooks (model_write ''a.txt'' []) tool_start_example))
     = [(''/work/a.txt'', ''new'')]"
  by code_simp


definition silent_env_example :: "(inmem, nat) tool_env" where
  "silent_env_example = tool_env_example\<lparr>tn_provider := None\<rparr>"

theorem approval_arguments_of_model_do_not_count_witness:
  "succeeds (fst (authorize_call silent_env_example (model_write ''a.txt'' [(''approved'', JBool True)])
       \<lparr>req_tool = ''edit'', req_action = ''write file'', req_target = None, req_resource = None\<rparr> ''t'' ''r'' tool_start_example))
   = succeeds (fst (authorize_call silent_env_example (model_write ''a.txt'' [])
       \<lparr>req_tool = ''edit'', req_action = ''write file'', req_target = None, req_resource = None\<rparr> ''t'' ''r'' tool_start_example))"
proof -
  have same: "approval_arguments (rc_args (model_write ''a.txt'' [(''approved'', JBool True)]))
      = approval_arguments (rc_args (model_write ''a.txt'' []))"
    by (simp add: model_write_def approval_arguments_def)
  have model: "rc_origin (model_write ''a.txt'' extra) = From_Model" for extra
    by (simp add: model_write_def)
  from approval_arguments_of_model_do_not_count [OF model model same] show ?thesis by blast
qed

text \<open>Replacing text in a file rewrites all its line ends, also those far from the replaced text.\<close>

lemma replacement_rewrites_line_ends:
  "ts_files (snd (execute_call tool_env_example no_hooks
       \<lparr>rc_name = ''file.replace'', rc_args = [(''path'', JStr ''a.txt''), (''old'', JStr ''x''), (''new'', JStr ''y'')],
        rc_origin = From_Model\<rparr>
       (tool_start_example\<lparr>ts_files := [(''/work/a.txt'', ''x'' @ [CHR 0x0D, CHR 0x0A] @ ''b'' @ [CHR 0x0D, CHR 0x0A])]\<rparr>)))
     = [(''/work/a.txt'', ''y'' @ [CHR 0x0A] @ ''b'' @ [CHR 0x0A])]"
  by code_simp

text \<open>
  Hooks see the name of an MCP tool as the model wrote it: a hook on the remote tool of a server is not
  asked when the same tool is called as \<open>mcp.call\<close>.
\<close>

lemma hooks_see_unnormalized_names:
  "let hooks = \<lparr>hk_plugins = [], hk_commands = [(''h'', [''mcp.srv.*''], \<lambda>call. Inr (Some (HookBlocks ''no'')))],
                hk_failure_allows = False\<rparr>;
       dotted = \<lparr>rc_name = ''mcp.srv.delete'', rc_args = [], rc_origin = From_Model\<rparr> in
   before_hooks hooks dotted = Some ''no''
   \<and> (case normalize_mcp_tool_call [''srv''] dotted of
        Inr call \<Rightarrow> rc_name call = ''mcp.call'' \<and> before_hooks hooks call = None
      | Inl e \<Rightarrow> False)"
  by code_simp

end
