(* ===== verification/Runtime_Loop.thy ===== *)
theory Runtime_Loop
  imports Budgets Tool_Calls
begin

text \<open>
  The agent loop of \<open>src/loro/runtime.py\<close> (AgentRuntime.run): the tool directives of the prompt, then
  up to \<open>max_steps\<close> rounds of model call, protection of its answer and tool calls, under the budgets of
  the run. The model provider, the texts of errors and the text of the first message are parameters;
  sessions, skills, memory and telemetry around the loop are left out. The lemmas show that the usage
  of a run is that of a sequence of budget operations none of which but the last raises, and that no
  more tools run than the budget has.
\<close>

subsection \<open>Messages and replies\<close>

record native_call =
  nv_name :: string
  nv_args :: "(string, json) dict"
  nv_id :: "string option"

record native_result =
  nx_name :: string
  nx_id :: "string option"
  nx_content :: string
  nx_error :: bool

record model_message =
  mm_role :: string
  mm_content :: string
  mm_calls :: "native_call list"
  mm_results :: "native_result list"

record model_reply =
  mr_response :: model_response
  mr_calls :: "native_call list"

datatype stop_reason = Run_Completed | Run_Provider_Error | Run_Max_Steps | Run_Budget budget_name

datatype loop_next = Go_On | Stop_With stop_reason | Fault protection_error

record ('s, 'h) run_env =
  ru_limits :: runtime_limits
  ru_prices :: model_prices
  ru_max_steps :: nat
  ru_client :: "nat \<Rightarrow> model_message list \<Rightarrow> string + model_reply"
  ru_loads :: "string \<Rightarrow> json option"
  ru_schemas :: "string list"
  ru_tools :: "('s, 'h) tool_env"
  ru_hooks :: tool_hooks
  ru_directive_text :: "directive_error \<Rightarrow> string"
  ru_budget_text :: "budget_name \<Rightarrow> string"

record 's loop_state =
  lp_usage :: usage_budget
  lp_messages :: "model_message list"
  lp_executions :: "tool_execution list"
  lp_tools :: "'s tool_state"
  lp_content :: string

definition text_message :: "string \<Rightarrow> string \<Rightarrow> model_message" where
  "text_message role content = \<lparr>mm_role = role, mm_content = content, mm_calls = [], mm_results = []\<rparr>"

subsection \<open>Protection of a reply\<close>

definition enforced :: "('s, 'h) run_env \<Rightarrow> string \<Rightarrow> string \<Rightarrow> protection_error + string" where
  "enforced env surface t =
     res_bind (enforce_content (tn_safety (ru_tools env)) (tn_scanners (ru_tools env)) t surface None False)
       (\<lambda>d. Inr (pd_content d))"

fun protect_value :: "('s, 'h) run_env \<Rightarrow> json \<Rightarrow> protection_error + json"
  and protect_items :: "('s, 'h) run_env \<Rightarrow> json list \<Rightarrow> protection_error + json list"
  and protect_entries :: "('s, 'h) run_env \<Rightarrow> (string \<times> json) list \<Rightarrow> protection_error + (string \<times> json) list" where
  "protect_value env (JStr s) = res_bind (enforced env ''model_output'' s) (\<lambda>t. Inr (JStr t))"
| "protect_value env (JObj d) = res_bind (protect_entries env d) (\<lambda>d'. Inr (JObj d'))"
| "protect_value env (JArr xs) = res_bind (protect_items env xs) (\<lambda>ys. Inr (JArr ys))"
| "protect_value env JNull = Inr JNull"
| "protect_value env (JBool b) = Inr (JBool b)"
| "protect_value env (JInt i) = Inr (JInt i)"
| "protect_value env (JFloat r) = Inr (JFloat r)"
| "protect_items env [] = Inr []"
| "protect_items env (x # xs) =
     res_bind (protect_value env x) (\<lambda>y. res_bind (protect_items env xs) (\<lambda>ys. Inr (y # ys)))"
| "protect_entries env [] = Inr []"
| "protect_entries env ((k, v) # d) =
     res_bind (protect_value env v) (\<lambda>v'. res_bind (protect_entries env d) (\<lambda>d'. Inr ((k, v') # d')))"

definition protect_native_calls :: "('s, 'h) run_env \<Rightarrow> native_call list \<Rightarrow> protection_error + native_call list" where
  "protect_native_calls env calls =
     res_map (\<lambda>call. res_bind (protect_entries env (nv_args call)) (\<lambda>args. Inr (call\<lparr>nv_args := args\<rparr>))) calls"

subsection \<open>Tool calls of a reply\<close>

definition provider_tool_name :: "string \<Rightarrow> string" where
  "provider_tool_name name = replace_char (CHR ''.'') (CHR ''_'') name"

definition canonical_tool_name :: "string list \<Rightarrow> string \<Rightarrow> string" where
  "canonical_tool_name schemas name =
     (case List.find (\<lambda>s. name = s \<or> name = provider_tool_name s) schemas of Some s \<Rightarrow> s | None \<Rightarrow> name)"

definition native_runtime_call :: "('s, 'h) run_env \<Rightarrow> native_call \<Rightarrow> runtime_call" where
  "native_runtime_call env call =
     \<lparr>rc_name = canonical_tool_name (ru_schemas env) (nv_name call), rc_args = nv_args call, rc_origin = From_Model\<rparr>"

fun execute_calls ::
  "('s, 'h) tool_env \<Rightarrow> tool_hooks \<Rightarrow> runtime_call list \<Rightarrow> 's tool_state \<Rightarrow>
     tool_execution list \<times> protection_error option \<times> 's tool_state" where
  "execute_calls env hooks [] st = ([], None, st)"
| "execute_calls env hooks (call # calls) st =
     (case execute_call env hooks call st of
        (Inl e, st') \<Rightarrow> ([], Some e, st')
      | (Inr x, st') \<Rightarrow> (case execute_calls env hooks calls st' of (xs, e, st'') \<Rightarrow> (x # xs, e, st'')))"

definition format_execution :: "tool_execution \<Rightarrow> string" where
  "format_execution x =
     ''['' @ (if tx_ok x then ''ok'' else ''error'') @ ''] '' @ rc_name (tx_call x) @ [CHR 0x0A] @ tx_output x"

definition native_results :: "native_call list \<Rightarrow> tool_execution list \<Rightarrow> native_result list" where
  "native_results calls xs =
     map (\<lambda>(call, x). \<lparr>nx_name = nv_name call, nx_id = nv_id call, nx_content = format_execution x,
                       nx_error = \<not> tx_ok x\<rparr>) (zip calls (take (length calls) xs))"

definition continue_text :: string where
  "continue_text = ''Continue the task. If you are done, respond without tool directives.''"

definition result_message :: "native_call list \<Rightarrow> tool_execution list \<Rightarrow> model_message" where
  "result_message calls xs =
     (let results = native_results calls xs; textual = drop (length calls) xs in
      \<lparr>mm_role = (if results \<noteq> [] then ''tool'' else ''user''),
       mm_content =
         (if textual = [] then []
          else ''Tool results:'' @ [CHR 0x0A] @ py_join [CHR 0x0A, CHR 0x0A] (map format_execution textual)
               @ [CHR 0x0A, CHR 0x0A]) @ continue_text,
       mm_calls = [], mm_results = results\<rparr>)"

subsection \<open>A step of the loop\<close>

definition run_calls_of_reply ::
  "('s, 'h) run_env \<Rightarrow> native_call list \<Rightarrow> runtime_call list \<Rightarrow> 's loop_state \<Rightarrow> loop_next \<times> 's loop_state" where
  "run_calls_of_reply env natives textual st =
     (let calls = map (native_runtime_call env) natives @ textual in
      if calls = [] then (Stop_With Run_Completed, st)
      else case add_tool_calls (ru_limits env) (int (length calls)) (lp_usage st) of
             (Some b, usage) \<Rightarrow>
               (Stop_With (Run_Budget b), st\<lparr>lp_usage := usage, lp_content := ru_budget_text env b\<rparr>)
           | (None, usage) \<Rightarrow>
               (case execute_calls (ru_tools env) (ru_hooks env) calls (lp_tools st) of
                  (xs, Some e, tools) \<Rightarrow>
                    (Fault e, st\<lparr>lp_usage := usage, lp_tools := tools, lp_executions := lp_executions st @ xs\<rparr>)
                | (xs, None, tools) \<Rightarrow>
                    (Go_On, st\<lparr>lp_usage := usage, lp_tools := tools, lp_executions := lp_executions st @ xs,
                       lp_messages := lp_messages st
                         @ [(text_message ''assistant'' (lp_content st))\<lparr>mm_calls := natives\<rparr>,
                            result_message natives xs]\<rparr>)))"

definition directive_retry :: "string \<Rightarrow> string" where
  "directive_retry e =
     ''Tool directive parse error:'' @ [CHR 0x0A] @ e @ [CHR 0x0A, CHR 0x0A]
     @ ''Re-issue the tool directive as a single line of the form ''
     @ ''`@tool {\"name\": \"<tool>\", \"args\": {...}}` with strictly valid ''
     @ ''JSON, or respond without tool directives if you are done.''"

definition handle_reply ::
  "('s, 'h) run_env \<Rightarrow> model_reply \<Rightarrow> 's loop_state \<Rightarrow> loop_next \<times> 's loop_state" where
  "handle_reply env reply st =
     (case enforced env ''model_output'' (resp_content (mr_response reply)) of
        Inl e \<Rightarrow> (Fault e, st)
      | Inr content \<Rightarrow>
          (let st' = st\<lparr>lp_content := content\<rparr> in
           case protect_native_calls env (mr_calls reply) of
             Inl e \<Rightarrow> (Fault e, st')
           | Inr natives \<Rightarrow>
               (case parse_tool_calls (ru_loads env) From_Model content of
                  Inl e \<Rightarrow>
                    (Go_On, st'\<lparr>lp_messages := lp_messages st'
                       @ [text_message ''assistant'' content,
                          text_message ''user'' (directive_retry (ru_directive_text env e))]\<rparr>)
                | Inr textual \<Rightarrow> run_calls_of_reply env natives textual st')))"

definition agent_step :: "('s, 'h) run_env \<Rightarrow> nat \<Rightarrow> 's loop_state \<Rightarrow> loop_next \<times> 's loop_state" where
  "agent_step env step st =
     (case before_model (ru_limits env) (ru_prices env) (map mm_content (lp_messages st)) (lp_usage st) of
        (Some b, usage) \<Rightarrow> (Stop_With (Run_Budget b), st\<lparr>lp_usage := usage, lp_content := ru_budget_text env b\<rparr>)
      | (None, usage) \<Rightarrow>
          (case ru_client env step (lp_messages st) of
             Inl e \<Rightarrow> (Stop_With Run_Provider_Error,
                       st\<lparr>lp_usage := usage, lp_content := ''Provider error: '' @ e\<rparr>)
           | Inr reply \<Rightarrow>
               (case after_model (ru_limits env) (ru_prices env) (mr_response reply) usage of
                  (Some b, usage') \<Rightarrow>
                    (Stop_With (Run_Budget b), st\<lparr>lp_usage := usage', lp_content := ru_budget_text env b\<rparr>)
                | (None, usage') \<Rightarrow> handle_reply env reply (st\<lparr>lp_usage := usage'\<rparr>))))"

text \<open>The rounds left, the number of the round, and at the end how many rounds there were.\<close>

fun agent_loop ::
  "('s, 'h) run_env \<Rightarrow> nat \<Rightarrow> nat \<Rightarrow> 's loop_state \<Rightarrow> (protection_error + stop_reason) \<times> nat \<times> 's loop_state" where
  "agent_loop env 0 step st = (Inr Run_Max_Steps, step, st)"
| "agent_loop env (Suc left) step st =
     (case agent_step env (Suc step) st of
        (Go_On, st') \<Rightarrow> agent_loop env left (Suc step) st'
      | (Stop_With reason, st') \<Rightarrow> (Inr reason, Suc step, st')
      | (Fault e, st') \<Rightarrow> (Inl e, Suc step, st'))"

datatype run_error = PromptDirective directive_error | RunProtection protection_error

text \<open>
  The run after the prompt has passed its own protection: \<open>history\<close> are the rendered earlier turns,
  \<open>first\<close> the text of the first message for the executions of the prompt's directives.
\<close>

definition agent_run ::
  "('s, 'h) run_env \<Rightarrow> string \<Rightarrow> model_message list \<Rightarrow> (tool_execution list \<Rightarrow> string) \<Rightarrow> 's tool_state \<Rightarrow>
     (run_error + stop_reason) \<times> nat \<times> 's loop_state" where
  "agent_run env prompt history first tools =
     (let start = \<lparr>lp_usage = fresh_budget, lp_messages = history, lp_executions = [], lp_tools = tools,
                   lp_content = []\<rparr> in
      case parse_tool_calls (ru_loads env) From_User prompt of
        Inl e \<Rightarrow> (Inl (PromptDirective e), 0, start)
      | Inr calls \<Rightarrow>
          (case add_tool_calls (ru_limits env) (int (length calls)) fresh_budget of
             (exceeded, usage) \<Rightarrow>
               (case execute_calls (ru_tools env) (ru_hooks env) (if exceeded = None then calls else []) tools of
                  (xs, Some e, tools') \<Rightarrow>
                    (Inl (RunProtection e), 0, start\<lparr>lp_usage := usage, lp_executions := xs, lp_tools := tools'\<rparr>)
                | (xs, None, tools') \<Rightarrow>
                    (let st = start\<lparr>lp_usage := usage, lp_executions := xs, lp_tools := tools'\<rparr> in
                     case enforced env ''model_input'' (first xs) of
                       Inl e \<Rightarrow> (Inl (RunProtection e), 0, st)
                     | Inr content \<Rightarrow>
                         (case exceeded of
                            Some b \<Rightarrow> (Inr (Run_Budget b), 0, st)
                          | None \<Rightarrow>
                              (case agent_loop env (ru_max_steps env) 0
                                      (st\<lparr>lp_messages := history @ [text_message ''user'' content]\<rparr>) of
                                 (Inl e, n, st') \<Rightarrow> (Inl (RunProtection e), n, st')
                               | (Inr reason, n, st') \<Rightarrow> (Inr reason, n, st')))))))"

definition stop_text :: "(budget_name \<Rightarrow> string) \<Rightarrow> stop_reason \<Rightarrow> string" where
  "stop_text budget_text reason =
     (case reason of Run_Completed \<Rightarrow> ''completed'' | Run_Provider_Error \<Rightarrow> ''provider_error''
      | Run_Max_Steps \<Rightarrow> ''max_steps'' | Run_Budget b \<Rightarrow> ''budget_'' @ budget_text b)"

subsection \<open>The loop refines the accounting of budgets\<close>

lemma budget_run_append:
  "budget_run rt m xs b = (None, b') \<Longrightarrow> budget_run rt m (xs @ ys) b = budget_run rt m ys b'"
  by (induction xs arbitrary: b) (auto split: prod.splits option.splits)

definition reason_budget :: "stop_reason \<Rightarrow> budget_name option" where
  "reason_budget reason = (case reason of Run_Budget b \<Rightarrow> Some b | _ \<Rightarrow> None)"

definition next_budget :: "loop_next \<Rightarrow> budget_name option" where
  "next_budget n = (case n of Stop_With reason \<Rightarrow> reason_budget reason | _ \<Rightarrow> None)"

definition accounted ::
  "('s, 'h) run_env \<Rightarrow> usage_budget \<Rightarrow> budget_name option \<Rightarrow> usage_budget \<Rightarrow> bool" where
  "accounted env usage res usage' \<longleftrightarrow>
     (\<exists>ops. budget_run (ru_limits env) (ru_prices env) ops usage = (res, usage'))"

lemma accounted_refl [simp]: "accounted env u None u"
  unfolding accounted_def by (rule exI [of _ "[]"]) simp

lemma accounted_step:
  "budget_step (ru_limits env) (ru_prices env) op u = (res, u') \<Longrightarrow> accounted env u res u'"
  unfolding accounted_def by (rule exI [of _ "[op]"]) (cases res; simp)

lemma accounted_trans: "accounted env u None v \<Longrightarrow> accounted env v res w \<Longrightarrow> accounted env u res w"
  unfolding accounted_def by (metis budget_run_append)

definition counted :: "('s, 'h) run_env \<Rightarrow> 's loop_state \<Rightarrow> bool" where
  "counted env st \<longleftrightarrow>
     int (length (lp_executions st)) \<le> tool_calls (lp_usage st)
     \<and> int (length (lp_executions st)) \<le> max_tool_calls (ru_limits env)"

lemma execute_calls_length:
  "execute_calls tools hooks calls st = (xs, e, st') \<Longrightarrow> length xs \<le> length calls"
  by (induction calls arbitrary: st xs) (fastforce split: prod.splits sum.splits)+

lemma add_tool_calls_frame:
  "add_tool_calls rt n u = (res, u') \<Longrightarrow> tool_calls u' = tool_calls u + n \<and> (res = None \<longrightarrow> tool_calls u' \<le> max_tool_calls rt)"
  by (auto simp: add_tool_calls_def Let_def split: if_splits)

lemma before_model_calls: "before_model rt m ms u = (res, u') \<Longrightarrow> tool_calls u' = tool_calls u"
  by (auto simp: before_model_def Let_def split: if_splits)

lemma after_model_calls: "after_model rt m r u = (res, u') \<Longrightarrow> tool_calls u' = tool_calls u"
  by (auto simp: after_model_def Let_def split: if_splits prod.splits)

lemma run_calls_refines:
  assumes "counted env st" and "run_calls_of_reply env natives textual st = (n, st')"
  shows "accounted env (lp_usage st) (next_budget n) (lp_usage st') \<and> counted env st'"
proof -
  define calls where "calls = map (native_runtime_call env) natives @ textual"
  have reply: "run_calls_of_reply env natives textual st =
      (if calls = [] then (Stop_With Run_Completed, st)
      else case add_tool_calls (ru_limits env) (int (length calls)) (lp_usage st) of
             (Some b, usage) \<Rightarrow>
               (Stop_With (Run_Budget b), st\<lparr>lp_usage := usage, lp_content := ru_budget_text env b\<rparr>)
           | (None, usage) \<Rightarrow>
               (case execute_calls (ru_tools env) (ru_hooks env) calls (lp_tools st) of
                  (xs, Some e, tools) \<Rightarrow>
                    (Fault e, st\<lparr>lp_usage := usage, lp_tools := tools, lp_executions := lp_executions st @ xs\<rparr>)
                | (xs, None, tools) \<Rightarrow>
                    (Go_On, st\<lparr>lp_usage := usage, lp_tools := tools, lp_executions := lp_executions st @ xs,
                       lp_messages := lp_messages st
                         @ [(text_message ''assistant'' (lp_content st))\<lparr>mm_calls := natives\<rparr>,
                            result_message natives xs]\<rparr>)))"
    by (simp only: run_calls_of_reply_def Let_def calls_def)
  obtain res usage where add: "add_tool_calls (ru_limits env) (int (length calls)) (lp_usage st) = (res, usage)"
    by (cases "add_tool_calls (ru_limits env) (int (length calls)) (lp_usage st)")
  note frame = add_tool_calls_frame [OF add]
  have acc: "accounted env (lp_usage st) res usage"
    by (rule accounted_step [of _ "Tools (length calls)"]) (simp only: budget_step.simps add)
  obtain xs e tools where run: "execute_calls (ru_tools env) (ru_hooks env) calls (lp_tools st) = (xs, e, tools)"
    by (cases "execute_calls (ru_tools env) (ru_hooks env) calls (lp_tools st)")
  note len = execute_calls_length [OF run]
  show ?thesis
  proof (cases "calls = []")
    case True
    then show ?thesis using assms reply by (auto simp: next_budget_def reason_budget_def)
  next
    case calls: False
    show ?thesis
    proof (cases res)
      case (Some b)
      have "n = Stop_With (Run_Budget b)" "lp_usage st' = usage" "lp_executions st' = lp_executions st"
        using assms(2) calls add Some reply by auto
      then show ?thesis
        using acc Some frame assms(1) by (simp add: counted_def next_budget_def reason_budget_def)
    next
      case None
      have "next_budget n = None \<and> lp_usage st' = usage \<and> lp_executions st' = lp_executions st @ xs"
        using assms(2) calls add None run reply by (cases e) (auto simp: next_budget_def)
      then show ?thesis
        using acc None frame assms(1) len by (auto simp: counted_def)
    qed
  qed
qed

lemma handle_reply_refines:
  assumes "counted env st" and "handle_reply env reply st = (n, st')"
  shows "accounted env (lp_usage st) (next_budget n) (lp_usage st') \<and> counted env st'"
proof -
  have keep: "counted env (st\<lparr>lp_content := c\<rparr>)" "counted env (st\<lparr>lp_content := c, lp_messages := ms\<rparr>)" for c ms
    using assms(1) by (simp_all add: counted_def)
  have calls: "run_calls_of_reply env natives textual (st\<lparr>lp_content := c\<rparr>) = (n, st') \<Longrightarrow>
      accounted env (lp_usage st) (next_budget n) (lp_usage st') \<and> counted env st'" for natives textual c
    using run_calls_refines [OF keep(1)] by simp
  show ?thesis
    using assms(2) keep assms(1)
    by (auto simp: handle_reply_def Let_def next_budget_def dest: calls split: sum.splits)
qed

lemma agent_step_refines:
  assumes "counted env st" and "agent_step env k st = (n, st')"
  shows "accounted env (lp_usage st) (next_budget n) (lp_usage st') \<and> counted env st'"
proof -
  obtain res u where b: "before_model (ru_limits env) (ru_prices env) (map mm_content (lp_messages st)) (lp_usage st) = (res, u)"
    by (cases "before_model (ru_limits env) (ru_prices env) (map mm_content (lp_messages st)) (lp_usage st)")
  note bc = before_model_calls [OF b]
  have acc: "accounted env (lp_usage st) res u"
    by (rule accounted_step [of _ "Before (map mm_content (lp_messages st))"]) (simp only: budget_step.simps b)
  show ?thesis
  proof (cases res)
    case (Some e)
    then show ?thesis using assms b bc acc
      by (auto simp: agent_step_def counted_def next_budget_def reason_budget_def)
  next
    case None
    show ?thesis
    proof (cases "ru_client env k (lp_messages st)")
      case (Inl err)
      then show ?thesis using assms b bc acc None
        by (auto simp: agent_step_def counted_def next_budget_def reason_budget_def)
    next
      case (Inr reply)
      obtain res' v where a: "after_model (ru_limits env) (ru_prices env) (mr_response reply) u = (res', v)"
        by (cases "after_model (ru_limits env) (ru_prices env) (mr_response reply) u")
      have "accounted env u res' v"
        by (rule accounted_step [of _ "After (mr_response reply)"]) (simp only: budget_step.simps a)
      with acc None have acc': "accounted env (lp_usage st) res' v" by (auto intro: accounted_trans)
      note ac = after_model_calls [OF a]
      show ?thesis
      proof (cases res')
        case (Some e)
        then show ?thesis using assms b bc ac acc' None Inr a
          by (auto simp: agent_step_def counted_def next_budget_def reason_budget_def)
      next
        case None': None
        have "handle_reply env reply (st\<lparr>lp_usage := v\<rparr>) = (n, st')"
          using assms(2) b None Inr a None' by (simp add: agent_step_def)
        moreover have "counted env (st\<lparr>lp_usage := v\<rparr>)" using assms(1) bc ac by (simp add: counted_def)
        ultimately have "accounted env v (next_budget n) (lp_usage st') \<and> counted env st'"
          using handle_reply_refines [of env "st\<lparr>lp_usage := v\<rparr>"] by simp
        then show ?thesis using acc' None' accounted_trans by blast
      qed
    qed
  qed
qed

definition result_budget :: "'e + stop_reason \<Rightarrow> budget_name option" where
  "result_budget res = (case res of Inl e \<Rightarrow> None | Inr reason \<Rightarrow> reason_budget reason)"

lemma agent_loop_refines:
  assumes "counted env st" and "agent_loop env left step st = (res, steps, st')"
  shows "accounted env (lp_usage st) (result_budget res) (lp_usage st') \<and> counted env st' \<and> steps \<le> step + left"
  using assms
proof (induction left arbitrary: step st)
  case 0
  then show ?case by (auto simp: result_budget_def reason_budget_def)
next
  case (Suc left)
  obtain n st1 where s: "agent_step env (Suc step) st = (n, st1)"
    by (cases "agent_step env (Suc step) st")
  note r = agent_step_refines [OF Suc.prems(1) s]
  show ?case
  proof (cases n)
    case Go_On
    then have "agent_loop env left (Suc step) st1 = (res, steps, st')" using Suc.prems(2) s by simp
    from Suc.IH [OF _ this] r Go_On show ?thesis
      by (auto simp: next_budget_def intro: accounted_trans)
  next
    case (Stop_With reason)
    then show ?thesis using Suc.prems(2) s r by (auto simp: next_budget_def result_budget_def)
  next
    case (Fault e)
    then show ?thesis using Suc.prems(2) s r by (auto simp: next_budget_def result_budget_def)
  qed
qed


subsection \<open>A run of two rounds\<close>

definition loop_limits_example :: runtime_limits where
  "loop_limits_example = \<lparr>max_tool_calls = 2, max_model_input_bytes = 4096, max_model_output_bytes = 1024,
     max_input_tokens = Some 1000, max_output_tokens = Some 1000, max_cost_usd = Some 1\<rparr>"

definition write_directive :: string where
  "write_directive = ''@tool file.write W''"

definition run_env_example :: "(inmem, nat) run_env" where
  "run_env_example =
     \<lparr>ru_limits = loop_limits_example, ru_prices = sample_prices, ru_max_steps = 3,
      ru_client = (\<lambda>step messages. Inr \<lparr>mr_response = \<lparr>resp_content = (if step = 1 then write_directive else ''done''),
                     resp_raw = None\<rparr>, mr_calls = []\<rparr>),
      ru_loads = (\<lambda>t. if t = ''W'' then Some (JObj [(''path'', JStr ''a.txt''), (''content'', JStr ''new'')]) else None),
      ru_schemas = [''file.read'', ''file.write''], ru_tools = tool_env_example, ru_hooks = no_hooks,
      ru_directive_text = (\<lambda>_. ''invalid''), ru_budget_text = (\<lambda>_. ''budget'')\<rparr>"

lemma example_run_ends:
  "case agent_run run_env_example ''change the file'' [] (\<lambda>xs. ''change the file'') tool_start_example of
     (res, steps, st) \<Rightarrow> res = Inr Run_Completed \<and> steps = 2 \<and> length (lp_executions st) = 1
       \<and> ts_files (lp_tools st) = [(''/work/a.txt'', ''new'')]"
  by code_simp

lemma loop_limits_example_ok: "\<not> over_limits loop_limits_example fresh_budget"
  by (simp add: over_limits_def require_within_limits_def loop_limits_example_def fresh_budget_def
      exceeds_int_def exceeds_cost_def)


text \<open>
  The results of native tool calls do not count as model input: whatever the tools gave back, the
  content of their message, which is all that the input budget looks at, is the request to go on.
\<close>

lemma native_results_escape_input_budget:
  assumes "length xs = length natives" and "natives \<noteq> []"
  shows "mm_content (result_message natives xs) = continue_text
    \<and> map nx_content (mm_results (result_message natives xs)) = map format_execution xs"
  using assms by (auto simp: result_message_def native_results_def Let_def zip_map_fst_snd
      intro!: nth_equalityI)

end
