(* ===== verification/Effective_Profile.thy ===== *)
theory Effective_Profile
  imports Permissions
begin

text \<open>
  \<open>src/loro/agent_profiles/effective.py\<close>: what an agent profile, with the layers it extends, may do under
  a configuration. Every field is narrowed, layer by layer, and adjustments record where a request was
  cut. Path resolution, the tool catalog, the enabled skills, the discovered profiles and the tenant are
  parameters. The theorem is that no field of the result exceeds the configuration or the request of any
  layer; the containment roots are the exception, and a lemma shows how they widen.
\<close>

subsection \<open>Profiles and configuration\<close>

datatype writeback = Wb_Off | Wb_Propose | Wb_Auto

fun writeback_rank :: "writeback \<Rightarrow> nat" where
  "writeback_rank Wb_Off = 0"
| "writeback_rank Wb_Propose = 1"
| "writeback_rank Wb_Auto = 2"

datatype tool_policy = Tools_Allowlist | Tools_Denylist | Tools_Inherit

text \<open>A field that the layer does not set is None.\<close>

record profile_layer =
  ly_decisions :: "(string, decision) dict"
  ly_roots :: "string list"
  ly_rules :: "permission_rule list"
  ly_tool_policy :: tool_policy
  ly_tool_allow :: "string list"
  ly_tool_deny :: "string list"
  ly_mcp_servers :: "string list option"
  ly_skills :: "string list option"
  ly_max_turns :: "int option"
  ly_max_steps :: "int option"
  ly_max_tool_calls :: "int option"
  ly_max_cost :: "rat option"
  ly_subagents :: "string list option"
  ly_max_depth :: "int option"
  ly_stores :: "string list option"
  ly_scopes :: "string list option"
  ly_writeback :: writeback

record model_tier =
  mt_provider :: string
  mt_model :: string
  mt_api_key_env :: "string option"
  mt_credential :: "string option"
  mt_base_url :: "string option"

record model_config =
  mc_provider :: string
  mc_model :: string
  mc_small_model :: string
  mc_api_key_env :: "string option"
  mc_credential :: "string option"
  mc_base_url :: "string option"
  mc_tiers :: "(string, model_tier) dict"

record model_spec =
  sp_provider :: "string option"
  sp_id :: "string option"
  sp_tier :: "string option"
  sp_fallbacks :: "string list"

record runtime_config =
  rt_max_steps :: int
  rt_max_tool_calls :: int
  rt_max_cost :: "rat option"

record profile_config =
  pc_permissions :: permissions_config
  pc_model :: model_config
  pc_runtime :: runtime_config
  pc_mcp_enabled :: bool
  pc_mcp_servers :: "(string, bool) dict"
  pc_local_memory :: bool
  pc_shared_memory :: bool
  pc_writeback :: writeback
  pc_max_depth :: int

datatype adjustment =
    AdjDecision string decision decision
  | AdjRoots "string list" "string list"
  | AdjRules "permission_rule list"
  | AdjSteps string int int
  | AdjCost rat rat
  | AdjModel string string
  | AdjWriteback writeback writeback

record effective_profile =
  ef_permissions :: permissions_config
  ef_tools :: "string list"
  ef_model :: model_config
  ef_runtime :: runtime_config
  ef_writeback :: writeback
  ef_mcp_servers :: "string list"
  ef_skills :: "string list"
  ef_subagents :: "string list"
  ef_max_depth :: int
  ef_stores :: "string list"
  ef_scopes :: "string list"
  ef_adjustments :: "adjustment list"

record profile_env =
  pe_resolve :: "string \<Rightarrow> string"
  pe_cwd :: string
  pe_catalog :: "permissions_config \<Rightarrow> string list"
  pe_skills :: "string list"
  pe_profiles :: "string list"
  pe_lineage :: "string list"
  pe_tenant :: string

subsection \<open>Permissions\<close>

definition permission_fields :: "string list" where
  "permission_fields =
     [''default'', ''shell'', ''edit'', ''artifact'', ''shared_memory'', ''governed_data'', ''mcp'', ''skills'',
      ''session_message'', ''web'']"

definition narrow_decision :: "decision \<Rightarrow> decision \<Rightarrow> decision" where
  "narrow_decision policy requested =
     (if decision_rank policy < decision_rank requested then requested else policy)"

definition field_decision :: "permissions_config \<Rightarrow> string \<Rightarrow> decision" where
  "field_decision cfg field =
     (case map_of (decision_fields cfg) field of Some d \<Rightarrow> d | None \<Rightarrow> perm_default cfg)"

definition set_decision :: "string \<Rightarrow> decision \<Rightarrow> permissions_config \<Rightarrow> permissions_config" where
  "set_decision field d cfg =
     (if field = ''default'' then cfg\<lparr>perm_default := d\<rparr>
      else if field = ''shell'' then cfg\<lparr>perm_shell := d\<rparr>
      else if field = ''edit'' then cfg\<lparr>perm_edit := d\<rparr>
      else if field = ''artifact'' then cfg\<lparr>perm_artifact := d\<rparr>
      else if field = ''shared_memory'' then cfg\<lparr>perm_shared_memory := d\<rparr>
      else if field = ''governed_data'' then cfg\<lparr>perm_governed_data := d\<rparr>
      else if field = ''mcp'' then cfg\<lparr>perm_mcp := d\<rparr>
      else if field = ''skills'' then cfg\<lparr>perm_skills := d\<rparr>
      else if field = ''session_message'' then cfg\<lparr>perm_session_message := d\<rparr>
      else if field = ''web'' then cfg\<lparr>perm_web := d\<rparr>
      else cfg)"

definition narrow_field ::
  "profile_layer \<Rightarrow> string \<Rightarrow> permissions_config \<times> adjustment list \<Rightarrow> permissions_config \<times> adjustment list" where
  "narrow_field ly field acc =
     (case acc of (cfg, adj) \<Rightarrow>
        (case map_of (ly_decisions ly) field of
           None \<Rightarrow> (cfg, adj)
         | Some requested \<Rightarrow>
             (let effective = narrow_decision (field_decision cfg field) requested in
              (set_decision field effective cfg,
               if effective \<noteq> requested then adj @ [AdjDecision field requested effective] else adj))))"

definition profile_path :: "profile_env \<Rightarrow> string \<Rightarrow> string" where
  "profile_path env item = pe_resolve env (join_path (pe_cwd env) item)"

definition intersect_roots :: "profile_env \<Rightarrow> string list \<Rightarrow> string list \<Rightarrow> string list" where
  "intersect_roots env policy requested =
     (if policy = [] then []
      else filter (\<lambda>item. list_ex (is_within (profile_path env item)) (map (profile_path env) policy)) requested)"

definition narrow_roots ::
  "profile_env \<Rightarrow> profile_layer \<Rightarrow> permissions_config \<times> adjustment list \<Rightarrow> permissions_config \<times> adjustment list" where
  "narrow_roots env ly acc =
     (case acc of (cfg, adj) \<Rightarrow>
        if ly_roots ly = [] then (cfg, adj)
        else let roots = intersect_roots env (perm_workspace_roots cfg) (ly_roots ly) in
             (cfg\<lparr>perm_workspace_roots := roots\<rparr>,
              if roots \<noteq> ly_roots ly then adj @ [AdjRoots (ly_roots ly) roots] else adj))"

definition narrow_permissions ::
  "profile_env \<Rightarrow> profile_layer \<Rightarrow> permissions_config \<times> adjustment list \<Rightarrow> permissions_config \<times> adjustment list" where
  "narrow_permissions env ly acc = narrow_roots env ly (fold (narrow_field ly) permission_fields acc)"

subsection \<open>Tools, servers, skills, subagents and memory\<close>

definition expand_tools :: "string list \<Rightarrow> string list \<Rightarrow> string list" where
  "expand_tools patterns available = filter (\<lambda>tool. list_ex (fnmatchcase tool) patterns) available"

definition keep :: "string list option \<Rightarrow> string list \<Rightarrow> string list" where
  "keep wanted xs = (case wanted of None \<Rightarrow> xs | Some ys \<Rightarrow> filter (\<lambda>x. x \<in> set ys) xs)"

definition narrow_tools :: "string list \<Rightarrow> profile_layer \<Rightarrow> string list \<Rightarrow> string list" where
  "narrow_tools available ly tools =
     (let allowed = (if ly_tool_policy ly = Tools_Allowlist
                     then filter (\<lambda>t. t \<in> set (expand_tools (ly_tool_allow ly) available)) tools else tools) in
      filter (\<lambda>t. t \<notin> set (expand_tools (ly_tool_deny ly) available)) allowed)"

definition narrow_subagents :: "string list \<Rightarrow> profile_layer \<Rightarrow> string list option \<Rightarrow> string list option" where
  "narrow_subagents available ly declared =
     (case ly_subagents ly of
        None \<Rightarrow> declared
      | Some names \<Rightarrow>
          (let requested = filter (\<lambda>n. n \<in> set available) names in
           Some (case declared of Some xs \<Rightarrow> filter (\<lambda>n. n \<in> set requested) xs | None \<Rightarrow> requested)))"

subsection \<open>Budgets, model and writeback\<close>

definition narrow_int :: "string \<Rightarrow> int option \<Rightarrow> int \<times> adjustment list \<Rightarrow> int \<times> adjustment list" where
  "narrow_int source requested acc =
     (case acc of (policy, adj) \<Rightarrow>
        (case requested of
           None \<Rightarrow> (policy, adj)
         | Some n \<Rightarrow> (min policy n, if min policy n \<noteq> n then adj @ [AdjSteps source n (min policy n)] else adj)))"

definition narrow_cost ::
  "rat option \<Rightarrow> rat option \<times> adjustment list \<Rightarrow> rat option \<times> adjustment list" where
  "narrow_cost requested acc =
     (case acc of (policy, adj) \<Rightarrow>
        (case requested of
           None \<Rightarrow> (policy, adj)
         | Some c \<Rightarrow>
             (let effective = (case policy of None \<Rightarrow> c | Some p \<Rightarrow> min p c) in
              (Some effective, if effective \<noteq> c then adj @ [AdjCost c effective] else adj))))"

definition narrow_runtime ::
  "profile_layer \<Rightarrow> runtime_config \<times> adjustment list \<Rightarrow> runtime_config \<times> adjustment list" where
  "narrow_runtime ly acc =
     (case acc of (rt, adj) \<Rightarrow>
        (case narrow_int ''max_turns'' (ly_max_turns ly) (rt_max_steps rt, adj) of (s1, a1) \<Rightarrow>
        (case narrow_int ''max_steps'' (ly_max_steps ly) (s1, a1) of (s2, a2) \<Rightarrow>
        (case narrow_int ''max_tool_calls'' (ly_max_tool_calls ly) (rt_max_tool_calls rt, a2) of (t, a3) \<Rightarrow>
        (case narrow_cost (ly_max_cost ly) (rt_max_cost rt, a3) of (c, a4) \<Rightarrow>
           (\<lparr>rt_max_steps = s2, rt_max_tool_calls = t, rt_max_cost = c\<rparr>, a4))))))"

definition narrow_depth :: "profile_layer \<Rightarrow> int \<Rightarrow> int" where
  "narrow_depth ly depth = (case ly_max_depth ly of None \<Rightarrow> depth | Some d \<Rightarrow> min depth d)"

definition narrow_writeback :: "profile_layer \<Rightarrow> writeback \<Rightarrow> writeback" where
  "narrow_writeback ly w =
     (if writeback_rank (ly_writeback ly) < writeback_rank w then ly_writeback ly else w)"

definition model_from_tier :: "model_config \<Rightarrow> model_tier \<Rightarrow> model_config" where
  "model_from_tier m tier =
     m\<lparr>mc_provider := mt_provider tier, mc_model := mt_model tier, mc_api_key_env := mt_api_key_env tier,
       mc_credential := mt_credential tier, mc_base_url := mt_base_url tier\<rparr>"

definition model_routes :: "model_config \<Rightarrow> (string, model_config) dict" where
  "model_routes m =
     fold (\<lambda>(name, tier) d. AList.update (mt_provider tier @ ''/'' @ mt_model tier) (model_from_tier m tier) d)
       (mc_tiers m)
       (AList.update (mc_provider m @ ''/'' @ mc_small_model m) (m\<lparr>mc_model := mc_small_model m\<rparr>)
          [(mc_provider m @ ''/'' @ mc_model m, m)])"

definition text_set :: "string option \<Rightarrow> bool" where
  "text_set v = (v \<noteq> None \<and> v \<noteq> Some [])"

definition text_or_empty :: "string option \<Rightarrow> string" where
  "text_or_empty v = (case v of Some s \<Rightarrow> s | None \<Rightarrow> [])"

definition resolve_model :: "model_spec \<Rightarrow> model_config \<Rightarrow> model_config \<times> adjustment list" where
  "resolve_model spec m =
     (let routes = model_routes m;
          exact = (if text_set (sp_provider spec) \<and> text_set (sp_id spec)
                   then map_of routes (text_or_empty (sp_provider spec) @ ''/'' @ text_or_empty (sp_id spec)) else None);
          fallback = List.find (\<lambda>item. map_of routes item \<noteq> None) (sp_fallbacks spec);
          tier = (if text_set (sp_tier spec) then map_of (mc_tiers m) (text_or_empty (sp_tier spec)) else None) in
      case exact of
        Some route \<Rightarrow> (route, [])
      | None \<Rightarrow>
          (case fallback of
             Some item \<Rightarrow> (case map_of routes item of Some r \<Rightarrow> r | None \<Rightarrow> m, [AdjModel item ''first serviceable fallback''])
           | None \<Rightarrow>
               (case tier of
                  Some t \<Rightarrow> (model_from_tier m t, [AdjModel (text_or_empty (sp_tier spec)) ''configured model tier''])
                | None \<Rightarrow>
                    (m, if text_set (sp_provider spec) \<or> text_set (sp_id spec) \<or> text_set (sp_tier spec)
                            \<or> sp_fallbacks spec \<noteq> []
                        then [AdjModel (mc_model m) ''configured default model''] else []))))"

subsection \<open>The effective profile\<close>

definition enabled_servers :: "profile_config \<Rightarrow> string list" where
  "enabled_servers cfg = (if pc_mcp_enabled cfg then map fst (filter snd (pc_mcp_servers cfg)) else [])"

definition memory_stores :: "profile_config \<Rightarrow> string list" where
  "memory_stores cfg =
     ''oap-state'' # (if pc_local_memory cfg then [''local''] else []) @ (if pc_shared_memory cfg then [''shared''] else [])"

definition build_effective_profile ::
  "profile_env \<Rightarrow> profile_config \<Rightarrow> profile_layer list \<Rightarrow> profile_layer \<Rightarrow> model_spec \<Rightarrow> effective_profile" where
  "build_effective_profile env cfg declared document spec =
     (let layers = (if declared = [] then [document] else declared);
          permitted = fold (narrow_permissions env) layers (pc_permissions cfg, []);
          permissions = fst permitted;
          rules = concat (map ly_rules layers);
          rule_adj = (if rules \<noteq> [] then [AdjRules rules] else []);
          available = pe_catalog env permissions;
          agents = filter (\<lambda>n. n \<notin> set (pe_lineage env)) (pe_profiles env);
          scopes = fold (\<lambda>ly. keep (ly_scopes ly)) layers [pe_tenant env];
          stores = fold (\<lambda>ly. keep (ly_stores ly)) layers (memory_stores cfg);
          budget = fold narrow_runtime layers (pc_runtime cfg, []);
          model = resolve_model spec (pc_model cfg);
          narrowed = fold narrow_writeback layers (pc_writeback cfg);
          wb = (if 1 < length layers then Wb_Off else narrowed) in
      \<lparr>ef_permissions = permissions,
       ef_tools = fold (narrow_tools available) layers available,
       ef_model = fst model,
       ef_runtime = fst budget,
       ef_writeback = wb,
       ef_mcp_servers = fold (\<lambda>ly. keep (ly_mcp_servers ly)) layers (enabled_servers cfg),
       ef_skills = fold (\<lambda>ly. keep (ly_skills ly)) layers (pe_skills env),
       ef_subagents = (case fold (narrow_subagents agents) layers None of Some xs \<Rightarrow> xs | None \<Rightarrow> []),
       ef_max_depth = fold narrow_depth layers (pc_max_depth cfg),
       ef_stores = (if scopes = [] then filter (\<lambda>s. s \<noteq> ''shared'') stores else stores),
       ef_scopes = scopes,
       ef_adjustments = snd permitted @ rule_adj @ snd budget @ snd model
         @ (if wb \<noteq> ly_writeback document then [AdjWriteback (ly_writeback document) wb] else [])\<rparr>)"

definition effective_config :: "profile_config \<Rightarrow> effective_profile \<Rightarrow> profile_config" where
  "effective_config cfg p =
     cfg\<lparr>pc_permissions := ef_permissions p, pc_model := ef_model p, pc_runtime := ef_runtime p,
       pc_mcp_servers := filter (\<lambda>(k, v). k \<in> set (ef_mcp_servers p)) (pc_mcp_servers cfg),
       pc_local_memory := pc_local_memory cfg \<and> ''local'' \<in> set (ef_stores p),
       pc_shared_memory := pc_shared_memory cfg \<and> ''shared'' \<in> set (ef_stores p)\<rparr>"

subsection \<open>Narrowing, layer by layer\<close>

text \<open>
  A field is narrowed by a step for each layer. \<open>below a b\<close> says that a allows no more than b, \<open>asked l a\<close>
  that a allows no more than layer l asks for.
\<close>

locale narrowing =
  fixes step :: "profile_layer \<Rightarrow> 'a \<Rightarrow> 'a"
    and below :: "'a \<Rightarrow> 'a \<Rightarrow> bool"
    and asked :: "profile_layer \<Rightarrow> 'a \<Rightarrow> bool"
  assumes below_refl: "below a a"
    and below_trans: "below a b \<Longrightarrow> below b c \<Longrightarrow> below a c"
    and step_below: "below (step l a) a"
    and step_asked: "asked l (step l a)"
    and asked_down: "asked l a \<Longrightarrow> below b a \<Longrightarrow> asked l b"
begin

lemma fold_below: "below (fold step ls a) a"
proof (induction ls arbitrary: a)
  case Nil
  then show ?case by (simp add: below_refl)
next
  case (Cons l ls)
  then show ?case using step_below [of l a] below_trans by fastforce
qed

lemma fold_asked: "l \<in> set ls \<Longrightarrow> asked l (fold step ls a)"
proof (induction ls arbitrary: a)
  case Nil
  then show ?case by simp
next
  case (Cons k ls)
  then show ?case using asked_down [OF step_asked fold_below] by auto
qed

end

subsection \<open>Decisions\<close>

definition decision_names :: "string list" where
  "decision_names = permission_fields @ [''plugins'']"

lemma set_decisions:
  "list_all (\<lambda>field. list_all (\<lambda>f. field_decision (set_decision field d cfg) f
       = (if f = field then d else field_decision cfg f)) decision_names) permission_fields"
  by (simp add: permission_fields_def decision_names_def field_decision_def set_decision_def decision_fields_def)

lemma field_decision_set:
  "field \<in> set permission_fields \<Longrightarrow> f \<in> set decision_names \<Longrightarrow>
     field_decision (set_decision field d cfg) f = (if f = field then d else field_decision cfg f)"
  using set_decisions [of d cfg] by (simp only: list_all_iff)

lemma permission_field_name: "f \<in> set permission_fields \<Longrightarrow> f \<in> set decision_names"
  by (simp add: decision_names_def)

definition stricter :: "permissions_config \<Rightarrow> permissions_config \<Rightarrow> bool" where
  "stricter a b \<longleftrightarrow>
     (\<forall>field \<in> set decision_names. field_decision b field \<le> field_decision a field)
     \<and> perm_rules a = perm_rules b \<and> perm_version a = perm_version b"

definition decisions_asked :: "profile_layer \<Rightarrow> permissions_config \<Rightarrow> bool" where
  "decisions_asked ly cfg \<longleftrightarrow>
     (\<forall>field \<in> set permission_fields. \<forall>d. map_of (ly_decisions ly) field = Some d \<longrightarrow> d \<le> field_decision cfg field)"

lemma stricterD: "stricter a b \<Longrightarrow> f \<in> set decision_names \<Longrightarrow> field_decision b f \<le> field_decision a f"
  by (simp add: stricter_def)

lemma set_decision_frame:
  "perm_rules (set_decision f d cfg) = perm_rules cfg" "perm_version (set_decision f d cfg) = perm_version cfg"
  by (simp_all add: set_decision_def)

lemma narrow_decision_le: "policy \<le> narrow_decision policy requested" "requested \<le> narrow_decision policy requested"
  by (auto simp: narrow_decision_def less_eq_decision_def)

lemma stricter_refl: "stricter a a" by (simp add: stricter_def)

lemma stricter_trans: "stricter a b \<Longrightarrow> stricter b c \<Longrightarrow> stricter a c"
  unfolding stricter_def by (metis order_trans)

lemma stricter_set:
  assumes "field \<in> set permission_fields" and "field_decision cfg field \<le> d"
  shows "stricter (set_decision field d cfg) cfg"
  using assms by (simp add: stricter_def set_decision_frame field_decision_set)

lemma narrow_field_stricter:
  "field \<in> set permission_fields \<Longrightarrow> stricter (fst (narrow_field ly field acc)) (fst acc)"
  by (cases acc) (simp add: narrow_field_def Let_def stricter_refl narrow_decision_le stricter_set split: option.splits)

lemma narrow_fields_stricter:
  "set names \<subseteq> set permission_fields \<Longrightarrow> stricter (fst (fold (narrow_field ly) names acc)) (fst acc)"
proof (induction names arbitrary: acc)
  case Nil
  then show ?case by (simp add: stricter_refl)
next
  case (Cons f fs)
  then have "stricter (fst (fold (narrow_field ly) fs (narrow_field ly f acc))) (fst (narrow_field ly f acc))"
    and "stricter (fst (narrow_field ly f acc)) (fst acc)"
    using narrow_field_stricter by simp_all
  then show ?case using stricter_trans by simp
qed

lemma asked_stricter: "decisions_asked ly a \<Longrightarrow> stricter b a \<Longrightarrow> decisions_asked ly b"
  unfolding decisions_asked_def by (blast intro: order_trans stricterD permission_field_name)

lemma narrow_field_asked:
  "f \<in> set permission_fields \<Longrightarrow> map_of (ly_decisions ly) f = Some d \<Longrightarrow>
     d \<le> field_decision (fst (narrow_field ly f acc)) f"
  by (cases acc) (simp add: narrow_field_def Let_def field_decision_set permission_field_name narrow_decision_le)

lemma narrow_fields_asked:
  assumes "set names \<subseteq> set permission_fields" and "f \<in> set names" and "map_of (ly_decisions ly) f = Some d"
  shows "d \<le> field_decision (fst (fold (narrow_field ly) names acc)) f"
  using assms(1,2)
proof (induction names arbitrary: acc)
  case Nil
  then show ?case by simp
next
  case (Cons g gs)
  have f: "f \<in> set permission_fields" using Cons.prems by blast
  show ?case
  proof (cases "f \<in> set gs")
    case True
    then show ?thesis using Cons by simp
  next
    case False
    then have g: "g = f" using Cons.prems by simp
    have "d \<le> field_decision (fst (narrow_field ly f acc)) f"
      using narrow_field_asked f assms(3) .
    also have "\<dots> \<le> field_decision (fst (fold (narrow_field ly) gs (narrow_field ly f acc))) f"
      using narrow_fields_stricter Cons.prems(1) permission_field_name f by (intro stricterD) auto
    finally show ?thesis using g by simp
  qed
qed

lemma narrow_roots_decisions:
  "field_decision (fst (narrow_roots env ly acc)) = field_decision (fst acc)"
  "perm_rules (fst (narrow_roots env ly acc)) = perm_rules (fst acc)"
  "perm_version (fst (narrow_roots env ly acc)) = perm_version (fst acc)"
  by (cases acc; simp add: narrow_roots_def Let_def field_decision_def decision_fields_def fun_eq_iff)+

lemma stricter_narrow_roots: "stricter (fst (narrow_roots env ly acc)) b \<longleftrightarrow> stricter (fst acc) b"
  by (simp add: stricter_def narrow_roots_decisions)

text \<open>A stricter configuration lets nothing pass that the other one refuses.\<close>

lemma decision_field_names: "map fst (decision_fields cfg) = decision_names"
  by (simp add: decision_fields_def decision_names_def permission_fields_def)

lemma field_decision_names:
  "f \<notin> set decision_names \<Longrightarrow> map_of (decision_fields cfg) f = None"
  "f \<in> set decision_names \<Longrightarrow> map_of (decision_fields cfg) f = Some (field_decision cfg f)"
proof -
  have dom: "map_of (decision_fields cfg) f = None \<longleftrightarrow> f \<notin> set decision_names"
    using decision_field_names [of cfg] by (metis map_of_eq_None_iff list.set_map)
  show "f \<notin> set decision_names \<Longrightarrow> map_of (decision_fields cfg) f = None" using dom by simp
  show "f \<in> set decision_names \<Longrightarrow> map_of (decision_fields cfg) f = Some (field_decision cfg f)"
    using dom by (auto simp: field_decision_def)
qed

lemma default_decision: "perm_default cfg = field_decision cfg ''default''"
  by (simp add: field_decision_def decision_fields_def)

lemma stricter_default: "stricter a b \<Longrightarrow> perm_default b \<le> perm_default a"
  unfolding default_decision by (erule stricterD) (simp add: decision_names_def permission_fields_def)

lemma stricter_attribute:
  assumes "stricter a b"
  shows "(\<exists>d e. config_attribute base a tool = Decided d \<and> config_attribute base b tool = Decided e \<and> e \<le> d)
    \<or> config_attribute base a tool = config_attribute base b tool"
  using stricter_default [OF assms] stricterD [OF assms, of tool]
  by (cases "tool \<in> set decision_names") (auto simp: config_attribute_def field_decision_names)

lemma stricter_evaluate:
  assumes "stricter a b"
  shows "(\<exists>d e. result_decision (evaluate fl base a req) = Decided d
                \<and> result_decision (evaluate fl base b req) = Decided e \<and> e \<le> d)
    \<or> result_decision (evaluate fl base a req) = result_decision (evaluate fl base b req)"
  using stricter_attribute [OF assms, of base "req_tool req"] assms
  by (auto simp: evaluate_def stricter_def split: option.splits prod.splits)

lemma stricter_allows_less:
  assumes "stricter a b" and "require_allowed fl base a req approved = Inr r"
  shows "\<exists>r'. require_allowed fl base b req approved = Inr r'"
proof -
  have passes: "result_decision (evaluate fl base a req) \<noteq> Decided Deny"
    "\<not> (result_decision (evaluate fl base a req) = Decided Ask \<and> \<not> approved)"
    using assms(2) by (auto simp: require_allowed_def Let_def split: if_splits)
  from stricter_evaluate [OF assms(1), of fl base req]
  have "result_decision (evaluate fl base b req) \<noteq> Decided Deny
    \<and> \<not> (result_decision (evaluate fl base b req) = Decided Ask \<and> \<not> approved)"
  proof
    assume "\<exists>d e. result_decision (evaluate fl base a req) = Decided d
              \<and> result_decision (evaluate fl base b req) = Decided e \<and> e \<le> d"
    then obtain d e where "result_decision (evaluate fl base a req) = Decided d"
      and "result_decision (evaluate fl base b req) = Decided e" and "e \<le> d" by blast
    with passes show ?thesis by (cases d; cases e) (simp_all add: less_eq_decision_def)
  qed (use passes in simp)
  then show ?thesis by (simp add: require_allowed_def Let_def)
qed

lemma narrow_permissions_stricter: "stricter (fst (narrow_permissions env ly acc)) (fst acc)"
  by (simp add: narrow_permissions_def stricter_narrow_roots narrow_fields_stricter)

lemma narrow_permissions_asked: "decisions_asked ly (fst (narrow_permissions env ly acc))"
  by (simp add: narrow_permissions_def decisions_asked_def narrow_roots_decisions narrow_fields_asked)

interpretation perms: narrowing "narrow_permissions env" "\<lambda>a b. stricter (fst a) (fst b)"
    "\<lambda>ly a. decisions_asked ly (fst a)" for env
  by unfold_locales
    (simp_all add: stricter_refl narrow_permissions_stricter narrow_permissions_asked,
     (blast intro: stricter_trans asked_stricter)+)

subsection \<open>The other fields\<close>

definition tools_asked :: "string list \<Rightarrow> profile_layer \<Rightarrow> string list \<Rightarrow> bool" where
  "tools_asked available ly tools \<longleftrightarrow>
     (ly_tool_policy ly = Tools_Allowlist \<longrightarrow> set tools \<subseteq> set (expand_tools (ly_tool_allow ly) available))
     \<and> set tools \<inter> set (expand_tools (ly_tool_deny ly) available) = {}"

definition names_asked :: "string list option \<Rightarrow> string list \<Rightarrow> bool" where
  "names_asked wanted xs \<longleftrightarrow> (\<forall>ys. wanted = Some ys \<longrightarrow> set xs \<subseteq> set ys)"

definition declared_below :: "string list option \<Rightarrow> string list option \<Rightarrow> bool" where
  "declared_below a b \<longleftrightarrow> (\<forall>ys. b = Some ys \<longrightarrow> (\<exists>xs. a = Some xs \<and> set xs \<subseteq> set ys))"

definition subagents_asked :: "string list \<Rightarrow> profile_layer \<Rightarrow> string list option \<Rightarrow> bool" where
  "subagents_asked available ly a \<longleftrightarrow>
     (\<forall>ys. ly_subagents ly = Some ys \<longrightarrow> (\<exists>xs. a = Some xs \<and> set xs \<subseteq> set ys \<inter> set available))"

definition at_most :: "int \<Rightarrow> int option \<Rightarrow> bool" where
  "at_most n limit \<longleftrightarrow> (\<forall>m. limit = Some m \<longrightarrow> n \<le> m)"

definition cost_at_most :: "rat option \<Rightarrow> rat option \<Rightarrow> bool" where
  "cost_at_most c limit \<longleftrightarrow> (\<forall>m. limit = Some m \<longrightarrow> (\<exists>n. c = Some n \<and> n \<le> m))"

definition runtime_below :: "runtime_config \<Rightarrow> runtime_config \<Rightarrow> bool" where
  "runtime_below a b \<longleftrightarrow>
     rt_max_steps a \<le> rt_max_steps b \<and> rt_max_tool_calls a \<le> rt_max_tool_calls b
     \<and> cost_at_most (rt_max_cost a) (rt_max_cost b)"

definition runtime_asked :: "profile_layer \<Rightarrow> runtime_config \<Rightarrow> bool" where
  "runtime_asked ly a \<longleftrightarrow>
     at_most (rt_max_steps a) (ly_max_turns ly) \<and> at_most (rt_max_steps a) (ly_max_steps ly)
     \<and> at_most (rt_max_tool_calls a) (ly_max_tool_calls ly) \<and> cost_at_most (rt_max_cost a) (ly_max_cost ly)"

interpretation tools: narrowing "narrow_tools available" "\<lambda>a b. set a \<subseteq> set b" "tools_asked available"
  for available
  by unfold_locales (auto simp: narrow_tools_def tools_asked_def Let_def)

interpretation names: narrowing "\<lambda>ly. keep (sel ly)" "\<lambda>a b. set a \<subseteq> set b" "\<lambda>ly. names_asked (sel ly)"
  for sel
  by unfold_locales (auto simp: keep_def names_asked_def split: option.splits)

interpretation subagents: narrowing "narrow_subagents available" declared_below "subagents_asked available"
  for available
  by unfold_locales
    (fastforce simp: narrow_subagents_def declared_below_def subagents_asked_def Let_def split: option.splits)+

lemma cost_at_most_refl: "cost_at_most c c" by (simp add: cost_at_most_def)

lemma cost_at_most_trans: "cost_at_most a b \<Longrightarrow> cost_at_most b c \<Longrightarrow> cost_at_most a c"
  unfolding cost_at_most_def by (metis order_trans)

lemma fst_narrow_int: "fst (narrow_int source limit acc) = (case limit of None \<Rightarrow> fst acc | Some n \<Rightarrow> min (fst acc) n)"
  by (cases acc) (simp add: narrow_int_def split: option.splits)

lemma fst_narrow_cost:
  "fst (narrow_cost limit acc) =
     (case limit of None \<Rightarrow> fst acc | Some c \<Rightarrow> Some (case fst acc of None \<Rightarrow> c | Some p \<Rightarrow> min p c))"
  by (cases acc) (simp add: narrow_cost_def Let_def split: option.splits)

lemma fst_narrow_runtime:
  fixes acc :: "runtime_config \<times> adjustment list"
  defines "lower \<equiv> \<lambda>limit n. case limit of None \<Rightarrow> n | Some m \<Rightarrow> min n (m :: int)"
  shows "rt_max_steps (fst (narrow_runtime ly acc)) = lower (ly_max_steps ly) (lower (ly_max_turns ly) (rt_max_steps (fst acc)))"
    and "rt_max_tool_calls (fst (narrow_runtime ly acc)) = lower (ly_max_tool_calls ly) (rt_max_tool_calls (fst acc))"
    and "rt_max_cost (fst (narrow_runtime ly acc)) = fst (narrow_cost (ly_max_cost ly) (rt_max_cost (fst acc), []))"
  using fst_narrow_int fst_narrow_cost
  by (cases acc; simp add: narrow_runtime_def lower_def narrow_int_def narrow_cost_def Let_def
        split: option.splits prod.splits)+

lemma narrow_cost_bounds:
  "cost_at_most (fst (narrow_cost limit acc)) (fst acc)" "cost_at_most (fst (narrow_cost limit acc)) limit"
  by (auto simp: fst_narrow_cost cost_at_most_def split: option.splits)

lemma narrow_runtime_below: "runtime_below (fst (narrow_runtime ly acc)) (fst acc)"
  using narrow_cost_bounds(1) [of "ly_max_cost ly" "(rt_max_cost (fst acc), [])"]
  by (simp add: runtime_below_def fst_narrow_runtime min_le_iff_disj split: option.splits)

lemma narrow_runtime_asked: "runtime_asked ly (fst (narrow_runtime ly acc))"
  using narrow_cost_bounds(2) [of "ly_max_cost ly" "(rt_max_cost (fst acc), [])"]
  by (simp add: runtime_asked_def at_most_def fst_narrow_runtime min_le_iff_disj split: option.splits)

lemma runtime_order:
  "runtime_below a a"
  "runtime_below a b \<Longrightarrow> runtime_below b c \<Longrightarrow> runtime_below a c"
  "runtime_asked ly a \<Longrightarrow> runtime_below b a \<Longrightarrow> runtime_asked ly b"
  unfolding runtime_below_def runtime_asked_def at_most_def
  by (auto intro: cost_at_most_refl cost_at_most_trans order_trans)

interpretation budget: narrowing narrow_runtime "\<lambda>a b. runtime_below (fst a) (fst b)"
    "\<lambda>ly a. runtime_asked ly (fst a)"
  by unfold_locales (blast intro: runtime_order narrow_runtime_below narrow_runtime_asked)+

interpretation depth: narrowing narrow_depth "(\<le>)" "\<lambda>ly d. at_most d (ly_max_depth ly)"
  by unfold_locales (auto simp: narrow_depth_def at_most_def split: option.splits)

interpretation wb: narrowing narrow_writeback "\<lambda>a b. writeback_rank a \<le> writeback_rank b"
    "\<lambda>ly w. writeback_rank w \<le> writeback_rank (ly_writeback ly)"
  by unfold_locales (auto simp: narrow_writeback_def)

subsection \<open>The result stays below the configuration and below every layer\<close>

definition within_config :: "profile_env \<Rightarrow> profile_config \<Rightarrow> effective_profile \<Rightarrow> bool" where
  "within_config env cfg p \<longleftrightarrow>
     stricter (ef_permissions p) (pc_permissions cfg)
     \<and> set (ef_tools p) \<subseteq> set (pe_catalog env (ef_permissions p))
     \<and> set (ef_mcp_servers p) \<subseteq> set (enabled_servers cfg)
     \<and> set (ef_skills p) \<subseteq> set (pe_skills env)
     \<and> set (ef_subagents p) \<subseteq> set (pe_profiles env) - set (pe_lineage env)
     \<and> set (ef_stores p) \<subseteq> set (memory_stores cfg)
     \<and> set (ef_scopes p) \<subseteq> {pe_tenant env}
     \<and> (ef_scopes p = [] \<longrightarrow> ''shared'' \<notin> set (ef_stores p))
     \<and> runtime_below (ef_runtime p) (pc_runtime cfg)
     \<and> ef_max_depth p \<le> pc_max_depth cfg
     \<and> writeback_rank (ef_writeback p) \<le> writeback_rank (pc_writeback cfg)"

definition within_layer :: "profile_env \<Rightarrow> profile_layer \<Rightarrow> effective_profile \<Rightarrow> bool" where
  "within_layer env ly p \<longleftrightarrow>
     decisions_asked ly (ef_permissions p)
     \<and> tools_asked (pe_catalog env (ef_permissions p)) ly (ef_tools p)
     \<and> names_asked (ly_mcp_servers ly) (ef_mcp_servers p)
     \<and> names_asked (ly_skills ly) (ef_skills p)
     \<and> names_asked (ly_subagents ly) (ef_subagents p)
     \<and> names_asked (ly_stores ly) (ef_stores p)
     \<and> names_asked (ly_scopes ly) (ef_scopes p)
     \<and> runtime_asked ly (ef_runtime p)
     \<and> at_most (ef_max_depth p) (ly_max_depth ly)
     \<and> writeback_rank (ef_writeback p) \<le> writeback_rank (ly_writeback ly)"

definition profile_layers :: "profile_layer list \<Rightarrow> profile_layer \<Rightarrow> profile_layer list" where
  "profile_layers declared document = (if declared = [] then [document] else declared)"

lemma subagents_available:
  "fold (narrow_subagents available) layers a = Some xs \<Longrightarrow> (\<And>ys. a = Some ys \<Longrightarrow> set ys \<subseteq> set available) \<Longrightarrow>
     set xs \<subseteq> set available"
proof (induction layers arbitrary: a)
  case Nil
  then show ?case by simp
next
  case (Cons ly layers)
  show ?case
    by (rule Cons.IH [of "narrow_subagents available ly a"])
      (use Cons.prems in \<open>auto simp: narrow_subagents_def Let_def split: option.splits\<close>)
qed

lemma effective_within_config: "within_config env cfg (build_effective_profile env cfg declared document spec)"
proof -
  let ?agents = "filter (\<lambda>n. n \<notin> set (pe_lineage env)) (pe_profiles env)"
  let ?layers = "if declared = [] then [document] else declared"
  let ?p = "build_effective_profile env cfg declared document spec"
  have "set xs \<subseteq> set ?agents" if "fold (narrow_subagents ?agents) ?layers None = Some xs" for xs
    using subagents_available [OF that] by simp
  then have agents: "set (ef_subagents ?p) \<subseteq> set (pe_profiles env) - set (pe_lineage env)"
    by (cases "fold (narrow_subagents ?agents) ?layers None")
      (auto simp: build_effective_profile_def Let_def dest: subsetD)
  have perms: "stricter (ef_permissions ?p) (pc_permissions cfg)"
    and budget: "runtime_below (ef_runtime ?p) (pc_runtime cfg)"
    using perms.fold_below [of env ?layers "(pc_permissions cfg, [])"]
      budget.fold_below [of ?layers "(pc_runtime cfg, [])"]
    by (simp_all add: build_effective_profile_def Let_def)
  have tools: "set (ef_tools ?p) \<subseteq> set (pe_catalog env (ef_permissions ?p))"
    using tools.fold_below by (simp add: build_effective_profile_def Let_def)
  have named: "set (ef_mcp_servers ?p) \<subseteq> set (enabled_servers cfg)" "set (ef_skills ?p) \<subseteq> set (pe_skills env)"
    using names.fold_below [of ly_mcp_servers ?layers "enabled_servers cfg"]
      names.fold_below [of ly_skills ?layers "pe_skills env"]
    by (simp_all add: build_effective_profile_def Let_def)
  have "set (fold (\<lambda>ly. keep (ly_stores ly)) ?layers (memory_stores cfg)) \<subseteq> set (memory_stores cfg)"
    by (rule names.fold_below)
  then have stores: "set (ef_stores ?p) \<subseteq> set (memory_stores cfg)"
    by (auto simp: build_effective_profile_def Let_def)
  have scopes: "set (ef_scopes ?p) \<subseteq> {pe_tenant env}"
    using names.fold_below [of ly_scopes ?layers "[pe_tenant env]"] by (simp add: build_effective_profile_def Let_def)
  have shared: "ef_scopes ?p = [] \<Longrightarrow> ''shared'' \<notin> set (ef_stores ?p)"
    by (simp add: build_effective_profile_def Let_def)
  have "ef_max_depth ?p \<le> pc_max_depth cfg" "writeback_rank (ef_writeback ?p) \<le> writeback_rank (pc_writeback cfg)"
    using depth.fold_below wb.fold_below by (simp_all add: build_effective_profile_def Let_def)
  with agents perms budget tools named stores scopes shared show ?thesis
    unfolding within_config_def by blast
qed

lemma effective_within_layer:
  assumes "ly \<in> set (profile_layers declared document)"
  shows "within_layer env ly (build_effective_profile env cfg declared document spec)"
proof -
  let ?agents = "filter (\<lambda>n. n \<notin> set (pe_lineage env)) (pe_profiles env)"
  let ?layers = "if declared = [] then [document] else declared"
  have ly: "ly \<in> set ?layers" using assms by (simp add: profile_layers_def)
  have agents: "names_asked (ly_subagents ly)
      (case fold (narrow_subagents ?agents) ?layers None of Some xs \<Rightarrow> xs | None \<Rightarrow> [])"
    using subagents.fold_asked [OF ly, of ?agents None]
    by (fastforce simp: subagents_asked_def names_asked_def split: option.splits)
  have stores: "names_asked (ly_stores ly) (if b then filter P xs else xs)" if "names_asked (ly_stores ly) xs" for b P xs
    using that by (auto simp: names_asked_def)
  show ?thesis
    unfolding within_layer_def build_effective_profile_def Let_def
    using perms.fold_asked [OF ly] budget.fold_asked [OF ly] tools.fold_asked [OF ly]
      names.fold_asked [OF ly] depth.fold_asked [OF ly] wb.fold_asked [OF ly] agents
    by (simp add: stores)
qed


subsection \<open>A profile that narrows, and the roots that widen\<close>

definition profile_env_example :: profile_env where
  "profile_env_example = \<lparr>pe_resolve = id, pe_cwd = ''/work'', pe_catalog = (\<lambda>_. [''file.read'', ''file.write'']),
     pe_skills = [''review''], pe_profiles = [''helper''], pe_lineage = [], pe_tenant = ''acme''\<rparr>"

definition profile_config_example :: "string list \<Rightarrow> profile_config" where
  "profile_config_example roots = \<lparr>
     pc_permissions = default_permissions\<lparr>perm_workspace_roots := roots\<rparr>,
     pc_model = \<lparr>mc_provider = ''p'', mc_model = ''m'', mc_small_model = ''s'', mc_api_key_env = None,
                 mc_credential = None, mc_base_url = None, mc_tiers = []\<rparr>,
     pc_runtime = \<lparr>rt_max_steps = 10, rt_max_tool_calls = 20, rt_max_cost = None\<rparr>,
     pc_mcp_enabled = True, pc_mcp_servers = [(''docs'', True)], pc_local_memory = True, pc_shared_memory = True,
     pc_writeback = Wb_Auto, pc_max_depth = 3\<rparr>"

definition layer_example :: "string list \<Rightarrow> profile_layer" where
  "layer_example roots = \<lparr>ly_decisions = [(''edit'', Allow), (''shell'', Deny)], ly_roots = roots, ly_rules = [],
     ly_tool_policy = Tools_Allowlist, ly_tool_allow = [''file.r*''], ly_tool_deny = [], ly_mcp_servers = Some [],
     ly_skills = None, ly_max_turns = None, ly_max_steps = Some 50, ly_max_tool_calls = Some 5, ly_max_cost = Some 1,
     ly_subagents = Some [''helper'', ''other''], ly_max_depth = Some 9, ly_stores = Some [''local''],
     ly_scopes = None, ly_writeback = Wb_Propose\<rparr>"

definition spec_example :: model_spec where
  "spec_example = \<lparr>sp_provider = None, sp_id = None, sp_tier = None, sp_fallbacks = []\<rparr>"

definition profile_example :: "string list \<Rightarrow> string list \<Rightarrow> effective_profile" where
  "profile_example configured asked =
     build_effective_profile profile_env_example (profile_config_example configured) [] (layer_example asked) spec_example"

lemma profile_example_values:
  "ef_tools (profile_example [] []) = [''file.read'']" "ef_mcp_servers (profile_example [] []) = []"
  "ef_subagents (profile_example [] []) = [''helper'']" "ef_max_depth (profile_example [] []) = 3"
  by code_simp+


text \<open>
  The containment roots are the field that does not narrow. A profile that asks for a root outside the
  configured ones is left with none, and no roots mean that paths are not confined: a write that the
  configuration refuses is a resource of the effective profile. Likewise a containment that a profile
  asks for is dropped when the configuration has no roots.
\<close>

lemma narrowed_roots_widen:
  "filesystem_resource id id ''/etc/passwd'' ''write''
     (perm_workspace_roots (pc_permissions (profile_config_example [''/work/app'']))) ''/work''
   = Inl (OutsideRoots ''/etc/passwd'')"
  "\<exists>res. filesystem_resource id id ''/etc/passwd'' ''write''
     (perm_workspace_roots (ef_permissions (profile_example [''/work/app''] [''/srv'']))) ''/work'' = Inr res"
  "perm_workspace_roots (ef_permissions (profile_example [] [''/srv''])) = []"
proof -
  have gone: "perm_workspace_roots (ef_permissions (profile_example [''/work/app''] [''/srv''])) = []"
    by code_simp
  show "\<exists>res. filesystem_resource id id ''/etc/passwd'' ''write''
     (perm_workspace_roots (ef_permissions (profile_example [''/work/app''] [''/srv'']))) ''/work'' = Inr res"
    by (simp add: gone filesystem_resource_def Let_def)
qed code_simp+

end
