(* ===== verification/Spec2Isabelle.thy ===== *)
theory Spec2Isabelle
  imports Budgets Approval_Races Data_Protection Context Patching
    Audit_Jsonl Audit_Delivery Session_Mailbox Agraph_Findings Web_Access Mcp_Tasks Mcp_Transport
    Gateway_Authority Effective_Profile
begin

text \<open>
  This library models the governance core of Loro, a command-line agent written in Python
  (src/src/loro). Loro lets a language model call tools on behalf of a user; the modules modelled
  here decide what such a call may do, record that it happened, and bound what it may consume.

  How the parts interact. A run of the agent resolves the acting identity (identity.py, oidc.py),
  names what a tool call touches as canonical resources (resources.py), asks the permission engine
  (permissions.py) and, where a rule says ask, the approval manager (approvals.py), whose records
  live in memory or in a JSON file shared by processes. Content that enters or leaves is scanned,
  labelled and redacted (data_protection.py); the conversation is kept within the model's window
  (context.py), consumption within the limits of the run (budgets.py); files are edited through
  unified diffs (tools/patching.py). Every decision is an audit event, protected again and chained
  by hashes into a file or a collector database (audit/sinks.py, audit/collector.py). Sessions
  exchange messages through a mailbox directory (session_messages.py). Agentic-graph documents
  (agraph/) are the workflows of the program: a document is planned, checked against the managed
  policy, approved by its digest and executed node by node, with a record saved after every level
  so that an interrupted run can be resumed; its branches are decided with a small expression
  language. The agent loop (runtime.py) calls the model within the budget, reads tool directives from
  the prompt and the replies, and passes each call to the tool registry (tool_runtime.py), which asks
  hooks, the active profile, permissions and approvals before a tool runs. A profile
  (agent_profiles/effective.py) narrows the configuration of such a run. Remote messages become runs
  through the gateway (gateway/), browsers and API clients reach the program through the web server
  (webui/), which signs users in and checks their roles, and remote tools are reached under the
  transport policy and the task store of mcp/.

  Theories, in the order of their imports.
  \<^item> Loro_Prelude, Py_Text, Json_Value: the result monad and the dictionaries the components share,
    the Python string operations the sources use (strip, splitlines, split, fnmatch, UTF-8 length),
    JSON values with the canonical printing of json.dumps.
  \<^item> Budgets: budgets.py. UsageBudget is the record usage_budget; before_model, after_model and
    add_tool_calls return the error that the method raises beside the updated record.
  \<^item> Resources, Permissions: path normalisation and containment, the resource constructors, and
    PermissionEngine.evaluate over the ordered rules with the settings of config.py.
  \<^item> Oidc, Identity: token verification (discovery, key cache, algorithm, signature, claims) and the
    three identity providers composed in resolve_identity.
  \<^item> Approvals, Approval_Stores, Approval_Races: requests, fingerprints and records; the locale of
    the store interface and its interpretations by InMemoryApprovalStore and JsonApprovalStore; the
    interleavings of concurrent consumers, a step per store access.
  \<^item> Data_Protection: detectors, entropy gate, labels, classification, redaction, enforcement. The
    locale of a scanner states what finditer promises; the model's scanner interprets it.
  \<^item> Context: stored history, compaction and the rendering into alternating turns.
  \<^item> Patching: parser, hunk search, planning of a whole patch, and the writes.
  \<^item> Hash_Chain, Audit_Collector, Audit_Jsonl, Audit_Delivery: the locale of a hash chain, the SQLite
    collector that interprets it, the JSONL sink with its verifier, the bounded buffer, the event
    payload and the logger.
  \<^item> Session_Mailbox: session records and message files, each a stored_file of its size and value.
  \<^item> Agx_Values, Agx_Expr: values, tokenizer, operators and functions; the recursive-descent
    evaluator, which skips an operand by evaluating it in quiet mode.
  \<^item> Agraph_Plan: agraph/plan.py, the plan of a document and the scheduler ready_nodes.
    Agraph_Policy: agraph/policy.py and agraph/routing.py, the findings against the managed limits
    and the routing of a model node. Agraph_Criteria: agraph/criteria.py, acceptance criteria.
  \<^item> Agraph_Exec: the state of an execution (agraph/state.py, record.py) and execute.py from a single
    attempt up to the scopes. Agraph_Steps: the locale effect_order of what every step of an
    execution keeps, interpreted by the counter of executions, the log of started nodes and the
    saved records. Agraph_Run: GraphRuntime.run and resume, compensation, store and recovery.
    Agraph_Governance: what stands before the first node of a run or resume, and what the saved
    records show. Agraph_Findings: concrete runs that show where code and comments part.
  \<^item> Web_Rbac, Web_Access: webui/rbac.py and webui/auth.py with the security middleware and the
    routes of webui/server.py that change sessions or access rules. web_step is one request.
  \<^item> Mcp_Tasks: mcp/tasks.py, a store of task handles by path. Mcp_Transport: mcp/security.py;
    follow_urls is the request hook over a chain of redirects.
  \<^item> Gateway_Adapters: gateway/adapters.py, parse_inbound for every platform. Gateway:
    gateway/service.py; gateway_state is the queue, the replay ledger and its file, gateway_step a
    webhook or a finished task.
  \<^item> Tool_Calls: the dispatch, authorization and file tools of tool_runtime.py and the hooks of
    plugins.py. tool_state holds files, approvals and approval events. Runtime_Loop: the loop of
    AgentRuntime._run. Gateway_Authority: what a remote message can do in that loop.
  \<^item> Effective_Profile: agent_profiles/effective.py. The locale narrowing states what a step for a
    layer keeps; each field of the result interprets it.

  What the lemmas show. Budgets: limits hold after every step that does not raise, and exhaustion is
  sticky. Permissions and Resources: deny is final, and containment is by path components. Oidc and
  Identity: everything an accepted token has passed, and that an identity is verified only by one.
  Approvals: the contract of a store, that a one-time approval is used once in any sequence of calls
  and in any interleaving over the durable store, and that it binds the request it was granted for.
  Data_Protection: redaction hides every finding and nothing else. Context: the protected turns
  survive compaction. Patching: hunks land at the nearest match, reversing a hunk restores the file,
  a failed patch changes nothing and no patch leaves the root. Audit: a log that is only appended to
  verifies, a log that verifies with a known final hash is the one that was written, batches are
  idempotent, the buffer neither loses nor reorders beyond its capacity. Mailbox: a delivered message
  is checked, and its life cycle is monotone. Expressions: the evaluator equals a parser into syntax
  trees followed by a standard evaluation, and it always ends. Graphs: the plan is the declared order
  closed under dependencies, the scheduler starts only nodes whose predecessors have ended and never
  stalls, an accepted document is within the managed limits, a run starts a node only behind its
  approvals, ended nodes stay as they are across a resume, redacted outputs are never saved, and every
  run ends. Web: after any requests, a handler under /api/ is reached only with a verified identity
  whose roles grant the route, and a change by cookie only with the secret of its session. Gateway:
  only permitted webhooks start tasks, a replay starts none while the ledger remembers it, and places
  are balanced. Tool calls: a file change is permitted, contained and consented to from outside the
  model, and what the model says about its approval counts for nothing. Runtime_Loop: a run refines
  the accounting of Budgets. Mcp: a handle only grows, and redirects stay within the policy.
  Effective_Profile: a profile grants nothing, except through its roots, as a lemma shows.

  The execution of a graph is state passing with errors: an operation takes an exec_state and returns
  a result beside the new state, so that what happened before an exception stays. Nodes of a level,
  which the source gives to a thread pool, run in the order of submission, and their results are
  committed in that order as the source does. The event handler, which only shows progress, is left
  out.

  Parameters. Code that is not under src is an argument of the definitions: SHA-256, the JSON reader,
  base64 and signature verification, the regular-expression engine, the iteration order of a Python
  set, symbolic-link resolution, the printing of floats, and for a graph its runtime (the executor of
  a task), gate, approval manager, document loader, validator, schema checker and clock. For the web server they are the
  token verifier, the code exchange and the random identifiers; for the gateway HMAC, Ed25519, the
  vault, the runner and the success of each write; for MCP name resolution and address classes; for
  the agent loop the model client and the handlers of the tools that are not modelled; for a profile
  the tool catalog. What a property needs of them is a named hypothesis with a concrete instance in
  its witness. Floats are rationals and time is an integer.

  Bounds and fuel. The descent of the expression evaluator is given 12 * n + 12 units for n tokens:
  no chain of calls that consumes no token is longer than the twelve levels of the grammar, and
  evaluate_returns shows that this is enough. A graph run is given the number of node executions it may still make, which
  the source counts too, and each scope loop as many rounds as it has nodes; graph_returns shows that
  the fuel is never what ends a run. Every other loop is structural or has a measure.

  Not modelled: the command line and the terminal user interface, the views of the web server, model
  providers and other HTTP clients, MCP sessions, the handlers of the shell, git, test, web, memory
  and artifact tools, discovery of plugins, skills and profiles, telemetry exporters, and storage back
  ends outside the standard library. They are glue around the parts above. Events that only show
  progress or measure time are left out throughout.
\<close>

end
